(* ===== verification/Float64.thy ===== *)
theory Float64
  imports Complex_Main
begin

text \<open>
  Go's \<open>float64\<close>: IEEE 754 binary64 with round to nearest, ties to even.  A finite value is
  the rational it denotes, so comparison and copying are exact and every arithmetic operation is
  the exact rational operation followed by one rounding.  The two zeros are one value: the program
  never divides by a zero it computed, and never inspects a sign bit.  The functions of package
  \<open>math\<close> whose results are left to the implementation (\<open>Log\<close>, \<open>Exp\<close>, \<open>Sqrt\<close>,
  \<open>Lgamma\<close>) are arguments of the definitions that call them.
\<close>

datatype f64 = NaN | Inf bool | Fin rat

section \<open>Rounding\<close>

fun bitlen :: "nat \<Rightarrow> nat" where
  "bitlen n = (if n = 0 then 0 else Suc (bitlen (n div 2)))"

declare bitlen.simps [simp del]

text \<open>The exponent of the binade of a non-zero value: \<open>2 powi e \<le> \<bar>q\<bar> < 2 powi (e + 1)\<close>.\<close>

definition expo :: "rat \<Rightarrow> int" where
  "expo q =
     (let nd = quotient_of \<bar>q\<bar>;
          e = int (bitlen (nat (fst nd))) - int (bitlen (nat (snd nd)))
      in if 2 powi e \<le> \<bar>q\<bar> then e else e - 1)"

definition half_even :: "rat \<Rightarrow> int" where
  "half_even x =
     (let f = \<lfloor>x\<rfloor>; r = x - of_int f
      in if r < 1 / 2 then f else if r > 1 / 2 then f + 1 else if even f then f else f + 1)"

definition quantum :: "rat \<Rightarrow> rat" where
  "quantum q = 2 powi (max (expo q - 52) (- 1074))"

definition round_fin :: "rat \<Rightarrow> rat" where
  "round_fin q = (if q = 0 then 0 else of_int (half_even (q / quantum q)) * quantum q)"

definition fround :: "rat \<Rightarrow> f64" where
  "fround q = (let r = round_fin q in if \<bar>r\<bar> \<ge> 2 ^ 1024 then Inf (q < 0) else Fin r)"

section \<open>Comparison\<close>

text \<open>Every comparison with a NaN is false, as in the language.  \<open>Inf True\<close> is minus infinity.\<close>

instantiation f64 :: ord
begin

fun less_f64 :: "f64 \<Rightarrow> f64 \<Rightarrow> bool" where
  "less_f64 (Fin a) (Fin b) = (a < b)"
| "less_f64 (Inf n) (Fin b) = n"
| "less_f64 (Fin a) (Inf n) = (\<not> n)"
| "less_f64 (Inf n) (Inf m) = (n \<and> \<not> m)"
| "less_f64 _ _ = False"

definition less_eq_f64 :: "f64 \<Rightarrow> f64 \<Rightarrow> bool" where
  "less_eq_f64 a b = (a < b \<or> (a = b \<and> a \<noteq> NaN))"

instance ..

end

text \<open>Go's \<open>==\<close>: a NaN equals nothing, itself included.\<close>

definition feq :: "f64 \<Rightarrow> f64 \<Rightarrow> bool" where
  "feq a b = (a = b \<and> a \<noteq> NaN)"

definition is_NaN :: "f64 \<Rightarrow> bool" where
  "is_NaN a = (\<not> feq a a)"

definition finite64 :: "f64 \<Rightarrow> bool" where
  "finite64 a = (case a of Fin _ \<Rightarrow> True | _ \<Rightarrow> False)"

lemma less_eq_f64_simps [simp]:
  "Fin a \<le> Fin b \<longleftrightarrow> a \<le> b"
  "Inf n \<le> Fin b \<longleftrightarrow> n"
  "Fin a \<le> Inf n \<longleftrightarrow> \<not> n"
  "Inf n \<le> Inf m \<longleftrightarrow> n \<or> \<not> m"
  "\<not> NaN \<le> x" "\<not> x \<le> NaN"
  by (cases x; auto simp: less_eq_f64_def)+

lemma less_f64_NaN [simp]: "\<not> NaN < x" "\<not> x < NaN"
  by (cases x; simp)+

lemma f64_less_irrefl [simp]: "\<not> (x :: f64) < x"
  by (cases x) auto

lemma f64_less_le_trans: "(x :: f64) < y \<Longrightarrow> y \<le> z \<Longrightarrow> x < z"
  by (cases x; cases y; cases z) auto

lemma f64_le_less_trans: "(x :: f64) \<le> y \<Longrightarrow> y < z \<Longrightarrow> x < z"
  by (cases x; cases y; cases z) auto

lemma f64_less_trans: "(x :: f64) < y \<Longrightarrow> y < z \<Longrightarrow> x < z"
  by (cases x; cases y; cases z) auto

lemma f64_less_asym: "(x :: f64) < y \<Longrightarrow> \<not> y < x"
  by (cases x; cases y) auto

section \<open>Arithmetic\<close>

instantiation f64 :: "{zero, one, plus, minus, uminus, times, inverse}"
begin

definition zero_f64 :: f64 where "zero_f64 = Fin 0"
definition one_f64 :: f64 where "one_f64 = Fin 1"

fun uminus_f64 :: "f64 \<Rightarrow> f64" where
  "uminus_f64 NaN = NaN"
| "uminus_f64 (Inf n) = Inf (\<not> n)"
| "uminus_f64 (Fin a) = Fin (- a)"

fun plus_f64 :: "f64 \<Rightarrow> f64 \<Rightarrow> f64" where
  "plus_f64 (Fin a) (Fin b) = fround (a + b)"
| "plus_f64 (Inf n) (Fin b) = Inf n"
| "plus_f64 (Fin a) (Inf n) = Inf n"
| "plus_f64 (Inf n) (Inf m) = (if n = m then Inf n else NaN)"
| "plus_f64 _ _ = NaN"

definition minus_f64 :: "f64 \<Rightarrow> f64 \<Rightarrow> f64" where
  "minus_f64 a b = a + (- b)"

fun times_f64 :: "f64 \<Rightarrow> f64 \<Rightarrow> f64" where
  "times_f64 (Fin a) (Fin b) = fround (a * b)"
| "times_f64 (Inf n) (Fin b) = (if b = 0 then NaN else Inf (n \<noteq> (b < 0)))"
| "times_f64 (Fin a) (Inf n) = (if a = 0 then NaN else Inf (n \<noteq> (a < 0)))"
| "times_f64 (Inf n) (Inf m) = Inf (n \<noteq> m)"
| "times_f64 _ _ = NaN"

fun divide_f64 :: "f64 \<Rightarrow> f64 \<Rightarrow> f64" where
  "divide_f64 (Fin a) (Fin b) =
     (if b = 0 then if a = 0 then NaN else Inf (a < 0) else fround (a / b))"
| "divide_f64 (Inf n) (Fin b) = Inf (n \<noteq> (b < 0))"
| "divide_f64 (Fin a) (Inf n) = Fin 0"
| "divide_f64 _ _ = NaN"

definition inverse_f64 :: "f64 \<Rightarrow> f64" where
  "inverse_f64 a = divide (Fin 1) a"

instance ..

end

text \<open>
  \<open>float64(n)\<close> of an integer, and \<open>int(x)\<close> of a float: truncation towards zero; the value a
  conversion out of range leaves to the implementation is amd64's.
\<close>

definition of_int64 :: "int \<Rightarrow> f64" where
  "of_int64 n = fround (of_int n)"

fun to_int64 :: "f64 \<Rightarrow> int" where
  "to_int64 (Fin q) =
     (let t = (if q < 0 then \<lceil>q\<rceil> else \<lfloor>q\<rfloor>)
      in if - (2 ^ 63) \<le> t \<and> t < 2 ^ 63 then t else - (2 ^ 63))"
| "to_int64 _ = - (2 ^ 63)"

section \<open>Rounding is monotone and exact on small integers\<close>

lemma bitlen_upper: "n < 2 ^ bitlen n"
proof (induction n rule: bitlen.induct)
  case (1 n)
  then show ?case by (cases "n = 0") (auto simp: bitlen.simps [of n])
qed

lemma bitlen_lower: "0 < n \<Longrightarrow> 2 ^ bitlen n \<le> 2 * n"
proof (induction n rule: bitlen.induct)
  case (1 n)
  show ?case
  proof (cases "n div 2 = 0")
    case True
    then have "n = 1" using 1 by simp
    then show ?thesis by (simp add: bitlen.simps)
  next
    case False
    then show ?thesis using 1 by (auto simp: bitlen.simps [of n])
  qed
qed

lemma powi_nat_diff: "(2 :: rat) powi (int a - int b) = 2 ^ a / 2 ^ b"
  by (simp add: power_int_diff)

lemma expo_bounds:
  assumes "q \<noteq> 0"
  shows "2 powi expo q \<le> \<bar>q\<bar>" and "\<bar>q\<bar> < 2 powi (expo q + 1)"
proof -
  obtain n d where nd: "quotient_of \<bar>q\<bar> = (n, d)" by (cases "quotient_of \<bar>q\<bar>")
  have d: "0 < d" and q: "\<bar>q\<bar> = of_int n / of_int d"
    using nd by (auto intro: quotient_of_denom_pos quotient_of_div)
  have n: "0 < n" using assms d q by (metis zero_less_abs_iff of_int_0_less_iff zero_less_divide_iff
        order_less_asym)
  define N D where "N = nat n" and "D = nat d"
  have ND: "0 < N" "0 < D" "\<bar>q\<bar> = of_nat N / of_nat D"
    using n d q by (simp_all add: N_def D_def)
  let ?e = "int (bitlen N) - int (bitlen D)"
  have e: "expo q = (if 2 powi ?e \<le> \<bar>q\<bar> then ?e else ?e - 1)"
    by (simp add: expo_def nd Let_def N_def D_def)
  have u: "(of_nat N :: rat) < 2 ^ bitlen N" "(2 :: rat) ^ bitlen N \<le> 2 * of_nat N"
    "(of_nat D :: rat) < 2 ^ bitlen D" "(2 :: rat) ^ bitlen D \<le> 2 * of_nat D"
  proof -
    have "of_nat N < (of_nat (2 ^ bitlen N) :: rat)" "(of_nat (2 ^ bitlen N) :: rat) \<le> of_nat (2 * N)"
      "of_nat D < (of_nat (2 ^ bitlen D) :: rat)" "(of_nat (2 ^ bitlen D) :: rat) \<le> of_nat (2 * D)"
      unfolding of_nat_less_iff of_nat_le_iff
      using bitlen_upper bitlen_lower ND(1,2) by blast+
    then show "(of_nat N :: rat) < 2 ^ bitlen N" "(2 :: rat) ^ bitlen N \<le> 2 * of_nat N"
      "(of_nat D :: rat) < 2 ^ bitlen D" "(2 :: rat) ^ bitlen D \<le> 2 * of_nat D" by simp_all
  qed
  have hi: "\<bar>q\<bar> < 2 powi (?e + 1)"
  proof -
    have "(of_nat N :: rat) * 2 ^ bitlen D < 2 ^ bitlen N * (2 * of_nat D)"
      using u ND by (intro mult_less_le_imp_less) auto
    then have "\<bar>q\<bar> < 2 * (2 ^ bitlen N / 2 ^ bitlen D)"
      unfolding ND(3) using ND(1,2) by (simp add: divide_simps mult_ac)
    then show ?thesis by (simp add: power_int_add powi_nat_diff mult.commute)
  qed
  have lo: "2 powi (?e - 1) \<le> \<bar>q\<bar>"
  proof -
    have "(2 :: rat) ^ bitlen N * of_nat D \<le> (2 * of_nat N) * 2 ^ bitlen D"
      using u ND by (intro mult_mono) auto
    then have "(2 ^ bitlen N / 2 ^ bitlen D) / 2 \<le> \<bar>q\<bar>"
      unfolding ND(3) using ND(1,2) by (simp add: divide_simps mult_ac)
    then show ?thesis by (simp add: power_int_diff)
  qed
  show "2 powi expo q \<le> \<bar>q\<bar>" using lo by (simp add: e)
  show "\<bar>q\<bar> < 2 powi (expo q + 1)" using hi by (auto simp: e)
qed

lemma half_even_bounds: "\<lfloor>x\<rfloor> \<le> half_even x" "half_even x \<le> \<lfloor>x\<rfloor> + 1"
  by (simp_all add: half_even_def Let_def)

lemma half_even_of_int [simp]: "half_even (of_int k) = k"
  by (simp add: half_even_def)

lemma half_even_mono: "x \<le> y \<Longrightarrow> half_even x \<le> half_even y"
proof (cases "\<lfloor>x\<rfloor> = \<lfloor>y\<rfloor>")
  case True
  assume "x \<le> y"
  then show ?thesis using True by (simp add: half_even_def Let_def)
next
  case False
  assume "x \<le> y"
  then have "\<lfloor>x\<rfloor> + 1 \<le> \<lfloor>y\<rfloor>" using False floor_mono [of x y] by simp
  then show ?thesis using half_even_bounds [of x] half_even_bounds [of y] by linarith
qed

lemma half_even_minus: "half_even (- x) = - half_even x"
proof (cases "x = of_int \<lfloor>x\<rfloor>")
  case True
  then show ?thesis by (metis half_even_of_int of_int_minus)
next
  case False
  have lt: "of_int \<lfloor>x\<rfloor> < x" "x < of_int \<lfloor>x\<rfloor> + 1"
    using False of_int_floor_le [of x] floor_correct [of x] by linarith+
  have "\<lfloor>- x\<rfloor> = - \<lfloor>x\<rfloor> - 1" using lt by (intro floor_unique) auto
  then show ?thesis by (auto simp: half_even_def Let_def)
qed

lemma expo_minus [simp]: "expo (- q) = expo q"
  by (simp add: expo_def)

lemma quantum_pos [simp]: "0 < quantum q"
  by (simp add: quantum_def)

lemma round_fin_minus: "round_fin (- q) = - round_fin q"
  by (simp add: round_fin_def quantum_def half_even_minus)

lemma round_fin_le_powi:
  assumes "q \<noteq> 0" and "q \<le> 2 powi k" and "expo q < k" and "- 1074 \<le> k"
  shows "round_fin q \<le> 2 powi k"
proof -
  define m where "m = max (expo q - 52) (- 1074)"
  have km: "m \<le> k" using assms by (simp add: m_def)
  have int: "2 powi k / quantum q = of_int (2 ^ nat (k - m))"
  proof -
    have "(2 :: rat) powi k / 2 powi m = 2 powi (k - m)" by (simp add: power_int_diff)
    also have "\<dots> = 2 ^ nat (k - m)" using km by (simp add: power_int_def)
    finally show ?thesis by (simp add: quantum_def m_def)
  qed
  have "q / quantum q \<le> of_int (2 ^ nat (k - m))"
    unfolding int [symmetric] using assms(2) by (simp add: divide_right_mono order_less_imp_le)
  then have "half_even (q / quantum q) \<le> 2 ^ nat (k - m)" by (metis half_even_mono half_even_of_int)
  then have "of_int (half_even (q / quantum q)) \<le> 2 powi k / quantum q"
    unfolding int by (simp only: of_int_le_iff)
  then show ?thesis using assms(1) by (simp add: round_fin_def le_divide_eq)
qed

lemma powi_le_round_fin:
  assumes "2 powi expo q \<le> q" and "- 1074 \<le> expo q - 52"
  shows "2 powi expo q \<le> round_fin q"
proof -
  have int: "2 powi expo q / quantum q = of_int (2 ^ 52)"
    using assms(2) by (simp add: quantum_def power_int_diff [symmetric])
  have "of_int (2 ^ 52) \<le> q / quantum q"
    unfolding int [symmetric] using assms(1) by (simp add: divide_right_mono order_less_imp_le)
  then have "2 ^ 52 \<le> half_even (q / quantum q)" by (metis half_even_mono half_even_of_int)
  then have "2 powi expo q / quantum q \<le> of_int (half_even (q / quantum q))"
    unfolding int by (simp only: of_int_le_iff)
  moreover have "q \<noteq> 0" using assms(1) by (metis not_le zero_less_power_int zero_less_numeral)
  ultimately show ?thesis by (simp add: round_fin_def divide_le_eq)
qed

lemma expo_mono: "0 < a \<Longrightarrow> a \<le> b \<Longrightarrow> expo a \<le> expo b"
proof (rule ccontr)
  assume ab: "0 < a" "a \<le> b" and "\<not> expo a \<le> expo b"
  then have "(2 :: rat) powi (expo b + 1) \<le> 2 powi expo a" by (intro power_int_increasing) auto
  then show False using ab expo_bounds [of a] expo_bounds [of b] by linarith
qed

lemma round_fin_mono_pos:
  assumes "0 < a" and "a \<le> b"
  shows "round_fin a \<le> round_fin b"
proof (cases "quantum a = quantum b")
  case True
  have "a / quantum a \<le> b / quantum a" using assms(2) by (simp add: divide_right_mono order_less_imp_le)
  then have "half_even (a / quantum a) \<le> half_even (b / quantum a)" by (rule half_even_mono)
  then show ?thesis using True assms
    by (simp add: round_fin_def mult_right_mono order_less_imp_le)
next
  case False
  have e: "expo a \<le> expo b" using assms by (rule expo_mono)
  have "expo a \<noteq> expo b" using False by (auto simp: quantum_def)
  moreover have "- 1074 \<le> expo b - 52"
    using False e by (intro leI notI) (auto simp: quantum_def max_def split: if_splits)
  ultimately have lt: "expo a < expo b" "- 1074 \<le> expo b - 52" using e by auto
  have "a < 2 powi (expo a + 1)" using expo_bounds(2) [of a] assms(1) by simp
  also have "(2 :: rat) powi (expo a + 1) \<le> 2 powi expo b" using lt by (intro power_int_increasing) auto
  finally have "round_fin a \<le> 2 powi expo b"
    using assms(1) lt by (intro round_fin_le_powi) auto
  also have "\<dots> \<le> round_fin b"
    using expo_bounds(1) [of b] assms lt by (intro powi_le_round_fin) auto
  finally show ?thesis .
qed

lemma round_fin_0 [simp]: "round_fin 0 = 0"
  by (simp add: round_fin_def)

lemma round_fin_nonneg: "0 \<le> q \<Longrightarrow> 0 \<le> round_fin q"
proof -
  assume "0 \<le> q"
  then have "0 \<le> \<lfloor>q / quantum q\<rfloor>" by (simp add: order_less_imp_le)
  then have "0 \<le> half_even (q / quantum q)" using half_even_bounds(1) by (rule order_trans)
  then show ?thesis by (simp add: round_fin_def order_less_imp_le)
qed

lemma round_fin_mono: "a \<le> b \<Longrightarrow> round_fin a \<le> round_fin b"
proof -
  assume ab: "a \<le> b"
  consider "0 < a" | "a \<le> 0" "0 \<le> b" | "b < 0" by linarith
  then show ?thesis
  proof cases
    case 1
    then show ?thesis using ab by (rule round_fin_mono_pos)
  next
    case 2
    then show ?thesis using round_fin_nonneg [of b] round_fin_nonneg [of "- a"]
      by (simp add: round_fin_minus)
  next
    case 3
    then have "round_fin (- b) \<le> round_fin (- a)" using ab by (intro round_fin_mono_pos) auto
    then show ?thesis by (simp add: round_fin_minus)
  qed
qed

lemma fround_mono: "a \<le> b \<Longrightarrow> fround a \<le> fround b"
proof -
  assume ab: "a \<le> b"
  define M :: rat where "M = 2 ^ 1024"
  have fr: "fround q = (if M \<le> \<bar>round_fin q\<bar> then Inf (q < 0) else Fin (round_fin q))" for q
    by (simp only: fround_def Let_def M_def)
  have M: "0 < M" by (simp add: M_def)
  have m: "round_fin a \<le> round_fin b" using ab by (rule round_fin_mono)
  have a: "0 \<le> a \<Longrightarrow> 0 \<le> round_fin a" "a < 0 \<Longrightarrow> round_fin a \<le> 0"
    using round_fin_nonneg [of a] round_fin_nonneg [of "- a"] by (auto simp: round_fin_minus)
  have b: "0 \<le> b \<Longrightarrow> 0 \<le> round_fin b" "b < 0 \<Longrightarrow> round_fin b \<le> 0"
    using round_fin_nonneg [of b] round_fin_nonneg [of "- b"] by (auto simp: round_fin_minus)
  show ?thesis
    using ab m M a b by (cases "a < 0"; cases "b < 0") (auto simp: fr abs_if split: if_splits)
qed

lemma round_fin_of_int: "\<bar>n\<bar> < 2 ^ 53 \<Longrightarrow> round_fin (of_int n) = of_int n"
proof (cases "n = 0")
  case False
  assume n: "\<bar>n\<bar> < 2 ^ 53"
  have "expo (of_int n) \<le> 52"
  proof (rule ccontr)
    assume "\<not> expo (of_int n) \<le> 52"
    then have "(2 :: rat) powi 53 \<le> 2 powi expo (of_int n)" by (intro power_int_increasing) auto
    also have "\<dots> \<le> \<bar>of_int n\<bar>" using False by (intro expo_bounds) auto
    finally have "(of_int (2 ^ 53) :: rat) \<le> of_int \<bar>n\<bar>" by simp
    then show False using n by (simp only: of_int_le_iff)
  qed
  then obtain k :: nat where "max (expo (of_int n) - 52) (- 1074) = - int k"
    by (metis add.inverse_inverse diff_le_0_iff_le max.bounded_iff neg_0_le_iff_le nonneg_int_cases
        neg_le_0_iff_le zero_le_numeral)
  then have q: "quantum (of_int n) = 1 / 2 ^ k"
    by (simp add: quantum_def power_int_minus divide_inverse)
  have "half_even (of_int n * 2 ^ k) = n * 2 ^ k"
    using half_even_of_int [of "n * 2 ^ k"] by simp
  then show ?thesis using False by (simp add: round_fin_def q)
qed simp

lemma of_int64_exact: "\<bar>n\<bar> < 2 ^ 53 \<Longrightarrow> of_int64 n = Fin (of_int n)"
proof -
  assume n: "\<bar>n\<bar> < 2 ^ 53"
  then have "\<bar>of_int n :: rat\<bar> < of_int (2 ^ 53)" by (simp only: of_int_abs [symmetric] of_int_less_iff)
  also have "of_int (2 ^ 53) \<le> (2 :: rat) ^ 1024" by simp
  finally show ?thesis by (simp add: of_int64_def fround_def round_fin_of_int [OF n] Let_def)
qed

lemma expo_eqI:
  assumes "2 powi e \<le> \<bar>q\<bar>" and "\<bar>q\<bar> < 2 powi (e + 1)"
  shows "expo q = e"
proof -
  have "(0 :: rat) < 2 powi e" by simp
  then have "0 < \<bar>q\<bar>" using assms(1) by (rule less_le_trans)
  then have q: "q \<noteq> 0" by simp
  have inc: "(2 :: rat) powi m \<le> 2 powi n" if "m \<le> n" for m n :: int
    using that by (intro power_int_increasing) auto
  show ?thesis
    using expo_bounds [OF q] assms inc [of "e + 1" "expo q"] inc [of "expo q + 1" e] by fastforce
qed

lemma fround_half: "fround (1 / 2) = Fin (1 / 2)"
proof -
  have "expo (1 / 2) = - 1" by (rule expo_eqI) (auto simp: power_int_minus)
  then have q: "quantum (1 / 2) = 1 / 2 ^ 53" by (simp add: quantum_def power_int_def power_one_over)
  have "(1 / 2) / quantum (1 / 2) = of_int (2 ^ 52)" by (simp add: q)
  then have h: "half_even ((1 / 2) / quantum (1 / 2)) = 2 ^ 52" by (simp only: half_even_of_int)
  have "round_fin (1 / 2) = of_int (half_even ((1 / 2) / quantum (1 / 2))) * quantum (1 / 2)"
    by (simp add: round_fin_def)
  also have "\<dots> = of_int (2 ^ 52) * (1 / 2 ^ 53)" by (simp only: h) (simp only: q)
  finally have "round_fin (1 / 2) = 1 / 2" by simp
  then show ?thesis by (simp add: fround_def)
qed

end
