(* ===== verification/Prelude.thy ===== *)
theory Prelude
  imports
    Float64
    "HOL-Library.List_Lexorder"
    "HOL-Library.Char_ord"
    "HOL-Library.AList"
begin

text \<open>
  What every component shares: the texts and errors the program formats, the result type, Go's
  string and map operations on byte strings and association lists, and the list lemmas about
  distinct, sorted key lists that the component proofs use.  \<open>go\_defs\<close> collects the small
  operators, so that \<open>simp add: go\_defs\<close> unfolds them in a component proof.
\<close>

named_theorems go_defs

section \<open>Texts and errors\<close>

text \<open>
  A text built by \<open>fmt.Sprintf\<close> or \<open>fmt.Errorf\<close> keeps its format string (its leading
  clause) and its arguments; the rendering itself is not modelled.  \<open>AErr\<close> is an argument
  wrapped with \<open>%w\<close>, which \<open>errors.Is\<close> sees through; \<open>AMsg\<close> is one printed with
  \<open>%v\<close>, which it does not.
\<close>

datatype msg =
    Text string
  | Sprintf string "arg list"
  | Concat msg msg
and arg =
    AStr string
  | AInt int
  | AFloat f64
  | AStrs "string list"
  | AMsg msg
  | AErr msg

abbreviation no_msg :: msg where "no_msg \<equiv> Text []"

fun errors_Is :: "msg \<Rightarrow> msg \<Rightarrow> bool"
  and errors_Is_args :: "arg list \<Rightarrow> msg \<Rightarrow> bool" where
  "errors_Is e t = (e = t \<or> (case e of Sprintf f as \<Rightarrow> errors_Is_args as t | _ \<Rightarrow> False))"
| "errors_Is_args [] t = False"
| "errors_Is_args (a # as) t =
     ((case a of AErr e \<Rightarrow> errors_Is e t | _ \<Rightarrow> False) \<or> errors_Is_args as t)"

text \<open>A Go function returning \<open>(T, error)\<close>: \<open>Inl\<close> the error, \<open>Inr\<close> the value.\<close>

type_synonym 'a result = "msg + 'a"

fun bindR :: "'e + 'a \<Rightarrow> ('a \<Rightarrow> 'e + 'b) \<Rightarrow> 'e + 'b" where
  "bindR (Inl e) f = Inl e"
| "bindR (Inr x) f = f x"

definition guardR :: "bool \<Rightarrow> 'e \<Rightarrow> 'e + unit" where
  "guardR b e = (if b then Inr () else Inl e)"

lemma bindR_Inr_iff: "bindR m f = Inr y \<longleftrightarrow> (\<exists>x. m = Inr x \<and> f x = Inr y)"
  by (cases m) auto

lemma bindR_Inl_iff: "bindR m f = Inl e \<longleftrightarrow> m = Inl e \<or> (\<exists>x. m = Inr x \<and> f x = Inl e)"
  by (cases m) auto

lemma guardR_Inr [simp]: "guardR b e = Inr u \<longleftrightarrow> b"
  by (simp add: guardR_def)

lemma bindR_split:
  "P (bindR m f) \<longleftrightarrow> (\<forall>e. m = Inl e \<longrightarrow> P (Inl e)) \<and> (\<forall>x. m = Inr x \<longrightarrow> P (f x))"
  by (cases m) auto

section \<open>Strings\<close>

text \<open>A Go string is its bytes.  Comparison is bytewise, as \<open>sort.Strings\<close> compares.\<close>

definition byte :: "char \<Rightarrow> nat" where
  "byte c = of_char c"

text \<open>
  \<open>strings.ToLower\<close> on the ASCII letters; other bytes are left as they are.  Go lowers the letters
  beyond ASCII too; U+0130 and U+212A are the only ones that become ASCII letters, so the comparisons
  of the code with ASCII words agree but for texts that hold one of these.
\<close>

definition lower_char :: "char \<Rightarrow> char" where
  "lower_char c = (if 65 \<le> byte c \<and> byte c \<le> 90 then char_of (byte c + 32) else c)"

definition ToLower :: "string \<Rightarrow> string" where
  "ToLower s = map lower_char s"

text \<open>The UTF-8 bytes of the ellipsis that marks an abbreviated digest.\<close>

definition ellipsis :: string where
  "ellipsis = [char_of (226::nat), char_of (128::nat), char_of (166::nat)]"

text \<open>Decimal digits, as \<open>strconv.Itoa\<close> and \<open>%d\<close> print them.\<close>

fun nat_string :: "nat \<Rightarrow> string" where
  "nat_string n =
     (if n < 10 then [char_of (48 + n)] else nat_string (n div 10) @ [char_of (48 + n mod 10)])"

declare nat_string.simps [simp del]

definition int_string :: "int \<Rightarrow> string" where
  "int_string i = (if i < 0 then CHR ''-'' # nat_string (nat (- i)) else nat_string (nat i))"

definition HasPrefix :: "string \<Rightarrow> string \<Rightarrow> bool" where
  "HasPrefix s p = (take (length p) s = p)"

text \<open>\<open>strings.Index\<close> for a one-byte separator, as the part before it and the part after.\<close>

fun cut_at :: "char \<Rightarrow> string \<Rightarrow> (string \<times> string) option" where
  "cut_at c [] = None"
| "cut_at c (x # xs) =
     (if x = c then Some ([], xs) else map_option (\<lambda>(a, b). (x # a, b)) (cut_at c xs))"

lemma cut_at_Some: "cut_at c s = Some (a, b) \<Longrightarrow> s = a @ c # b \<and> c \<notin> set a"
  by (induction s arbitrary: a) (auto split: if_splits)

lemma cut_at_None: "cut_at c s = None \<longleftrightarrow> c \<notin> set s"
  by (induction s) auto

lemma cut_at_append: "c \<notin> set a \<Longrightarrow> cut_at c (a @ c # b) = Some (a, b)"
  by (induction a) auto

section \<open>Maps as association lists\<close>

text \<open>
  A Go map is an association list with one entry per key.  The iteration order of a Go map is
  unspecified; the program sorts the keys or accumulates a sum over them wherever it ranges over
  one, and the models do the same.
\<close>

definition keys :: "('k \<times> 'v) list \<Rightarrow> 'k list" where
  [go_defs]: "keys m = map fst m"

definition lookup_or :: "'v \<Rightarrow> ('k \<times> 'v) list \<Rightarrow> 'k \<Rightarrow> 'v" where
  [go_defs]: "lookup_or d m k = (case map_of m k of None \<Rightarrow> d | Some v \<Rightarrow> v)"

definition has_key :: "('k \<times> 'v) list \<Rightarrow> 'k \<Rightarrow> bool" where
  [go_defs]: "has_key m k = (map_of m k \<noteq> None)"

text \<open>\<open>index\<close>, the map from a key to the last element that has it.\<close>

definition index_by :: "('a \<Rightarrow> 'k) \<Rightarrow> 'a list \<Rightarrow> ('k \<times> 'a) list" where
  "index_by f xs = fold (\<lambda>x m. AList.update (f x) x m) xs []"

text \<open>The distinct elements in order of first occurrence.\<close>

fun nub :: "'a list \<Rightarrow> 'a list" where
  "nub [] = []"
| "nub (x # xs) = x # filter (\<lambda>y. y \<noteq> x) (nub xs)"

lemma set_nub [simp]: "set (nub xs) = set xs"
  by (induction xs) auto

lemma distinct_nub [simp]: "distinct (nub xs)"
  by (induction xs) auto

lemma nub_distinct: "distinct xs \<Longrightarrow> nub xs = xs"
  by (induction xs) (auto intro: filter_True)

lemma distinct_keys_fold_update:
  "distinct (map fst m) \<Longrightarrow> distinct (map fst (fold (\<lambda>x m. AList.update (f x) (g x m) m) xs m))"
  by (induction xs arbitrary: m) (auto intro: distinct_update)

lemma keys_fold_update:
  "set (map fst (fold (\<lambda>x m. AList.update (f x) (g x m) m) xs m)) = set (map fst m) \<union> f ` set xs"
  by (induction xs arbitrary: m) (auto simp: dom_update simp flip: image_set)

lemma index_by_snoc: "index_by f (xs @ [x]) = AList.update (f x) x (index_by f xs)"
  by (simp add: index_by_def)

lemma distinct_index_by [simp]: "distinct (map fst (index_by f xs))"
  unfolding index_by_def by (rule distinct_keys_fold_update) simp

lemma keys_index_by [simp]: "set (keys (index_by f xs)) = f ` set xs"
  unfolding index_by_def keys_def using keys_fold_update [of f "\<lambda>x _. x" xs "[]"] by simp

lemma map_of_index_by_None [simp]: "map_of (index_by f xs) k = None \<longleftrightarrow> k \<notin> f ` set xs"
  using keys_index_by [of f xs] by (simp add: map_of_eq_None_iff keys_def)

lemma map_of_index_by_Some: "map_of (index_by f xs) k = Some x \<Longrightarrow> x \<in> set xs \<and> f x = k"
proof (induction xs rule: rev_induct)
  case Nil
  then show ?case by (simp add: index_by_def)
next
  case (snoc y ys)
  then show ?case by (auto simp: index_by_snoc update_conv' split: if_splits)
qed

lemma map_of_index_by_distinct:
  assumes "distinct (map f xs)" and "x \<in> set xs"
  shows "map_of (index_by f xs) (f x) = Some x"
proof -
  obtain y where y: "map_of (index_by f xs) (f x) = Some y"
    using assms(2) by (metis map_of_index_by_None imageI not_None_eq)
  then have "y \<in> set xs" "f y = f x" using map_of_index_by_Some by metis+
  then show ?thesis using assms y by (metis distinct_map inj_onD)
qed

lemma find_SomeD: "find P xs = Some x \<Longrightarrow> x \<in> set xs \<and> P x"
  by (induction xs) (auto split: if_splits)

section \<open>Sorted key lists\<close>

lemma sorted_distinct_unique:
  "sorted xs \<Longrightarrow> distinct xs \<Longrightarrow> sorted ys \<Longrightarrow> distinct ys \<Longrightarrow> set xs = set ys \<Longrightarrow> xs = ys"
  by (rule sorted_distinct_set_unique)

lemma sort_distinct_eq_iff:
  "distinct xs \<Longrightarrow> distinct ys \<Longrightarrow> sort xs = sort ys \<longleftrightarrow> set xs = set ys"
  by (metis distinct_sort set_sort sorted_sort sorted_distinct_set_unique)

lemma filter_partition_length:
  "length (filter P xs) + length (filter (\<lambda>x. \<not> P x) xs) = length xs"
  by (rule sum_length_filter_compl)

lemma sum_list_eq_0_nat: "(\<forall>x \<in> set xs. f x = (0::nat)) \<Longrightarrow> sum_list (map f xs) = 0"
  by simp

end
