(* ===== verification/Api.thy ===== *)
theory Api
  imports Prelude
begin

text \<open>
  The API objects of \<open>api/v1alpha1\<close>: the manifest that pins an agent
  (\<open>agentmanifest\_types.go\<close>) and the rollout that compares two of them
  (\<open>agentrollout\_types.go\<close>).  A pointer or \<open>omitempty\<close> field that distinguishes absent from
  zero is an \<open>option\<close>.  An instant is the nanoseconds since Go's zero time, so the zero instant
  is 0; a duration is nanoseconds.  The string-typed effects and policies stay strings, because the
  command line accepts manifests no API validation has seen; the closed vocabularies of the rollout
  are datatypes with one constructor for any other text.
\<close>

type_synonym time = int
type_synonym duration = int

definition second :: duration where
  [go_defs]: "second = 10 ^ 9"

definition minute :: duration where
  [go_defs]: "minute = 60 * second"

section \<open>The agent manifest\<close>

type_synonym ToolEffect = string

definition EffectRead :: ToolEffect where "EffectRead = ''read''"
definition EffectIdempotentWrite :: ToolEffect where "EffectIdempotentWrite = ''idempotent-write''"
definition EffectWrite :: ToolEffect where "EffectWrite = ''write''"

type_synonym ReplayPolicy = string

definition ReplaySnapshot :: ReplayPolicy where "ReplaySnapshot = ''snapshot''"
definition ReplayNoOp :: ReplayPolicy where "ReplayNoOp = ''no-op''"
definition ReplayLive :: ReplayPolicy where "ReplayLive = ''live''"

record CodeSpec =
  code_Image :: string

record ModelParams =
  mp_Temperature :: "f64 option"
  mp_TopP :: "f64 option"
  mp_TopK :: "int option"
  mp_MaxTokens :: "int option"
  mp_StopSequences :: "string list"

record ModelSpec =
  model_Provider :: string
  model_ID :: string
  model_Pin :: string
  model_Params :: ModelParams

record PromptRef =
  prompt_Name :: string
  prompt_Source :: string
  prompt_Digest :: string

record ToolRef =
  tool_Name :: string
  tool_Server :: string
  tool_ContractDigest :: string
  tool_Effect :: ToolEffect
  tool_ReplayPolicy :: ReplayPolicy

record RetrievalSpec =
  retrieval_IndexSnapshot :: string
  retrieval_EmbeddingModel :: string

record PolicySpec =
  policy_BundleDigest :: string

record JudgeCalibration =
  cal_Kappa :: "f64 option"
  cal_GoldSetDigest :: string
  cal_MeasuredAt :: "time option"

record JudgeSpec =
  judge_Name :: string
  judge_Model :: string
  judge_RubricDigest :: string
  judge_Calibration :: "JudgeCalibration option"

record AgentManifestSpec =
  Agent :: string
  BehaviorDigest :: string
  ContentDigest :: string
  Code :: CodeSpec
  Model :: ModelSpec
  Prompts :: "PromptRef list"
  Tools :: "ToolRef list"
  Retrieval :: "RetrievalSpec option"
  Policy :: "PolicySpec option"
  Judges :: "JudgeSpec list"

section \<open>The rollout specification\<close>

datatype StageMode = StageOfflineReplay | StageShadow | StageLive | StageModeOther string

text \<open>\<open>string(stage.Mode)\<close>, as messages print it.\<close>

fun StageMode_string :: "StageMode \<Rightarrow> string" where
  "StageMode_string StageOfflineReplay = ''offline-replay''"
| "StageMode_string StageShadow = ''shadow''"
| "StageMode_string StageLive = ''live''"
| "StageMode_string (StageModeOther s) = s"

datatype GateTest = GateThreshold | GatePairedBootstrap | GateSequential | GateTestOther string

datatype MetricDirection = HigherIsBetter | LowerIsBetter | DirectionOther string

record GateMetric =
  gm_Metric :: string
  gm_Test :: GateTest
  gm_Margin :: "f64 option"
  gm_Threshold :: "f64 option"
  gm_Alpha :: "f64 option"
  gm_Direction :: MetricDirection

record Gate =
  gate_Primary :: GateMetric
  gate_Guardrails :: "GateMetric list"
  gate_KappaFloor :: "f64 option"

record CorpusSelector =
  cs_Ref :: string
  cs_Limit :: int
  cs_Sessions :: "string list"

record ExecScorerSpec =
  exec_Command :: string
  exec_Args :: "string list"

record HTTPScorerSpec =
  http_Endpoint :: string

record ScorerSpec =
  scorer_Exec :: "ExecScorerSpec option"
  scorer_HTTP :: "HTTPScorerSpec option"
  scorer_TimeoutSeconds :: int

record TrafficSpec =
  ts_Router :: string
  ts_RouteRef :: string
  ts_IncumbentBackend :: string
  ts_CandidateBackend :: string

record Stage =
  stage_Name :: string
  stage_Mode :: StageMode
  stage_Corpus :: CorpusSelector
  stage_Scorer :: ScorerSpec
  stage_Gate :: Gate
  stage_Traffic :: "TrafficSpec option"
  stage_Weight :: int
  stage_MirrorPercent :: int
  stage_MinObservationWindow :: "duration option"
  stage_MaxDuration :: "duration option"

record AnalyzerSpec =
  as_Endpoint :: string
  as_TimeoutSeconds :: int

datatype RollbackTrigger =
    TriggerGateFail
  | TriggerGuardrailViolation
  | TriggerBudgetBreach
  | TriggerWriteDivergence
  | TriggerAnalyzerUnavailable
  | TriggerNone

record RollbackSpec =
  rb_Auto :: bool
  rb_Triggers :: "RollbackTrigger list"
  rb_RetainIncumbentFor :: "duration option"

definition Fires :: "RollbackSpec \<Rightarrow> RollbackTrigger \<Rightarrow> bool" where
  "Fires r trigger =
     (if \<not> rb_Auto r then False
      else if rb_Triggers r = [] then True
      else list_ex (\<lambda>t. t = trigger) (rb_Triggers r))"

record AgentRolloutSpec =
  rs_IncumbentRef :: string
  rs_CandidateRef :: string
  rs_Stages :: "Stage list"
  rs_Analyzer :: AnalyzerSpec
  rs_Rollback :: RollbackSpec

section \<open>The rollout status\<close>

text \<open>\<open>PhaseNone\<close> is the empty phase of an object no controller has seen.\<close>

datatype RolloutPhase =
    PhaseNone | PhasePending | PhaseRunning | PhasePromoted | PhaseWavedOff | PhaseHeld | PhaseFailed

record WriteActivityStatus =
  wa_IncumbentAttempts :: msg
  wa_CandidateAttempts :: msg
  wa_NewClasses :: "string list"
  wa_DroppedClasses :: "string list"
  wa_IncumbentSessions :: int
  wa_CandidateSessions :: int

record StageStatus =
  ss_Name :: string
  ss_Phase :: RolloutPhase
  ss_StartedAt :: "time option"
  ss_FinishedAt :: "time option"
  ss_Sessions :: int
  ss_Scored :: int
  ss_Excluded :: int
  ss_Verdict :: string
  ss_Reason :: msg
  ss_Analyzer :: string
  ss_Weight :: int
  ss_WriteActivity :: "WriteActivityStatus option"
  ss_RolledBack :: bool
  ss_Trigger :: RollbackTrigger

text \<open>The zero value with a name, which a composite literal that sets few fields starts from.\<close>

definition new_StageStatus :: "string \<Rightarrow> StageStatus" where
  "new_StageStatus n =
     \<lparr> ss_Name = n, ss_Phase = PhaseNone, ss_StartedAt = None, ss_FinishedAt = None,
       ss_Sessions = 0, ss_Scored = 0, ss_Excluded = 0, ss_Verdict = [], ss_Reason = no_msg,
       ss_Analyzer = [], ss_Weight = 0, ss_WriteActivity = None, ss_RolledBack = False,
       ss_Trigger = TriggerNone \<rparr>"

record AgentRolloutStatus =
  st_Phase :: RolloutPhase
  st_Reason :: msg
  st_Stages :: "StageStatus list"
  st_ObservedGeneration :: int

text \<open>The object metadata the controller reads is its namespace, name and generation.\<close>

record AgentRollout =
  ro_Namespace :: string
  ro_Name :: string
  ro_Generation :: int
  ro_Spec :: AgentRolloutSpec
  ro_Status :: AgentRolloutStatus

lemma new_StageStatus_simps [simp]:
  "ss_Name (new_StageStatus n) = n" "ss_Phase (new_StageStatus n) = PhaseNone"
  "ss_StartedAt (new_StageStatus n) = None"
  by (simp_all add: new_StageStatus_def)

lemma Fires_iff: "Fires r t \<longleftrightarrow> rb_Auto r \<and> (rb_Triggers r = [] \<or> t \<in> set (rb_Triggers r))"
  by (auto simp: Fires_def list_ex_iff)

end
