(* ===== verification/Judges.thy ===== *)
theory Judges
  imports Api
begin

text \<open>
  \<open>internal/rollout/judges.go\<close>: the gate on the gate, which refuses to decide on scores from a
  judge whose agreement with the gold set is missing, too low, or describes another judge.
\<close>

record JudgeCheck =
  jc_Pass :: bool
  jc_Reason :: msg

definition DefaultKappaFloor :: f64 where
  "DefaultKappaFloor = fround (3 / 5)"

definition remeasured :: "JudgeSpec \<Rightarrow> JudgeSpec \<Rightarrow> bool" where
  "remeasured old new =
     (case judge_Calibration new of
        None \<Rightarrow> False
      | Some n \<Rightarrow>
          (case cal_MeasuredAt n of
             None \<Rightarrow> False
           | Some newer \<Rightarrow>
               (case judge_Calibration old of
                  None \<Rightarrow> True
                | Some c \<Rightarrow> (case cal_MeasuredAt c of None \<Rightarrow> True | Some older \<Rightarrow> older < newer))))"

definition describeJudge :: "JudgeSpec \<Rightarrow> string" where
  "describeJudge j =
     (let rubric = judge_RubricDigest j;
          rubric = (if length rubric > 7 + 8 then take 8 (drop 7 rubric) @ ellipsis else rubric)
      in judge_Model j @ ''/'' @ rubric)"

text \<open>One turn of the loop: why the named judge is refused, if it is.\<close>

definition judge_problem :: "f64 \<Rightarrow> (string \<times> JudgeSpec) list \<Rightarrow> string \<Rightarrow> JudgeSpec \<Rightarrow> msg option" where
  "judge_problem kfloor prior name j =
     (case (case judge_Calibration j of None \<Rightarrow> None | Some c \<Rightarrow> cal_Kappa c) of
        None \<Rightarrow> Some (Sprintf ''judge %q has no recorded agreement with a gold set'' [AStr name])
      | Some kappa \<Rightarrow>
          if kappa < kfloor
          then Some (Sprintf ''judge %q agrees with the gold set below the floor''
                       [AStr name, AFloat kappa, AFloat kfloor])
          else (case map_of prior name of
            None \<Rightarrow> None
          | Some old \<Rightarrow>
              if judge_Model old = judge_Model j \<and> judge_RubricDigest old = judge_RubricDigest j then None
              else if remeasured old j then None
              else Some (Sprintf ''judge %q changed and its calibration was not re-measured''
                           [AStr name, AStr (describeJudge old), AStr (describeJudge j), AFloat kappa])))"

fun first_problem :: "('a \<Rightarrow> msg option) \<Rightarrow> 'a list \<Rightarrow> msg option" where
  "first_problem f [] = None"
| "first_problem f (x # xs) = (case f x of Some e \<Rightarrow> Some e | None \<Rightarrow> first_problem f xs)"

definition no_judge :: JudgeSpec where
  "no_judge = \<lparr> judge_Name = [], judge_Model = [], judge_RubricDigest = [], judge_Calibration = None \<rparr>"

definition effective_floor :: "f64 \<Rightarrow> f64" where
  "effective_floor kfloor = (if kfloor \<le> 0 then DefaultKappaFloor else kfloor)"

definition CheckJudges :: "AgentManifestSpec \<Rightarrow> AgentManifestSpec \<Rightarrow> f64 \<Rightarrow> JudgeCheck" where
  "CheckJudges incumbent candidate kfloor =
     (let kfloor = effective_floor kfloor
      in if length (Judges candidate) = 0
         then \<lparr> jc_Pass = True, jc_Reason = Text ''the manifest declares no judges'' \<rparr>
         else
           let prior = index_by judge_Name (Judges incumbent);
               names = sort (map judge_Name (Judges candidate));
               byName = index_by judge_Name (Judges candidate)
           in case first_problem (\<lambda>name. judge_problem kfloor prior name (lookup_or no_judge byName name)) names of
                Some e \<Rightarrow> \<lparr> jc_Pass = False, jc_Reason = e \<rparr>
              | None \<Rightarrow> \<lparr> jc_Pass = True,
                    jc_Reason = Sprintf ''%d judge(s) calibrated'' [AInt (int (length names)), AFloat kfloor] \<rparr>)"

lemma first_problem_None: "first_problem f xs = None \<longleftrightarrow> (\<forall>x \<in> set xs. f x = None)"
  by (induction xs) (auto split: option.splits)

lemma pass_case:
  "jc_Pass (case p of Some e \<Rightarrow> \<lparr> jc_Pass = False, jc_Reason = e \<rparr> | None \<Rightarrow> \<lparr> jc_Pass = True, jc_Reason = r \<rparr>)
   \<longleftrightarrow> p = None"
  by (cases p) simp_all

lemma judge_problem_None:
  "judge_problem fl prior name j = None \<longleftrightarrow>
     (\<exists>cal kappa. judge_Calibration j = Some cal \<and> cal_Kappa cal = Some kappa \<and> \<not> kappa < fl \<and>
        (\<forall>old. map_of prior name = Some old \<longrightarrow>
           judge_Model old \<noteq> judge_Model j \<or> judge_RubricDigest old \<noteq> judge_RubricDigest j \<longrightarrow>
           (\<exists>newer. cal_MeasuredAt cal = Some newer \<and>
              (\<forall>c older. judge_Calibration old = Some c \<longrightarrow> cal_MeasuredAt c = Some older \<longrightarrow> older < newer))))"
  by (auto simp: judge_problem_def remeasured_def split: option.splits if_splits)

section \<open>Properties\<close>

text \<open>
  A gate decides only on calibrated judges.  The check passes if and only if every judge the
  candidate declares (the last one, where a name is declared twice) has a recorded agreement that is
  not below the floor (0.6 unless one is set), and, where the incumbent has a judge of that name with another model or rubric,
  a calibration measured later than the incumbent's (or measured, where the incumbent's never was).
\<close>

theorem judges_pass_iff_calibrated:
  "jc_Pass (CheckJudges incumbent candidate kfloor) \<longleftrightarrow>
     (\<forall>name j. map_of (index_by judge_Name (Judges candidate)) name = Some j \<longrightarrow>
        (\<exists>cal kappa. judge_Calibration j = Some cal \<and> cal_Kappa cal = Some kappa \<and>
           \<not> kappa < effective_floor kfloor \<and>
           (\<forall>old. map_of (index_by judge_Name (Judges incumbent)) name = Some old \<longrightarrow>
              judge_Model old \<noteq> judge_Model j \<or> judge_RubricDigest old \<noteq> judge_RubricDigest j \<longrightarrow>
              (\<exists>newer. cal_MeasuredAt cal = Some newer \<and>
                 (\<forall>c older. judge_Calibration old = Some c \<longrightarrow> cal_MeasuredAt c = Some older \<longrightarrow> older < newer)))))"
proof (cases "Judges candidate = []")
  case True
  then show ?thesis by (simp add: CheckJudges_def index_by_def)
next
  case False
  let ?kfloor = "effective_floor kfloor"
  let ?prior = "index_by judge_Name (Judges incumbent)" and ?by = "index_by judge_Name (Judges candidate)"
  have dom: "name \<in> judge_Name ` set (Judges candidate) \<longleftrightarrow> (\<exists>j. map_of ?by name = Some j)" for name
    using map_of_index_by_None [of judge_Name "Judges candidate" name] by (metis not_None_eq)
  have "jc_Pass (CheckJudges incumbent candidate kfloor) \<longleftrightarrow>
      (\<forall>name \<in> judge_Name ` set (Judges candidate).
         judge_problem ?kfloor ?prior name (lookup_or no_judge ?by name) = None)"
    using False by (simp add: CheckJudges_def Let_def pass_case first_problem_None)
  then have "jc_Pass (CheckJudges incumbent candidate kfloor) \<longleftrightarrow>
      (\<forall>name j. map_of ?by name = Some j \<longrightarrow> judge_problem ?kfloor ?prior name j = None)"
    unfolding Ball_def dom by (auto simp: lookup_or_def simp del: map_of_index_by_None)
  then show ?thesis by (simp only: judge_problem_None)
qed

text \<open>Two manifests whose one judge changed its model; the second judge was measured again.\<close>

definition ex_judge :: "string \<Rightarrow> f64 \<Rightarrow> time \<Rightarrow> JudgeSpec" where
  "ex_judge model kappa t = \<lparr> judge_Name = ''j'', judge_Model = model, judge_RubricDigest = [],
     judge_Calibration = Some \<lparr> cal_Kappa = Some kappa, cal_GoldSetDigest = [], cal_MeasuredAt = Some t \<rparr> \<rparr>"

definition ex_judged :: "JudgeSpec list \<Rightarrow> AgentManifestSpec" where
  "ex_judged js = \<lparr> Agent = ''a'', BehaviorDigest = [], ContentDigest = [], Code = \<lparr> code_Image = [] \<rparr>,
     Model = \<lparr> model_Provider = [], model_ID = [], model_Pin = [],
       model_Params = \<lparr> mp_Temperature = None, mp_TopP = None, mp_TopK = None, mp_MaxTokens = None,
         mp_StopSequences = [] \<rparr> \<rparr>,
     Prompts = [], Tools = [], Retrieval = None, Policy = None, Judges = js \<rparr>"

theorem judges_pass_iff_calibrated_witness:
  "jc_Pass (CheckJudges (ex_judged [ex_judge ''m1'' 1 5]) (ex_judged [ex_judge ''m2'' 1 6]) 1) \<and>
   \<not> jc_Pass (CheckJudges (ex_judged [ex_judge ''m1'' 1 5]) (ex_judged [ex_judge ''m2'' 1 5]) 1)"
  by (simp add: judges_pass_iff_calibrated ex_judged_def ex_judge_def index_by_def effective_floor_def
      one_f64_def zero_f64_def)

end
