(* ===== verification/Json.thy ===== *)
theory Json
  imports Prelude
begin

text \<open>
  Decoded JSON, as \<open>encoding/json\<close> and the Kubernetes unstructured objects present it to the
  program: \<open>any\<close> with its dynamic type as the constructor.  An object is an association list
  with one entry per key.  A value that never was JSON may also be a \<open>[]string\<close> or a
  \<open>[]byte\<close>, which no decoded value is.
\<close>

datatype json =
    JNull
  | JBool bool
  | JInt int
  | JFloat f64
  | JStr string
  | JArr "json list"
  | JObj "(string \<times> json) list"
  | JStrs "string list"
  | JBytes string

text \<open>The type assertions with a comma-ok, and a map read that yields nil for a missing key.\<close>

fun as_obj :: "json \<Rightarrow> (string \<times> json) list option" where
  "as_obj (JObj m) = Some m"
| "as_obj _ = None"

fun as_arr :: "json \<Rightarrow> json list option" where
  "as_arr (JArr xs) = Some xs"
| "as_arr _ = None"

fun as_str :: "json \<Rightarrow> string option" where
  "as_str (JStr s) = Some s"
| "as_str _ = None"

fun as_int :: "json \<Rightarrow> int option" where
  "as_int (JInt i) = Some i"
| "as_int _ = None"

fun as_bool :: "json \<Rightarrow> bool option" where
  "as_bool (JBool b) = Some b"
| "as_bool _ = None"

definition jfield :: "string \<Rightarrow> (string \<times> json) list \<Rightarrow> json" where
  "jfield k m = lookup_or JNull m k"

lemma as_obj_Some [simp]: "as_obj j = Some m \<longleftrightarrow> j = JObj m" by (cases j) auto
lemma as_arr_Some [simp]: "as_arr j = Some xs \<longleftrightarrow> j = JArr xs" by (cases j) auto
lemma as_str_Some [simp]: "as_str j = Some s \<longleftrightarrow> j = JStr s" by (cases j) auto
lemma as_int_Some [simp]: "as_int j = Some i \<longleftrightarrow> j = JInt i" by (cases j) auto

lemma jfield_update [simp]:
  "jfield k (AList.update k' v m) = (if k = k' then v else jfield k m)"
  by (simp add: jfield_def lookup_or_def update_conv')

lemma jfield_delete [simp]:
  "jfield k (AList.delete k' m) = (if k = k' then JNull else jfield k m)"
  by (simp add: jfield_def lookup_or_def delete_conv')

lemma update_update_same: "AList.update k v (AList.update k v' m) = AList.update k v m"
  by (induction m) auto

lemma update_idem: "map_of m k = Some v \<Longrightarrow> AList.update k v m = m"
  by (induction m) auto

end
