(* ===== verification/Cassette.thy ===== *)
theory Cassette
  imports Json Api
begin

text \<open>
  \<open>internal/cassette\<close>: what a recorded session looks like (\<open>schema.go\<close>) and how it is read
  back (\<open>reader.go\<close>).  A scanner over a file is the lines it will produce and the error, if any,
  it will stop with; the decoding of one line by \<open>encoding/json\<close> is a parameter.
\<close>

record Header =
  hd_SchemaVersion :: string
  hd_SessionID :: string
  hd_TraceID :: string
  hd_Agent :: string
  hd_BehaviorDigest :: string
  hd_ContentDigest :: string
  hd_RecordedAt :: time
  hd_Recorder :: string
  hd_SourceSession :: string
  hd_Arm :: string

definition SchemaVersion :: string where
  "SchemaVersion = ''waveoff.ai/cassette/v1alpha1''"

datatype Kind = KindSession | KindModel | KindTool | KindDecision | KindOther string

fun Kind_string :: "Kind \<Rightarrow> string" where
  "Kind_string KindSession = ''session''"
| "Kind_string KindModel = ''model''"
| "Kind_string KindTool = ''tool''"
| "Kind_string KindDecision = ''decision''"
| "Kind_string (KindOther s) = s"

record Status =
  status_Code :: string
  status_Message :: string

record Span =
  span_TraceID :: string
  span_SpanID :: string
  span_ParentID :: string
  span_Name :: string
  span_Kind :: Kind
  span_StartTime :: time
  span_EndTime :: time
  span_Attributes :: "(string \<times> json) list"
  span_Status :: Status

definition AttrRequestHash :: string where "AttrRequestHash = ''waveoff.request.hash''"
definition AttrToolEffect :: string where "AttrToolEffect = ''waveoff.tool.effect''"
definition AttrToolSuppressed :: string where "AttrToolSuppressed = ''waveoff.tool.suppressed''"
definition AttrToolRefused :: string where "AttrToolRefused = ''waveoff.tool.refused''"
definition AttrToolArgsHash :: string where "AttrToolArgsHash = ''waveoff.tool.args_hash''"
definition AttrToolContractDigest :: string where
  "AttrToolContractDigest = ''waveoff.tool.contract_digest''"
definition AttrServerAddress :: string where "AttrServerAddress = ''server.address''"
definition AttrToolName :: string where "AttrToolName = ''mcp.tool.name''"
definition OpTool :: string where "OpTool = ''execute_tool''"
definition AttrStepIndex :: string where "AttrStepIndex = ''waveoff.step.index''"

definition span_String :: "Span \<Rightarrow> string \<Rightarrow> string" where
  "span_String s key = (case as_str (jfield key (span_Attributes s)) of Some v \<Rightarrow> v | None \<Rightarrow> [])"

definition span_bool :: "Span \<Rightarrow> string \<Rightarrow> bool" where
  "span_bool s key = (case as_bool (jfield key (span_Attributes s)) of Some b \<Rightarrow> b | None \<Rightarrow> False)"

text \<open>A number read back from JSON is a float; \<open>int(n)\<close> truncates it.\<close>

definition StepIndex :: "Span \<Rightarrow> int option" where
  "StepIndex s =
     (case map_of (span_Attributes s) AttrStepIndex of
        Some (JInt n) \<Rightarrow> Some n
      | Some (JFloat x) \<Rightarrow> Some (to_int64 x)
      | _ \<Rightarrow> None)"

definition RequestHash :: "Span \<Rightarrow> string" where
  "RequestHash s = span_String s AttrRequestHash"

definition BodyRef :: "Span \<Rightarrow> string \<Rightarrow> string option" where
  "BodyRef s refKey = (let d = span_String s refKey in if d = [] then None else Some d)"

section \<open>The reader\<close>

record codec =
  dec_header :: "string \<Rightarrow> Header result"
  dec_span :: "string \<Rightarrow> Span result"

record scanner =
  sc_lines :: "string list"
  sc_err :: "msg option"

definition ErrUnsupportedSchema :: msg where
  "ErrUnsupportedSchema = Text ''unsupported cassette schema''"

record Reader =
  rd_sc :: scanner
  rd_header :: Header

definition NewReader :: "codec \<Rightarrow> scanner \<Rightarrow> Reader result" where
  "NewReader J sc =
     (case sc_lines sc of
        [] \<Rightarrow> (case sc_err sc of
                 Some e \<Rightarrow> Inl (Sprintf ''cassette: read header: %w'' [AErr e])
               | None \<Rightarrow> Inl (Text ''cassette: empty''))
      | line # rest \<Rightarrow>
          (case dec_header J line of
             Inl e \<Rightarrow> Inl (Sprintf ''cassette: parse header: %w'' [AErr e])
           | Inr h \<Rightarrow>
               if hd_SchemaVersion h \<noteq> SchemaVersion
               then Inl (Sprintf ''%w: cassette is %q, this build understands %q''
                           [AErr ErrUnsupportedSchema, AStr (hd_SchemaVersion h), AStr SchemaVersion])
               else Inr \<lparr> rd_sc = sc\<lparr>sc_lines := rest\<rparr>, rd_header = h \<rparr>))"

datatype next_span = NextSpan Span scanner | NextError msg | NextEOF

fun next_from :: "codec \<Rightarrow> msg option \<Rightarrow> string list \<Rightarrow> next_span" where
  "next_from J e [] =
     (case e of Some e \<Rightarrow> NextError (Sprintf ''cassette: read: %w'' [AErr e]) | None \<Rightarrow> NextEOF)"
| "next_from J e (line # lines) =
     (if line = [] then next_from J e lines
      else (case dec_span J line of
              Inl e' \<Rightarrow> NextError (Sprintf ''cassette: parse span: %w'' [AErr e'])
            | Inr s \<Rightarrow> NextSpan s \<lparr> sc_lines = lines, sc_err = e \<rparr>))"

definition Next :: "codec \<Rightarrow> scanner \<Rightarrow> next_span" where
  "Next J sc = next_from J (sc_err sc) (sc_lines sc)"

lemma Next_shrinks: "Next J sc = NextSpan s sc' \<Longrightarrow> length (sc_lines sc') < length (sc_lines sc)"
proof -
  have "next_from J e lines = NextSpan s sc' \<Longrightarrow> length (sc_lines sc') < length lines" for e lines
    by (induction J e lines rule: next_from.induct) (auto split: if_splits sum.splits option.splits)
  then show "Next J sc = NextSpan s sc' \<Longrightarrow> length (sc_lines sc') < length (sc_lines sc)"
    by (simp add: Next_def)
qed

function All :: "codec \<Rightarrow> scanner \<Rightarrow> Span list result" where
  "All J sc =
     (case Next J sc of
        NextEOF \<Rightarrow> Inr []
      | NextError e \<Rightarrow> Inl e
      | NextSpan s sc' \<Rightarrow> bindR (All J sc') (\<lambda>ss. Inr (s # ss)))"
  by pat_completeness auto
termination
  by (relation "measure (\<lambda>(J, sc). length (sc_lines sc))") (auto dest: Next_shrinks)

text \<open>The spans up to the first unreadable line or the end, as a loop that breaks on either.\<close>

function spans_until_break :: "codec \<Rightarrow> scanner \<Rightarrow> Span list" where
  "spans_until_break J sc =
     (case Next J sc of NextSpan s sc' \<Rightarrow> s # spans_until_break J sc' | _ \<Rightarrow> [])"
  by pat_completeness auto
termination
  by (relation "measure (\<lambda>(J, sc). length (sc_lines sc))") (auto dest: Next_shrinks)

declare All.simps [simp del] spans_until_break.simps [simp del]

lemma All_spans: "All J sc = Inr ss \<Longrightarrow> spans_until_break J sc = ss"
proof (induction J sc arbitrary: ss rule: All.induct)
  case (1 J sc)
  show ?case
    using 1 by (subst spans_until_break.simps, subst (asm) (2) All.simps)
      (auto simp: bindR_Inr_iff split: next_span.splits)
qed

end
