(* ===== verification/Replay.thy ===== *)
theory Replay
  imports Cassette
begin

text \<open>
  The replay policy and report of \<open>internal/replay\<close>: what a replayer does with each request
  (\<open>mode.go\<close>), how a request is found in a cassette (\<open>index.go\<close>), how a replay is compared
  with its recording (\<open>divergence.go\<close>) and whether it may be scored.
\<close>

datatype ArmLabel = ArmIncumbent | ArmCandidate

fun ArmLabel_string :: "ArmLabel \<Rightarrow> string" where
  "ArmLabel_string ArmIncumbent = ''incumbent''"
| "ArmLabel_string ArmCandidate = ''candidate''"

definition OutputName :: "string \<Rightarrow> ArmLabel \<Rightarrow> string" where
  "OutputName sourceSession arm = sourceSession @ ''.'' @ ArmLabel_string arm"

section \<open>The policy\<close>

datatype Mode = ModeFail | ModeModelLiveToolsReplayed | ModeHybrid

fun Mode_string :: "Mode \<Rightarrow> string" where
  "Mode_string ModeFail = ''fail''"
| "Mode_string ModeModelLiveToolsReplayed = ''model-live-tools-replayed''"
| "Mode_string ModeHybrid = ''hybrid''"

definition Modes :: "Mode list" where
  "Modes = [ModeFail, ModeModelLiveToolsReplayed, ModeHybrid]"

definition ParseMode :: "string \<Rightarrow> Mode result" where
  "ParseMode s =
     (case find (\<lambda>m. Mode_string m = s) Modes of
        Some m \<Rightarrow> Inr m
      | None \<Rightarrow> Inl (Sprintf ''unknown replay mode %q: use one of %s''
                      [AStr s, AStrs (map Mode_string Modes)]))"

datatype Action = ActionServe | ActionForward | ActionNoOp | ActionRefuse

record Decision =
  dc_Action :: Action
  dc_Reason :: msg

datatype MatchKind = MatchExact | MatchHash | MatchTool | MatchNone

record Match =
  mt_Span :: "Span option"
  mt_Kind :: MatchKind
  mt_Step :: int

definition Found :: "Match \<Rightarrow> bool" where
  "Found m = (mt_Kind m \<noteq> MatchNone)"

text \<open>What the agent asked for.\<close>

record Asked =
  ask_Step :: int
  ask_Hash :: string
  ask_Kind :: Kind
  ask_Tool :: string
  ask_ArgsHash :: string

record Policy =
  po_Mode :: Mode
  po_Effects :: "(string \<times> ToolEffect) list"
  po_LiveTools :: "string list"

definition NewPolicy :: "Mode \<Rightarrow> AgentManifestSpec option \<Rightarrow> string list \<Rightarrow> Policy" where
  "NewPolicy mode spec liveTools =
     \<lparr> po_Mode = mode,
       po_Effects = (case spec of None \<Rightarrow> []
         | Some s \<Rightarrow> fold (\<lambda>t m. AList.update (tool_Name t) (tool_Effect t) m) (Tools s) []),
       po_LiveTools = liveTools \<rparr>"

definition decideModel :: "Policy \<Rightarrow> Match \<Rightarrow> Decision" where
  "decideModel p m =
     (case po_Mode p of
        ModeModelLiveToolsReplayed \<Rightarrow>
          \<lparr> dc_Action = ActionForward, dc_Reason = Text ''model runs live so the candidate can diverge'' \<rparr>
      | ModeHybrid \<Rightarrow>
          if Found m then \<lparr> dc_Action = ActionServe, dc_Reason = Text ''replayed from the cassette'' \<rparr>
          else \<lparr> dc_Action = ActionForward,
                 dc_Reason = Text ''not in the cassette; forwarded to the live model'' \<rparr>
      | ModeFail \<Rightarrow>
          if Found m then \<lparr> dc_Action = ActionServe, dc_Reason = Text ''replayed from the cassette'' \<rparr>
          else \<lparr> dc_Action = ActionRefuse,
                 dc_Reason = Text ''no recording for this request, and the mode forbids diverging'' \<rparr>)"

definition decideTool :: "Policy \<Rightarrow> Asked \<Rightarrow> Match \<Rightarrow> Decision" where
  "decideTool p req m =
     (let effect = lookup_or [] (po_Effects p) (ask_Tool req);
          classified = has_key (po_Effects p) (ask_Tool req)
      in if \<not> classified \<or> effect = []
         then \<lparr> dc_Action = ActionRefuse,
                dc_Reason = Sprintf ''tool %q has no asserted effect in the manifest'' [AStr (ask_Tool req)] \<rparr>
         else if po_Mode p = ModeHybrid \<and> ask_Tool req \<in> set (po_LiveTools p)
         then if effect = EffectRead
              then \<lparr> dc_Action = ActionForward,
                     dc_Reason = Text ''forked to the live server by --live-tool'' \<rparr>
              else \<lparr> dc_Action = ActionRefuse,
                     dc_Reason = Sprintf ''tool %q is effect=%s and cannot be forked live; only reads may be''
                       [AStr (ask_Tool req), AStr effect] \<rparr>
         else if effect \<noteq> EffectRead
         then \<lparr> dc_Action = ActionNoOp,
                dc_Reason = Sprintf ''effect=%s, so the call was refused and a success synthesised'' [AStr effect] \<rparr>
         else if Found m
         then \<lparr> dc_Action = ActionServe, dc_Reason = Text ''read served from the recording'' \<rparr>
         else if po_Mode p = ModeFail
         then \<lparr> dc_Action = ActionRefuse,
                dc_Reason = Text ''no recording for this read, and the mode forbids diverging'' \<rparr>
         else \<lparr> dc_Action = ActionRefuse,
                dc_Reason = Sprintf ''no recording for this call to %q'' [AStr (ask_Tool req)] \<rparr>)"

definition Decide :: "Policy \<Rightarrow> Asked \<Rightarrow> Match \<Rightarrow> Decision" where
  "Decide p req m = (if ask_Kind req = KindModel then decideModel p m else decideTool p req m)"

section \<open>The index\<close>

text \<open>A span's identity in the index is its id and step; \<open>ix\_consumed\<close> are the keys already served.\<close>

record Index =
  ix_header :: Header
  ix_spans :: "Span list"
  ix_byStep :: "(int \<times> Span) list"
  ix_byHash :: "(string \<times> Span list) list"
  ix_byTool :: "(string \<times> Span list) list"
  ix_consumed :: "(string \<times> int) list"

definition step_or_0 :: "Span \<Rightarrow> int" where
  "step_or_0 s = (case StepIndex s of Some n \<Rightarrow> n | None \<Rightarrow> 0)"

definition spanKey :: "Span \<Rightarrow> string \<times> int" where
  "spanKey s = (span_SpanID s, step_or_0 s)"

definition push :: "string \<Rightarrow> Span \<Rightarrow> (string \<times> Span list) list \<Rightarrow> (string \<times> Span list) list" where
  "push k s m = (if k = [] then m else AList.update k (lookup_or [] m k @ [s]) m)"

definition index_span :: "Span \<Rightarrow> Index \<Rightarrow> Index" where
  "index_span s idx =
     (if span_Kind s = KindSession then idx
      else idx\<lparr>ix_byStep := (case StepIndex s of Some n \<Rightarrow> AList.update n s (ix_byStep idx) | None \<Rightarrow> ix_byStep idx),
               ix_byHash := push (RequestHash s) s (ix_byHash idx),
               ix_byTool := push (span_String s AttrToolName) s (ix_byTool idx)\<rparr>)"

definition NewIndex :: "Header \<Rightarrow> Span list \<Rightarrow> Index" where
  "NewIndex h spans =
     fold index_span spans
       \<lparr> ix_header = h, ix_spans = spans, ix_byStep = [], ix_byHash = [], ix_byTool = [], ix_consumed = [] \<rparr>"

definition Spans :: "Index \<Rightarrow> Span list" where
  "Spans idx = sort_key step_or_0 (filter (\<lambda>s. span_Kind s \<noteq> KindSession) (ix_spans idx))"

definition isConsumed :: "Index \<Rightarrow> Span \<Rightarrow> bool" where
  "isConsumed idx s = (spanKey s \<in> set (ix_consumed idx))"

definition consume :: "Span \<Rightarrow> Index \<Rightarrow> Index" where
  "consume s idx = idx\<lparr>ix_consumed := spanKey s # ix_consumed idx\<rparr>"

definition firstUnconsumed :: "Index \<Rightarrow> Span list \<Rightarrow> Span option" where
  "firstUnconsumed idx spans = find (\<lambda>s. \<not> isConsumed idx s) spans"

definition take_span :: "MatchKind \<Rightarrow> Span \<Rightarrow> Index \<Rightarrow> Match \<times> Index" where
  "take_span k s idx = (\<lparr> mt_Span = Some s, mt_Kind = k, mt_Step = step_or_0 s \<rparr>, consume s idx)"

definition lookup_exact :: "Index \<Rightarrow> Asked \<Rightarrow> Span option" where
  "lookup_exact idx req =
     (case map_of (ix_byStep idx) (ask_Step req) of
        Some s \<Rightarrow> if ask_Hash req \<noteq> [] \<and> RequestHash s = ask_Hash req \<and> \<not> isConsumed idx s then Some s else None
      | None \<Rightarrow> None)"

definition lookup_hash :: "Index \<Rightarrow> Asked \<Rightarrow> Span option" where
  "lookup_hash idx req =
     (if ask_Hash req \<noteq> [] then firstUnconsumed idx (lookup_or [] (ix_byHash idx) (ask_Hash req)) else None)"

definition lookup_tool :: "Index \<Rightarrow> Asked \<Rightarrow> Span option" where
  "lookup_tool idx req =
     (if ask_Kind req = KindTool \<and> ask_Tool req \<noteq> []
      then let candidates = lookup_or [] (ix_byTool idx) (ask_Tool req)
           in case (if ask_ArgsHash req \<noteq> []
                    then find (\<lambda>s. span_String s AttrToolArgsHash = ask_ArgsHash req \<and> \<not> isConsumed idx s) candidates
                    else None) of
                Some s \<Rightarrow> Some s
              | None \<Rightarrow> firstUnconsumed idx candidates
      else None)"

definition Lookup :: "Index \<Rightarrow> Asked \<Rightarrow> Match \<times> Index" where
  "Lookup idx req =
     (case lookup_exact idx req of
        Some s \<Rightarrow> (\<lparr> mt_Span = Some s, mt_Kind = MatchExact, mt_Step = ask_Step req \<rparr>, consume s idx)
      | None \<Rightarrow>
     (case lookup_hash idx req of
        Some s \<Rightarrow> take_span MatchHash s idx
      | None \<Rightarrow>
     (case lookup_tool idx req of
        Some s \<Rightarrow> take_span MatchTool s idx
      | None \<Rightarrow> (\<lparr> mt_Span = None, mt_Kind = MatchNone, mt_Step = -1 \<rparr>, idx))))"

section \<open>Drift\<close>

datatype DriftStatus = DriftNone | DriftChanged | DriftRemoved | DriftUnknown

record ToolDrift =
  td_Tool :: string
  td_Status :: DriftStatus
  td_Recorded :: string
  td_Live :: string
  td_Detail :: msg

definition ToolDrift_Stale :: "ToolDrift \<Rightarrow> bool" where
  "ToolDrift_Stale d = (td_Status d = DriftChanged \<or> td_Status d = DriftRemoved)"

record DriftReport =
  dr_Session :: string
  dr_Tools :: "ToolDrift list"

definition Stale :: "DriftReport \<Rightarrow> bool" where
  "Stale r = list_ex ToolDrift_Stale (dr_Tools r)"

definition Unknown :: "DriftReport \<Rightarrow> bool" where
  "Unknown r = list_ex (\<lambda>t. td_Status t = DriftUnknown) (dr_Tools r)"

text \<open>
  Introspecting a server is a parameter: the tools an endpoint advertises now, each with its name and
  its contract digest, or the error of reaching it.
\<close>

type_synonym lister = "string \<Rightarrow> (string \<times> string result) list result"

definition recorded_contracts :: "Span list \<Rightarrow> (string \<times> (string \<times> string)) list" where
  "recorded_contracts spans =
     fold (\<lambda>s seen.
       let tool = span_String s AttrToolName
       in if span_Kind s \<noteq> KindTool \<or> tool = [] \<or> has_key seen tool then seen
          else AList.update tool (span_String s AttrToolContractDigest, span_String s AttrServerAddress) seen)
       spans []"

definition live_contracts :: "(string \<times> string result) list \<Rightarrow> (string \<times> string) list" where
  "live_contracts tools =
     fold (\<lambda>(name, d) m. case d of Inl _ \<Rightarrow> m | Inr c \<Rightarrow> AList.update name c m) tools []"

definition drift_of :: "lister \<Rightarrow> string \<Rightarrow> string \<times> string \<Rightarrow> ToolDrift" where
  "drift_of lister name = (\<lambda>(contract, endpoint).
     (let drift = (\<lambda>st live d. \<lparr> td_Tool = name, td_Status = st, td_Recorded = contract, td_Live = live, td_Detail = d \<rparr>)
      in if endpoint = []
         then drift DriftUnknown [] (Text ''the recording does not say which server served this tool'')
         else (case lister endpoint of
           Inl e \<Rightarrow> drift DriftUnknown [] (Sprintf ''could not reach %s: %v'' [AStr endpoint, AMsg e])
         | Inr tools \<Rightarrow>
             if contract = []
             then drift DriftUnknown []
                    (Text ''no contract was recorded for this tool, so there is nothing to compare'')
             else (case map_of (live_contracts tools) name of
               None \<Rightarrow> drift DriftRemoved [] (Sprintf ''%s no longer advertises this tool'' [AStr endpoint])
             | Some live \<Rightarrow>
                 if live \<noteq> contract
                 then drift DriftChanged live
                        (Text ''the description or schema changed since this session was recorded'')
                 else drift DriftNone live no_msg))))"

text \<open>An endpoint that cannot be asked makes its tools unknown; the check itself reports no error.\<close>

definition CheckDrift :: "Index \<Rightarrow> lister \<Rightarrow> DriftReport result" where
  "CheckDrift idx lister =
     (let seen = recorded_contracts (Spans idx)
      in Inr \<lparr> dr_Session = hd_SessionID (ix_header idx),
           dr_Tools = map (\<lambda>name. drift_of lister name (lookup_or ([], []) seen name)) (sort (keys seen)) \<rparr>)"

section \<open>The report\<close>

datatype DivergenceKind = DivergedTool | DivergedArguments | DivergedInput | DivergedExtra | DivergedMissing

record Divergence =
  dv_Step :: int
  dv_Kind :: DivergenceKind
  dv_Recorded :: string
  dv_Replayed :: string
  dv_Detail :: msg

record Step =
  sp_Index :: int
  sp_Kind :: Kind
  sp_Tool :: string
  sp_Hash :: string
  sp_ArgsHash :: string
  sp_Match :: MatchKind
  sp_Decision :: Decision

record Report =
  rp_Session :: string
  rp_Agent :: string
  rp_Mode :: Mode
  rp_RecordedAgainst :: string
  rp_ReplayedAgainst :: string
  rp_Steps :: "Step list"
  rp_Divergences :: "Divergence list"
  rp_Drift :: "DriftReport option"
  rp_Refused :: int
  rp_NoOps :: int

definition Diverged :: "Report \<Rightarrow> bool" where
  "Diverged r = (0 < length (rp_Divergences r))"

definition FirstDivergence :: "Report \<Rightarrow> Divergence option" where
  "FirstDivergence r = (case rp_Divergences r of [] \<Rightarrow> None | d # _ \<Rightarrow> Some d)"

definition Usable :: "Report \<Rightarrow> bool \<times> msg" where
  "Usable r =
     (if (case rp_Drift r of Some d \<Rightarrow> Stale d | None \<Rightarrow> False)
      then (False, Text ''tool contracts changed since this session was recorded'')
      else if 0 < rp_Refused r
      then (False, Sprintf ''%d call(s) were refused, so the candidate did not complete the session''
                     [AInt (rp_Refused r)])
      else if length (rp_Steps r) = 0 then (False, Text ''nothing was replayed'')
      else (True, no_msg))"

section \<open>The tracker\<close>

record Tracker =
  tk_idx :: Index
  tk_report :: Report
  tk_next :: int

definition NewTracker :: "Index \<Rightarrow> Mode \<Rightarrow> string \<Rightarrow> Tracker" where
  "NewTracker idx mode replayedAgainst =
     \<lparr> tk_idx = idx,
       tk_report = \<lparr> rp_Session = hd_SessionID (ix_header idx), rp_Agent = hd_Agent (ix_header idx),
         rp_Mode = mode, rp_RecordedAgainst = hd_BehaviorDigest (ix_header idx),
         rp_ReplayedAgainst = replayedAgainst, rp_Steps = [], rp_Divergences = [],
         rp_Drift = None, rp_Refused = 0, rp_NoOps = 0 \<rparr>,
       tk_next = 0 \<rparr>"

definition short_hash :: "string \<Rightarrow> string" where
  "short_hash h = (if length h > 7 + 8 then take 8 (drop 7 h) @ ellipsis else h)"

definition describeRequest :: "Asked \<Rightarrow> string" where
  "describeRequest req =
     (if ask_Kind req = KindTool \<and> ask_Tool req \<noteq> [] then OpTool @ '' '' @ ask_Tool req
      else Kind_string (ask_Kind req))"

definition describeSpan :: "Span \<Rightarrow> string" where
  "describeSpan s = (if span_Name s \<noteq> [] then span_Name s else Kind_string (span_Kind s))"

definition recordedAt :: "Tracker \<Rightarrow> int \<Rightarrow> Span option" where
  "recordedAt t step =
     (if step < 0 \<or> int (length (Spans (tk_idx t))) \<le> step then None
      else Some (Spans (tk_idx t) ! nat step))"

definition compare_step :: "Tracker \<Rightarrow> Asked \<Rightarrow> Divergence option" where
  "compare_step t req =
     (case recordedAt t (tk_next t) of
        None \<Rightarrow> Some \<lparr> dv_Step = tk_next t, dv_Kind = DivergedExtra, dv_Recorded = [],
                       dv_Replayed = describeRequest req,
                       dv_Detail = Text ''the recording ends before this step'' \<rparr>
      | Some recorded \<Rightarrow>
          (let recordedTool = span_String recorded AttrToolName;
               recordedArgs = span_String recorded AttrToolArgsHash
           in if ask_Kind req = KindTool \<and> span_Kind recorded = KindTool \<and> ask_Tool req \<noteq> recordedTool
              then Some \<lparr> dv_Step = tk_next t, dv_Kind = DivergedTool, dv_Recorded = recordedTool,
                          dv_Replayed = ask_Tool req,
                          dv_Detail = Text ''the candidate called a different tool'' \<rparr>
              else if ask_Kind req \<noteq> span_Kind recorded
              then Some \<lparr> dv_Step = tk_next t, dv_Kind = DivergedTool,
                          dv_Recorded = Kind_string (span_Kind recorded),
                          dv_Replayed = Kind_string (ask_Kind req),
                          dv_Detail = Text ''the candidate took a different kind of step'' \<rparr>
              else if ask_Kind req = KindTool \<and> ask_ArgsHash req \<noteq> [] \<and> recordedArgs \<noteq> [] \<and>
                      ask_ArgsHash req \<noteq> recordedArgs
              then Some \<lparr> dv_Step = tk_next t, dv_Kind = DivergedArguments,
                          dv_Recorded = short_hash recordedArgs, dv_Replayed = short_hash (ask_ArgsHash req),
                          dv_Detail = Sprintf ''%s was called with different arguments'' [AStr (ask_Tool req)] \<rparr>
              else if ask_Kind req = KindModel \<and> rp_Mode (tk_report t) = ModeFail \<and> ask_Hash req \<noteq> [] \<and>
                      RequestHash recorded \<noteq> [] \<and> ask_Hash req \<noteq> RequestHash recorded
              then Some \<lparr> dv_Step = tk_next t, dv_Kind = DivergedInput,
                          dv_Recorded = short_hash (RequestHash recorded),
                          dv_Replayed = short_hash (ask_Hash req),
                          dv_Detail = Text ''the model was sent a different request'' \<rparr>
              else None))"

definition diverge :: "Divergence option \<Rightarrow> Report \<Rightarrow> Report" where
  "diverge d r = (case d of None \<Rightarrow> r | Some x \<Rightarrow> r\<lparr>rp_Divergences := rp_Divergences r @ [x]\<rparr>)"

definition Observe :: "Asked \<Rightarrow> Match \<Rightarrow> Decision \<Rightarrow> Tracker \<Rightarrow> Tracker" where
  "Observe req m decision t =
     (let step = \<lparr> sp_Index = tk_next t, sp_Kind = ask_Kind req, sp_Tool = ask_Tool req,
                   sp_Hash = ask_Hash req, sp_ArgsHash = ask_ArgsHash req,
                   sp_Match = mt_Kind m, sp_Decision = decision \<rparr>;
          r = (tk_report t)\<lparr>rp_Steps := rp_Steps (tk_report t) @ [step]\<rparr>;
          r = (case dc_Action decision of
                 ActionRefuse \<Rightarrow> r\<lparr>rp_Refused := rp_Refused r + 1\<rparr>
               | ActionNoOp \<Rightarrow> r\<lparr>rp_NoOps := rp_NoOps r + 1\<rparr>
               | _ \<Rightarrow> r)
      in t\<lparr>tk_report := diverge (compare_step t req) r, tk_next := tk_next t + 1\<rparr>)"

definition missing_step :: "int \<times> Span \<Rightarrow> Divergence" where
  "missing_step = (\<lambda>(i, s). \<lparr> dv_Step = i, dv_Kind = DivergedMissing, dv_Recorded = describeSpan s,
     dv_Replayed = [], dv_Detail = Text ''the recording has this step and the candidate stopped before it'' \<rparr>)"

definition Finish :: "Tracker \<Rightarrow> Report" where
  "Finish t =
     (let rest = drop (nat (tk_next t)) (Spans (tk_idx t))
      in (tk_report t)\<lparr>rp_Divergences := rp_Divergences (tk_report t) @
            map missing_step (zip (map (\<lambda>k. tk_next t + int k) [0..<length rest]) rest)\<rparr>)"

definition AttachDrift :: "DriftReport option \<Rightarrow> Tracker \<Rightarrow> Tracker" where
  "AttachDrift d t = t\<lparr>tk_report := (tk_report t)\<lparr>rp_Drift := d\<rparr>\<rparr>"

section \<open>Lemmas about the index\<close>

definition indexed :: "Index \<Rightarrow> Span \<Rightarrow> bool" where
  "indexed idx s =
     ((\<exists>n. map_of (ix_byStep idx) n = Some s) \<or> (\<exists>k. s \<in> set (lookup_or [] (ix_byHash idx) k)) \<or>
      (\<exists>k. s \<in> set (lookup_or [] (ix_byTool idx) k)))"

lemma push_lookup: "s' \<in> set (lookup_or [] (push k s m) k') \<Longrightarrow> s' = s \<or> s' \<in> set (lookup_or [] m k')"
  by (auto simp: push_def lookup_or_def update_conv' split: if_splits)

lemma indexed_index_span:
  "indexed (index_span s idx) s' \<Longrightarrow> indexed idx s' \<or> (s' = s \<and> span_Kind s \<noteq> KindSession)"
  by (auto simp: index_span_def indexed_def update_conv' dest!: push_lookup split: if_splits option.splits)

lemma index_span_frame [simp]:
  "ix_consumed (index_span s idx) = ix_consumed idx" "ix_spans (index_span s idx) = ix_spans idx"
  "ix_header (index_span s idx) = ix_header idx"
  by (simp_all add: index_span_def)

lemma fold_index_span:
  "indexed (fold index_span ss idx) s \<Longrightarrow> indexed idx s \<or> (s \<in> set ss \<and> span_Kind s \<noteq> KindSession)"
  "ix_consumed (fold index_span ss idx) = ix_consumed idx"
  "ix_spans (fold index_span ss idx) = ix_spans idx"
  by (induction ss arbitrary: idx) (auto dest: indexed_index_span)

lemma NewIndex_simps:
  "indexed (NewIndex h ss) s \<Longrightarrow> s \<in> set ss \<and> span_Kind s \<noteq> KindSession"
  "ix_consumed (NewIndex h ss) = []" "ix_spans (NewIndex h ss) = ss"
proof -
  let ?e = "\<lparr> ix_header = h, ix_spans = ss, ix_byStep = [], ix_byHash = [], ix_byTool = [], ix_consumed = [] \<rparr>"
  have "\<not> indexed ?e s" by (simp add: indexed_def lookup_or_def)
  then show "indexed (NewIndex h ss) s \<Longrightarrow> s \<in> set ss \<and> span_Kind s \<noteq> KindSession"
    using fold_index_span(1) [of ss ?e s] by (simp add: NewIndex_def)
qed (simp_all add: NewIndex_def fold_index_span)

lemma consume_simps [simp]:
  "ix_consumed (consume s idx) = spanKey s # ix_consumed idx" "indexed (consume s idx) = indexed idx"
  "ix_spans (consume s idx) = ix_spans idx" "ix_header (consume s idx) = ix_header idx"
  by (simp_all add: consume_def indexed_def fun_eq_iff)

lemma firstUnconsumed_Some:
  "firstUnconsumed idx ss = Some s \<Longrightarrow> s \<in> set ss \<and> \<not> isConsumed idx s"
  by (auto simp: firstUnconsumed_def dest: find_SomeD)

lemma lookup_Some:
  "lookup_exact idx req = Some s \<Longrightarrow> indexed idx s \<and> \<not> isConsumed idx s"
  "lookup_hash idx req = Some s \<Longrightarrow> indexed idx s \<and> \<not> isConsumed idx s"
  "lookup_tool idx req = Some s \<Longrightarrow> indexed idx s \<and> \<not> isConsumed idx s"
  by (auto simp: lookup_exact_def lookup_hash_def lookup_tool_def indexed_def Let_def
      split: option.splits if_splits dest!: firstUnconsumed_Some find_SomeD)

text \<open>One lookup: either nothing was found and the index is unchanged, or a fresh span was.\<close>

lemma Lookup_cases:
  assumes "Lookup idx req = (m, idx')"
  shows "(\<not> Found m \<and> mt_Span m = None \<and> idx' = idx) \<or>
    (Found m \<and> (\<exists>s. mt_Span m = Some s \<and> indexed idx s \<and> \<not> isConsumed idx s \<and> idx' = consume s idx))"
  using assms
  by (auto simp: Lookup_def take_span_def Found_def split: option.splits dest!: lookup_Some)

text \<open>A session: the requests are looked up one after another.\<close>

fun lookups :: "Index \<Rightarrow> Asked list \<Rightarrow> Match list" where
  "lookups idx [] = []"
| "lookups idx (r # rs) = (case Lookup idx r of (m, idx') \<Rightarrow> m # lookups idx' rs)"

definition served :: "Match list \<Rightarrow> Span list" where
  "served ms = List.map_filter mt_Span ms"

lemma served_fresh:
  "(\<forall>s \<in> set (served (lookups idx rs)). indexed idx s \<and> spanKey s \<notin> set (ix_consumed idx)) \<and>
   distinct (map spanKey (served (lookups idx rs)))"
proof (induction rs arbitrary: idx)
  case (Cons r rs)
  obtain m idx' where m: "Lookup idx r = (m, idx')" by fastforce
  show ?case
    using Lookup_cases [OF m] Cons.IH [of idx'] m
    by (auto simp: served_def List.map_filter_def isConsumed_def)
qed (simp add: served_def List.map_filter_def)

section \<open>Lemmas about the tracker\<close>

definition observe_all :: "(Asked \<times> Match \<times> Decision) list \<Rightarrow> Tracker \<Rightarrow> Tracker" where
  "observe_all xs t = fold (\<lambda>(req, m, d) t. Observe req m d t) xs t"

lemma diverge_frame [simp]:
  "rp_Steps (diverge d r) = rp_Steps r" "rp_Refused (diverge d r) = rp_Refused r"
  "rp_NoOps (diverge d r) = rp_NoOps r" "rp_Drift (diverge d r) = rp_Drift r"
  "rp_Mode (diverge d r) = rp_Mode r"
  by (simp_all add: diverge_def split: option.splits)

lemma Observe_simps [simp]:
  "tk_idx (Observe req m d t) = tk_idx t" "tk_next (Observe req m d t) = tk_next t + 1"
  "length (rp_Steps (tk_report (Observe req m d t))) = Suc (length (rp_Steps (tk_report t)))"
  "rp_Refused (tk_report (Observe req m d t)) =
     rp_Refused (tk_report t) + (if dc_Action d = ActionRefuse then 1 else 0)"
  "rp_NoOps (tk_report (Observe req m d t)) =
     rp_NoOps (tk_report t) + (if dc_Action d = ActionNoOp then 1 else 0)"
  "rp_Drift (tk_report (Observe req m d t)) = rp_Drift (tk_report t)"
  "rp_Mode (tk_report (Observe req m d t)) = rp_Mode (tk_report t)"
  by (simp_all add: Observe_def Let_def split: Action.splits)

lemma Observe_divergences:
  "rp_Divergences (tk_report (Observe req m d t)) =
     rp_Divergences (tk_report t) @ (case compare_step t req of None \<Rightarrow> [] | Some x \<Rightarrow> [x])"
  by (simp add: Observe_def Let_def diverge_def split: Action.splits option.splits)

lemma observe_all_simps:
  "length (rp_Steps (tk_report (observe_all xs t))) = length (rp_Steps (tk_report t)) + length xs"
  "rp_Refused (tk_report (observe_all xs t)) =
     rp_Refused (tk_report t) + int (length (filter (\<lambda>(_, _, d). dc_Action d = ActionRefuse) xs))"
  "rp_NoOps (tk_report (observe_all xs t)) =
     rp_NoOps (tk_report t) + int (length (filter (\<lambda>(_, _, d). dc_Action d = ActionNoOp) xs))"
  "rp_Drift (tk_report (observe_all xs t)) = rp_Drift (tk_report t)"
  "tk_idx (observe_all xs t) = tk_idx t"
  "tk_next (observe_all xs t) = tk_next t + int (length xs)"
  unfolding observe_all_def by (induction xs arbitrary: t) auto

lemma observe_all_divergences:
  "rp_Divergences (tk_report (observe_all xs t)) = [] \<Longrightarrow>
     rp_Divergences (tk_report t) = [] \<and>
     (\<forall>i < length xs. compare_step (observe_all (take i xs) t) (fst (xs ! i)) = None)"
proof (induction xs rule: rev_induct)
  case (snoc x xs)
  obtain req m d where x: "x = (req, m, d)" by (cases x) auto
  have e: "observe_all (xs @ [x]) t = Observe req m d (observe_all xs t)"
    by (simp add: observe_all_def x)
  then have "compare_step (observe_all xs t) req = None" "rp_Divergences (tk_report (observe_all xs t)) = []"
    using snoc.prems by (auto simp: Observe_divergences split: option.splits)
  then show ?case using snoc.IH x by (auto simp: nth_append less_Suc_eq)
qed (simp add: observe_all_def)

section \<open>Properties\<close>

text \<open>
  A replay never writes.  Whatever the mode, the recording and the manifest say, a tool call is
  answered from outside the recording only in hybrid mode, for a tool the operator named and the
  manifest classifies as a read; a call to any tool not classified as a read is refused or
  synthesised, never forwarded and never served.
\<close>

theorem replay_never_writes:
  assumes "ask_Kind req \<noteq> KindModel"
  shows "(dc_Action (Decide p req m) = ActionForward \<longleftrightarrow>
            po_Mode p = ModeHybrid \<and> ask_Tool req \<in> set (po_LiveTools p) \<and>
            map_of (po_Effects p) (ask_Tool req) = Some EffectRead) \<and>
         (map_of (po_Effects p) (ask_Tool req) \<noteq> Some EffectRead \<longrightarrow>
            dc_Action (Decide p req m) \<in> {ActionNoOp, ActionRefuse})"
  using assms
  by (auto simp: Decide_def decideTool_def Let_def lookup_or_def has_key_def EffectRead_def split: option.splits)

definition ex_header :: Header where
  "ex_header = \<lparr> hd_SchemaVersion = SchemaVersion, hd_SessionID = ''s1'', hd_TraceID = [], hd_Agent = ''a'',
     hd_BehaviorDigest = ''d1'', hd_ContentDigest = [], hd_RecordedAt = 1, hd_Recorder = [],
     hd_SourceSession = [], hd_Arm = [] \<rparr>"

definition ex_asked :: "string \<Rightarrow> Asked" where
  "ex_asked tool = \<lparr> ask_Step = 0, ask_Hash = [], ask_Kind = KindTool, ask_Tool = tool, ask_ArgsHash = [] \<rparr>"

theorem replay_never_writes_witness:
  "dc_Action (Decide \<lparr> po_Mode = ModeHybrid, po_Effects = [(''pay'', EffectWrite)], po_LiveTools = [''pay''] \<rparr>
      (ex_asked ''pay'') \<lparr> mt_Span = None, mt_Kind = MatchExact, mt_Step = 0 \<rparr>) \<in> {ActionNoOp, ActionRefuse}"
  by (rule replay_never_writes [THEN conjunct2, rule_format]) (simp_all add: ex_asked_def EffectRead_def EffectWrite_def)

text \<open>
  C15. A recorded response is served at most once.  Whatever sequence of requests an agent makes, every
  span the index hands back is a step of the recording, and no recorded step is handed back twice: two
  identical calls get the two recorded answers, not the first one again.
\<close>

theorem recorded_step_served_once:
  "distinct (map spanKey (served (lookups (NewIndex h spans) rs))) \<and>
   set (served (lookups (NewIndex h spans) rs)) \<subseteq> {s \<in> set spans. span_Kind s \<noteq> KindSession}"
  using served_fresh [of "NewIndex h spans" rs] NewIndex_simps(1) by blast

text \<open>
  What may be scored.  After any sequence of observed steps, with or without a drift report
  attached, the replay counts as usable exactly when at least one step was replayed, not one of them
  was refused, and no tool contract was found changed or removed.
\<close>

theorem usable_iff_clean_replay:
  "fst (Usable (Finish (AttachDrift d (observe_all xs (NewTracker idx mode who))))) \<longleftrightarrow>
     xs \<noteq> [] \<and> (\<forall>(req, m, dec) \<in> set xs. dc_Action dec \<noteq> ActionRefuse) \<and>
     (\<forall>r. d = Some r \<longrightarrow> (\<forall>t \<in> set (dr_Tools r). td_Status t \<notin> {DriftChanged, DriftRemoved}))"
proof -
  let ?t = "observe_all xs (NewTracker idx mode who)"
  have r: "rp_Refused (tk_report ?t) = int (length (filter (\<lambda>(_, _, d). dc_Action d = ActionRefuse) xs))"
    "length (rp_Steps (tk_report ?t)) = length xs"
    by (simp_all add: observe_all_simps NewTracker_def)
  have "fst (Usable (Finish (AttachDrift d ?t))) \<longleftrightarrow>
      \<not> (case d of Some r \<Rightarrow> Stale r | None \<Rightarrow> False) \<and> \<not> 0 < rp_Refused (tk_report ?t) \<and>
      length (rp_Steps (tk_report ?t)) \<noteq> 0"
    by (simp add: Usable_def Finish_def AttachDrift_def Let_def)
  then show ?thesis
    unfolding r
    by (auto simp: Stale_def list_ex_iff ToolDrift_Stale_def filter_empty_conv split: option.splits)
qed

theorem usable_iff_clean_replay_witness:
  "fst (Usable (Finish (AttachDrift None (observe_all
     [(ex_asked ''look'', \<lparr> mt_Span = None, mt_Kind = MatchNone, mt_Step = 0 \<rparr>,
       \<lparr> dc_Action = ActionForward, dc_Reason = no_msg \<rparr>)] (NewTracker (NewIndex ex_header []) ModeFail []))))) \<and>
   \<not> fst (Usable (Finish (AttachDrift None (observe_all [] (NewTracker (NewIndex ex_header []) ModeFail [])))))"
  by (simp add: usable_iff_clean_replay)

text \<open>
  No divergence means the recorded path.  A finished report without divergences was produced by
  exactly as many steps as were recorded, and step by step the candidate made the recorded kind of
  call, to the recorded tool, and (where both are known) with the recorded arguments.
\<close>

theorem no_divergence_is_the_recorded_path:
  assumes "\<not> Diverged (Finish (observe_all xs (NewTracker idx mode who)))"
  shows "length xs = length (Spans idx) \<and>
    (\<forall>i < length xs. let req = fst (xs ! i); s = Spans idx ! i in
       ask_Kind req = span_Kind s \<and>
       (ask_Kind req = KindTool \<longrightarrow> ask_Tool req = span_String s AttrToolName \<and>
          (ask_ArgsHash req = [] \<or> span_String s AttrToolArgsHash = [] \<or>
           ask_ArgsHash req = span_String s AttrToolArgsHash)))"
proof -
  let ?start = "NewTracker idx mode who"
  let ?t = "observe_all xs ?start"
  have start: "tk_idx ?start = idx" "tk_next ?start = 0" by (simp_all add: NewTracker_def)
  have fin: "rp_Divergences (tk_report ?t) = []" "length (Spans idx) \<le> length xs"
    using assms by (auto simp: Diverged_def Finish_def Let_def observe_all_simps start)
  have c: "compare_step (observe_all (take i xs) ?start) (fst (xs ! i)) = None" if "i < length xs" for i
    using observe_all_divergences [OF fin(1)] that by blast
  have "tk_next (observe_all (take i xs) ?start) = int i" if "i < length xs" for i
    using that by (simp add: observe_all_simps start)
  then have step: "i < length (Spans idx) \<and> (let req = fst (xs ! i); s = Spans idx ! i in
       ask_Kind req = span_Kind s \<and>
       (ask_Kind req = KindTool \<longrightarrow> ask_Tool req = span_String s AttrToolName \<and>
          (ask_ArgsHash req = [] \<or> span_String s AttrToolArgsHash = [] \<or>
           ask_ArgsHash req = span_String s AttrToolArgsHash)))" if "i < length xs" for i
    using c [OF that] that
    by (auto simp: compare_step_def recordedAt_def observe_all_simps start Let_def split: if_splits)
  then have "length xs \<le> length (Spans idx)" by (meson not_le order.irrefl)
  then show ?thesis using fin(2) step by auto
qed

definition ex_tool_span :: "string \<Rightarrow> Span" where
  "ex_tool_span tool = \<lparr> span_TraceID = [], span_SpanID = ''x'', span_ParentID = [], span_Name = [],
     span_Kind = KindTool, span_StartTime = 1, span_EndTime = 2,
     span_Attributes = [(AttrToolName, JStr tool)], span_Status = \<lparr> status_Code = [], status_Message = [] \<rparr> \<rparr>"

lemma ex_tool_span_simps [simp]:
  "span_Kind (ex_tool_span t) = KindTool" "span_String (ex_tool_span t) AttrToolName = t"
  "span_String (ex_tool_span t) AttrToolArgsHash = []"
  by (simp_all add: ex_tool_span_def span_String_def jfield_def lookup_or_def AttrToolName_def AttrToolArgsHash_def)

theorem no_divergence_is_the_recorded_path_witness:
  "(let idx = NewIndex ex_header [ex_tool_span ''look''];
        (m, _) = Lookup idx (ex_asked ''look'')
    in Found m \<and> ask_Tool (ex_asked ''look'') = span_String (Spans idx ! 0) AttrToolName)"
proof -
  let ?idx = "NewIndex ex_header [ex_tool_span ''look'']"
  let ?m = "fst (Lookup ?idx (ex_asked ''look''))"
  let ?xs = "[(ex_asked ''look'', ?m, \<lparr> dc_Action = ActionServe, dc_Reason = no_msg \<rparr>)]"
  have sp: "Spans ?idx = [ex_tool_span ''look'']"
    by (simp add: Spans_def NewIndex_simps ex_tool_span_def)
  have f: "Found ?m"
    by (simp add: NewIndex_def index_span_def ex_tool_span_def StepIndex_def push_def RequestHash_def
        span_String_def jfield_def lookup_or_def AttrToolName_def AttrRequestHash_def AttrStepIndex_def
        Lookup_def lookup_exact_def lookup_hash_def lookup_tool_def ex_asked_def firstUnconsumed_def
        isConsumed_def take_span_def Found_def)
  have "\<not> Diverged (Finish (observe_all ?xs (NewTracker ?idx ModeFail [])))"
    by (simp add: observe_all_def Observe_def NewTracker_def compare_step_def recordedAt_def sp Let_def
        Finish_def Diverged_def diverge_def ex_asked_def)
  from no_divergence_is_the_recorded_path [OF this] f show ?thesis
    by (auto simp: Let_def ex_asked_def split: prod.splits)
qed

end
