(* ===== verification/Corpus.thy ===== *)
theory Corpus
  imports Cassette
begin

text \<open>
  \<open>internal/corpus/corpus.go\<close>: the store of recorded sessions.  The store is an interface the
  rollout reads through; \<open>FS\<close> is its implementation on a directory, whose reads the fields of
  \<open>dir\_os\<close> stand for.
\<close>

definition Extension :: string where "Extension = ''.cassette.ndjson''"

record Filter =
  fl_Agent :: string
  fl_BehaviorDigest :: string
  fl_Since :: time
  fl_Limit :: int

definition no_filter :: Filter where
  "no_filter = \<lparr> fl_Agent = [], fl_BehaviorDigest = [], fl_Since = 0, fl_Limit = 0 \<rparr>"

definition Filter_matches :: "Filter \<Rightarrow> Header \<Rightarrow> bool" where
  "Filter_matches f h =
     (if fl_Agent f \<noteq> [] \<and> hd_Agent h \<noteq> fl_Agent f then False
      else if fl_BehaviorDigest f \<noteq> [] \<and> hd_BehaviorDigest h \<noteq> fl_BehaviorDigest f then False
      else if fl_Since f \<noteq> 0 \<and> hd_RecordedAt h < fl_Since f then False
      else True)"

lemma Filter_matches_iff:
  "Filter_matches f h \<longleftrightarrow>
     (fl_Agent f = [] \<or> hd_Agent h = fl_Agent f) \<and>
     (fl_BehaviorDigest f = [] \<or> hd_BehaviorDigest h = fl_BehaviorDigest f) \<and>
     (fl_Since f = 0 \<or> fl_Since f \<le> hd_RecordedAt h)"
  by (auto simp: Filter_matches_def)

record 'w store =
  sto_Open :: "string \<Rightarrow> 'w \<Rightarrow> scanner result \<times> 'w"
  sto_List :: "Filter \<Rightarrow> 'w \<Rightarrow> Header list result \<times> 'w"

section \<open>File names\<close>

definition name_char :: "char \<Rightarrow> bool" where
  "name_char c =
     ((97 \<le> byte c \<and> byte c \<le> 122) \<or> (65 \<le> byte c \<and> byte c \<le> 90) \<or> (48 \<le> byte c \<and> byte c \<le> 57) \<or>
      c = CHR ''-'' \<or> c = CHR ''_'' \<or> c = CHR ''.'')"

definition safeName :: "string \<Rightarrow> string result" where
  "safeName sessionID =
     (if sessionID = [] then Inl (Text ''corpus: empty session id'')
      else if length sessionID > 128
      then Inl (Sprintf ''corpus: session id is %d characters, over the 128 limit'' [AInt (int (length sessionID))])
      else case find (\<lambda>r. \<not> name_char r) sessionID of
        Some r \<Rightarrow> Inl (Sprintf ''corpus: session id %q contains %q'' [AStr sessionID, AStr [r]])
      | None \<Rightarrow>
        if HasPrefix sessionID ''.''
        then Inl (Sprintf ''corpus: session id %q may not start with a dot'' [AStr sessionID])
        else Inr (sessionID @ Extension))"

section \<open>The directory\<close>

text \<open>
  Directory entries with whether each is a directory, the decoded first line of a file, a file's
  scanner (with \<open>None\<close> for a file that does not exist), and the polling of the context.
\<close>

record 'w dir_os =
  os_ReadDir :: "string \<Rightarrow> 'w \<Rightarrow> (string \<times> bool) list result \<times> 'w"
  os_Header :: "string \<Rightarrow> 'w \<Rightarrow> Header result \<times> 'w"
  os_File :: "string \<Rightarrow> 'w \<Rightarrow> scanner option result \<times> 'w"
  os_CtxErr :: "'w \<Rightarrow> msg option \<times> 'w"

definition HasSuffix :: "string \<Rightarrow> string \<Rightarrow> bool" where
  "HasSuffix s p = (length p \<le> length s \<and> drop (length s - length p) s = p)"

definition path_Join :: "string \<Rightarrow> string \<Rightarrow> string" where
  "path_Join a b = a @ ''/'' @ b"

definition readHeader :: "'w dir_os \<Rightarrow> string \<Rightarrow> 'w \<Rightarrow> Header result \<times> 'w" where
  "readHeader D path w =
     (case os_Header D path w of
        (Inl e, w1) \<Rightarrow> (Inl e, w1)
      | (Inr h, w1) \<Rightarrow>
          if hd_SchemaVersion h = [] then (Inl (Text ''corpus: no schema version in header''), w1)
          else (Inr h, w1))"

fun list_entries ::
    "'w dir_os \<Rightarrow> string \<Rightarrow> Filter \<Rightarrow> (string \<times> bool) list \<Rightarrow> 'w \<Rightarrow> Header list result \<times> 'w" where
  "list_entries D dir f [] w = (Inr [], w)"
| "list_entries D dir f ((name, isDir) # es) w =
     (case os_CtxErr D w of
        (Some e, w1) \<Rightarrow> (Inl e, w1)
      | (None, w1) \<Rightarrow>
          if isDir \<or> \<not> HasSuffix name Extension then list_entries D dir f es w1
          else (case readHeader D (path_Join dir name) w1 of
            (Inl _, w2) \<Rightarrow> list_entries D dir f es w2
          | (Inr h, w2) \<Rightarrow>
              if Filter_matches f h
              then (case list_entries D dir f es w2 of
                      (Inl e, w3) \<Rightarrow> (Inl e, w3)
                    | (Inr hs, w3) \<Rightarrow> (Inr (h # hs), w3))
              else list_entries D dir f es w2))"

text \<open>Newest first; sessions recorded at one instant keep the directory's order here.\<close>

definition newest_first :: "Header list \<Rightarrow> Header list" where
  "newest_first hs = sort_key (\<lambda>h. - hd_RecordedAt h) hs"

definition limited :: "int \<Rightarrow> 'a list \<Rightarrow> 'a list" where
  "limited limit xs = (if 0 < limit \<and> limit < int (length xs) then take (nat limit) xs else xs)"

definition FS_List :: "'w dir_os \<Rightarrow> string \<Rightarrow> Filter \<Rightarrow> 'w \<Rightarrow> Header list result \<times> 'w" where
  "FS_List D dir f w =
     (case os_ReadDir D dir w of
        (Inl e, w1) \<Rightarrow> (Inl e, w1)
      | (Inr entries, w1) \<Rightarrow>
          (case list_entries D dir f entries w1 of
             (Inl e, w2) \<Rightarrow> (Inl e, w2)
           | (Inr hs, w2) \<Rightarrow> (Inr (limited (fl_Limit f) (newest_first hs)), w2)))"

definition ErrNotFound :: msg where "ErrNotFound = Text ''cassette not found''"

definition FS_Open :: "'w dir_os \<Rightarrow> string \<Rightarrow> string \<Rightarrow> 'w \<Rightarrow> scanner result \<times> 'w" where
  "FS_Open D dir sessionID w =
     (case safeName sessionID of
        Inl e \<Rightarrow> (Inl e, w)
      | Inr name \<Rightarrow>
          (case os_File D (path_Join dir name) w of
             (Inl e, w1) \<Rightarrow> (Inl e, w1)
           | (Inr None, w1) \<Rightarrow> (Inl (Sprintf ''%w: %s'' [AErr ErrNotFound, AStr sessionID]), w1)
           | (Inr (Some sc), w1) \<Rightarrow> (Inr sc, w1)))"

definition FS :: "'w dir_os \<Rightarrow> string \<Rightarrow> 'w store" where
  "FS D dir = \<lparr> sto_Open = FS_Open D dir, sto_List = FS_List D dir \<rparr>"

section \<open>The contract of a store\<close>

text \<open>A listing holds only sessions the filter admits, newest first, and no more than the limit.\<close>

locale session_store =
  fixes S :: "'w store"
  assumes List_matches: "sto_List S f w = (Inr hs, w') \<Longrightarrow> h \<in> set hs \<Longrightarrow> Filter_matches f h"
    and List_newest_first:
      "sto_List S f w = (Inr hs, w') \<Longrightarrow> sorted_wrt (\<lambda>a b. hd_RecordedAt b \<le> hd_RecordedAt a) hs"
    and List_limit: "sto_List S f w = (Inr hs, w') \<Longrightarrow> 0 < fl_Limit f \<Longrightarrow> int (length hs) \<le> fl_Limit f"
begin

lemma List_agent:
  "sto_List S f w = (Inr hs, w') \<Longrightarrow> h \<in> set hs \<Longrightarrow> fl_Agent f \<noteq> [] \<Longrightarrow> hd_Agent h = fl_Agent f"
  using List_matches by (fastforce simp: Filter_matches_iff)

lemma List_since:
  "sto_List S f w = (Inr hs, w') \<Longrightarrow> h \<in> set hs \<Longrightarrow> fl_Since f \<noteq> 0 \<Longrightarrow> fl_Since f \<le> hd_RecordedAt h"
  using List_matches by (fastforce simp: Filter_matches_iff)

end

lemma list_entries_matches:
  "list_entries D dir f es w = (Inr hs, w') \<Longrightarrow> h \<in> set hs \<Longrightarrow> Filter_matches f h"
  by (induction D dir f es w arbitrary: hs w' rule: list_entries.induct)
     (auto split: prod.splits option.splits sum.splits if_splits)

lemma set_limited: "set (limited n xs) \<subseteq> set xs"
  by (auto simp: limited_def dest: in_set_takeD)

lemma sorted_limited: "sorted_wrt P xs \<Longrightarrow> sorted_wrt P (limited n xs)"
  by (simp add: limited_def sorted_wrt_take)

lemma newest_first_sorted: "sorted_wrt (\<lambda>a b. hd_RecordedAt b \<le> hd_RecordedAt a) (newest_first hs)"
proof -
  have "sorted (map (\<lambda>h. - hd_RecordedAt h) (newest_first hs))"
    by (simp add: newest_first_def)
  then show ?thesis by (simp add: sorted_map)
qed

interpretation fs: session_store "FS D dir" for D dir
proof
  fix f w hs w' h
  assume l: "sto_List (FS D dir) f w = (Inr hs, w')"
  then obtain es w1 hs0 where e: "list_entries D dir f es w1 = (Inr hs0, w')"
    and hs: "hs = limited (fl_Limit f) (newest_first hs0)"
    by (auto simp: FS_def FS_List_def split: prod.splits sum.splits)
  show "h \<in> set hs \<Longrightarrow> Filter_matches f h"
    using list_entries_matches [OF e] set_limited hs by (fastforce simp: newest_first_def)
  show "sorted_wrt (\<lambda>a b. hd_RecordedAt b \<le> hd_RecordedAt a) hs"
    unfolding hs by (intro sorted_limited newest_first_sorted)
  show "0 < fl_Limit f \<Longrightarrow> int (length hs) \<le> fl_Limit f"
    unfolding hs by (simp add: limited_def)
qed

section \<open>Properties\<close>

text \<open>
  A session id cannot escape the corpus directory.  An accepted name is the session id with the
  cassette extension, is not a hidden file, and contains no path separator and no character outside
  the allowed set; ids that differ give files that differ.
\<close>

theorem session_name_stays_in_directory:
  assumes "safeName s = Inr n"
  shows "n = s @ Extension \<and> (\<forall>c \<in> set n. name_char c) \<and> CHR ''/'' \<notin> set n \<and> hd n \<noteq> CHR ''.'' \<and>
    (\<forall>s'. safeName s' = Inr n \<longrightarrow> s' = s)"
proof -
  have ok: "\<not> name_char CHR ''/''" "\<forall>c \<in> set Extension. name_char c"
    by (simp_all add: name_char_def byte_def Extension_def)
  have "s \<noteq> []" "n = s @ Extension" "\<forall>c \<in> set s. name_char c" "\<not> HasPrefix s ''.''"
    using assms by (auto simp: safeName_def find_None_iff split: if_splits option.splits)
  moreover have "safeName s' = Inr n \<Longrightarrow> n = s' @ Extension" for s'
    by (auto simp: safeName_def split: if_splits option.splits)
  ultimately show ?thesis using ok by (cases s) (auto simp: HasPrefix_def)
qed

theorem session_name_stays_in_directory_witness:
  "safeName ''s-1'' = Inr ''s-1.cassette.ndjson'' \<and> CHR ''/'' \<notin> set ''s-1.cassette.ndjson'' \<and>
   (\<exists>e. safeName ''../etc'' = Inl e)"
proof -
  have "safeName ''s-1'' = Inr ''s-1.cassette.ndjson''"
    by (simp add: safeName_def name_char_def byte_def HasPrefix_def Extension_def)
  moreover have "\<exists>e. safeName ''../etc'' = Inl e"
    by (simp add: safeName_def name_char_def byte_def)
  ultimately show ?thesis using session_name_stays_in_directory by blast
qed

end
