(* ===== verification/Score.thy ===== *)
theory Score
  imports Api
begin

text \<open>
  \<open>internal/score/score.go\<close>: the references handed to a scorer, the results it returns, their
  validation, and the pairing of the two arms by corpus item.  The scorer itself is outside the
  program (a subprocess or an HTTP endpoint) and is an argument of the definitions that call it.
\<close>

type_synonym metrics = "(string \<times> f64) list"

record Ref =
  ref_Item :: string
  ref_Arm :: string
  ref_Session :: string
  ref_Corpus :: string
  ref_Blobs :: string
  ref_Manifest :: string
  ref_Degraded :: bool
  ref_Reason :: msg

record Result =
  res_Item :: string
  res_Arm :: string
  res_Metrics :: metrics
  res_Metadata :: "(string \<times> string) list"
  res_Error :: string

definition zero_Result :: Result where
  "zero_Result = \<lparr> res_Item = [], res_Arm = [], res_Metrics = [], res_Metadata = [], res_Error = [] \<rparr>"

definition Scored :: "Result \<Rightarrow> bool" where
  "Scored r = (res_Error r = [] \<and> length (res_Metrics r) > 0)"

type_synonym scorer = "Ref list \<Rightarrow> Result list result"

record Pair =
  pair_Item :: string
  pair_Incumbent :: Result
  pair_Candidate :: Result

definition new_Pair :: "string \<Rightarrow> Pair" where
  "new_Pair item = \<lparr> pair_Item = item, pair_Incumbent = zero_Result, pair_Candidate = zero_Result \<rparr>"

definition Complete :: "Pair \<Rightarrow> string \<Rightarrow> bool" where
  "Complete p metric =
     (if \<not> Scored (pair_Incumbent p) \<or> \<not> Scored (pair_Candidate p) then False
      else has_key (res_Metrics (pair_Incumbent p)) metric \<and> has_key (res_Metrics (pair_Candidate p)) metric)"

definition put_result :: "Result \<Rightarrow> Pair \<Rightarrow> Pair" where
  "put_result r p =
     (if ToLower (res_Arm r) = ''incumbent'' then p\<lparr>pair_Incumbent := r\<rparr>
      else if ToLower (res_Arm r) = ''candidate'' then p\<lparr>pair_Candidate := r\<rparr>
      else p)"

definition by_item :: "Result list \<Rightarrow> (string \<times> Pair) list" where
  "by_item results =
     fold (\<lambda>r m. AList.update (res_Item r) (put_result r (lookup_or (new_Pair (res_Item r)) m (res_Item r))) m)
       results []"

definition Pairs :: "Result list \<Rightarrow> string \<Rightarrow> Pair list \<times> string list" where
  "Pairs results metric =
     (let byItem = by_item results;
          items = sort (keys byItem);
          pair = (\<lambda>item. lookup_or (new_Pair item) byItem item)
      in (map pair (filter (\<lambda>item. Complete (pair item) metric) items),
          filter (\<lambda>item. \<not> Complete (pair item) metric) items))"

text \<open>A missing key reads as the zero value, as indexing a Go map does.\<close>

definition Values :: "Pair list \<Rightarrow> string \<Rightarrow> f64 list \<times> f64 list" where
  "Values pairs metric =
     (map (\<lambda>p. lookup_or 0 (res_Metrics (pair_Incumbent p)) metric) pairs,
      map (\<lambda>p. lookup_or 0 (res_Metrics (pair_Candidate p)) metric) pairs)"

section \<open>Validation\<close>

definition isNaN :: "f64 \<Rightarrow> bool" where
  "isNaN f = (\<not> feq f f)"

text \<open>The literal \<open>1e308\<close>: the binary64 value nearest to $10^{308}$.\<close>

definition lit_1e308 :: f64 where
  "lit_1e308 = Fin (5010420900022432 * 2 ^ 971)"

definition isInf :: "f64 \<Rightarrow> bool" where
  "isInf f = (lit_1e308 < f \<or> f < - lit_1e308)"

definition bad_metric :: "string \<times> f64 \<Rightarrow> bool" where
  "bad_metric kv = (isNaN (snd kv) \<or> isInf (snd kv))"

definition validate_one :: "int \<Rightarrow> Result \<Rightarrow> msg option" where
  "validate_one i r =
     (if res_Item r = [] then Some (Sprintf ''result %d has no item'' [AInt i])
      else if ToLower (res_Arm r) \<noteq> ''incumbent'' \<and> ToLower (res_Arm r) \<noteq> ''candidate''
      then Some (Sprintf ''result %d (%s): arm is %q'' [AInt i, AStr (res_Item r), AStr (res_Arm r)])
      else case find bad_metric (res_Metrics r) of
        Some (name, v) \<Rightarrow> Some (Sprintf ''result %d (%s/%s): metric %q is %v''
                            [AInt i, AStr (res_Item r), AStr (res_Arm r), AStr name, AFloat v])
      | None \<Rightarrow> None)"

fun validate_from :: "int \<Rightarrow> Result list \<Rightarrow> unit result" where
  "validate_from i [] = Inr ()"
| "validate_from i (r # rs) =
     (case validate_one i r of Some e \<Rightarrow> Inl e | None \<Rightarrow> validate_from (i + 1) rs)"

definition Validate :: "Result list \<Rightarrow> unit result" where
  "Validate results = validate_from 0 results"

section \<open>Lemmas\<close>

text \<open>The last result of an item under an arm, which is the one a pair keeps.\<close>

definition last_of :: "Result list \<Rightarrow> string \<Rightarrow> string \<Rightarrow> Result" where
  "last_of rs item arm =
     (case filter (\<lambda>r. res_Item r = item \<and> ToLower (res_Arm r) = arm) (rev rs) of
        [] \<Rightarrow> zero_Result | r # _ \<Rightarrow> r)"

lemma last_of_snoc:
  "last_of (rs @ [r]) item arm =
     (if res_Item r = item \<and> ToLower (res_Arm r) = arm then r else last_of rs item arm)"
  by (simp add: last_of_def)

lemma last_of_cases:
  "last_of rs item arm = zero_Result \<or>
   (last_of rs item arm \<in> set rs \<and> res_Item (last_of rs item arm) = item \<and>
    ToLower (res_Arm (last_of rs item arm)) = arm)"
  by (induction rs rule: rev_induct) (auto simp: last_of_snoc last_of_def)

lemma by_item_snoc:
  "by_item (rs @ [r]) =
     AList.update (res_Item r) (put_result r (lookup_or (new_Pair (res_Item r)) (by_item rs) (res_Item r)))
       (by_item rs)"
  by (simp add: by_item_def)

lemma distinct_by_item: "distinct (keys (by_item rs))"
  unfolding by_item_def keys_def by (rule distinct_keys_fold_update) simp

lemma set_by_item: "set (keys (by_item rs)) = res_Item ` set rs"
  unfolding by_item_def keys_def
  using keys_fold_update [of res_Item
      "\<lambda>r m. put_result r (lookup_or (new_Pair (res_Item r)) m (res_Item r))" rs "[]"] by simp

lemma lookup_by_item:
  "lookup_or (new_Pair item) (by_item rs) item =
     \<lparr> pair_Item = item, pair_Incumbent = last_of rs item ''incumbent'',
       pair_Candidate = last_of rs item ''candidate'' \<rparr>"
proof (induction rs rule: rev_induct)
  case Nil
  then show ?case by (simp add: by_item_def lookup_or_def new_Pair_def last_of_def)
next
  case (snoc r rs)
  then show ?case
    by (cases "res_Item r = item")
       (auto simp: by_item_snoc lookup_or_def update_conv' put_result_def last_of_snoc)
qed

lemma zero_Result_not_Scored [simp]: "\<not> Scored zero_Result"
  by (simp add: Scored_def zero_Result_def)

lemma Complete_members:
  assumes "Complete (lookup_or (new_Pair item) (by_item rs) item) metric"
  shows "last_of rs item ''incumbent'' \<in> set rs" "last_of rs item ''candidate'' \<in> set rs"
    "res_Item (last_of rs item ''incumbent'') = item" "res_Item (last_of rs item ''candidate'') = item"
    "ToLower (res_Arm (last_of rs item ''incumbent'')) = ''incumbent''"
    "ToLower (res_Arm (last_of rs item ''candidate'')) = ''candidate''"
proof -
  have "last_of rs item ''incumbent'' \<noteq> zero_Result" "last_of rs item ''candidate'' \<noteq> zero_Result"
    using assms unfolding lookup_by_item Complete_def by (auto split: if_splits)
  then show "last_of rs item ''incumbent'' \<in> set rs" "last_of rs item ''candidate'' \<in> set rs"
    "res_Item (last_of rs item ''incumbent'') = item" "res_Item (last_of rs item ''candidate'') = item"
    "ToLower (res_Arm (last_of rs item ''incumbent'')) = ''incumbent''"
    "ToLower (res_Arm (last_of rs item ''candidate'')) = ''candidate''"
    using last_of_cases by metis+
qed

lemma fst_Pairs_items:
  "map pair_Item (fst (Pairs rs metric)) =
     filter (\<lambda>item. Complete (lookup_or (new_Pair item) (by_item rs) item) metric) (sort (keys (by_item rs)))"
  by (simp add: Pairs_def Let_def lookup_by_item cong: map_cong)

lemma Pairs_sound:
  assumes "p \<in> set (fst (Pairs rs metric))"
  shows "Complete p metric" "pair_Incumbent p \<in> set rs" "pair_Candidate p \<in> set rs"
    "res_Item (pair_Incumbent p) = pair_Item p" "res_Item (pair_Candidate p) = pair_Item p"
    "ToLower (res_Arm (pair_Incumbent p)) = ''incumbent''"
    "ToLower (res_Arm (pair_Candidate p)) = ''candidate''"
proof -
  from assms obtain item where p: "p = lookup_or (new_Pair item) (by_item rs) item"
    and c: "Complete p metric"
    by (auto simp: Pairs_def Let_def)
  show "Complete p metric" by (rule c)
  have q: "p = \<lparr> pair_Item = item, pair_Incumbent = last_of rs item ''incumbent'',
                pair_Candidate = last_of rs item ''candidate'' \<rparr>"
    using p by (simp add: lookup_by_item)
  note m = Complete_members [OF c [unfolded p]]
  show "pair_Incumbent p \<in> set rs" "pair_Candidate p \<in> set rs"
    "res_Item (pair_Incumbent p) = pair_Item p" "res_Item (pair_Candidate p) = pair_Item p"
    "ToLower (res_Arm (pair_Incumbent p)) = ''incumbent''"
    "ToLower (res_Arm (pair_Candidate p)) = ''candidate''"
    using m by (simp_all add: q)
qed

lemma distinct_Pairs_items: "distinct (map pair_Item (fst (Pairs rs metric)))"
  by (simp add: fst_Pairs_items distinct_by_item)

lemma validate_from_ok: "validate_from i rs = Inr () \<longleftrightarrow> (\<forall>r \<in> set rs. \<forall>j. validate_one j r = None)"
proof (induction rs arbitrary: i)
  case (Cons r rs)
  have "validate_one i r = None \<longleftrightarrow> (\<forall>j. validate_one j r = None)"
    by (auto simp: validate_one_def split: if_splits option.splits)
  then show ?case using Cons by (auto split: option.splits)
qed simp

lemma validate_one_ok:
  "validate_one i r = None \<longleftrightarrow>
     res_Item r \<noteq> [] \<and> ToLower (res_Arm r) \<in> {''incumbent'', ''candidate''} \<and>
     (\<forall>kv \<in> set (res_Metrics r). \<not> bad_metric kv)"
proof (cases "find bad_metric (res_Metrics r)")
  case None
  then have "\<forall>kv \<in> set (res_Metrics r). \<not> bad_metric kv" by (auto simp: find_None_iff)
  with None show ?thesis by (auto simp: validate_one_def)
next
  case (Some kv)
  then have "\<not> (\<forall>kv \<in> set (res_Metrics r). \<not> bad_metric kv)" by (auto dest: find_SomeD)
  with Some show ?thesis by (cases kv) (auto simp: validate_one_def)
qed

lemma Validate_ok_iff:
  "Validate rs = Inr () \<longleftrightarrow> (\<forall>r \<in> set rs. res_Item r \<noteq> [] \<and>
     ToLower (res_Arm r) \<in> {''incumbent'', ''candidate''} \<and>
     (\<forall>kv \<in> set (res_Metrics r). \<not> bad_metric kv))"
  by (simp add: Validate_def validate_from_ok validate_one_ok)

lemma not_NaN_Inf_finite: "\<not> isNaN v \<Longrightarrow> \<not> isInf v \<Longrightarrow> finite64 v"
  by (cases v) (auto simp: isNaN_def isInf_def feq_def finite64_def lit_1e308_def)

lemma small_not_Inf: "\<bar>x\<bar> \<le> 1000 \<Longrightarrow> \<not> isInf (Fin x)"
  by (auto simp: isInf_def lit_1e308_def)

lemma Fin_not_NaN [simp]: "\<not> isNaN (Fin x)"
  by (simp add: isNaN_def feq_def)

section \<open>Properties\<close>

text \<open>
  Pairing accounts for every item the scorer mentioned, exactly once: the paired items and the
  dropped items are each sorted and distinct, they are disjoint, and together they are the items of
  the results.  A gate can therefore always report how much of the corpus was measured.
\<close>

theorem pairs_partition_items:
  "(case Pairs results metric of (paired, dropped) \<Rightarrow>
      sorted (map pair_Item paired) \<and> distinct (map pair_Item paired) \<and>
      sorted dropped \<and> distinct dropped \<and>
      set (map pair_Item paired) \<inter> set dropped = {} \<and>
      set (map pair_Item paired) \<union> set dropped = res_Item ` set results)"
proof -
  let ?items = "sort (keys (by_item results))"
  let ?C = "\<lambda>item. Complete (lookup_or (new_Pair item) (by_item results) item) metric"
  have f: "map pair_Item (fst (Pairs results metric)) = filter ?C ?items"
    by (rule fst_Pairs_items)
  have d: "snd (Pairs results metric) = filter (\<lambda>item. \<not> ?C item) ?items"
    by (simp add: Pairs_def Let_def)
  have s: "set ?items = res_Item ` set results" by (simp add: set_by_item)
  have "sorted ?items" "distinct ?items" by (simp_all add: distinct_by_item)
  then show ?thesis
    unfolding case_prod_beta f d
    using sorted_filter [of "\<lambda>x. x" ?items] by (auto simp: s [symmetric])
qed

text \<open>
  A pair that reaches the comparison is two real measurements of one item: both of its results
  were returned by the scorer for that item, under the incumbent and the candidate arm
  respectively, and once the scorer's output has passed validation both hold a finite number under
  the metric, so no NaN and no infinity reaches a test.
\<close>

theorem pairs_are_finite_measurements:
  assumes "Validate results = Inr ()" and "p \<in> set (fst (Pairs results metric))"
  shows "pair_Incumbent p \<in> set results \<and> pair_Candidate p \<in> set results \<and>
    res_Item (pair_Incumbent p) = pair_Item p \<and> res_Item (pair_Candidate p) = pair_Item p \<and>
    ToLower (res_Arm (pair_Incumbent p)) = ''incumbent'' \<and>
    ToLower (res_Arm (pair_Candidate p)) = ''candidate'' \<and>
    (\<exists>a b. map_of (res_Metrics (pair_Incumbent p)) metric = Some a \<and> finite64 a \<and>
           map_of (res_Metrics (pair_Candidate p)) metric = Some b \<and> finite64 b)"
proof -
  note s = Pairs_sound [OF assms(2)]
  obtain a b where a: "map_of (res_Metrics (pair_Incumbent p)) metric = Some a"
    and b: "map_of (res_Metrics (pair_Candidate p)) metric = Some b"
    using s(1) by (auto simp: Complete_def has_key_def split: if_splits)
  have "finite64 a" "finite64 b"
    using assms(1) s(2,3) map_of_SomeD [OF a] map_of_SomeD [OF b]
    by (force simp: Validate_ok_iff bad_metric_def intro: not_NaN_Inf_finite)+
  with s a b show ?thesis by blast
qed

definition example_results :: "Result list" where
  "example_results =
     [\<lparr> res_Item = ''s1'', res_Arm = ''incumbent'', res_Metrics = [(''task'', Fin (1/2))],
        res_Metadata = [], res_Error = [] \<rparr>,
      \<lparr> res_Item = ''s1'', res_Arm = ''Candidate'', res_Metrics = [(''task'', Fin (3/4))],
        res_Metadata = [], res_Error = [] \<rparr>]"

lemma ToLower_arms [simp]:
  "ToLower ''incumbent'' = ''incumbent''" "ToLower ''candidate'' = ''candidate''"
  "ToLower ''Candidate'' = ''candidate''"
  by code_simp+

lemma example_results_valid: "Validate example_results = Inr ()"
  by (simp add: Validate_ok_iff example_results_def bad_metric_def small_not_Inf)

lemma example_results_paired: "map pair_Item (fst (Pairs example_results ''task'')) = [''s1'']"
  by code_simp

theorem pairs_are_finite_measurements_witness:
  "\<exists>p. p \<in> set (fst (Pairs example_results ''task'')) \<and> pair_Incumbent p \<in> set example_results"
proof -
  from example_results_paired obtain p where "p \<in> set (fst (Pairs example_results ''task''))"
    by (cases "fst (Pairs example_results ''task'')") auto
  then show ?thesis using pairs_are_finite_measurements [OF example_results_valid] by blast
qed

end
