(* ===== verification/Analysis.thy ===== *)
theory Analysis
  imports Score
begin

text \<open>
  \<open>internal/analysis/analysis.go\<close> and \<open>remote.go\<close>: what an analyzer is given, what it returns,
  and the checks on both.  A test name and a direction are the API's datatypes, because the
  program converts between the two string types without changing the text.
\<close>

record Metric =
  metric_Name :: string
  metric_Test :: GateTest
  metric_Margin :: f64
  metric_Threshold :: f64
  metric_Alpha :: f64
  metric_Direction :: MetricDirection

datatype Design = DesignPaired | DesignUnpaired | DesignOther string

record Observation =
  obs_Item :: string
  obs_Incumbent :: metrics
  obs_Candidate :: metrics

record Missingness =
  mi_Attempted :: int
  mi_BothScored :: int
  mi_CandidateOnlyFailed :: int
  mi_IncumbentOnlyFailed :: int
  mi_BothFailed :: int

definition zero_Missingness :: Missingness where
  "zero_Missingness =
     \<lparr> mi_Attempted = 0, mi_BothScored = 0, mi_CandidateOnlyFailed = 0,
       mi_IncumbentOnlyFailed = 0, mi_BothFailed = 0 \<rparr>"

record MissingnessPolicy =
  mp_MaxRate :: f64
  mp_Alpha :: f64

text \<open>The zero policy, which a request that sets none carries.\<close>

definition zero_MissingnessPolicy :: MissingnessPolicy where
  "zero_MissingnessPolicy = \<lparr> mp_MaxRate = 0, mp_Alpha = 0 \<rparr>"

record MissingnessCheck =
  mc_Pass :: bool
  mc_Rate :: f64
  mc_PValue :: f64
  mc_Detail :: msg

record Request =
  rq_Agent :: string
  rq_Incumbent :: string
  rq_Candidate :: string
  rq_Primary :: Metric
  rq_Guardrails :: "Metric list"
  rq_Observations :: "Observation list"
  rq_Missing :: Missingness
  rq_MissingPolicy :: MissingnessPolicy
  rq_Reasons :: "string list"
  rq_Design :: Design
  rq_Seed :: int

datatype Outcome = OutcomePromote | OutcomeWaveOff | OutcomeInconclusive | OutcomeOther string

text \<open>\<open>string(outcome)\<close>, as the status records it.\<close>

fun Outcome_string :: "Outcome \<Rightarrow> string" where
  "Outcome_string OutcomePromote = ''promote''"
| "Outcome_string OutcomeWaveOff = ''wave-off''"
| "Outcome_string OutcomeInconclusive = ''inconclusive''"
| "Outcome_string (OutcomeOther s) = s"

record MetricResult =
  mr_Name :: string
  mr_Test :: GateTest
  mr_Pass :: bool
  mr_IncumbentMean :: f64
  mr_CandidateMean :: f64
  mr_Delta :: f64
  mr_CILower :: f64
  mr_CIUpper :: f64
  mr_Inferior :: bool
  mr_Indeterminate :: bool
  mr_Alpha :: f64
  mr_N :: int
  mr_Detail :: msg

definition new_MetricResult :: "string \<Rightarrow> GateTest \<Rightarrow> int \<Rightarrow> f64 \<Rightarrow> MetricResult" where
  "new_MetricResult name test n alpha =
     \<lparr> mr_Name = name, mr_Test = test, mr_Pass = False, mr_IncumbentMean = 0, mr_CandidateMean = 0,
       mr_Delta = 0, mr_CILower = 0, mr_CIUpper = 0, mr_Inferior = False, mr_Indeterminate = False,
       mr_Alpha = alpha, mr_N = n, mr_Detail = no_msg \<rparr>"

record Verdict =
  vd_Outcome :: Outcome
  vd_Reason :: msg
  vd_Primary :: MetricResult
  vd_Guardrails :: "MetricResult list"
  vd_N :: int
  vd_Missing :: Missingness
  vd_MissingCheck :: MissingnessCheck
  vd_Seed :: int
  vd_Observations :: "Observation list"
  vd_Analyzer :: string

definition zero_Verdict :: Verdict where
  "zero_Verdict =
     \<lparr> vd_Outcome = OutcomeOther [], vd_Reason = no_msg,
       vd_Primary = new_MetricResult [] (GateTestOther []) 0 0, vd_Guardrails = [], vd_N = 0,
       vd_Missing = zero_Missingness,
       vd_MissingCheck = \<lparr> mc_Pass = False, mc_Rate = 0, mc_PValue = 0, mc_Detail = no_msg \<rparr>,
       vd_Seed = 0, vd_Observations = [], vd_Analyzer = [] \<rparr>"

type_synonym analyzer = "Request \<Rightarrow> Verdict result"

section \<open>The request\<close>

fun first_dup :: "string list \<Rightarrow> Observation list \<Rightarrow> string option" where
  "first_dup seen [] = None"
| "first_dup seen (o' # os) =
     (if obs_Item o' \<in> set seen then Some (obs_Item o') else first_dup (obs_Item o' # seen) os)"

definition Request_Validate :: "Request \<Rightarrow> unit result" where
  "Request_Validate r =
     (if metric_Name (rq_Primary r) = [] then Inl (Text ''no primary metric'')
      else if length (rq_Observations r) = 0 then Inl (Text ''no observations'')
      else if rq_Design r = DesignUnpaired then Inr ()
      else case first_dup [] (rq_Observations r) of
        Some item \<Rightarrow> Inl (Sprintf ''item %q appears more than once'' [AStr item])
      | None \<Rightarrow>
        if metric_Alpha (rq_Primary r) < 0 \<or> 1 \<le> metric_Alpha (rq_Primary r)
        then Inl (Sprintf ''primary alpha is %v'' [AFloat (metric_Alpha (rq_Primary r))])
        else if list_ex (\<lambda>g. metric_Name g = []) (rq_Guardrails r)
        then Inl (Text ''a guardrail has no metric name'')
        else Inr ())"

definition Arms :: "Request \<Rightarrow> string \<Rightarrow> f64 list \<times> f64 list" where
  "Arms r metric =
     (List.map_filter (\<lambda>o'. map_of (obs_Incumbent o') metric) (rq_Observations r),
      List.map_filter (\<lambda>o'. map_of (obs_Candidate o') metric) (rq_Observations r))"

definition paired_value :: "string \<Rightarrow> Observation \<Rightarrow> (f64 \<times> f64 \<times> string) option" where
  "paired_value metric o' =
     (case (map_of (obs_Incumbent o') metric, map_of (obs_Candidate o') metric) of
        (Some a, Some b) \<Rightarrow> Some (a, b, obs_Item o') | _ \<Rightarrow> None)"

definition Request_Values :: "Request \<Rightarrow> string \<Rightarrow> f64 list \<times> f64 list \<times> string list" where
  "Request_Values r metric =
     (let vs = List.map_filter (paired_value metric) (rq_Observations r)
      in (map fst vs, map (fst \<circ> snd) vs, map (snd \<circ> snd) vs))"

definition ParseTest :: "string \<Rightarrow> GateTest result" where
  "ParseTest s =
     (if s = ''threshold'' then Inr GateThreshold
      else if s = ''paired-bootstrap'' then Inr GatePairedBootstrap
      else if s = ''sequential'' then Inr GateSequential
      else Inl (Sprintf ''unknown test %q'' [AStr s]))"

definition seedOrDefault :: "Request \<Rightarrow> int" where
  "seedOrDefault r = (if rq_Seed r = 0 then 1 else rq_Seed r)"

section \<open>The remote analyzer\<close>

definition Verdict_Validate :: "Verdict \<Rightarrow> unit result" where
  "Verdict_Validate v =
     (case vd_Outcome v of
        OutcomeOther s \<Rightarrow> Inl (Sprintf ''outcome is %q, which this build does not recognise'' [AStr s])
      | _ \<Rightarrow>
        if vd_Outcome v = OutcomePromote \<and> vd_N v = 0
        then Inl (Text ''promotion was returned with no observations behind it'')
        else Inr ())"

text \<open>
  What the network does with a request is outside the program: the transport fails, or answers with
  a status code and a body.  Decoding the body with \<open>encoding/json\<close> is the parameter
  \<open>decode\<close>.
\<close>

datatype http_reply = HttpError msg | HttpReply int string

record Remote =
  rm_Endpoint :: string

definition Remote_Name :: "Remote \<Rightarrow> string" where
  "Remote_Name r = ''remote:'' @ rm_Endpoint r"

definition truncate_text :: "string \<Rightarrow> msg" where
  "truncate_text s =
     (if length s > 1000 then Sprintf ''%s (truncated)'' [AStr (take 1000 s)] else Text s)"

definition Remote_Analyze ::
    "(Request \<Rightarrow> http_reply) \<Rightarrow> (string \<Rightarrow> Verdict result) \<Rightarrow> Remote \<Rightarrow> analyzer" where
  "Remote_Analyze post decode r req =
     (if rm_Endpoint r = [] then Inl (Text ''analyzer: no endpoint configured'')
      else bindR (Request_Validate req) (\<lambda>_.
        (case post req of
          HttpError e \<Rightarrow> Inl (Sprintf ''analyzer %s unreachable: %w'' [AStr (rm_Endpoint r), AErr e])
        | HttpReply status body \<Rightarrow>
          if status < 200 \<or> 300 \<le> status
          then Inl (Sprintf ''analyzer %s returned %s: %s''
                      [AStr (rm_Endpoint r), AInt status, AMsg (truncate_text body)])
          else (case decode body of
            Inl e \<Rightarrow> Inl (Sprintf ''analyzer %s did not return a verdict: %w''
                            [AStr (rm_Endpoint r), AErr e, AMsg (truncate_text body)])
          | Inr verdict \<Rightarrow>
            (case Verdict_Validate verdict of
              Inl e \<Rightarrow> Inl (Sprintf ''analyzer %s: %w'' [AStr (rm_Endpoint r), AErr e])
            | Inr _ \<Rightarrow> Inr (if vd_Analyzer verdict = [] then verdict\<lparr>vd_Analyzer := Remote_Name r\<rparr>
                            else verdict))))))"

section \<open>The contract of an analyzer\<close>

text \<open>
  "An implementation must never return OutcomePromote when it could not complete": a promotion
  rests on at least one measurement.  Everything that consumes an analyzer is proved against this
  interface.
\<close>

locale measured_analyzer =
  fixes analyze :: analyzer
  assumes promote_measured:
    "analyze req = Inr v \<Longrightarrow> vd_Outcome v = OutcomePromote \<Longrightarrow> vd_N v \<noteq> 0"
  and known_outcome:
    "analyze req = Inr v \<Longrightarrow> vd_Outcome v \<in> {OutcomePromote, OutcomeWaveOff, OutcomeInconclusive}"
begin

lemma unmeasured_not_promoted:
  "analyze req = Inr v \<Longrightarrow> vd_N v = 0 \<Longrightarrow> vd_Outcome v \<in> {OutcomeWaveOff, OutcomeInconclusive}"
  using promote_measured known_outcome by fastforce

end

lemma Verdict_Validate_ok:
  "Verdict_Validate v = Inr () \<longleftrightarrow>
     vd_Outcome v \<in> {OutcomePromote, OutcomeWaveOff, OutcomeInconclusive} \<and>
     (vd_Outcome v = OutcomePromote \<longrightarrow> vd_N v \<noteq> 0)"
  by (cases "vd_Outcome v") (auto simp: Verdict_Validate_def)

lemma Remote_Analyze_Inr:
  assumes "Remote_Analyze post decode r req = Inr v"
  shows "Request_Validate req = Inr () \<and>
    (\<exists>status body w. post req = HttpReply status body \<and> 200 \<le> status \<and> status < 300 \<and>
       decode body = Inr w \<and> Verdict_Validate w = Inr () \<and>
       v = (if vd_Analyzer w = [] then w\<lparr>vd_Analyzer := Remote_Name r\<rparr> else w))"
  using assms
  by (auto simp: Remote_Analyze_def bindR_Inr_iff split: if_splits http_reply.splits sum.splits)

interpretation remote: measured_analyzer "Remote_Analyze post decode r"
  for post decode r
  by unfold_locales
     (auto dest!: Remote_Analyze_Inr simp: Verdict_Validate_ok split: if_splits)

section \<open>Lemmas about requests\<close>

lemma first_dup_None:
  "first_dup seen os = None \<longleftrightarrow> distinct (map obs_Item os) \<and> set seen \<inter> obs_Item ` set os = {}"
  by (induction os arbitrary: seen) auto

lemma Request_Validate_paired:
  "rq_Design r \<noteq> DesignUnpaired \<Longrightarrow> Request_Validate r = Inr () \<longleftrightarrow>
     metric_Name (rq_Primary r) \<noteq> [] \<and> rq_Observations r \<noteq> [] \<and>
     distinct (map obs_Item (rq_Observations r)) \<and>
     \<not> metric_Alpha (rq_Primary r) < 0 \<and> \<not> 1 \<le> metric_Alpha (rq_Primary r) \<and>
     (\<forall>g \<in> set (rq_Guardrails r). metric_Name g \<noteq> [])"
  using first_dup_None [of "[]" "rq_Observations r"]
  by (cases "first_dup [] (rq_Observations r)") (auto simp: Request_Validate_def list_ex_iff)

lemma Request_Validate_unpaired:
  "rq_Design r = DesignUnpaired \<Longrightarrow> Request_Validate r = Inr () \<longleftrightarrow>
     metric_Name (rq_Primary r) \<noteq> [] \<and> rq_Observations r \<noteq> []"
  by (auto simp: Request_Validate_def)

lemma length_Request_Values:
  "length (fst (Request_Values r m)) = length (fst (snd (Request_Values r m)))"
  by (simp add: Request_Values_def Let_def)

end
