(* ===== verification/Missing.thy ===== *)
theory Missing
  imports Analysis
begin

text \<open>
  \<open>internal/analysis/missingness.go\<close>: whether scoring failed too often, or too unevenly between
  the arms, for the surviving items to be a fair comparison.  The exact binomial is computed in
  floating point through \<open>math.Log\<close>, \<open>math.Exp\<close> and \<open>math.Lgamma\<close>, which are the
  fields of \<open>mathlib\<close>.
\<close>

record mathlib =
  m_Log :: "f64 \<Rightarrow> f64"
  m_Exp :: "f64 \<Rightarrow> f64"
  m_Sqrt :: "f64 \<Rightarrow> f64"
  m_Lgamma :: "f64 \<Rightarrow> f64"

definition Dropped :: "Missingness \<Rightarrow> int" where
  "Dropped m = mi_CandidateOnlyFailed m + mi_IncumbentOnlyFailed m + mi_BothFailed m"

definition Missing_Rate :: "Missingness \<Rightarrow> f64" where
  "Missing_Rate m =
     (if mi_Attempted m = 0 then 0 else of_int64 (Dropped m) / of_int64 (mi_Attempted m))"

text \<open>The literals \<open>0.20\<close>, \<open>0.05\<close> and \<open>0.5\<close> as the compiler rounds them.\<close>

definition DefaultMaxDropRate :: f64 where
  "DefaultMaxDropRate = fround (1 / 5)"

definition DefaultAlpha :: f64 where
  "DefaultAlpha = fround (1 / 20)"

definition half :: f64 where
  "half = Fin (1 / 2)"

definition logChoose :: "mathlib \<Rightarrow> int \<Rightarrow> int \<Rightarrow> f64" where
  "logChoose M n k =
     (if k < 0 \<or> n < k then Inf True
      else m_Lgamma M (of_int64 n + 1) - m_Lgamma M (of_int64 k + 1)
             - m_Lgamma M (of_int64 (n - k) + 1))"

fun mcnemar_tail :: "mathlib \<Rightarrow> int \<Rightarrow> f64 \<Rightarrow> nat \<Rightarrow> nat \<Rightarrow> f64 \<Rightarrow> f64" where
  "mcnemar_tail M n logHalfN i 0 tail = tail"
| "mcnemar_tail M n logHalfN i (Suc left) tail =
     mcnemar_tail M n logHalfN (Suc i) left (tail + m_Exp M (logChoose M n (int i) + logHalfN))"

definition mcNemarExact :: "mathlib \<Rightarrow> int \<Rightarrow> int \<Rightarrow> f64" where
  "mcNemarExact M b c =
     (let n = b + c
      in if n = 0 then 1
         else let k = (if c < b then c else b);
                  logHalfN = of_int64 n * m_Log M half;
                  tail = mcnemar_tail M n logHalfN 0 (nat (k + 1)) 0;
                  p = Fin 2 * tail
              in if 1 < p then 1 else p)"

definition miss_maxRate :: "MissingnessPolicy \<Rightarrow> f64" where
  "miss_maxRate policy = (if mp_MaxRate policy \<le> 0 then DefaultMaxDropRate else mp_MaxRate policy)"

definition miss_alpha :: "MissingnessPolicy \<Rightarrow> f64 \<Rightarrow> f64" where
  "miss_alpha policy fallbackAlpha =
     (let alpha = (if mp_Alpha policy \<le> 0 then fallbackAlpha else mp_Alpha policy)
      in if alpha \<le> 0 then DefaultAlpha else alpha)"

definition CheckMissingness ::
    "mathlib \<Rightarrow> Missingness \<Rightarrow> MissingnessPolicy \<Rightarrow> f64 \<Rightarrow> MissingnessCheck" where
  "CheckMissingness M m policy fallbackAlpha =
     (let maxRate = miss_maxRate policy;
          alpha = miss_alpha policy fallbackAlpha;
          rate = Missing_Rate m
      in if mi_Attempted m = 0
         then \<lparr> mc_Pass = False, mc_Rate = rate, mc_PValue = 0, mc_Detail = Text ''nothing was attempted'' \<rparr>
         else
           let pvalue = mcNemarExact M (mi_CandidateOnlyFailed m) (mi_IncumbentOnlyFailed m)
           in if maxRate < rate
              then \<lparr> mc_Pass = False, mc_Rate = rate, mc_PValue = pvalue,
                     mc_Detail = Sprintf ''%d of %d item(s) could not be scored''
                       [AInt (Dropped m), AInt (mi_Attempted m), AFloat (rate * Fin 100),
                        AFloat (maxRate * Fin 100)] \<rparr>
              else
                let b = mi_CandidateOnlyFailed m; c = mi_IncumbentOnlyFailed m
                in if pvalue < alpha
                   then \<lparr> mc_Pass = False, mc_Rate = rate, mc_PValue = pvalue,
                          mc_Detail = Sprintf ''scoring failed on %d item(s) for the %s and %d for the other arm''
                            [AInt (if b < c then c else b),
                             AStr (if b < c then ''incumbent'' else ''candidate''),
                             AInt (if b < c then b else c), AFloat pvalue] \<rparr>
                   else \<lparr> mc_Pass = True, mc_Rate = rate, mc_PValue = pvalue,
                          mc_Detail = Sprintf ''%d of %d item(s) scored under both arms''
                            [AInt (mi_BothScored m), AInt (mi_Attempted m), AFloat (rate * Fin 100),
                             AFloat pvalue] \<rparr>)"

section \<open>Lemmas\<close>

lemma mcNemarExact_sym: "mcNemarExact M b c = mcNemarExact M c b"
proof -
  have "(if c < b then c else b) = (if b < c then b else c)" by simp
  then show ?thesis by (simp add: mcNemarExact_def add.commute Let_def)
qed

lemma mcNemarExact_no_discordant [simp]: "mcNemarExact M 0 0 = 1"
  by (simp add: mcNemarExact_def)

lemma mcNemarExact_le_1: "\<not> 1 < mcNemarExact M b c"
  by (simp add: mcNemarExact_def Let_def)

lemma CheckMissingness_Pass_iff:
  "mc_Pass (CheckMissingness M m policy a) \<longleftrightarrow>
     mi_Attempted m \<noteq> 0 \<and> \<not> miss_maxRate policy < Missing_Rate m \<and>
     \<not> mcNemarExact M (mi_CandidateOnlyFailed m) (mi_IncumbentOnlyFailed m) < miss_alpha policy a"
  by (simp add: CheckMissingness_def Let_def)

end
