(* ===== verification/Stage.thy ===== *)
theory Stage
  imports Judges Replay Corpus Missing
begin

text \<open>
  \<open>internal/rollout/stage.go\<close>: an offline stage.  It replays the same sessions against both arms,
  scores the outputs, and hands the analyzer the pairs.  The replayer, the scorer, the analyzer and
  the clock are fields of the runner that pass the world along.
\<close>

record StageResult =
  sr_Name :: string
  sr_Sessions :: int
  sr_Scored :: int
  sr_Excluded :: int
  sr_Exclusions :: "msg list"
  sr_Missing :: Missingness
  sr_JudgeCheck :: JudgeCheck
  sr_Verdict :: Verdict
  sr_Started :: time
  sr_Ended :: time

definition new_StageResult :: "string \<Rightarrow> time \<Rightarrow> StageResult" where
  "new_StageResult name started =
     \<lparr> sr_Name = name, sr_Sessions = 0, sr_Scored = 0, sr_Excluded = 0, sr_Exclusions = [],
       sr_Missing = zero_Missingness, sr_JudgeCheck = \<lparr> jc_Pass = False, jc_Reason = no_msg \<rparr>,
       sr_Verdict = zero_Verdict, sr_Started = started, sr_Ended = 0 \<rparr>"

record 'w Runner =
  rn_Corpus :: "'w store"
  rn_Replay :: "string \<Rightarrow> AgentManifestSpec \<Rightarrow> ArmLabel \<Rightarrow> 'w \<Rightarrow> Report result \<times> 'w"
  rn_Score :: "Ref list \<Rightarrow> 'w \<Rightarrow> Result list result \<times> 'w"
  rn_Analyze :: "Request \<Rightarrow> 'w \<Rightarrow> Verdict result \<times> 'w"
  rn_CtxErr :: "'w \<Rightarrow> msg option \<times> 'w"
  rn_Now :: "'w \<Rightarrow> time \<times> 'w"
  rn_OutputCorpus :: string
  rn_BlobDir :: string

section \<open>The request\<close>

definition toMetric :: "GateMetric \<Rightarrow> Metric" where
  "toMetric g =
     \<lparr> metric_Name = gm_Metric g, metric_Test = gm_Test g,
       metric_Margin = (case gm_Margin g of None \<Rightarrow> 0 | Some x \<Rightarrow> x),
       metric_Threshold = (case gm_Threshold g of None \<Rightarrow> 0 | Some x \<Rightarrow> x),
       metric_Alpha = (case gm_Alpha g of None \<Rightarrow> 0 | Some x \<Rightarrow> x),
       metric_Direction = (if gm_Direction g = DirectionOther [] then HigherIsBetter else gm_Direction g) \<rparr>"

record arms =
  ar_incumbent :: bool
  ar_candidate :: bool

definition note_arm :: "Result \<Rightarrow> (string \<times> arms) list \<Rightarrow> (string \<times> arms) list" where
  "note_arm r byItem =
     (let a = lookup_or \<lparr> ar_incumbent = False, ar_candidate = False \<rparr> byItem (res_Item r);
          a = (if res_Arm r = ''incumbent'' then a\<lparr>ar_incumbent := Scored r\<rparr>
               else if res_Arm r = ''candidate'' then a\<lparr>ar_candidate := Scored r\<rparr> else a)
      in AList.update (res_Item r) a byItem)"

definition arms_by_item :: "Result list \<Rightarrow> (string \<times> arms) list" where
  "arms_by_item results = fold note_arm results []"

definition count_arms :: "(arms \<Rightarrow> bool) \<Rightarrow> (string \<times> arms) list \<Rightarrow> int" where
  "count_arms P byItem = int (length (filter (P \<circ> snd) byItem))"

definition missingnessOf :: "Result list \<Rightarrow> Pair list \<Rightarrow> int \<Rightarrow> Missingness" where
  "missingnessOf results pairs attempted =
     (let byItem = arms_by_item results;
          unreached = attempted - int (length byItem)
      in \<lparr> mi_Attempted = attempted, mi_BothScored = int (length pairs),
           mi_CandidateOnlyFailed = count_arms (\<lambda>a. ar_incumbent a \<and> \<not> ar_candidate a) byItem,
           mi_IncumbentOnlyFailed = count_arms (\<lambda>a. \<not> ar_incumbent a \<and> ar_candidate a) byItem,
           mi_BothFailed = count_arms (\<lambda>a. \<not> ar_incumbent a \<and> \<not> ar_candidate a) byItem +
             (if unreached > 0 then unreached else 0) \<rparr>)"

definition buildRequest ::
    "Stage \<Rightarrow> AgentManifestSpec \<Rightarrow> AgentManifestSpec \<Rightarrow> Result list \<Rightarrow> int \<Rightarrow> Request \<times> string list" where
  "buildRequest stage incumbent candidate results attempted =
     (let primary = toMetric (gate_Primary (stage_Gate stage));
          (pairs, dropped) = Pairs results (metric_Name primary)
      in (\<lparr> rq_Agent = Agent incumbent, rq_Incumbent = BehaviorDigest incumbent,
            rq_Candidate = BehaviorDigest candidate, rq_Primary = primary,
            rq_Guardrails = map toMetric (gate_Guardrails (stage_Gate stage)),
            rq_Observations = map (\<lambda>p. \<lparr> obs_Item = pair_Item p,
               obs_Incumbent = res_Metrics (pair_Incumbent p),
               obs_Candidate = res_Metrics (pair_Candidate p) \<rparr>) pairs,
            rq_Missing = missingnessOf results pairs attempted,
            rq_MissingPolicy = zero_MissingnessPolicy, rq_Reasons = [],
            rq_Design = DesignOther [], rq_Seed = 1 \<rparr>, dropped))"

section \<open>Replaying\<close>

definition selectSessions ::
    "'w Runner \<Rightarrow> Stage \<Rightarrow> AgentManifestSpec \<Rightarrow> 'w \<Rightarrow> string list result \<times> 'w" where
  "selectSessions R stage spec w =
     (if 0 < length (cs_Sessions (stage_Corpus stage)) then (Inr (cs_Sessions (stage_Corpus stage)), w)
      else (case sto_List (rn_Corpus R)
                   (no_filter\<lparr>fl_Agent := Agent spec, fl_Limit := cs_Limit (stage_Corpus stage)\<rparr>) w of
              (Inl e, w1) \<Rightarrow> (Inl e, w1)
            | (Inr headers, w1) \<Rightarrow> (Inr (sort (map hd_SessionID headers)), w1)))"

definition degradation :: "Report \<Rightarrow> msg" where
  "degradation report =
     (if rp_NoOps report = 0 then no_msg
      else Sprintf ''%d write(s) refused and synthesised'' [AInt (rp_NoOps report)])"

definition dropItem :: "Ref list \<Rightarrow> string \<Rightarrow> Ref list" where
  "dropItem refs item = filter (\<lambda>r. ref_Item r \<noteq> item) refs"

definition stage_ref :: "'w Runner \<Rightarrow> string \<Rightarrow> ArmLabel \<Rightarrow> AgentManifestSpec \<Rightarrow> Report \<Rightarrow> Ref" where
  "stage_ref R session label spec report =
     \<lparr> ref_Item = session, ref_Arm = ArmLabel_string label, ref_Session = OutputName session label,
       ref_Corpus = rn_OutputCorpus R, ref_Blobs = rn_BlobDir R, ref_Manifest = BehaviorDigest spec,
       ref_Degraded = 0 < rp_NoOps report, ref_Reason = degradation report \<rparr>"

text \<open>The inner loop over the arms: the references queued, and why it broke off if it did.\<close>

fun replay_arms ::
    "'w Runner \<Rightarrow> string \<Rightarrow> (ArmLabel \<times> AgentManifestSpec) list \<Rightarrow> 'w \<Rightarrow> (Ref list \<times> msg option) result \<times> 'w" where
  "replay_arms R session [] w = (Inr ([], None), w)"
| "replay_arms R session ((label, spec) # rest) w =
     (case rn_Replay R session spec label w of
        (Inl e, w1) \<Rightarrow>
          (Inl (Sprintf ''replaying %s as %s: %w'' [AStr session, AStr (ArmLabel_string label), AErr e]), w1)
      | (Inr report, w1) \<Rightarrow>
          (case Usable report of
             (False, why) \<Rightarrow>
               (Inr ([], Some (Sprintf ''%s (%s): %s'' [AStr session, AStr (ArmLabel_string label), AMsg why])), w1)
           | (True, _) \<Rightarrow>
               (case replay_arms R session rest w1 of
                  (Inl e, w2) \<Rightarrow> (Inl e, w2)
                | (Inr (refs, why), w2) \<Rightarrow> (Inr (stage_ref R session label spec report # refs, why), w2))))"

record replayed =
  rs_refs :: "Ref list"
  rs_excluded :: int
  rs_exclusions :: "msg list"

fun replay_sessions ::
    "'w Runner \<Rightarrow> AgentManifestSpec \<Rightarrow> AgentManifestSpec \<Rightarrow> string list \<Rightarrow> replayed \<Rightarrow> 'w \<Rightarrow> replayed result \<times> 'w" where
  "replay_sessions R incumbent candidate [] acc w = (Inr acc, w)"
| "replay_sessions R incumbent candidate (session # sessions) acc w =
     (case rn_CtxErr R w of
        (Some e, w1) \<Rightarrow> (Inl e, w1)
      | (None, w1) \<Rightarrow>
          (case replay_arms R session [(ArmIncumbent, incumbent), (ArmCandidate, candidate)] w1 of
             (Inl e, w2) \<Rightarrow> (Inl e, w2)
           | (Inr (refs, None), w2) \<Rightarrow>
               replay_sessions R incumbent candidate sessions (acc\<lparr>rs_refs := rs_refs acc @ refs\<rparr>) w2
           | (Inr (refs, Some why), w2) \<Rightarrow>
               replay_sessions R incumbent candidate sessions
                 \<lparr> rs_refs = dropItem (rs_refs acc @ refs) session, rs_excluded = rs_excluded acc + 1,
                   rs_exclusions = rs_exclusions acc @ [why] \<rparr> w2))"

definition no_replays :: replayed where
  "no_replays = \<lparr> rs_refs = [], rs_excluded = 0, rs_exclusions = [] \<rparr>"

section \<open>The stage\<close>

definition joinAll :: "msg list \<Rightarrow> msg" where
  "joinAll items =
     (case items of [] \<Rightarrow> no_msg
      | s # ss \<Rightarrow> foldl (\<lambda>out s. Concat (Concat out (Text (CHR 0x0A # ''  ''))) s) s ss)"

definition joinLimited :: "msg list \<Rightarrow> nat \<Rightarrow> msg" where
  "joinLimited items mx =
     (if mx < length items
      then Sprintf ''%s and %d more'' [AMsg (joinAll (take mx items)), AInt (int (length items - mx))]
      else joinAll items)"

definition stage_floor :: "Stage \<Rightarrow> f64" where
  "stage_floor stage = (case gate_KappaFloor (stage_Gate stage) of None \<Rightarrow> 0 | Some x \<Rightarrow> x)"

text \<open>From the queued references on: scoring, the request and the verdict.\<close>

definition score_and_analyze ::
    "'w Runner \<Rightarrow> Stage \<Rightarrow> AgentManifestSpec \<Rightarrow> AgentManifestSpec \<Rightarrow> StageResult \<Rightarrow> replayed \<Rightarrow> 'w
      \<Rightarrow> StageResult result \<times> 'w" where
  "score_and_analyze R stage incumbent candidate result acc w =
     (if length (rs_refs acc) = 0
      then (Inl (Sprintf ''every session was excluded, so nothing was measured''
                   [AMsg (joinLimited (rs_exclusions acc) 5)]), w)
      else (case rn_Score R (rs_refs acc) w of
        (Inl e, w1) \<Rightarrow> (Inl (Sprintf ''scoring: %w'' [AErr e]), w1)
      | (Inr results, w1) \<Rightarrow>
          (case Validate results of
             Inl e \<Rightarrow> (Inl e, w1)
           | Inr _ \<Rightarrow>
               (case buildRequest stage incumbent candidate results (sr_Sessions result) of
                  (req, dropped) \<Rightarrow>
                    (let result = result\<lparr>sr_Scored := int (length (rq_Observations req)),
                           sr_Excluded := rs_excluded acc + int (length dropped),
                           sr_Missing := rq_Missing req,
                           sr_Exclusions := rs_exclusions acc @
                             map (\<lambda>item. Text (item @ '': scored under only one arm'')) dropped\<rparr>
                     in (case rn_Analyze R req w1 of
                           (Inl e, w2) \<Rightarrow> (Inl (Sprintf ''analyzer: %w'' [AErr e]), w2)
                         | (Inr verdict, w2) \<Rightarrow> (Inr (result\<lparr>sr_Verdict := verdict\<rparr>), w2)))))))"

text \<open>
  The result and the error, as the function returns them: the judge check alone returns both.  The
  deferred assignment reads the clock again on the way out.
\<close>

definition RunOfflineReplay ::
    "'w Runner \<Rightarrow> Stage \<Rightarrow> AgentManifestSpec \<Rightarrow> AgentManifestSpec \<Rightarrow> 'w
      \<Rightarrow> (StageResult option \<times> msg option) \<times> 'w" where
  "RunOfflineReplay R stage incumbent candidate w =
     (case rn_Now R w of (started, w0) \<Rightarrow>
      (let jc = CheckJudges incumbent candidate (stage_floor stage);
           result = (new_StageResult (stage_Name stage) started)\<lparr>sr_JudgeCheck := jc\<rparr>
       in if \<not> jc_Pass jc
          then (case rn_Now R w0 of (ended, w1) \<Rightarrow>
                 ((Some (result\<lparr>sr_Ended := ended\<rparr>), Some (Sprintf ''%s'' [AMsg (jc_Reason jc)])), w1))
          else (case selectSessions R stage incumbent w0 of
            (Inl e, w1) \<Rightarrow> ((None, Some e), w1)
          | (Inr sessions, w1) \<Rightarrow>
              if length sessions = 0
              then ((None, Some (Sprintf ''corpus %q has no sessions for agent %q''
                                   [AStr (cs_Ref (stage_Corpus stage)), AStr (Agent incumbent)])), w1)
              else (case replay_sessions R incumbent candidate sessions no_replays w1 of
                (Inl e, w2) \<Rightarrow> ((None, Some e), w2)
              | (Inr acc, w2) \<Rightarrow>
                  (case score_and_analyze R stage incumbent candidate
                          (result\<lparr>sr_Sessions := int (length sessions)\<rparr>) acc w2 of
                     (Inl e, w3) \<Rightarrow> ((None, Some e), w3)
                   | (Inr result, w3) \<Rightarrow>
                       (case rn_Now R w3 of (ended, w4) \<Rightarrow>
                          ((Some (result\<lparr>sr_Ended := ended\<rparr>), None), w4)))))))"

section \<open>Lemmas\<close>

lemma RunOfflineReplay_ok:
  assumes "RunOfflineReplay R stage incumbent candidate w = ((res, None), w')"
  obtains sessions acc results v w1 w2 w3 w4 result where
    "jc_Pass (CheckJudges incumbent candidate (stage_floor stage))" "sessions \<noteq> []"
    "replay_sessions R incumbent candidate sessions no_replays w1 = (Inr acc, w2)"
    "rs_refs acc \<noteq> []" "rn_Score R (rs_refs acc) w2 = (Inr results, w3)" "Validate results = Inr ()"
    "rn_Analyze R (fst (buildRequest stage incumbent candidate results (int (length sessions)))) w3 = (Inr v, w4)"
    "res = Some result" "sr_Verdict result = v"
  using assms
  by (auto simp: RunOfflineReplay_def score_and_analyze_def Let_def
      split: prod.splits sum.splits if_splits)

lemma replay_arms_complete:
  "replay_arms R session arms w = (Inr (refs, None), w') \<Longrightarrow>
     map (\<lambda>r. (ref_Item r, ref_Arm r)) refs = map (\<lambda>(l, _). (session, ArmLabel_string l)) arms"
  by (induction R session arms w arbitrary: refs w' rule: replay_arms.induct)
     (auto simp: stage_ref_def split: prod.splits sum.splits bool.splits)

lemma replay_arms_item:
  "replay_arms R session arms w = (Inr (refs, why), w') \<Longrightarrow> \<forall>r \<in> set refs. ref_Item r = session"
  by (induction R session arms w arbitrary: refs w' rule: replay_arms.induct)
     (auto simp: stage_ref_def split: prod.splits sum.splits bool.splits)

definition ref_pairs :: "string list \<Rightarrow> (string \<times> string) list" where
  "ref_pairs items = concat (map (\<lambda>i. [(i, ''incumbent''), (i, ''candidate'')]) items)"

lemma ref_pairs_snoc [simp]:
  "ref_pairs [] = []"
  "ref_pairs (items @ [i]) = ref_pairs items @ [(i, ''incumbent''), (i, ''candidate'')]"
  by (simp_all add: ref_pairs_def)

lemma fst_ref_pairs: "fst ` set (ref_pairs items) = set items"
  by (induction items rule: rev_induct) auto

declare replay_arms.simps [simp del]

lemma dropItem_other:
  assumes "\<forall>r \<in> set old. ref_Item r \<noteq> i" and "\<forall>r \<in> set new. ref_Item r = i"
  shows "dropItem (old @ new) i = old"
  using assms by (auto simp: dropItem_def filter_id_conv)

lemma replay_sessions_pairs:
  assumes "replay_sessions R incumbent candidate sessions acc w = (Inr acc', w')"
    and "distinct (seen @ sessions)" and "set items \<subseteq> set seen"
    and "map (\<lambda>r. (ref_Item r, ref_Arm r)) (rs_refs acc) = ref_pairs items"
  shows "\<exists>items'. set items' \<subseteq> set items \<union> set sessions \<and> distinct items = distinct items' \<and>
    map (\<lambda>r. (ref_Item r, ref_Arm r)) (rs_refs acc') = ref_pairs items' \<and>
    int (length items') + rs_excluded acc' = int (length items) + rs_excluded acc + int (length sessions)"
  using assms
proof (induction sessions arbitrary: seen items acc w)
  case (Cons s ss)
  obtain w1 refs why w2 where a: "replay_arms R s [(ArmIncumbent, incumbent), (ArmCandidate, candidate)] w1 = (Inr (refs, why), w2)"
    and rest: "replay_sessions R incumbent candidate ss
      (case why of None \<Rightarrow> acc\<lparr>rs_refs := rs_refs acc @ refs\<rparr>
       | Some y \<Rightarrow> \<lparr> rs_refs = dropItem (rs_refs acc @ refs) s, rs_excluded = rs_excluded acc + 1,
                    rs_exclusions = rs_exclusions acc @ [y] \<rparr>) w2 = (Inr acc', w')"
    using Cons.prems(1) by (auto split: prod.splits option.splits sum.splits)
  have d: "distinct ((seen @ [s]) @ ss)" using Cons.prems(2) by simp
  have fresh: "s \<notin> set items" using Cons.prems(2,3) by auto
  have "fst ` set (map (\<lambda>r. (ref_Item r, ref_Arm r)) (rs_refs acc)) = set items"
    by (simp only: Cons.prems(4) fst_ref_pairs)
  then have old: "\<forall>r \<in> set (rs_refs acc). ref_Item r \<noteq> s" using fresh by force
  show ?case
  proof (cases why)
    case None
    have m: "map (\<lambda>r. (ref_Item r, ref_Arm r)) (rs_refs acc @ refs) = ref_pairs (items @ [s])"
      using replay_arms_complete [OF a [unfolded None]] Cons.prems(4) by simp
    have "set (items @ [s]) \<subseteq> set (seen @ [s])" using Cons.prems(3) by auto
    from Cons.IH [OF rest [unfolded None option.case] d this] m
    obtain items' where "set items' \<subseteq> set (items @ [s]) \<union> set ss" "distinct (items @ [s]) = distinct items'"
      "map (\<lambda>r. (ref_Item r, ref_Arm r)) (rs_refs acc') = ref_pairs items'"
      "int (length items') + rs_excluded acc' = int (length (items @ [s])) + rs_excluded acc + int (length ss)"
      by auto
    then show ?thesis using fresh by (intro exI [of _ items']) auto
  next
    case (Some y)
    have "dropItem (rs_refs acc @ refs) s = rs_refs acc"
      using dropItem_other [OF old] replay_arms_item [OF a] by simp
    moreover have "set items \<subseteq> set (seen @ [s])" using Cons.prems(3) by auto
    ultimately obtain items' where "set items' \<subseteq> set items \<union> set ss" "distinct items = distinct items'"
      "map (\<lambda>r. (ref_Item r, ref_Arm r)) (rs_refs acc') = ref_pairs items'"
      "int (length items') + rs_excluded acc' = int (length items) + (rs_excluded acc + 1) + int (length ss)"
      using Cons.IH [OF rest [unfolded Some option.case] d, of items] Cons.prems(4) by auto
    then show ?thesis by (intro exI [of _ items']) auto
  qed
qed auto

lemma length_arms_by_item:
  "set (keys (arms_by_item results)) = res_Item ` set results" "distinct (keys (arms_by_item results))"
proof -
  have "set (map fst (fold note_arm rs m)) = set (map fst m) \<union> res_Item ` set rs \<and>
      (distinct (map fst m) \<longrightarrow> distinct (map fst (fold note_arm rs m)))" for rs and m :: "(string \<times> arms) list"
  proof (induction rs arbitrary: m)
    case (Cons r rs)
    show ?case
      using Cons.IH [of "note_arm r m"]
      by (auto simp: note_arm_def Let_def dom_update distinct_update simp flip: image_set)
  qed simp
  from this [of results "[]"] show "set (keys (arms_by_item results)) = res_Item ` set results"
    "distinct (keys (arms_by_item results))"
    by (auto simp: arms_by_item_def keys_def)
qed

text \<open>What the arm flags of an item come to: the last result for each arm decides.\<close>

lemma arms_by_item_flags:
  assumes "\<forall>r \<in> set results. Scored r"
    and "map_of (arms_by_item results) i = Some a"
  shows "ar_incumbent a = (\<exists>r \<in> set results. res_Item r = i \<and> res_Arm r = ''incumbent'')"
    "ar_candidate a = (\<exists>r \<in> set results. res_Item r = i \<and> res_Arm r = ''candidate'')"
proof -
  have "map_of (arms_by_item results) i = Some a \<longrightarrow>
      ar_incumbent a = (\<exists>r \<in> set results. res_Item r = i \<and> res_Arm r = ''incumbent'') \<and>
      ar_candidate a = (\<exists>r \<in> set results. res_Item r = i \<and> res_Arm r = ''candidate'')"
    using assms(1)
  proof (induction results arbitrary: a rule: rev_induct)
    case (snoc r rs)
    have e: "arms_by_item (rs @ [r]) = note_arm r (arms_by_item rs)" by (simp add: arms_by_item_def)
    show ?case
    proof (cases "i = res_Item r")
      case True
      let ?a = "lookup_or \<lparr> ar_incumbent = False, ar_candidate = False \<rparr> (arms_by_item rs) i"
      have none: "map_of (arms_by_item rs) i = None \<Longrightarrow> \<forall>r' \<in> set rs. res_Item r' \<noteq> i"
        using length_arms_by_item(1) [of rs] by (auto simp: map_of_eq_None_iff keys_def)
      have "ar_incumbent ?a = (\<exists>r \<in> set rs. res_Item r = i \<and> res_Arm r = ''incumbent'') \<and>
          ar_candidate ?a = (\<exists>r \<in> set rs. res_Item r = i \<and> res_Arm r = ''candidate'')"
        using snoc none by (cases "map_of (arms_by_item rs) i") (auto simp: lookup_or_def)
      moreover have "map_of (arms_by_item (rs @ [r])) i = Some
          (if res_Arm r = ''incumbent'' then ?a\<lparr>ar_incumbent := True\<rparr>
           else if res_Arm r = ''candidate'' then ?a\<lparr>ar_candidate := True\<rparr> else ?a)"
        using snoc.prems True by (simp add: e note_arm_def Let_def update_conv')
      ultimately show ?thesis using True by auto
    next
      case False
      then show ?thesis using snoc by (auto simp: e note_arm_def Let_def update_conv')
    qed
  qed (simp add: arms_by_item_def)
  then show "ar_incumbent a = (\<exists>r \<in> set results. res_Item r = i \<and> res_Arm r = ''incumbent'')"
    "ar_candidate a = (\<exists>r \<in> set results. res_Item r = i \<and> res_Arm r = ''candidate'')"
    using assms(2) by auto
qed

lemma missingness_all_scored:
  assumes "\<forall>r \<in> set results. Scored r"
    and "\<forall>i \<in> res_Item ` set results. \<forall>arm \<in> {''incumbent'', ''candidate''}.
           \<exists>r \<in> set results. res_Item r = i \<and> res_Arm r = arm"
  shows "missingnessOf results pairs attempted =
     \<lparr> mi_Attempted = attempted, mi_BothScored = int (length pairs), mi_CandidateOnlyFailed = 0,
       mi_IncumbentOnlyFailed = 0, mi_BothFailed = max 0 (attempted - int (card (res_Item ` set results))) \<rparr>"
proof -
  let ?m = "arms_by_item results"
  have both: "ar_incumbent a \<and> ar_candidate a" if "(i, a) \<in> set ?m" for i a
  proof -
    have l: "map_of ?m i = Some a"
      using that length_arms_by_item(2) [of results] by (simp add: keys_def)
    have "i \<in> set (keys ?m)" using that by (force simp: keys_def)
    then have "i \<in> res_Item ` set results" by (simp only: length_arms_by_item(1))
    then show ?thesis using arms_by_item_flags [OF assms(1) l] assms(2) by fastforce
  qed
  have none: "count_arms P ?m = 0" if "\<forall>a. ar_incumbent a \<and> ar_candidate a \<longrightarrow> \<not> P a" for P
    using that both by (auto simp: count_arms_def filter_empty_conv)
  have "length ?m = card (res_Item ` set results)"
    by (metis distinct_card length_arms_by_item keys_def length_map)
  then show ?thesis by (simp add: missingnessOf_def Let_def none max_def)
qed

section \<open>Properties\<close>

text \<open>
  A half pair never reaches the scorer.  When a stage has replayed its (distinct) sessions without
  an error, what it asks the scorer to score is, session by session, exactly one incumbent output and
  one candidate output of the same session; the sessions scored and the sessions excluded add up to
  the sessions replayed.
\<close>

theorem scorer_sees_only_pairs:
  assumes "replay_sessions R incumbent candidate sessions no_replays w = (Inr acc, w')"
    and "distinct sessions"
  shows "\<exists>items. set items \<subseteq> set sessions \<and> distinct items \<and>
    map (\<lambda>r. (ref_Item r, ref_Arm r)) (rs_refs acc) =
      concat (map (\<lambda>i. [(i, ''incumbent''), (i, ''candidate'')]) items) \<and>
    int (length items) + rs_excluded acc = int (length sessions)"
  using replay_sessions_pairs [OF assms(1), of "[]" "[]"] assms(2)
  by (auto simp: no_replays_def ref_pairs_def)

text \<open>A runner whose replays of the session \<open>bad\<close> are refused, and a manifest.\<close>

definition ex_manifest :: "string \<Rightarrow> AgentManifestSpec" where
  "ex_manifest d = \<lparr> Agent = ''a'', BehaviorDigest = d, ContentDigest = [], Code = \<lparr> code_Image = [] \<rparr>,
     Model = \<lparr> model_Provider = [], model_ID = [], model_Pin = [],
       model_Params = \<lparr> mp_Temperature = None, mp_TopP = None, mp_TopK = None, mp_MaxTokens = None,
         mp_StopSequences = [] \<rparr> \<rparr>,
     Prompts = [], Tools = [], Retrieval = None, Policy = None, Judges = [] \<rparr>"

definition ex_report :: "int \<Rightarrow> Report" where
  "ex_report refused = \<lparr> rp_Session = [], rp_Agent = [], rp_Mode = ModeFail, rp_RecordedAgainst = [],
     rp_ReplayedAgainst = [],
     rp_Steps = [\<lparr> sp_Index = 0, sp_Kind = KindModel, sp_Tool = [], sp_Hash = [], sp_ArgsHash = [],
       sp_Match = MatchNone, sp_Decision = \<lparr> dc_Action = ActionForward, dc_Reason = no_msg \<rparr> \<rparr>],
     rp_Divergences = [], rp_Drift = None, rp_Refused = refused, rp_NoOps = 0 \<rparr>"

definition ex_runner :: "unit Runner" where
  "ex_runner = \<lparr> rn_Corpus = \<lparr> sto_Open = (\<lambda>s w. (Inl no_msg, w)), sto_List = (\<lambda>f w. (Inr [], w)) \<rparr>,
     rn_Replay = (\<lambda>session spec arm w.
       (Inr (ex_report (if session = ''bad'' \<and> arm = ArmCandidate then 1 else 0)), w)),
     rn_Score = (\<lambda>refs w. (Inr [], w)), rn_Analyze = (\<lambda>req w. (Inl no_msg, w)),
     rn_CtxErr = (\<lambda>w. (None, w)), rn_Now = (\<lambda>w. (1, w)), rn_OutputCorpus = [], rn_BlobDir = [] \<rparr>"

theorem scorer_sees_only_pairs_witness:
  "\<exists>acc. replay_sessions ex_runner (ex_manifest ''d1'') (ex_manifest ''d2'') [''s1'', ''bad''] no_replays () = (Inr acc, ()) \<and>
     map (\<lambda>r. (ref_Item r, ref_Arm r)) (rs_refs acc) = [(''s1'', ''incumbent''), (''s1'', ''candidate'')] \<and>
     rs_excluded acc = 1"
proof -
  obtain acc where a: "replay_sessions ex_runner (ex_manifest ''d1'') (ex_manifest ''d2'') [''s1'', ''bad''] no_replays ()
      = (Inr acc, ())" "rs_excluded acc = 1" "\<exists>r \<in> set (rs_refs acc). ref_Item r = ''s1''"
    by (simp add: replay_arms.simps ex_runner_def Usable_def ex_report_def no_replays_def stage_ref_def dropItem_def)
  obtain items where i: "set items \<subseteq> {''s1'', ''bad''}" "int (length items) + 1 = 2"
    "map (\<lambda>r. (ref_Item r, ref_Arm r)) (rs_refs acc) = concat (map (\<lambda>i. [(i, ''incumbent''), (i, ''candidate'')]) items)"
    using scorer_sees_only_pairs [OF a(1)] a(2) by auto
  obtain x where x: "items = [x]" using i(2) by (cases items) auto
  have "''s1'' \<in> fst ` set (map (\<lambda>r. (ref_Item r, ref_Arm r)) (rs_refs acc))"
    using a(3) by force
  then have "x = ''s1''" unfolding i(3) x by auto
  then show ?thesis using a i(3) x by auto
qed

text \<open>
  Missing measurements that are not missing items.  If every result is scored and every item has
  one under each arm, the drop check sees only the items that never reached the scorer, whatever the
  metrics in those results are: an item that lacks the gated metric is dropped from the comparison and
  yet counts as neither scored nor lost.
\<close>

theorem lacking_metric_is_not_missing:
  assumes "\<forall>r \<in> set results. Scored r"
    and "\<forall>i \<in> res_Item ` set results. \<forall>arm \<in> {''incumbent'', ''candidate''}.
           \<exists>r \<in> set results. res_Item r = i \<and> res_Arm r = arm"
  shows "Dropped (missingnessOf results pairs attempted) =
     max 0 (attempted - int (card (res_Item ` set results)))"
  using missingness_all_scored [OF assms, of pairs attempted] by (simp add: Dropped_def)

text \<open>Two scored results for one item, neither carrying the gated metric.\<close>

definition ex_result :: "string \<Rightarrow> Result" where
  "ex_result arm = \<lparr> res_Item = ''i1'', res_Arm = arm, res_Metrics = [(''other'', 1)], res_Metadata = [],
     res_Error = [] \<rparr>"

theorem lacking_metric_is_not_missing_witness:
  "(let rs = [ex_result ''incumbent'', ex_result ''candidate'']
    in fst (Pairs rs ''accuracy'') = [] \<and> Dropped (missingnessOf rs [] 1) = 0)"
proof -
  let ?rs = "[ex_result ''incumbent'', ex_result ''candidate'']"
  have "Dropped (missingnessOf ?rs [] 1) = max 0 (1 - int (card (res_Item ` set ?rs)))"
    by (rule lacking_metric_is_not_missing) (simp_all add: ex_result_def Scored_def)
  moreover have "fst (Pairs ?rs ''accuracy'') = []"
    by (simp add: Pairs_def by_item_def ex_result_def put_result_def Complete_def new_Pair_def Let_def
        lookup_or_def ToLower_def lower_char_def byte_def Scored_def zero_Result_def has_key_def)
  ultimately show ?thesis by (simp add: ex_result_def Let_def)
qed

end
