(* ===== verification/ActivityCheck.thy ===== *)
theory ActivityCheck
  imports Analysis
begin

text \<open>
  \<open>internal/analysis/activity.go\<close>: the deterministic comparison of what each arm tried to write.
  The attempts are a Go map from tool name to count.
\<close>

record Activity =
  act_Arm :: string
  act_Sessions :: int
  act_Attempts :: "(string \<times> int) list"

definition act_Tools :: "Activity \<Rightarrow> string list" where
  "act_Tools a = sort (map fst (filter (\<lambda>(name, n). 0 < n) (act_Attempts a)))"

definition Total :: "Activity \<Rightarrow> int" where
  "Total a = sum_list (map snd (act_Attempts a))"

definition act_Rate :: "Activity \<Rightarrow> f64" where
  "act_Rate a = (if act_Sessions a = 0 then 0 else of_int64 (Total a) / of_int64 (act_Sessions a))"

record ActivityFinding =
  af_Incumbent :: Activity
  af_Candidate :: Activity
  af_NewClasses :: "string list"
  af_DroppedClasses :: "string list"
  af_Violated :: bool
  af_Reason :: msg

definition CompareActivity :: "Activity \<Rightarrow> Activity \<Rightarrow> ActivityFinding" where
  "CompareActivity incumbent candidate =
     (let newClasses = filter (\<lambda>t. t \<notin> set (act_Tools incumbent)) (act_Tools candidate);
          dropped = filter (\<lambda>t. t \<notin> set (act_Tools candidate)) (act_Tools incumbent);
          f = \<lparr> af_Incumbent = incumbent, af_Candidate = candidate, af_NewClasses = newClasses,
                af_DroppedClasses = dropped, af_Violated = False, af_Reason = no_msg \<rparr>
      in if act_Sessions incumbent = 0 \<or> act_Sessions candidate = 0
         then f\<lparr>af_Reason := Text ''not enough sessions on both arms to compare write behaviour''\<rparr>
         else if length newClasses > 0
         then f\<lparr>af_Violated := True,
                af_Reason := Sprintf ''the candidate attempted %v, which the incumbent never does''
                  [AStrs newClasses, AInt (act_Sessions incumbent)]\<rparr>
         else f\<lparr>af_Reason := Sprintf ''both arms wrote through the same %d tool classes''
                  [AInt (int (length (act_Tools incumbent))), AFloat (act_Rate incumbent),
                   AFloat (act_Rate candidate)]\<rparr>)"

section \<open>Lemmas\<close>

lemma set_act_Tools: "set (act_Tools a) = {t. \<exists>n > 0. (t, n) \<in> set (act_Attempts a)}"
  by (force simp: act_Tools_def)

lemma CompareActivity_simps [simp]:
  "af_Incumbent (CompareActivity i c) = i" "af_Candidate (CompareActivity i c) = c"
  "af_NewClasses (CompareActivity i c) = filter (\<lambda>t. t \<notin> set (act_Tools i)) (act_Tools c)"
  "af_DroppedClasses (CompareActivity i c) = filter (\<lambda>t. t \<notin> set (act_Tools c)) (act_Tools i)"
  by (simp_all add: CompareActivity_def Let_def)

lemma CompareActivity_Violated:
  "af_Violated (CompareActivity i c) \<longleftrightarrow>
     act_Sessions i \<noteq> 0 \<and> act_Sessions c \<noteq> 0 \<and> \<not> set (act_Tools c) \<subseteq> set (act_Tools i)"
  by (auto simp: CompareActivity_def Let_def filter_empty_conv)

lemma scale_attempts:
  "(\<exists>n > 0. (t, n) \<in> apsnd ((*) (int (Suc k))) ` S) \<longleftrightarrow> (\<exists>n > 0. (t, n) \<in> S)"
proof
  assume "\<exists>n > 0. (t, n) \<in> apsnd ((*) (int (Suc k))) ` S"
  then obtain m where "(t, m) \<in> S" "0 < int (Suc k) * m" by auto
  then show "\<exists>n > 0. (t, n) \<in> S" by (auto simp: zero_less_mult_iff)
next
  assume "\<exists>n > 0. (t, n) \<in> S"
  then obtain m where m: "(t, m) \<in> S" "0 < m" by auto
  then have "(t, int (Suc k) * m) \<in> apsnd ((*) (int (Suc k))) ` S" by (metis apsnd_conv imageI)
  then show "\<exists>n > 0. (t, n) \<in> apsnd ((*) (int (Suc k))) ` S"
    using m(2) by (intro exI [of _ "int (Suc k) * m"]) simp
qed

lemma scale_Tools:
  "set (act_Tools (a\<lparr>act_Attempts := map (apsnd ((*) (int (Suc k)))) (act_Attempts a)\<rparr>))
     = set (act_Tools a)"
proof -
  have "act_Attempts (a\<lparr>act_Attempts := map (apsnd ((*) (int (Suc k)))) (act_Attempts a)\<rparr>)
      = map (apsnd ((*) (int (Suc k)))) (act_Attempts a)" by simp
  then show ?thesis by (simp only: set_act_Tools set_map scale_attempts)
qed

section \<open>Properties\<close>

text \<open>
  The write-activity guardrail fires exactly on a category change: both arms have run, and the
  candidate attempted, at least once, a write tool the incumbent never attempted.  It depends on
  which tools were reached for and not on how often, so scaling the counts of either arm by a
  positive factor changes nothing.
\<close>

theorem write_guardrail_is_set_membership:
  "(af_Violated (CompareActivity i c) \<longleftrightarrow>
      act_Sessions i \<noteq> 0 \<and> act_Sessions c \<noteq> 0 \<and>
      (\<exists>t n. (t, n) \<in> set (act_Attempts c) \<and> 0 < n \<and>
             \<not> (\<exists>m. 0 < m \<and> (t, m) \<in> set (act_Attempts i)))) \<and>
   af_Violated (CompareActivity (i\<lparr>act_Attempts := map (apsnd ((*) (int (Suc k)))) (act_Attempts i)\<rparr>)
                                (c\<lparr>act_Attempts := map (apsnd ((*) (int (Suc l)))) (act_Attempts c)\<rparr>))
     = af_Violated (CompareActivity i c)"
proof -
  have "af_Violated (CompareActivity i c) \<longleftrightarrow>
      act_Sessions i \<noteq> 0 \<and> act_Sessions c \<noteq> 0 \<and>
      (\<exists>t n. (t, n) \<in> set (act_Attempts c) \<and> 0 < n \<and>
             \<not> (\<exists>m. 0 < m \<and> (t, m) \<in> set (act_Attempts i)))"
    unfolding CompareActivity_Violated set_act_Tools by auto
  moreover have "af_Violated (CompareActivity (i\<lparr>act_Attempts := map (apsnd ((*) (int (Suc k)))) (act_Attempts i)\<rparr>)
                                (c\<lparr>act_Attempts := map (apsnd ((*) (int (Suc l)))) (act_Attempts c)\<rparr>))
     = af_Violated (CompareActivity i c)"
    by (simp only: CompareActivity_Violated scale_Tools) simp
  ultimately show ?thesis by blast
qed

end
