(* ===== verification/Observations.thy ===== *)
theory Observations
  imports Stage ActivityCheck
begin

text \<open>
  \<open>internal/rollout/observations.go\<close>: the measurements of a live or shadow stage, taken from the
  recorder's own corpus through the stage's scorer, and the writes each arm attempted, counted from
  the cassettes.
\<close>

record 'w CorpusObservations =
  co_Store :: "'w store"
  co_Dir :: string
  co_Blobs :: string
  co_Scorer :: "Ref list \<Rightarrow> 'w \<Rightarrow> Result list result \<times> 'w"
  co_Limit :: int

section \<open>Sessions\<close>

definition sessions ::
    "'w CorpusObservations \<Rightarrow> string \<Rightarrow> string \<Rightarrow> string \<Rightarrow> time \<Rightarrow> 'w \<Rightarrow> Header list result \<times> 'w" where
  "sessions c agent incumbent candidate since w =
     (case sto_List (co_Store c) (no_filter\<lparr>fl_Agent := agent, fl_Since := since\<rparr>) w of
        (Inl e, w1) \<Rightarrow> (Inl e, w1)
      | (Inr all_headers, w1) \<Rightarrow>
          (Inr (limited (co_Limit c)
             (sort_key hd_SessionID
               (filter (\<lambda>h. hd_BehaviorDigest h = incumbent \<or> hd_BehaviorDigest h = candidate) all_headers))), w1))"

definition itemOf :: "Header \<Rightarrow> string" where
  "itemOf h = (if hd_SourceSession h \<noteq> [] then hd_SourceSession h else hd_SessionID h)"

definition live_ref :: "'w CorpusObservations \<Rightarrow> string \<Rightarrow> Header \<Rightarrow> Ref" where
  "live_ref c candidate h =
     \<lparr> ref_Item = itemOf h,
       ref_Arm = (if hd_BehaviorDigest h = candidate then ''candidate'' else ''incumbent''),
       ref_Session = hd_SessionID h, ref_Corpus = co_Dir c, ref_Blobs = co_Blobs c,
       ref_Manifest = hd_BehaviorDigest h, ref_Degraded = False, ref_Reason = no_msg \<rparr>"

section \<open>Observations\<close>

definition new_Observation :: "string \<Rightarrow> Observation" where
  "new_Observation item = \<lparr> obs_Item = item, obs_Incumbent = [], obs_Candidate = [] \<rparr>"

definition observe_result :: "Result \<Rightarrow> (string \<times> Observation) list \<Rightarrow> (string \<times> Observation) list" where
  "observe_result r byItem =
     (if \<not> Scored r then byItem
      else let o' = lookup_or (new_Observation (res_Item r)) byItem (res_Item r)
           in AList.update (res_Item r)
                (if res_Arm r = ''candidate'' then o'\<lparr>obs_Candidate := res_Metrics r\<rparr>
                 else o'\<lparr>obs_Incumbent := res_Metrics r\<rparr>) byItem)"

definition attempted_by :: "Result list \<Rightarrow> (string \<times> string list) list" where
  "attempted_by results =
     fold (\<lambda>r m. AList.update (res_Item r) (res_Arm r # lookup_or [] m (res_Item r)) m) results []"

definition got_both :: "Observation \<Rightarrow> bool" where
  "got_both o' = (0 < length (obs_Incumbent o') \<and> 0 < length (obs_Candidate o'))"

text \<open>How many items attempted under both arms have a given pair of outcomes.\<close>

definition count_items ::
    "(string \<times> Observation) list \<Rightarrow> (bool \<Rightarrow> bool \<Rightarrow> bool) \<Rightarrow> (string \<times> string list) list \<Rightarrow> int" where
  "count_items byItem P attempted =
     int (length (filter (\<lambda>(item, tried).
       ''incumbent'' \<in> set tried \<and> ''candidate'' \<in> set tried \<and>
       (case map_of byItem item of
          None \<Rightarrow> P False False
        | Some o' \<Rightarrow> P (0 < length (obs_Incumbent o')) (0 < length (obs_Candidate o')))) attempted))"

definition observationsFrom :: "Result list \<Rightarrow> int \<Rightarrow> Observation list \<times> Missingness" where
  "observationsFrom results attempted =
     (let byItem = fold observe_result results [];
          obs = map snd byItem;
          attemptedBy = attempted_by results
      in (obs,
          \<lparr> mi_Attempted = attempted, mi_BothScored = int (length (filter got_both obs)),
            mi_CandidateOnlyFailed = count_items byItem (\<lambda>i c. i \<and> \<not> c) attemptedBy,
            mi_IncumbentOnlyFailed = count_items byItem (\<lambda>i c. \<not> i \<and> c) attemptedBy,
            mi_BothFailed = count_items byItem (\<lambda>i c. \<not> i \<and> \<not> c) attemptedBy \<rparr>))"

definition Since ::
    "'w CorpusObservations \<Rightarrow> string \<Rightarrow> string \<Rightarrow> string \<Rightarrow> time \<Rightarrow> 'w
      \<Rightarrow> (Observation list \<times> Missingness) result \<times> 'w" where
  "Since c agent incumbent candidate since w =
     (case sessions c agent incumbent candidate since w of
        (Inl e, w1) \<Rightarrow> (Inl e, w1)
      | (Inr headers, w1) \<Rightarrow>
          if length headers = 0 then (Inr ([], zero_Missingness), w1)
          else (case co_Scorer c (map (live_ref c candidate) headers) w1 of
            (Inl e, w2) \<Rightarrow> (Inl (Sprintf ''scoring live sessions: %w'' [AErr e]), w2)
          | (Inr results, w2) \<Rightarrow>
              (case Validate results of
                 Inl e \<Rightarrow> (Inl e, w2)
               | Inr _ \<Rightarrow> (Inr (observationsFrom results (int (length headers))), w2))))"

section \<open>Write attempts\<close>

definition write_attempt :: "Span \<Rightarrow> bool" where
  "write_attempt sn =
     (let tool = span_String sn AttrToolName;
          effect = span_String sn AttrToolEffect
      in if tool = [] then False
         else if span_bool sn AttrToolRefused then False
         else span_bool sn AttrToolSuppressed \<or> (effect \<noteq> [] \<and> effect \<noteq> ''read''))"

definition add_attempts :: "string \<Rightarrow> int \<Rightarrow> (string \<times> int) list \<Rightarrow> (string \<times> int) list" where
  "add_attempts tool n m = AList.update tool (lookup_or 0 m tool + n) m"

definition count_attempts :: "Span list \<Rightarrow> (string \<times> int) list" where
  "count_attempts spans =
     fold (\<lambda>sn m. add_attempts (span_String sn AttrToolName) 1 m) (filter write_attempt spans) []"

definition writeAttempts ::
    "codec \<Rightarrow> 'w CorpusObservations \<Rightarrow> string \<Rightarrow> 'w \<Rightarrow> (string \<times> int) list result \<times> 'w" where
  "writeAttempts J c session w =
     (case sto_Open (co_Store c) session w of
        (Inl e, w1) \<Rightarrow> (Inl e, w1)
      | (Inr rc, w1) \<Rightarrow>
          (case NewReader J rc of
             Inl e \<Rightarrow> (Inl (Sprintf ''reading %s: %w'' [AStr session, AErr e]), w1)
           | Inr reader \<Rightarrow>
               (Inr (count_attempts (spans_until_break J (rd_sc reader))), w1)))"

definition new_Activity :: "string \<Rightarrow> Activity" where
  "new_Activity arm = \<lparr> act_Arm = arm, act_Sessions = 0, act_Attempts = [] \<rparr>"

definition add_session :: "(string \<times> int) list \<Rightarrow> Activity \<Rightarrow> Activity" where
  "add_session attempts a =
     a\<lparr>act_Sessions := act_Sessions a + 1,
       act_Attempts := fold (\<lambda>(tool, n) m. add_attempts tool n m) attempts (act_Attempts a)\<rparr>"

fun activity_of ::
    "codec \<Rightarrow> 'w CorpusObservations \<Rightarrow> string \<Rightarrow> Header list \<Rightarrow> Activity \<Rightarrow> Activity \<Rightarrow> 'w
      \<Rightarrow> (Activity \<times> Activity) result \<times> 'w" where
  "activity_of J c candidate [] inc cand w = (Inr (inc, cand), w)"
| "activity_of J c candidate (h # hs) inc cand w =
     (case writeAttempts J c (hd_SessionID h) w of
        (Inl e, w1) \<Rightarrow> (Inl e, w1)
      | (Inr attempts, w1) \<Rightarrow>
          if hd_BehaviorDigest h = candidate
          then activity_of J c candidate hs inc (add_session attempts cand) w1
          else activity_of J c candidate hs (add_session attempts inc) cand w1)"

definition Activity_of ::
    "codec \<Rightarrow> 'w CorpusObservations \<Rightarrow> string \<Rightarrow> string \<Rightarrow> string \<Rightarrow> time \<Rightarrow> 'w
      \<Rightarrow> (Activity \<times> Activity) result \<times> 'w" where
  "Activity_of J c agent incumbent candidate since w =
     (case sessions c agent incumbent candidate since w of
        (Inl e, w1) \<Rightarrow> (Inl e, w1)
      | (Inr headers, w1) \<Rightarrow>
          activity_of J c candidate headers (new_Activity ''incumbent'') (new_Activity ''candidate'') w1)"

section \<open>Lemmas\<close>

lemma fold_observe_items:
  assumes "distinct (map fst m)" and "\<forall>(k, o') \<in> set m. obs_Item o' = k"
  shows "distinct (map fst (fold observe_result rs m)) \<and>
    (\<forall>(k, o') \<in> set (fold observe_result rs m). obs_Item o' = k)"
  using assms
proof (induction rs arbitrary: m)
  case (Cons r rs)
  have d: "distinct (map fst (observe_result r m))"
    using Cons.prems by (auto simp: observe_result_def Let_def distinct_update)
  have "\<forall>(k, o') \<in> set (observe_result r m). obs_Item o' = k"
  proof clarify
    fix k o' assume "(k, o') \<in> set (observe_result r m)"
    then have m': "map_of (observe_result r m) k = Some o'" using d by simp
    have new: "obs_Item (lookup_or (new_Observation k) m k) = k"
      using Cons.prems(2)
      by (auto simp: lookup_or_def new_Observation_def split: option.splits dest!: map_of_SomeD)
    show "obs_Item o' = k"
      using m' Cons.prems(2) new
      by (auto simp: observe_result_def Let_def update_conv' split: if_splits dest!: map_of_SomeD)
  qed
  then show ?case using Cons.IH [of "observe_result r m"] d by simp
qed simp

lemma observationsFrom_distinct: "distinct (map obs_Item (fst (observationsFrom results n)))"
proof -
  let ?m = "fold observe_result results []"
  have h: "distinct (map fst ?m)" "\<forall>(k, o') \<in> set ?m. obs_Item o' = k"
    using fold_observe_items [of "[]" results] by simp_all
  have "map obs_Item (map snd ?m) = map fst ?m"
    using h(2) by (auto simp: comp_def)
  then show ?thesis using h(1) by (simp add: observationsFrom_def Let_def del: map_map)
qed

lemma set_attempted_by:
  "set (lookup_or [] (attempted_by results) i) = {res_Arm r | r. r \<in> set results \<and> res_Item r = i}"
  "map_of (attempted_by results) i = None \<longleftrightarrow> i \<notin> res_Item ` set results"
  "distinct (map fst (attempted_by results))"
proof (induction results rule: rev_induct)
  case Nil
  { case 1 show ?case by (simp add: attempted_by_def lookup_or_def) next
    case 2 show ?case by (simp add: attempted_by_def) next
    case 3 show ?case by (simp add: attempted_by_def) }
next
  case (snoc r rs)
  have e: "attempted_by (rs @ [r]) =
      AList.update (res_Item r) (res_Arm r # lookup_or [] (attempted_by rs) (res_Item r)) (attempted_by rs)"
    by (simp add: attempted_by_def)
  { case 1 show ?case using snoc.IH(1) by (auto simp: e lookup_or_def update_conv') next
    case 2 show ?case using snoc.IH(2) by (auto simp: e update_conv') next
    case 3 show ?case using snoc.IH(3) by (simp add: e distinct_update) }
qed

lemma count_attempts_snoc:
  "count_attempts (ss @ [sn]) =
     (if write_attempt sn then add_attempts (span_String sn AttrToolName) 1 (count_attempts ss) else count_attempts ss)"
  by (simp add: count_attempts_def)

lemma lookup_add_attempts:
  "lookup_or 0 (add_attempts tool n m) t = lookup_or 0 m t + (if t = tool then n else 0)"
  by (simp add: add_attempts_def lookup_or_def update_conv')

text \<open>In a live canary no item is submitted under both arms, so none is counted as lost.\<close>

lemma canary_loses_nothing:
  assumes "\<forall>r \<in> set results. \<forall>r' \<in> set results. res_Item r = res_Item r' \<longrightarrow>
      \<not> (res_Arm r = ''incumbent'' \<and> res_Arm r' = ''candidate'')"
  shows "count_items byItem P (attempted_by results) = 0"
proof -
  have "\<not> (''incumbent'' \<in> set tried \<and> ''candidate'' \<in> set tried)"
    if "(item, tried) \<in> set (attempted_by results)" for item tried
  proof -
    have "map_of (attempted_by results) item = Some tried"
      using that set_attempted_by(3) [of results] by simp
    then have t: "set tried = {res_Arm r | r. r \<in> set results \<and> res_Item r = item}"
      using set_attempted_by(1) [of results item] by (simp add: lookup_or_def)
    show ?thesis
    proof
      assume "''incumbent'' \<in> set tried \<and> ''candidate'' \<in> set tried"
      then obtain r r' where "r \<in> set results" "r' \<in> set results" "res_Item r = item" "res_Item r' = item"
        "res_Arm r = ''incumbent''" "res_Arm r' = ''candidate''"
        unfolding t by fastforce
      then show False using assms by metis
    qed
  qed
  then show ?thesis by (auto simp: count_items_def filter_empty_conv)
qed

section \<open>Properties\<close>

text \<open>
  What counts as an attempted write.  For every tool, the number reported for a cassette is the
  number of its spans for that tool that were suppressed or classified with an effect other than
  \<open>read\<close>; a refused call, of a tool the manifest does not classify, is never counted.
\<close>

theorem attempts_are_counted_exactly:
  "lookup_or 0 (count_attempts spans) tool =
     int (length (filter (\<lambda>s. span_String s AttrToolName = tool \<and> tool \<noteq> [] \<and> \<not> span_bool s AttrToolRefused \<and>
       (span_bool s AttrToolSuppressed \<or> span_String s AttrToolEffect \<notin> {[], ''read''})) spans))"
proof (induction spans rule: rev_induct)
  case (snoc sn ss)
  then show ?case
    by (auto simp: count_attempts_snoc lookup_add_attempts write_attempt_def Let_def)
qed (simp add: count_attempts_def lookup_or_def)

definition ex_call_span :: "string \<Rightarrow> string \<Rightarrow> bool \<Rightarrow> Span" where
  "ex_call_span tool effect refused = \<lparr> span_TraceID = [], span_SpanID = ''x'', span_ParentID = [], span_Name = [],
     span_Kind = KindTool, span_StartTime = 1, span_EndTime = 2,
     span_Attributes = [(AttrToolName, JStr tool), (AttrToolEffect, JStr effect), (AttrToolRefused, JBool refused)],
     span_Status = \<lparr> status_Code = [], status_Message = [] \<rparr> \<rparr>"

theorem attempts_are_counted_exactly_witness:
  "lookup_or 0 (count_attempts [ex_call_span ''pay'' ''write'' False, ex_call_span ''look'' ''read'' False,
     ex_call_span ''pay'' ''write'' True, ex_call_span ''pay'' [] False]) ''pay'' = 1"
  unfolding attempts_are_counted_exactly
  by (simp add: ex_call_span_def span_String_def span_bool_def jfield_def lookup_or_def
      AttrToolName_def AttrToolEffect_def AttrToolRefused_def AttrToolSuppressed_def)

text \<open>
  A live request is well formed and loses nothing.  Whatever the scorer returned, the observations
  of a live stage have pairwise different items, so the duplicate check of the analyzer never fires;
  and when no item was scored under both arms, as in a canary, no item counts as lost.
\<close>

theorem live_observations_well_formed:
  assumes "observationsFrom results n = (obs, missing)"
    and "\<forall>r \<in> set results. \<forall>r' \<in> set results. res_Item r = res_Item r' \<longrightarrow>
      \<not> (res_Arm r = ''incumbent'' \<and> res_Arm r' = ''candidate'')"
  shows "distinct (map obs_Item obs) \<and> first_dup [] obs = None \<and> mi_Attempted missing = n \<and>
    Dropped missing = 0"
proof -
  have o: "obs = fst (observationsFrom results n)" "missing = snd (observationsFrom results n)"
    using assms(1) by simp_all
  show ?thesis
    using observationsFrom_distinct [of results n] canary_loses_nothing [OF assms(2)]
    by (simp add: o first_dup_None Dropped_def) (simp add: observationsFrom_def Let_def canary_loses_nothing [OF assms(2)])
qed

theorem live_observations_well_formed_witness:
  "Dropped (snd (observationsFrom [ex_result ''incumbent'', ex_result ''incumbent''] 2)) = 0"
proof -
  obtain obs missing where "observationsFrom [ex_result ''incumbent'', ex_result ''incumbent''] 2 = (obs, missing)"
    by fastforce
  from live_observations_well_formed [OF this] this show ?thesis by (simp add: ex_result_def)
qed

text \<open>
  The arm's case decides whose measurement it is.  A scored result whose arm is not exactly
  \<open>candidate\<close> is stored as the incumbent's, so a scorer that answers \<open>Candidate\<close>, which
  validation accepts, has the candidate's scores counted for the incumbent.
\<close>

theorem other_case_is_the_incumbent:
  assumes "Scored r" and "res_Arm r \<noteq> ''candidate''"
  shows "fst (observationsFrom (rs @ [r]) n) =
    (let m = fold observe_result rs []
     in map snd (AList.update (res_Item r)
          ((lookup_or (new_Observation (res_Item r)) m (res_Item r))\<lparr>obs_Incumbent := res_Metrics r\<rparr>) m))"
  using assms by (simp add: observationsFrom_def observe_result_def Let_def)

theorem other_case_is_the_incumbent_witness:
  "Validate [ex_result ''Candidate''] = Inr () \<and>
   fst (observationsFrom [ex_result ''Candidate''] 1) =
     [\<lparr> obs_Item = ''i1'', obs_Incumbent = [(''other'', 1)], obs_Candidate = [] \<rparr>]"
proof -
  have f: "feq 1 1" "\<not> lit_1e308 < 1" "\<not> 1 < - lit_1e308"
    by (simp_all add: feq_def one_f64_def lit_1e308_def)
  have l: "ToLower ''Candidate'' = ''candidate''" by code_simp
  have "Validate [ex_result ''Candidate''] = Inr ()"
    by (simp add: Validate_def validate_one_def ex_result_def l bad_metric_def isNaN_def isInf_def f)
  moreover have "fst (observationsFrom ([] @ [ex_result ''Candidate'']) 1) =
     [\<lparr> obs_Item = ''i1'', obs_Incumbent = [(''other'', 1)], obs_Candidate = [] \<rparr>]"
    by (subst other_case_is_the_incumbent)
       (simp_all add: ex_result_def Scored_def Let_def new_Observation_def lookup_or_def)
  ultimately show ?thesis by simp
qed

end
