(* ===== verification/Traffic.thy ===== *)
theory Traffic
  imports Json
begin

text \<open>
  \<open>internal/traffic/traffic.go\<close>: how traffic reaches the two arms, and the contract every router
  keeps.  The cluster behind the routers is a client whose operations pass the world along; its
  documented behaviour is \<open>kube\_ok\<close>.
\<close>

record Target =
  tg_Namespace :: string
  tg_Name :: string
  tg_Incumbent :: string
  tg_Candidate :: string

record Split =
  sp_Incumbent :: int
  sp_Candidate :: int

definition Valid :: "Split \<Rightarrow> msg option" where
  "Valid s =
     (if sp_Incumbent s < 0 \<or> sp_Candidate s < 0
      then Some (Sprintf ''negative weight: %d/%d'' [AInt (sp_Incumbent s), AInt (sp_Candidate s)])
      else if sp_Incumbent s + sp_Candidate s = 0
      then Some (Text ''both weights are zero, which would route no traffic anywhere'')
      else None)"

datatype Stickiness = StickyBySession | StickyNone

record 'w router =
  rt_SetSplit :: "Target \<Rightarrow> Split \<Rightarrow> 'w \<Rightarrow> msg option \<times> 'w"
  rt_Split :: "Target \<Rightarrow> 'w \<Rightarrow> Split result \<times> 'w"
  rt_Mirror :: "Target \<Rightarrow> int \<Rightarrow> 'w \<Rightarrow> msg option \<times> 'w"
  rt_Stickiness :: "Target \<Rightarrow> 'w \<Rightarrow> Stickiness result \<times> 'w"
  rt_Name :: string

definition SessionHeader :: string where
  "SessionHeader = ''X-Waveoff-Session''"

definition FullyIncumbent :: Split where
  "FullyIncumbent = \<lparr> sp_Incumbent = 100, sp_Candidate = 0 \<rparr>"

definition ErrUnsupported :: msg where
  "ErrUnsupported = Text ''unsupported by this traffic router''"

definition no_split :: Split where
  "no_split = \<lparr> sp_Incumbent = 0, sp_Candidate = 0 \<rparr>"

section \<open>The cluster client\<close>

type_synonym object_key = "string \<times> string"

record ('o, 'w) client =
  c_Get :: "object_key \<Rightarrow> 'w \<Rightarrow> 'o result \<times> 'w"
  c_Update :: "object_key \<Rightarrow> 'o \<Rightarrow> 'w \<Rightarrow> msg option \<times> 'w"

text \<open>
  What the routers rely on.  \<open>obj\<close> is what the API server stores.  A read changes nothing and
  returns what is stored; an accepted update stores the object; a failed update stored it or
  did not (a timed-out request may have been applied).  An update based on a stale read fails,
  because the object carries its resource version.
\<close>

definition kube_ok :: "('o, 'w) client \<Rightarrow> ('w \<Rightarrow> object_key \<Rightarrow> 'o option) \<Rightarrow> bool" where
  "kube_ok C obj \<longleftrightarrow>
     (\<forall>k w r w'. c_Get C k w = (r, w') \<longrightarrow> obj w' = obj w \<and> (\<forall>v. r = Inr v \<longrightarrow> obj w k = Some v)) \<and>
     (\<forall>k v w w'. c_Update C k v w = (None, w') \<longrightarrow> obj w' = (obj w)(k \<mapsto> v)) \<and>
     (\<forall>k v w e w'. c_Update C k v w = (Some e, w') \<longrightarrow> obj w' \<in> {obj w, (obj w)(k \<mapsto> v)})"

lemma kube_Get:
  "kube_ok C obj \<Longrightarrow> c_Get C k w = (r, w') \<Longrightarrow> obj w' = obj w"
  "kube_ok C obj \<Longrightarrow> c_Get C k w = (Inr v, w') \<Longrightarrow> obj w k = Some v"
  unfolding kube_ok_def by blast+

lemma kube_Update:
  "kube_ok C obj \<Longrightarrow> c_Update C k v w = (None, w') \<Longrightarrow> obj w' = (obj w)(k \<mapsto> v)"
  "kube_ok C obj \<Longrightarrow> c_Update C k v w = (Some e, w') \<Longrightarrow> obj w' \<in> {obj w, (obj w)(k \<mapsto> v)}"
  unfolding kube_ok_def by blast+

text \<open>Read an object, transform it, write it back: the shape of every change a router makes.\<close>

definition modify ::
    "('o, 'w) client \<Rightarrow> object_key \<Rightarrow> (msg \<Rightarrow> msg) \<Rightarrow> ('o \<Rightarrow> 'o result) \<Rightarrow> 'w \<Rightarrow> msg option \<times> 'w" where
  "modify C k wrap f w =
     (case c_Get C k w of
        (Inl e, w1) \<Rightarrow> (Some (wrap e), w1)
      | (Inr v, w1) \<Rightarrow> (case f v of Inl e \<Rightarrow> (Some e, w1) | Inr v' \<Rightarrow> c_Update C k v' w1))"

lemma modify_effect:
  assumes "kube_ok C obj" and "modify C k wrap f w = (r, w')"
  shows "(\<exists>v v'. obj w k = Some v \<and> f v = Inr v' \<and> obj w' = (obj w)(k \<mapsto> v')) \<or>
         (r \<noteq> None \<and> obj w' = obj w)"
proof (cases "c_Get C k w")
  case (Pair g w1)
  show ?thesis
  proof (cases g)
    case (Inl e)
    then show ?thesis using assms Pair kube_Get(1) [OF assms(1) Pair] by (auto simp: modify_def)
  next
    case (Inr v)
    note get = kube_Get(1) [OF assms(1) Pair] kube_Get(2) [OF assms(1) Pair [unfolded Inr]]
    show ?thesis
    proof (cases "f v")
      case (Inl e)
      then show ?thesis using assms Pair Inr get by (auto simp: modify_def)
    next
      case f: (Inr v')
      then have u: "c_Update C k v' w1 = (r, w')" using assms(2) Pair Inr by (simp add: modify_def)
      show ?thesis
      proof (cases r)
        case None
        then show ?thesis using kube_Update(1) [OF assms(1)] u get f by fastforce
      next
        case (Some e)
        then show ?thesis using kube_Update(2) [OF assms(1)] u get f by fastforce
      qed
    qed
  qed
qed

section \<open>The contract of a router\<close>

text \<open>
  \<open>configured\<close> is the split the cluster would serve, \<open>mirroring\<close> whether copies of the
  traffic reach the candidate; \<open>env\_ok\<close> is the documented behaviour of the cluster the router
  writes to.  The laws are for a target that names two different backends and for percentages.
\<close>

definition percentages :: "Split \<Rightarrow> bool" where
  "percentages sp = (0 \<le> sp_Incumbent sp \<and> sp_Incumbent sp \<le> 100 \<and>
                     0 \<le> sp_Candidate sp \<and> sp_Candidate sp \<le> 100)"

locale router_contract =
  fixes R :: "'w router"
    and env_ok :: bool
    and configured :: "Target \<Rightarrow> 'w \<Rightarrow> Split option"
    and mirroring :: "Target \<Rightarrow> 'w \<Rightarrow> bool"
  assumes SetSplit_done:
    "env_ok \<Longrightarrow> tg_Incumbent t \<noteq> tg_Candidate t \<Longrightarrow> percentages sp \<Longrightarrow>
       rt_SetSplit R t sp w = (None, w') \<Longrightarrow> configured t w' = Some sp"
    and SetSplit_failed:
    "env_ok \<Longrightarrow> tg_Incumbent t \<noteq> tg_Candidate t \<Longrightarrow> percentages sp \<Longrightarrow>
       rt_SetSplit R t sp w = (Some e, w') \<Longrightarrow> configured t w' \<in> {configured t w, Some sp}"
    and SetSplit_mirroring:
    "env_ok \<Longrightarrow> rt_SetSplit R t sp w = (r, w') \<Longrightarrow> mirroring t w' = mirroring t w"
    and Split_reads:
    "env_ok \<Longrightarrow> rt_Split R t w = (Inr sp, w') \<Longrightarrow> configured t w = Some sp"
    and Split_pure:
    "env_ok \<Longrightarrow> rt_Split R t w = (res, w') \<Longrightarrow> configured t w' = configured t w \<and> mirroring t w' = mirroring t w"
    and Mirror_configured:
    "env_ok \<Longrightarrow> rt_Mirror R t p w = (r, w') \<Longrightarrow> configured t w' = configured t w"
    and Mirror_off:
    "env_ok \<Longrightarrow> rt_Mirror R t 0 w = (None, w') \<Longrightarrow> \<not> mirroring t w'"
begin

lemma read_back:
  assumes env_ok and "tg_Incumbent t \<noteq> tg_Candidate t" and "percentages sp"
    and "rt_SetSplit R t sp w = (None, w1)" and "rt_Split R t w1 = (Inr got, w2)"
  shows "got = sp"
  using SetSplit_done [OF assms(1-4)] Split_reads [OF assms(1,5)] by simp

lemma rollback_effect:
  assumes env_ok and "tg_Incumbent t \<noteq> tg_Candidate t"
    and "rt_SetSplit R t FullyIncumbent w = (None, w1)" and "rt_Mirror R t p w1 = (r, w2)"
  shows "configured t w2 = Some FullyIncumbent"
proof -
  have "percentages FullyIncumbent" by (simp add: percentages_def FullyIncumbent_def)
  then show ?thesis
    using SetSplit_done [OF assms(1,2) _ assms(3)] Mirror_configured [OF assms(1,4)] by simp
qed

end

end
