(* ===== verification/GatewayApi.thy ===== *)
theory GatewayApi
  imports Traffic
begin

text \<open>
  \<open>internal/traffic/gatewayapi.go\<close>: the router that writes an \<open>HTTPRoute\<close>.  Of the route the
  program reads and writes the rules, their backend references, filters and session persistence;
  the \<open>\_Rest\<close> fields are everything else the operator configured, which passes through.  A
  weight is an \<open>int32\<close>.
\<close>

record HTTPBackendRef =
  br_Name :: string
  br_Port :: "int option"
  br_Weight :: "int option"
  br_Rest :: json

text \<open>\<open>hf\_Mirror\<close> is the mirror's backend name and port, when the filter has one.\<close>

record HTTPRouteFilter =
  hf_Type :: string
  hf_Mirror :: "(string \<times> int option) option"
  hf_Rest :: json

record SessionPersistence =
  sps_SessionName :: "string option"
  sps_Type :: "string option"

record HTTPRouteRule =
  rr_BackendRefs :: "HTTPBackendRef list"
  rr_Filters :: "HTTPRouteFilter list"
  rr_SessionPersistence :: "SessionPersistence option"
  rr_Rest :: json

record HTTPRoute =
  hr_Rules :: "HTTPRouteRule list"
  hr_Rest :: json

definition HTTPRouteFilterRequestMirror :: string where
  "HTTPRouteFilterRequestMirror = ''RequestMirror''"

definition HeaderBasedSessionPersistence :: string where
  "HeaderBasedSessionPersistence = ''Header''"

text \<open>The conversion \<open>int32(x)\<close>.\<close>

definition to_int32 :: "int \<Rightarrow> int" where
  "to_int32 x = signed_take_bit 31 x"

section \<open>Weights\<close>

definition build_ref :: "Target \<Rightarrow> HTTPBackendRef list \<Rightarrow> string \<Rightarrow> int \<Rightarrow> HTTPBackendRef result" where
  "build_ref target refs name weight =
     (case map_of (index_by br_Name refs) name of
        None \<Rightarrow> Inl (Sprintf ''HTTPRoute %s/%s does not route to %q''
                       [AStr (tg_Namespace target), AStr (tg_Name target), AStr name])
      | Some ref \<Rightarrow> Inr (ref\<lparr>br_Weight := Some weight\<rparr>))"

definition backendRefs :: "HTTPRouteRule \<Rightarrow> Target \<Rightarrow> Split \<Rightarrow> HTTPBackendRef list result" where
  "backendRefs rule target split =
     bindR (build_ref target (rr_BackendRefs rule) (tg_Incumbent target) (to_int32 (sp_Incumbent split)))
       (\<lambda>incumbent.
     bindR (build_ref target (rr_BackendRefs rule) (tg_Candidate target) (to_int32 (sp_Candidate split)))
       (\<lambda>candidate. Inr [incumbent, candidate]))"

text \<open>The change \<open>SetSplit\<close> makes to the route it read, and the operation itself.\<close>

definition gw_reweight :: "Target \<Rightarrow> Split \<Rightarrow> HTTPRoute \<Rightarrow> HTTPRoute result" where
  "gw_reweight target split route =
     (case hr_Rules route of
        [] \<Rightarrow> Inl (Sprintf ''HTTPRoute %s/%s has no rules to weight''
                     [AStr (tg_Namespace target), AStr (tg_Name target)])
      | rule # rules \<Rightarrow>
          bindR (backendRefs rule target split)
            (\<lambda>refs. Inr (route\<lparr>hr_Rules := rule\<lparr>rr_BackendRefs := refs\<rparr> # rules\<rparr>)))"

definition target_key :: "Target \<Rightarrow> object_key" where
  "target_key target = (tg_Namespace target, tg_Name target)"

definition wrap_route :: "Target \<Rightarrow> msg \<Rightarrow> msg" where
  "wrap_route target e =
     Sprintf ''HTTPRoute %s: %w'' [AStr (tg_Namespace target), AStr (tg_Name target), AErr e]"

definition gw_SetSplit ::
    "(HTTPRoute, 'w) client \<Rightarrow> Target \<Rightarrow> Split \<Rightarrow> 'w \<Rightarrow> msg option \<times> 'w" where
  "gw_SetSplit C target split w =
     (case Valid split of
        Some e \<Rightarrow> (Some e, w)
      | None \<Rightarrow> modify C (target_key target) (wrap_route target) (gw_reweight target split) w)"

definition add_weight :: "Target \<Rightarrow> HTTPBackendRef \<Rightarrow> Split \<Rightarrow> Split" where
  "add_weight target ref split =
     (let weight = (case br_Weight ref of None \<Rightarrow> 1 | Some x \<Rightarrow> x)
      in if br_Name ref = tg_Incumbent target then split\<lparr>sp_Incumbent := weight\<rparr>
         else if br_Name ref = tg_Candidate target then split\<lparr>sp_Candidate := weight\<rparr>
         else split)"

definition gw_read :: "Target \<Rightarrow> HTTPRoute \<Rightarrow> Split result" where
  "gw_read target route =
     (case hr_Rules route of
        [] \<Rightarrow> Inl (Sprintf ''HTTPRoute %s/%s has no rules''
                     [AStr (tg_Namespace target), AStr (tg_Name target)])
      | rule # _ \<Rightarrow> Inr (fold (add_weight target) (rr_BackendRefs rule) no_split))"

definition gw_Split :: "(HTTPRoute, 'w) client \<Rightarrow> Target \<Rightarrow> 'w \<Rightarrow> Split result \<times> 'w" where
  "gw_Split C target w =
     (case c_Get C (target_key target) w of
        (Inl e, w1) \<Rightarrow> (Inl (wrap_route target e), w1)
      | (Inr route, w1) \<Rightarrow> (gw_read target route, w1))"

section \<open>Mirroring\<close>

definition own_mirror :: "Target \<Rightarrow> HTTPRouteFilter \<Rightarrow> bool" where
  "own_mirror target f =
     (hf_Type f = HTTPRouteFilterRequestMirror \<and>
      (case hf_Mirror f of None \<Rightarrow> False | Some (name, _) \<Rightarrow> name = tg_Candidate target))"

definition candidatePort :: "HTTPRouteRule \<Rightarrow> Target \<Rightarrow> int option result" where
  "candidatePort rule target =
     (case find (\<lambda>ref. br_Name ref = tg_Candidate target) (rr_BackendRefs rule) of
        None \<Rightarrow> Inl (Sprintf ''HTTPRoute %s/%s has no backend for %q''
                  [AStr (tg_Namespace target), AStr (tg_Name target), AStr (tg_Candidate target)])
      | Some ref \<Rightarrow>
          (case br_Port ref of
             None \<Rightarrow> Inl (Sprintf ''HTTPRoute %s/%s routes to %q without a port''
                  [AStr (tg_Namespace target), AStr (tg_Name target), AStr (tg_Candidate target)])
           | Some p \<Rightarrow> Inr (Some p)))"

definition gw_mirror :: "Target \<Rightarrow> int \<Rightarrow> HTTPRoute \<Rightarrow> HTTPRoute result" where
  "gw_mirror target percent route =
     (case hr_Rules route of
        [] \<Rightarrow> Inl (Sprintf ''HTTPRoute %s/%s has no rules''
                     [AStr (tg_Namespace target), AStr (tg_Name target)])
      | rule # rules \<Rightarrow>
          (let filters = filter (\<lambda>f. \<not> own_mirror target f) (rr_Filters rule)
           in bindR (if percent = 100
                     then bindR (candidatePort rule target) (\<lambda>port.
                       Inr (filters @ [\<lparr> hf_Type = HTTPRouteFilterRequestMirror,
                                         hf_Mirror = Some (tg_Candidate target, port),
                                         hf_Rest = JNull \<rparr>]))
                     else Inr filters)
                (\<lambda>filters. Inr (route\<lparr>hr_Rules := rule\<lparr>rr_Filters := filters\<rparr> # rules\<rparr>))))"

definition gw_Mirror ::
    "(HTTPRoute, 'w) client \<Rightarrow> Target \<Rightarrow> int \<Rightarrow> 'w \<Rightarrow> msg option \<times> 'w" where
  "gw_Mirror C target percent w =
     (if percent \<noteq> 0 \<and> percent \<noteq> 100
      then (Some (Sprintf ''%w: Gateway API mirrors all traffic on a rule or none''
                    [AErr ErrUnsupported, AInt percent]), w)
      else modify C (target_key target) (wrap_route target) (gw_mirror target percent) w)"

section \<open>Stickiness\<close>

definition gw_sticky :: "HTTPRoute \<Rightarrow> Stickiness" where
  "gw_sticky route =
     (case hr_Rules route of
        [] \<Rightarrow> StickyNone
      | rule # _ \<Rightarrow>
          (case rr_SessionPersistence rule of
             None \<Rightarrow> StickyNone
           | Some sp \<Rightarrow>
               if sps_Type sp = Some HeaderBasedSessionPersistence
               then (if sps_SessionName sp = Some SessionHeader then StickyBySession else StickyNone)
               else StickyNone))"

definition gw_Stickiness :: "(HTTPRoute, 'w) client \<Rightarrow> Target \<Rightarrow> 'w \<Rightarrow> Stickiness result \<times> 'w" where
  "gw_Stickiness C target w =
     (case c_Get C (target_key target) w of
        (Inl e, w1) \<Rightarrow> (Inl (wrap_route target e), w1)
      | (Inr route, w1) \<Rightarrow> (Inr (gw_sticky route), w1))"

definition GatewayAPI :: "(HTTPRoute, 'w) client \<Rightarrow> 'w router" where
  "GatewayAPI C = \<lparr> rt_SetSplit = gw_SetSplit C, rt_Split = gw_Split C, rt_Mirror = gw_Mirror C,
     rt_Stickiness = gw_Stickiness C, rt_Name = ''gateway-api'' \<rparr>"

section \<open>Lemmas about one route\<close>

lemma to_int32_percent: "0 \<le> x \<Longrightarrow> x \<le> 100 \<Longrightarrow> to_int32 x = x"
  by (simp add: to_int32_def signed_take_bit_int_eq_self)

lemma build_ref_Inr:
  assumes "build_ref t refs n k = Inr r"
  shows "br_Name r = n \<and> br_Weight r = Some k \<and> (\<exists>ref \<in> set refs. br_Name ref = n \<and> r = ref\<lparr>br_Weight := Some k\<rparr>)"
proof (cases "map_of (index_by br_Name refs) n")
  case None
  then show ?thesis using assms by (simp add: build_ref_def del: map_of_index_by_None)
next
  case (Some ref)
  then show ?thesis using assms map_of_index_by_Some [OF Some] by (auto simp: build_ref_def)
qed

lemma gw_reweight_Inr:
  assumes "gw_reweight t sp route = Inr route'"
  obtains rule rules inc cand where "hr_Rules route = rule # rules"
    "build_ref t (rr_BackendRefs rule) (tg_Incumbent t) (to_int32 (sp_Incumbent sp)) = Inr inc"
    "build_ref t (rr_BackendRefs rule) (tg_Candidate t) (to_int32 (sp_Candidate sp)) = Inr cand"
    "route' = route\<lparr>hr_Rules := rule\<lparr>rr_BackendRefs := [inc, cand]\<rparr> # rules\<rparr>"
  using assms by (auto simp: gw_reweight_def backendRefs_def bindR_Inr_iff split: list.splits)

lemma gw_reweight_read:
  assumes "gw_reweight t sp route = Inr route'" and "tg_Incumbent t \<noteq> tg_Candidate t" and "percentages sp"
  shows "gw_read t route' = Inr sp"
proof -
  obtain rule rules inc cand where r: "hr_Rules route = rule # rules"
    "build_ref t (rr_BackendRefs rule) (tg_Incumbent t) (to_int32 (sp_Incumbent sp)) = Inr inc"
    "build_ref t (rr_BackendRefs rule) (tg_Candidate t) (to_int32 (sp_Candidate sp)) = Inr cand"
    "route' = route\<lparr>hr_Rules := rule\<lparr>rr_BackendRefs := [inc, cand]\<rparr> # rules\<rparr>"
    using gw_reweight_Inr [OF assms(1)] by blast
  then show ?thesis
    using build_ref_Inr [OF r(2)] build_ref_Inr [OF r(3)] assms(2,3)
    by (simp add: gw_read_def add_weight_def Let_def to_int32_percent percentages_def)
qed

lemma gw_mirror_Inr:
  assumes "gw_mirror t p route = Inr route'"
  obtains rule rules fs where "hr_Rules route = rule # rules"
    "route' = route\<lparr>hr_Rules := rule\<lparr>rr_Filters := fs\<rparr> # rules\<rparr>"
    "filter (\<lambda>f. \<not> own_mirror t f) fs = filter (\<lambda>f. \<not> own_mirror t f) (rr_Filters rule)"
    "length (filter (own_mirror t) fs) = (if p = 100 then 1 else 0)"
  using assms
  by (auto simp: gw_mirror_def bindR_Inr_iff own_mirror_def Let_def split: list.splits if_splits)

lemma build_ref_again:
  assumes "build_ref t refs a i = Inr inc" and "build_ref t refs b c = Inr cand"
  shows "build_ref t [inc, cand] a i = Inr inc" and "build_ref t [inc, cand] b c = Inr cand"
proof -
  obtain r1 r2 where m: "map_of (index_by br_Name refs) a = Some r1" "map_of (index_by br_Name refs) b = Some r2"
    and e: "inc = r1\<lparr>br_Weight := Some i\<rparr>" "cand = r2\<lparr>br_Weight := Some c\<rparr>"
    using assms by (auto simp: build_ref_def simp del: map_of_index_by_None split: option.splits)
  have r: "inc = r1\<lparr>br_Weight := Some i\<rparr>" "cand = r2\<lparr>br_Weight := Some c\<rparr>"
    "br_Name r1 = a" "br_Name r2 = b" "a = b \<longrightarrow> r1 = r2"
    using e map_of_index_by_Some [OF m(1)] map_of_index_by_Some [OF m(2)] m by (simp_all, metis option.inject)
  then have "map_of (index_by br_Name [inc, cand]) a = Some (if a = b then cand else inc)"
    "map_of (index_by br_Name [inc, cand]) b = Some cand"
    by (simp_all add: index_by_def update_conv')
  then show "build_ref t [inc, cand] a i = Inr inc" "build_ref t [inc, cand] b c = Inr cand"
    using r by (simp_all add: build_ref_def)
qed

definition gw_mirroring :: "Target \<Rightarrow> HTTPRoute \<Rightarrow> bool" where
  "gw_mirroring t route = (case hr_Rules route of [] \<Rightarrow> False | rule # _ \<Rightarrow> list_ex (own_mirror t) (rr_Filters rule))"

lemma gw_reweight_mirroring:
  "gw_reweight t sp route = Inr route' \<Longrightarrow> gw_mirroring t' route' = gw_mirroring t' route"
  by (erule gw_reweight_Inr) (simp add: gw_mirroring_def)

lemma gw_mirror_read: "gw_mirror t p route = Inr route' \<Longrightarrow> gw_read t' route' = gw_read t' route"
  by (erule gw_mirror_Inr) (simp add: gw_read_def)

lemma gw_mirror_off: "gw_mirror t 0 route = Inr route' \<Longrightarrow> \<not> gw_mirroring t route'"
  by (erule gw_mirror_Inr) (auto simp: gw_mirroring_def list_ex_iff filter_empty_conv)

section \<open>The contract\<close>

text \<open>A split or mirror as it is stored, from what the API server holds for the target.\<close>

definition stored :: "('w \<Rightarrow> object_key \<Rightarrow> 'o option) \<Rightarrow> (Target \<Rightarrow> 'o \<Rightarrow> 'a result) \<Rightarrow> Target \<Rightarrow> 'w \<Rightarrow> 'a option" where
  "stored obj f t w =
     (case obj w (target_key t) of None \<Rightarrow> None
      | Some v \<Rightarrow> (case f t v of Inl _ \<Rightarrow> None | Inr x \<Rightarrow> Some x))"

definition stored_mirroring :: "('w \<Rightarrow> object_key \<Rightarrow> 'o option) \<Rightarrow> (Target \<Rightarrow> 'o \<Rightarrow> bool) \<Rightarrow> Target \<Rightarrow> 'w \<Rightarrow> bool" where
  "stored_mirroring obj f t w = (case obj w (target_key t) of None \<Rightarrow> False | Some v \<Rightarrow> f t v)"

interpretation gateway: router_contract
  "GatewayAPI C" "kube_ok C obj" "stored obj gw_read" "stored_mirroring obj gw_mirroring"
  for C :: "(HTTPRoute, 'w) client" and obj
proof
  assume K: "kube_ok C obj"
  fix t :: Target and sp got :: Split and w w' :: 'w and e r p and res :: "Split result"
  note eff = modify_effect [OF K]
  { assume "tg_Incumbent t \<noteq> tg_Candidate t" "percentages sp"
    then have "gw_reweight t sp v = Inr v' \<Longrightarrow> gw_read t v' = Inr sp" for v v'
      using gw_reweight_read by blast
    note rd = this
    show "rt_SetSplit (GatewayAPI C) t sp w = (None, w') \<Longrightarrow> stored obj gw_read t w' = Some sp"
      by (auto simp: GatewayAPI_def gw_SetSplit_def stored_def rd split: option.splits dest!: eff)
    show "rt_SetSplit (GatewayAPI C) t sp w = (Some e, w') \<Longrightarrow>
        stored obj gw_read t w' \<in> {stored obj gw_read t w, Some sp}"
      by (auto simp: GatewayAPI_def gw_SetSplit_def stored_def rd split: option.splits dest!: eff) }
  show "rt_SetSplit (GatewayAPI C) t sp w = (r, w') \<Longrightarrow>
      stored_mirroring obj gw_mirroring t w' = stored_mirroring obj gw_mirroring t w"
    by (auto simp: GatewayAPI_def gw_SetSplit_def stored_mirroring_def gw_reweight_mirroring
        split: option.splits dest!: eff)
  show "rt_Split (GatewayAPI C) t w = (Inr got, w') \<Longrightarrow> stored obj gw_read t w = Some got"
    by (auto simp: GatewayAPI_def gw_Split_def stored_def split: prod.splits sum.splits
        dest!: kube_Get(2) [OF K])
  show "rt_Split (GatewayAPI C) t w = (res, w') \<Longrightarrow>
      stored obj gw_read t w' = stored obj gw_read t w \<and>
      stored_mirroring obj gw_mirroring t w' = stored_mirroring obj gw_mirroring t w"
    by (auto simp: GatewayAPI_def gw_Split_def stored_def stored_mirroring_def split: prod.splits sum.splits
        dest!: kube_Get(1) [OF K])
  show "rt_Mirror (GatewayAPI C) t p w = (r, w') \<Longrightarrow> stored obj gw_read t w' = stored obj gw_read t w"
    by (auto simp: GatewayAPI_def gw_Mirror_def stored_def gw_mirror_read split: if_splits dest!: eff)
  show "rt_Mirror (GatewayAPI C) t 0 w = (None, w') \<Longrightarrow> \<not> stored_mirroring obj gw_mirroring t w'"
    by (auto simp: GatewayAPI_def gw_Mirror_def stored_mirroring_def dest!: eff dest: gw_mirror_off)
qed

section \<open>Properties\<close>

text \<open>
  C39. What was written is what is read back.  On a cluster that behaves as documented, once the
  gateway router has accepted a split for two different backends, the next successful read returns
  exactly that split: the controller's view of how much traffic the candidate has is the route's.
\<close>

theorem gateway_split_reads_back:
  assumes "kube_ok C obj" and "tg_Incumbent t \<noteq> tg_Candidate t" and "percentages sp"
    and "gw_SetSplit C t sp w = (None, w1)" and "gw_Split C t w1 = (Inr got, w2)"
  shows "got = sp"
  using gateway.read_back [of C obj t sp w w1 got w2] assms by (simp add: GatewayAPI_def)

text \<open>A cluster holding one object, which accepts everything.\<close>

definition one_object :: "('o, 'o) client" where
  "one_object = \<lparr> c_Get = (\<lambda>k w. (if k = ([], ''r'') then Inr w else Inl no_msg, w)),
     c_Update = (\<lambda>k v w. if k = ([], ''r'') then (None, v) else (Some no_msg, w)) \<rparr>"

lemma one_object_ok: "kube_ok one_object (\<lambda>w. [([], ''r'') \<mapsto> w])"
  by (simp add: kube_ok_def one_object_def)

definition ex_target :: Target where
  "ex_target = \<lparr> tg_Namespace = [], tg_Name = ''r'', tg_Incumbent = ''a'', tg_Candidate = ''b'' \<rparr>"

definition ex_ref :: "string \<Rightarrow> int option \<Rightarrow> HTTPBackendRef" where
  "ex_ref n k = \<lparr> br_Name = n, br_Port = Some 80, br_Weight = k, br_Rest = JNull \<rparr>"

definition ex_route :: "HTTPBackendRef list \<Rightarrow> HTTPRoute" where
  "ex_route refs = \<lparr> hr_Rules = [\<lparr> rr_BackendRefs = refs, rr_Filters = [], rr_SessionPersistence = None,
     rr_Rest = JNull \<rparr>], hr_Rest = JNull \<rparr>"

theorem gateway_split_reads_back_witness:
  "(let sp = \<lparr> sp_Incumbent = 95, sp_Candidate = 5 \<rparr>;
        (e, w1) = gw_SetSplit one_object ex_target sp (ex_route [ex_ref ''a'' None, ex_ref ''b'' (Some 0)])
    in e = None \<and> fst (gw_Split one_object ex_target w1) = Inr sp)"
proof -
  let ?sp = "\<lparr> sp_Incumbent = 95, sp_Candidate = 5 \<rparr>"
  let ?w = "ex_route [ex_ref ''a'' None, ex_ref ''b'' (Some 0)]"
  let ?w1 = "ex_route [ex_ref ''a'' (Some 95), ex_ref ''b'' (Some 5)]"
  have s: "gw_SetSplit one_object ex_target ?sp ?w = (None, ?w1)"
    by (simp add: gw_SetSplit_def Valid_def modify_def one_object_def ex_target_def target_key_def
        gw_reweight_def backendRefs_def build_ref_def ex_route_def ex_ref_def index_by_def to_int32_percent)
  obtain got w2 where g: "gw_Split one_object ex_target ?w1 = (Inr got, w2)"
    by (simp add: gw_Split_def one_object_def ex_target_def target_key_def gw_read_def ex_route_def)
  have "got = ?sp"
    by (rule gateway_split_reads_back [OF one_object_ok _ _ s g])
       (simp_all add: ex_target_def percentages_def)
  then show ?thesis using s g by (simp add: Let_def)
qed

text \<open>
  Reweighting touches only weights, and keeps only two backends.  A successful reweighting leaves
  the other rules and every other part of the route and of the first rule as they were; of the first
  rule's backends it keeps the incumbent's and the candidate's, each with all it had except the new
  weight, and removes any further backend the operator had configured there.
\<close>

theorem gateway_reweighting_frame:
  assumes "gw_reweight t sp route = Inr route'"
  shows "\<exists>rule rules inc cand. hr_Rules route = rule # rules \<and>
     inc \<in> set (rr_BackendRefs rule) \<and> br_Name inc = tg_Incumbent t \<and>
     cand \<in> set (rr_BackendRefs rule) \<and> br_Name cand = tg_Candidate t \<and>
     route' = route\<lparr>hr_Rules := rule\<lparr>rr_BackendRefs :=
       [inc\<lparr>br_Weight := Some (to_int32 (sp_Incumbent sp))\<rparr>,
        cand\<lparr>br_Weight := Some (to_int32 (sp_Candidate sp))\<rparr>]\<rparr> # rules\<rparr>"
  using assms by (elim gw_reweight_Inr) (drule build_ref_Inr, drule build_ref_Inr, blast)

theorem gateway_reweighting_frame_witness:
  "\<exists>rule rules. hr_Rules (ex_route [ex_ref ''a'' None, ex_ref ''b'' None, ex_ref ''c'' (Some 1)]) = rule # rules \<and>
     ex_ref ''c'' (Some 1) \<in> set (rr_BackendRefs rule) \<and>
     gw_reweight ex_target FullyIncumbent (ex_route [ex_ref ''a'' None, ex_ref ''b'' None, ex_ref ''c'' (Some 1)]) =
       Inr (ex_route [ex_ref ''a'' (Some 100), ex_ref ''b'' (Some 0)])"
proof -
  have "gw_reweight ex_target FullyIncumbent (ex_route [ex_ref ''a'' None, ex_ref ''b'' None, ex_ref ''c'' (Some 1)]) =
       Inr (ex_route [ex_ref ''a'' (Some 100), ex_ref ''b'' (Some 0)])"
    by (simp add: ex_target_def FullyIncumbent_def gw_reweight_def backendRefs_def build_ref_def ex_route_def
        ex_ref_def index_by_def to_int32_percent)
  from gateway_reweighting_frame [OF this] this show ?thesis by (auto simp: ex_route_def)
qed

text \<open>
  The gateway router is idempotent, as the contract of a router demands: reconciling the same
  weights or the same mirroring a second time produces the same route object again, so repeated
  reconciliation never makes the route drift.
\<close>

theorem gateway_router_idempotent:
  "bindR (gw_reweight t sp route) (gw_reweight t sp) = gw_reweight t sp route \<and>
   bindR (gw_mirror t p route) (gw_mirror t p) = gw_mirror t p route"
proof
  show "bindR (gw_reweight t sp route) (gw_reweight t sp) = gw_reweight t sp route"
  proof (cases "gw_reweight t sp route")
    case (Inr route')
    then obtain rule rules inc cand where r: "hr_Rules route = rule # rules"
      "build_ref t (rr_BackendRefs rule) (tg_Incumbent t) (to_int32 (sp_Incumbent sp)) = Inr inc"
      "build_ref t (rr_BackendRefs rule) (tg_Candidate t) (to_int32 (sp_Candidate sp)) = Inr cand"
      "route' = route\<lparr>hr_Rules := rule\<lparr>rr_BackendRefs := [inc, cand]\<rparr> # rules\<rparr>"
      by (rule gw_reweight_Inr)
    have "gw_reweight t sp route' = Inr route'"
      using build_ref_again [OF r(2,3)] r(4)
      by (simp add: gw_reweight_def backendRefs_def)
    then show ?thesis using Inr by simp
  qed simp
  show "bindR (gw_mirror t p route) (gw_mirror t p) = gw_mirror t p route"
  proof (cases "hr_Rules route")
    case (Cons rule rules)
    have own: "own_mirror t \<lparr> hf_Type = HTTPRouteFilterRequestMirror,
        hf_Mirror = Some (tg_Candidate t, port), hf_Rest = JNull \<rparr>" for port
      by (simp add: own_mirror_def)
    have "candidatePort (rule\<lparr>rr_Filters := fs\<rparr>) t = candidatePort rule t" for fs
      by (simp add: candidatePort_def)
    then show ?thesis
      using Cons own by (cases "candidatePort rule t") (simp_all add: gw_mirror_def Let_def)
  qed (simp add: gw_mirror_def)
qed

end
