(* ===== verification/Istio.thy ===== *)
theory Istio
  imports GatewayApi
begin

text \<open>
  \<open>internal/traffic/istio.go\<close>: the router that edits a \<open>VirtualService\<close> as an unstructured
  object.  The accessors of \<open>apimachinery\<close> it calls are the fields of \<open>unstructured\<close>; the
  program edits the live maps in place, which here is the update of the object at the same path.
\<close>

type_synonym object = "(string \<times> json) list"

record unstructured =
  us_NestedSlice :: "object \<Rightarrow> string list \<Rightarrow> (json list \<times> bool) result"
  us_Annotation :: "object \<Rightarrow> string \<Rightarrow> string"
  us_Namespace :: "object \<Rightarrow> string"
  us_Name :: "object \<Rightarrow> string"

section \<open>Reading the object\<close>

definition live_spec :: "object \<Rightarrow> object" where
  "live_spec vs = (case as_obj (jfield ''spec'' vs) of None \<Rightarrow> [] | Some m \<Rightarrow> m)"

definition live_http :: "object \<Rightarrow> json list" where
  "live_http vs = (case as_arr (jfield ''http'' (live_spec vs)) of None \<Rightarrow> [] | Some xs \<Rightarrow> xs)"

definition httpRoutes :: "unstructured \<Rightarrow> object \<Rightarrow> json list result" where
  "httpRoutes U vs =
     (case us_NestedSlice U vs [''spec'', ''http''] of
        Inl e \<Rightarrow> Inl e
      | Inr (routes, found) \<Rightarrow>
          if \<not> found \<or> length routes = 0
          then Inl (Sprintf ''VirtualService %s/%s has no http routes to weight''
                      [AStr (us_Namespace U vs), AStr (us_Name U vs)])
          else if length (live_http vs) = 0
          then Inl (Sprintf ''VirtualService %s/%s has no http routes''
                      [AStr (us_Namespace U vs), AStr (us_Name U vs)])
          else Inr (live_http vs))"

fun all_maps :: "json list \<Rightarrow> object list result" where
  "all_maps [] = Inr []"
| "all_maps (item # items) =
     (case as_obj item of
        None \<Rightarrow> Inl (Text ''malformed destination'')
      | Some d \<Rightarrow> bindR (all_maps items) (\<lambda>ds. Inr (d # ds)))"

definition destinationsOf :: "json \<Rightarrow> object list result" where
  "destinationsOf route =
     (case as_obj route of
        None \<Rightarrow> Inl (Text ''malformed http route'')
      | Some r \<Rightarrow>
          (case as_arr (jfield ''route'' r) of
             None \<Rightarrow> Inl (Text ''http route has no destinations'')
           | Some raw \<Rightarrow> if length raw = 0 then Inl (Text ''http route has no destinations'')
                         else all_maps raw))"

definition destinationName :: "object \<Rightarrow> string result" where
  "destinationName d =
     (case as_obj (jfield ''destination'' d) of
        None \<Rightarrow> Inl (Text ''destination has no destination block'')
      | Some dest \<Rightarrow>
          (case as_str (jfield ''subset'' dest) of
             Some (c # cs) \<Rightarrow> Inr (c # cs)
           | _ \<Rightarrow> Inr (case as_str (jfield ''host'' dest) of None \<Rightarrow> [] | Some h \<Rightarrow> h)))"

section \<open>Weights\<close>

definition set_weight :: "Target \<Rightarrow> Split \<Rightarrow> string \<Rightarrow> object \<Rightarrow> object" where
  "set_weight target split name d =
     (if name = tg_Incumbent target then AList.update ''weight'' (JInt (sp_Incumbent split)) d
      else if name = tg_Candidate target then AList.update ''weight'' (JInt (sp_Candidate split)) d
      else d)"

text \<open>The loop over the destinations: the edited destinations and the arms seen.\<close>

fun reweight_dests :: "Target \<Rightarrow> Split \<Rightarrow> object list \<Rightarrow> (object list \<times> string list) result" where
  "reweight_dests target split [] = Inr ([], [])"
| "reweight_dests target split (d # ds) =
     bindR (destinationName d) (\<lambda>name.
     bindR (reweight_dests target split ds) (\<lambda>(ds', seen).
       Inr (set_weight target split name d # ds',
            if name = tg_Incumbent target \<or> name = tg_Candidate target then name # seen else seen)))"

definition put_route0 :: "object \<Rightarrow> object \<Rightarrow> object" where
  "put_route0 r vs =
     AList.update ''spec''
       (JObj (AList.update ''http'' (JArr (JObj r # tl (live_http vs))) (live_spec vs))) vs"

definition route0 :: "object \<Rightarrow> object option" where
  "route0 vs = (case live_http vs of [] \<Rightarrow> None | r # _ \<Rightarrow> as_obj r)"

definition istio_reweight :: "unstructured \<Rightarrow> Target \<Rightarrow> Split \<Rightarrow> object \<Rightarrow> object result" where
  "istio_reweight U target split vs =
     bindR (httpRoutes U vs) (\<lambda>routes.
     bindR (destinationsOf (hd routes)) (\<lambda>destinations.
     bindR (reweight_dests target split destinations) (\<lambda>(destinations', seen).
       case find (\<lambda>want. want \<notin> set seen) [tg_Incumbent target, tg_Candidate target] of
         Some want \<Rightarrow> Inl (Sprintf ''VirtualService %s/%s has no destination for %q''
                            [AStr (tg_Namespace target), AStr (tg_Name target), AStr want])
       | None \<Rightarrow>
           Inr (put_route0 (AList.update ''route'' (JArr (map JObj destinations')) (the (as_obj (hd routes)))) vs))))"

definition wrap_vs :: "Target \<Rightarrow> msg \<Rightarrow> msg" where
  "wrap_vs target e =
     Sprintf ''VirtualService %s: %w'' [AStr (tg_Namespace target), AStr (tg_Name target), AErr e]"

definition istio_SetSplit ::
    "unstructured \<Rightarrow> (object, 'w) client \<Rightarrow> Target \<Rightarrow> Split \<Rightarrow> 'w \<Rightarrow> msg option \<times> 'w" where
  "istio_SetSplit U C target split w =
     (case Valid split of
        Some e \<Rightarrow> (Some e, w)
      | None \<Rightarrow> modify C (target_key target) (wrap_vs target) (istio_reweight U target split) w)"

fun read_dests :: "Target \<Rightarrow> object list \<Rightarrow> Split \<Rightarrow> Split result" where
  "read_dests target [] split = Inr split"
| "read_dests target (d # ds) split =
     bindR (destinationName d) (\<lambda>name.
       let weight = (case as_int (jfield ''weight'' d) of None \<Rightarrow> 0 | Some x \<Rightarrow> x)
       in read_dests target ds
            (if name = tg_Incumbent target then split\<lparr>sp_Incumbent := weight\<rparr>
             else if name = tg_Candidate target then split\<lparr>sp_Candidate := weight\<rparr>
             else split))"

definition istio_read :: "unstructured \<Rightarrow> Target \<Rightarrow> object \<Rightarrow> Split result" where
  "istio_read U target vs =
     bindR (httpRoutes U vs) (\<lambda>routes.
     bindR (destinationsOf (hd routes)) (\<lambda>destinations. read_dests target destinations no_split))"

definition istio_Split :: "unstructured \<Rightarrow> (object, 'w) client \<Rightarrow> Target \<Rightarrow> 'w \<Rightarrow> Split result \<times> 'w" where
  "istio_Split U C target w =
     (case c_Get C (target_key target) w of
        (Inl e, w1) \<Rightarrow> (Inl (wrap_vs target e), w1)
      | (Inr vs, w1) \<Rightarrow> (istio_read U target vs, w1))"

section \<open>Mirroring and stickiness\<close>

definition istio_mirror :: "unstructured \<Rightarrow> Target \<Rightarrow> int \<Rightarrow> object \<Rightarrow> object result" where
  "istio_mirror U target percent vs =
     bindR (httpRoutes U vs) (\<lambda>routes.
       case as_obj (hd routes) of
         None \<Rightarrow> Inl (Sprintf ''VirtualService %s/%s: malformed http route''
                        [AStr (tg_Namespace target), AStr (tg_Name target)])
       | Some route \<Rightarrow>
           Inr (put_route0
             (if percent = 0 then AList.delete ''mirrorPercentage'' (AList.delete ''mirror'' route)
              else AList.update ''mirrorPercentage'' (JObj [(''value'', JFloat (of_int64 percent))])
                     (AList.update ''mirror'' (JObj [(''host'', JStr (tg_Candidate target))]) route)) vs))"

definition istio_Mirror ::
    "unstructured \<Rightarrow> (object, 'w) client \<Rightarrow> Target \<Rightarrow> int \<Rightarrow> 'w \<Rightarrow> msg option \<times> 'w" where
  "istio_Mirror U C target percent w =
     (if percent < 0 \<or> 100 < percent
      then (Some (Sprintf ''mirror percentage %d is out of range'' [AInt percent]), w)
      else modify C (target_key target) (wrap_vs target) (istio_mirror U target percent) w)"

definition istio_Stickiness ::
    "unstructured \<Rightarrow> (object, 'w) client \<Rightarrow> Target \<Rightarrow> 'w \<Rightarrow> Stickiness result \<times> 'w" where
  "istio_Stickiness U C target w =
     (case c_Get C (target_key target) w of
        (Inl e, w1) \<Rightarrow> (Inl (wrap_vs target e), w1)
      | (Inr vs, w1) \<Rightarrow>
          (Inr (if us_Annotation U vs ''waveoff.ai/session-affinity'' = SessionHeader
                then StickyBySession else StickyNone), w1))"

definition Istio :: "unstructured \<Rightarrow> (object, 'w) client \<Rightarrow> 'w router" where
  "Istio U C = \<lparr> rt_SetSplit = istio_SetSplit U C, rt_Split = istio_Split U C, rt_Mirror = istio_Mirror U C,
     rt_Stickiness = istio_Stickiness U C, rt_Name = ''istio'' \<rparr>"

section \<open>Lemmas about one object\<close>

lemma live_put_route0 [simp]:
  "live_http (put_route0 r vs) = JObj r # tl (live_http vs)"
  "route0 (put_route0 r vs) = Some r"
  by (simp_all add: put_route0_def live_http_def live_spec_def route0_def)

lemma httpRoutes_Inr: "httpRoutes U vs = Inr routes \<Longrightarrow> routes = live_http vs \<and> routes \<noteq> []"
  by (auto simp: httpRoutes_def split: sum.splits prod.splits if_splits)

lemma all_maps_Inr: "all_maps xs = Inr ds \<longleftrightarrow> xs = map JObj ds"
  by (induction xs arbitrary: ds) (auto simp: bindR_Inr_iff Cons_eq_map_conv split: option.splits)

lemma destinationsOf_Inr:
  "destinationsOf r = Inr ds \<longleftrightarrow> ds \<noteq> [] \<and> (\<exists>m. r = JObj m \<and> jfield ''route'' m = JArr (map JObj ds))"
  by (auto simp: destinationsOf_def all_maps_Inr split: option.splits)

lemma destinationName_set_weight [simp]:
  "destinationName (AList.update ''weight'' x d) = destinationName d"
  "destinationName (set_weight t sp n d) = destinationName d"
  by (simp_all add: set_weight_def destinationName_def)

text \<open>What the stored object says, apart from the accessor's check.\<close>

definition istio_weights :: "Target \<Rightarrow> object \<Rightarrow> Split result" where
  "istio_weights t vs =
     bindR (destinationsOf (hd (live_http vs))) (\<lambda>ds. read_dests t ds no_split)"

definition istio_mirroring :: "Target \<Rightarrow> object \<Rightarrow> bool" where
  "istio_mirroring t vs = (case route0 vs of None \<Rightarrow> False | Some r \<Rightarrow> has_key r ''mirror'')"

lemma istio_read_Inr: "istio_read U t vs = Inr sp \<Longrightarrow> istio_weights t vs = Inr sp"
  by (auto simp: istio_read_def istio_weights_def bindR_Inr_iff dest: httpRoutes_Inr)

lemma reweight_dests_Inr:
  "reweight_dests t sp ds = Inr (ds', seen) \<Longrightarrow>
     length ds' = length ds \<and>
     (\<forall>i < length ds. \<exists>n. destinationName (ds ! i) = Inr n \<and> ds' ! i = set_weight t sp n (ds ! i)) \<and>
     set seen = {n. n \<in> {tg_Incumbent t, tg_Candidate t} \<and> (\<exists>d \<in> set ds. destinationName d = Inr n)}"
proof (induction ds arbitrary: ds' seen)
  case (Cons d ds)
  obtain n ds1 seen1 where n: "destinationName d = Inr n" and r: "reweight_dests t sp ds = Inr (ds1, seen1)"
    and e: "ds' = set_weight t sp n d # ds1"
      "seen = (if n = tg_Incumbent t \<or> n = tg_Candidate t then n # seen1 else seen1)"
    using Cons.prems by (auto simp: bindR_Inr_iff)
  note ih = Cons.IH [OF r]
  have "\<exists>n. destinationName ((d # ds) ! i) = Inr n \<and> ds' ! i = set_weight t sp n ((d # ds) ! i)"
    if "i < length (d # ds)" for i
    using that n e ih by (cases i) auto
  moreover have "set seen = {n. n \<in> {tg_Incumbent t, tg_Candidate t} \<and> (\<exists>d' \<in> set (d # ds). destinationName d' = Inr n)}"
    using n e ih by auto
  ultimately show ?case using e ih by simp
qed simp

text \<open>Reading the edited destinations: an arm that was seen has its new weight.\<close>

lemma read_reweighted:
  assumes "reweight_dests t sp ds = Inr (ds', seen)" and "tg_Incumbent t \<noteq> tg_Candidate t"
  shows "read_dests t ds' acc =
    Inr (acc\<lparr>sp_Incumbent := if tg_Incumbent t \<in> set seen then sp_Incumbent sp else sp_Incumbent acc,
             sp_Candidate := if tg_Candidate t \<in> set seen then sp_Candidate sp else sp_Candidate acc\<rparr>)"
  using assms
proof (induction ds arbitrary: ds' seen acc)
  case (Cons d ds)
  obtain n ds1 seen1 where n: "destinationName d = Inr n" and r: "reweight_dests t sp ds = Inr (ds1, seen1)"
    and e: "ds' = set_weight t sp n d # ds1"
      "seen = (if n = tg_Incumbent t \<or> n = tg_Candidate t then n # seen1 else seen1)"
    using Cons.prems(1) by (auto simp: bindR_Inr_iff)
  show ?case
    using Cons.IH [OF r Cons.prems(2)] n e Cons.prems(2) by (auto simp: set_weight_def)
qed simp

lemma istio_reweight_Inr:
  assumes "istio_reweight U t sp vs = Inr vs'"
  obtains r ds ds' seen where "live_http vs \<noteq> []" "hd (live_http vs) = JObj r"
    "jfield ''route'' r = JArr (map JObj ds)" "ds \<noteq> []" "reweight_dests t sp ds = Inr (ds', seen)"
    "{tg_Incumbent t, tg_Candidate t} \<subseteq> set seen"
    "vs' = put_route0 (AList.update ''route'' (JArr (map JObj ds')) r) vs"
proof -
  obtain ds ds' seen where h: "live_http vs \<noteq> []" "destinationsOf (hd (live_http vs)) = Inr ds"
    "reweight_dests t sp ds = Inr (ds', seen)"
    "find (\<lambda>want. want \<notin> set seen) [tg_Incumbent t, tg_Candidate t] = None"
    "vs' = put_route0 (AList.update ''route'' (JArr (map JObj ds')) (the (as_obj (hd (live_http vs))))) vs"
    using assms
    by (auto simp: istio_reweight_def bindR_Inr_iff dest!: httpRoutes_Inr split: option.splits)
  then obtain r where "hd (live_http vs) = JObj r" "jfield ''route'' r = JArr (map JObj ds)" "ds \<noteq> []"
    by (auto simp: destinationsOf_Inr)
  moreover have "{tg_Incumbent t, tg_Candidate t} \<subseteq> set seen"
    using h(4) by (auto split: if_splits)
  ultimately show ?thesis using h that by auto
qed

lemma istio_reweight_read:
  assumes "istio_reweight U t sp vs = Inr vs'" and "tg_Incumbent t \<noteq> tg_Candidate t"
  shows "istio_weights t vs' = Inr sp"
proof -
  obtain r ds ds' seen where h: "jfield ''route'' r = JArr (map JObj ds)" "ds \<noteq> []"
    and rd: "reweight_dests t sp ds = Inr (ds', seen)"
    and s: "{tg_Incumbent t, tg_Candidate t} \<subseteq> set seen"
    and v: "vs' = put_route0 (AList.update ''route'' (JArr (map JObj ds')) r) vs"
    using istio_reweight_Inr [OF assms(1)] by metis
  have "ds' \<noteq> []" using reweight_dests_Inr [OF rd] h by auto
  then have "destinationsOf (hd (live_http vs')) = Inr ds'"
    using v by (simp add: destinationsOf_Inr)
  then show ?thesis
    using read_reweighted [OF rd assms(2), of no_split] s by (simp add: istio_weights_def no_split_def)
qed

lemma istio_mirror_Inr:
  assumes "istio_mirror U t p vs = Inr vs'"
  obtains r r' where "live_http vs \<noteq> []" "hd (live_http vs) = JObj r" "vs' = put_route0 r' vs"
    "jfield ''route'' r' = jfield ''route'' r" "has_key r' ''mirror'' = (p \<noteq> 0)"
    "p \<noteq> 0 \<longrightarrow> jfield ''mirror'' r' = JObj [(''host'', JStr (tg_Candidate t))] \<and>
       jfield ''mirrorPercentage'' r' = JObj [(''value'', JFloat (of_int64 p))]"
  using assms
  by (auto simp: istio_mirror_def bindR_Inr_iff has_key_def update_conv' delete_conv'
      dest!: httpRoutes_Inr split: option.splits)

lemma istio_mirror_read:
  "istio_mirror U t p vs = Inr vs' \<Longrightarrow> istio_weights t' vs' = istio_weights t' vs"
  by (erule istio_mirror_Inr) (simp add: istio_weights_def destinationsOf_def)

lemma istio_mirror_off: "istio_mirror U t 0 vs = Inr vs' \<Longrightarrow> \<not> istio_mirroring t' vs'"
  by (erule istio_mirror_Inr) (simp add: istio_mirroring_def)

lemma istio_reweight_mirroring:
  "istio_reweight U t sp vs = Inr vs' \<Longrightarrow> istio_mirroring t' vs' = istio_mirroring t' vs"
  by (erule istio_reweight_Inr)
     (auto simp: istio_mirroring_def route0_def has_key_def update_conv' neq_Nil_conv)

section \<open>The contract\<close>

interpretation istio: router_contract
  "Istio U C" "kube_ok C obj" "stored obj istio_weights" "stored_mirroring obj istio_mirroring"
  for U and C :: "(object, 'w) client" and obj
proof
  assume K: "kube_ok C obj"
  fix t :: Target and sp got :: Split and w w' :: 'w and e r p and res :: "Split result"
  note eff = modify_effect [OF K]
  { assume "tg_Incumbent t \<noteq> tg_Candidate t"
    then have "istio_reweight U t sp v = Inr v' \<Longrightarrow> istio_weights t v' = Inr sp" for v v'
      using istio_reweight_read by blast
    note rd = this
    show "rt_SetSplit (Istio U C) t sp w = (None, w') \<Longrightarrow> stored obj istio_weights t w' = Some sp"
      by (auto simp: Istio_def istio_SetSplit_def stored_def rd split: option.splits dest!: eff)
    show "rt_SetSplit (Istio U C) t sp w = (Some e, w') \<Longrightarrow>
        stored obj istio_weights t w' \<in> {stored obj istio_weights t w, Some sp}"
      by (auto simp: Istio_def istio_SetSplit_def stored_def rd split: option.splits dest!: eff) }
  show "rt_SetSplit (Istio U C) t sp w = (r, w') \<Longrightarrow>
      stored_mirroring obj istio_mirroring t w' = stored_mirroring obj istio_mirroring t w"
    by (auto simp: Istio_def istio_SetSplit_def stored_mirroring_def istio_reweight_mirroring
        split: option.splits dest!: eff)
  show "rt_Split (Istio U C) t w = (Inr got, w') \<Longrightarrow> stored obj istio_weights t w = Some got"
    by (auto simp: Istio_def istio_Split_def stored_def split: prod.splits sum.splits
        dest!: kube_Get(2) [OF K] istio_read_Inr)
  show "rt_Split (Istio U C) t w = (res, w') \<Longrightarrow>
      stored obj istio_weights t w' = stored obj istio_weights t w \<and>
      stored_mirroring obj istio_mirroring t w' = stored_mirroring obj istio_mirroring t w"
    by (auto simp: Istio_def istio_Split_def stored_def stored_mirroring_def split: prod.splits sum.splits
        dest!: kube_Get(1) [OF K])
  show "rt_Mirror (Istio U C) t p w = (r, w') \<Longrightarrow> stored obj istio_weights t w' = stored obj istio_weights t w"
    by (auto simp: Istio_def istio_Mirror_def stored_def istio_mirror_read split: if_splits dest!: eff)
  show "rt_Mirror (Istio U C) t 0 w = (None, w') \<Longrightarrow> \<not> stored_mirroring obj istio_mirroring t w'"
    by (auto simp: Istio_def istio_Mirror_def stored_mirroring_def dest!: eff dest: istio_mirror_off)
qed

section \<open>Properties\<close>

text \<open>
  C40. What was written is what is read back, for the Istio router too, however many destinations the
  route has and whether they are named by host or by subset.
\<close>

theorem istio_split_reads_back:
  assumes "kube_ok C obj" and "tg_Incumbent t \<noteq> tg_Candidate t" and "percentages sp"
    and "istio_SetSplit U C t sp w = (None, w1)" and "istio_Split U C t w1 = (Inr got, w2)"
  shows "got = sp"
  using istio.read_back [of C obj t sp U w w1 got w2] assms by (simp add: Istio_def)

text \<open>A virtual service with one route, for the examples.\<close>

definition ex_unstructured :: unstructured where
  "ex_unstructured = \<lparr> us_NestedSlice = (\<lambda>vs path. Inr (live_http vs, True)), us_Annotation = (\<lambda>vs a. []),
     us_Namespace = (\<lambda>vs. []), us_Name = (\<lambda>vs. []) \<rparr>"

definition ex_dest :: "object \<Rightarrow> int \<Rightarrow> json" where
  "ex_dest d k = JObj [(''destination'', JObj d), (''weight'', JInt k)]"

definition ex_vs :: "object \<Rightarrow> json list \<Rightarrow> object" where
  "ex_vs extra ds = [(''spec'', JObj [(''http'', JArr [JObj ((''route'', JArr ds) # extra)])])]"

theorem istio_split_reads_back_witness:
  "(let sp = \<lparr> sp_Incumbent = 95, sp_Candidate = 5 \<rparr>;
        vs = ex_vs [] [ex_dest [(''host'', JStr ''a'')] 100,
                       ex_dest [(''host'', JStr ''a''), (''subset'', JStr ''b'')] 0];
        (e, w1) = istio_SetSplit ex_unstructured one_object ex_target sp vs
    in e = None \<and> fst (istio_Split ex_unstructured one_object ex_target w1) = Inr sp)"
proof -
  let ?sp = "\<lparr> sp_Incumbent = 95, sp_Candidate = 5 \<rparr>"
  let ?ds = "\<lambda>i c. [ex_dest [(''host'', JStr ''a'')] i, ex_dest [(''host'', JStr ''a''), (''subset'', JStr ''b'')] c]"
  note defs = ex_unstructured_def ex_vs_def ex_dest_def one_object_def ex_target_def httpRoutes_def
    live_http_def live_spec_def jfield_def lookup_or_def destinationsOf_def destinationName_def target_key_def
  have s: "istio_SetSplit ex_unstructured one_object ex_target ?sp (ex_vs [] (?ds 100 0)) = (None, ex_vs [] (?ds 95 5))"
    by (simp add: istio_SetSplit_def Valid_def modify_def istio_reweight_def set_weight_def put_route0_def defs)
  obtain got w2 where g: "istio_Split ex_unstructured one_object ex_target (ex_vs [] (?ds 95 5)) = (Inr got, w2)"
    by (simp add: istio_Split_def istio_read_def defs Let_def)
  have "got = ?sp"
    by (rule istio_split_reads_back [OF one_object_ok _ _ s g]) (simp_all add: ex_target_def percentages_def)
  then show ?thesis using s g by (simp add: Let_def)
qed

text \<open>
  Istio reweighting touches only the two arms' weights.  A successful reweighting keeps every
  destination in its place; each keeps every field but its weight, and the weight of a destination
  that is neither arm is left alone.
\<close>

theorem istio_reweighting_frame:
  assumes "istio_reweight U t sp vs = Inr vs'" and "route0 vs = Some r"
    and "jfield ''route'' r = JArr (map JObj ds)"
  shows "\<exists>r' ds'. route0 vs' = Some r' \<and> jfield ''route'' r' = JArr (map JObj ds') \<and> length ds' = length ds \<and>
     (\<forall>i < length ds. (\<forall>k. k \<noteq> ''weight'' \<longrightarrow> jfield k (ds' ! i) = jfield k (ds ! i)) \<and>
        (destinationName (ds ! i) \<notin> {Inr (tg_Incumbent t), Inr (tg_Candidate t)} \<longrightarrow> ds' ! i = ds ! i))"
proof -
  obtain r1 ds1 ds' seen where h: "live_http vs \<noteq> []" "hd (live_http vs) = JObj r1"
    "jfield ''route'' r1 = JArr (map JObj ds1)" "reweight_dests t sp ds1 = Inr (ds', seen)"
    "vs' = put_route0 (AList.update ''route'' (JArr (map JObj ds')) r1) vs"
    using istio_reweight_Inr [OF assms(1)] by metis
  have "r1 = r" using h assms(2) by (auto simp: route0_def neq_Nil_conv)
  moreover have "inj JObj" by (simp add: inj_def)
  ultimately have "ds1 = ds" using h(3) assms(3) by (simp add: inj_map_eq_map)
  then show ?thesis
    using h reweight_dests_Inr [OF h(4)]
    by (intro exI [of _ "AList.update ''route'' (JArr (map JObj ds')) r1"] exI [of _ ds'])
       (fastforce simp: set_weight_def)
qed

theorem istio_reweighting_frame_witness:
  "(let ds = \<lambda>i c. [[(''destination'', JObj [(''host'', JStr ''a'')]), (''weight'', JInt i)],
                    [(''destination'', JObj [(''host'', JStr ''b'')]), (''weight'', JInt c)],
                    [(''destination'', JObj [(''host'', JStr ''c'')]), (''weight'', JInt 7)]]
    in \<exists>vs' r' ds'. istio_reweight ex_unstructured ex_target FullyIncumbent (ex_vs [] (map JObj (ds 90 10))) = Inr vs' \<and>
         route0 vs' = Some r' \<and> jfield ''route'' r' = JArr (map JObj ds') \<and> ds' ! 2 = ds 90 10 ! 2)"
proof -
  let ?ds = "\<lambda>i c. [[(''destination'', JObj [(''host'', JStr ''a'')]), (''weight'', JInt i)],
                    [(''destination'', JObj [(''host'', JStr ''b'')]), (''weight'', JInt c)],
                    [(''destination'', JObj [(''host'', JStr ''c'')]), (''weight'', JInt 7)]]"
  note defs = ex_unstructured_def ex_vs_def ex_target_def httpRoutes_def route0_def
    live_http_def live_spec_def jfield_def lookup_or_def destinationsOf_def destinationName_def
  obtain vs' where v: "istio_reweight ex_unstructured ex_target FullyIncumbent (ex_vs [] (map JObj (?ds 90 10))) = Inr vs'"
    by (simp add: istio_reweight_def defs)
  have r: "route0 (ex_vs [] (map JObj (?ds 90 10))) = Some [(''route'', JArr (map JObj (?ds 90 10)))]"
    "jfield ''route'' [(''route'', JArr (map JObj (?ds 90 10)))] = JArr (map JObj (?ds 90 10))"
    by (simp_all add: defs)
  have c: "destinationName (?ds 90 10 ! 2) \<notin> {Inr (tg_Incumbent ex_target), Inr (tg_Candidate ex_target)}"
    by (simp add: defs)
  have "2 < length (?ds 90 10)" by simp
  then show ?thesis
    using istio_reweighting_frame [OF v r] c v unfolding Let_def by blast
qed

text \<open>
  Mirroring on Istio names a host.  A mirror that is switched on points at the host whose name is
  the target's candidate and at nothing else, while a split matches the candidate by subset first: when
  the arms are two subsets of one host, shadow traffic is sent to a host of the subset's name.
\<close>

theorem istio_mirror_names_a_host:
  assumes "istio_mirror U t p vs = Inr vs'" and "p \<noteq> 0"
  shows "\<exists>r'. route0 vs' = Some r' \<and>
     jfield ''mirror'' r' = JObj [(''host'', JStr (tg_Candidate t))] \<and>
     jfield ''mirrorPercentage'' r' = JObj [(''value'', JFloat (of_int64 p))] \<and>
     istio_weights t vs' = istio_weights t vs"
  using assms istio_mirror_read [OF assms(1), of t] by (elim istio_mirror_Inr) auto

theorem istio_mirror_names_a_host_witness:
  "(let vs = ex_vs [] [ex_dest [(''host'', JStr ''svc''), (''subset'', JStr ''a'')] 100,
                       ex_dest [(''host'', JStr ''svc''), (''subset'', JStr ''b'')] 0]
    in istio_weights ex_target vs = Inr FullyIncumbent \<and>
       (\<exists>vs' r'. istio_mirror ex_unstructured ex_target 100 vs = Inr vs' \<and> route0 vs' = Some r' \<and>
          jfield ''mirror'' r' = JObj [(''host'', JStr ''b'')]))"
proof -
  let ?vs = "ex_vs [] [ex_dest [(''host'', JStr ''svc''), (''subset'', JStr ''a'')] 100,
                       ex_dest [(''host'', JStr ''svc''), (''subset'', JStr ''b'')] 0]"
  note defs = ex_unstructured_def ex_vs_def ex_dest_def ex_target_def httpRoutes_def
    live_http_def live_spec_def jfield_def lookup_or_def destinationsOf_def destinationName_def
  have w: "istio_weights ex_target ?vs = Inr FullyIncumbent"
    by (simp add: istio_weights_def defs Let_def no_split_def FullyIncumbent_def)
  obtain vs' where "istio_mirror ex_unstructured ex_target 100 ?vs = Inr vs'"
    by (simp add: istio_mirror_def defs)
  from istio_mirror_names_a_host [OF this] this w show ?thesis by (auto simp: ex_target_def Let_def)
qed

end
