(* ===== verification/Live.thy ===== *)
theory Live
  imports Observations Istio
begin

text \<open>
  \<open>internal/rollout/live.go\<close>: one step of a shadow or live stage, the traffic configuration a
  stage enters with, and the withdrawal of a candidate.  The runner's collaborators are the router,
  the analyzer, the two measurement sources and the clock; all pass the world along.
\<close>

datatype StepOutcome = StepContinue | StepPromote | StepRollBack

record Step =
  step_Outcome :: StepOutcome
  step_Reason :: msg
  step_Trigger :: RollbackTrigger
  step_Verdict :: Verdict
  step_Activity :: "ActivityFinding option"
  step_Weight :: int
  step_RequeueAfter :: duration

type_synonym 'w observation_source =
  "string \<Rightarrow> string \<Rightarrow> string \<Rightarrow> time \<Rightarrow> 'w \<Rightarrow> (Observation list \<times> Missingness) result \<times> 'w"

type_synonym 'w activity_source =
  "string \<Rightarrow> string \<Rightarrow> string \<Rightarrow> time \<Rightarrow> 'w \<Rightarrow> (Activity \<times> Activity) result \<times> 'w"

record 'w LiveRunner =
  lr_Router :: "'w router"
  lr_Analyze :: "Request \<Rightarrow> 'w \<Rightarrow> Verdict result \<times> 'w"
  lr_Observations :: "'w observation_source"
  lr_Activity :: "'w activity_source option"
  lr_Now :: "'w \<Rightarrow> time \<times> 'w"

definition DefaultPollInterval :: duration where
  "DefaultPollInterval = 30 * second"

section \<open>Durations\<close>

text \<open>\<open>Time.Sub\<close> saturates at the bounds of a duration; \<open>Duration.Round\<close> rounds half away from zero.\<close>

definition saturate :: "int \<Rightarrow> duration" where
  "saturate d = max (- (2 ^ 63)) (min (2 ^ 63 - 1) d)"

definition time_Sub :: "time \<Rightarrow> time \<Rightarrow> duration" where
  "time_Sub a b = saturate (a - b)"

definition round_nonneg :: "duration \<Rightarrow> duration \<Rightarrow> duration" where
  "round_nonneg d m = (let r = d mod m in if r + r < m then d - r else d + m - r)"

definition duration_Round :: "duration \<Rightarrow> duration \<Rightarrow> duration" where
  "duration_Round d m =
     (if m \<le> 0 then d else saturate (if d < 0 then - round_nonneg (- d) m else round_nonneg d m))"

section \<open>Requests\<close>

definition designFor :: "StageMode \<Rightarrow> Design" where
  "designFor mode = (if mode = StageLive then DesignUnpaired else DesignPaired)"

definition targetFor :: "AgentRollout \<Rightarrow> Stage \<Rightarrow> Target" where
  "targetFor rollout stage =
     (case stage_Traffic stage of
        None \<Rightarrow> \<lparr> tg_Namespace = ro_Namespace rollout, tg_Name = [], tg_Incumbent = [], tg_Candidate = [] \<rparr>
      | Some t \<Rightarrow> \<lparr> tg_Namespace = ro_Namespace rollout, tg_Name = ts_RouteRef t,
                   tg_Incumbent = ts_IncumbentBackend t, tg_Candidate = ts_CandidateBackend t \<rparr>)"

definition isUnsupported :: "msg \<Rightarrow> bool" where
  "isUnsupported e = errors_Is e ErrUnsupported"

definition live_request ::
    "Stage \<Rightarrow> AgentManifestSpec \<Rightarrow> AgentManifestSpec \<Rightarrow> Observation list \<Rightarrow> Missingness \<Rightarrow> Request" where
  "live_request stage incumbent candidate observations missing =
     \<lparr> rq_Agent = Agent incumbent, rq_Incumbent = BehaviorDigest incumbent,
       rq_Candidate = BehaviorDigest candidate, rq_Primary = toMetric (gate_Primary (stage_Gate stage)),
       rq_Guardrails = map toMetric (gate_Guardrails (stage_Gate stage)),
       rq_Observations = observations, rq_Missing = missing, rq_MissingPolicy = zero_MissingnessPolicy,
       rq_Reasons = [], rq_Design = designFor (stage_Mode stage), rq_Seed = 1 \<rparr>"

section \<open>One step\<close>

text \<open>What the verdict of a step comes to.\<close>

definition step_on_verdict ::
    "AgentRollout \<Rightarrow> Stage \<Rightarrow> time \<Rightarrow> time \<Rightarrow> Step \<Rightarrow> Verdict \<Rightarrow> Step" where
  "step_on_verdict rollout stage now startedAt step verdict =
     (let step = step\<lparr>step_Verdict := verdict\<rparr>
      in case vd_Outcome verdict of
        OutcomeWaveOff \<Rightarrow>
          (let trigger = (if list_ex mr_Inferior (vd_Guardrails verdict) then TriggerGuardrailViolation
                          else TriggerGateFail)
           in if Fires (rs_Rollback (ro_Spec rollout)) trigger
              then step\<lparr>step_Outcome := StepRollBack, step_Trigger := trigger, step_Reason := vd_Reason verdict\<rparr>
              else step\<lparr>step_Outcome := StepContinue,
                        step_Reason := Concat (Text ''waved off, but automatic rollback is disabled: '')
                                         (vd_Reason verdict),
                        step_RequeueAfter := 0\<rparr>)
      | OutcomePromote \<Rightarrow>
          (let elapsed = time_Sub now startedAt
           in case stage_MinObservationWindow stage of
             Some window \<Rightarrow>
               if elapsed < window
               then step\<lparr>step_Outcome := StepContinue,
                         step_Reason := Sprintf ''%s is already non-inferior, but the stage has run for %s of a required %s''
                           [AStr (gm_Metric (gate_Primary (stage_Gate stage))),
                            AInt (duration_Round elapsed second), AInt window]\<rparr>
               else step\<lparr>step_Outcome := StepPromote, step_Reason := vd_Reason verdict\<rparr>
           | None \<Rightarrow> step\<lparr>step_Outcome := StepPromote, step_Reason := vd_Reason verdict\<rparr>)
      | _ \<Rightarrow> step\<lparr>step_Outcome := StepContinue, step_Reason := vd_Reason verdict\<rparr>)"

text \<open>From the observations on.\<close>

definition step_on_observations ::
    "'w LiveRunner \<Rightarrow> AgentRollout \<Rightarrow> Stage \<Rightarrow> AgentManifestSpec \<Rightarrow> AgentManifestSpec \<Rightarrow> time \<Rightarrow> time \<Rightarrow> Step
      \<Rightarrow> 'w \<Rightarrow> Step result \<times> 'w" where
  "step_on_observations L rollout stage incumbent candidate now startedAt step w =
     (case lr_Observations L (Agent incumbent) (BehaviorDigest incumbent) (BehaviorDigest candidate) startedAt w of
        (Inl e, w1) \<Rightarrow> (Inl (Sprintf ''gathering observations: %w'' [AErr e]), w1)
      | (Inr (observations, missing), w1) \<Rightarrow>
          if length observations = 0
          then (Inr (step\<lparr>step_Outcome := StepContinue, step_Reason := Text ''no paired observations yet''\<rparr>), w1)
          else (case lr_Analyze L (live_request stage incumbent candidate observations missing) w1 of
            (Inl e, w2) \<Rightarrow>
              if Fires (rs_Rollback (ro_Spec rollout)) TriggerAnalyzerUnavailable
              then (Inr (step\<lparr>step_Outcome := StepRollBack, step_Trigger := TriggerAnalyzerUnavailable,
                       step_Reason := Sprintf ''the analyzer could not be reached: %v'' [AMsg e]\<rparr>), w2)
              else (Inl (Sprintf ''analyzer: %w'' [AErr e]), w2)
          | (Inr verdict, w2) \<Rightarrow> (Inr (step_on_verdict rollout stage now startedAt step verdict), w2)))"

definition new_Step :: "int \<Rightarrow> Step" where
  "new_Step weight =
     \<lparr> step_Outcome = StepContinue, step_Reason = no_msg, step_Trigger = TriggerNone,
       step_Verdict = zero_Verdict, step_Activity = None, step_Weight = weight,
       step_RequeueAfter = DefaultPollInterval \<rparr>"

definition over_budget :: "Stage \<Rightarrow> time \<Rightarrow> time \<Rightarrow> bool" where
  "over_budget stage now startedAt =
     (case stage_MaxDuration stage of None \<Rightarrow> False | Some d \<Rightarrow> d < time_Sub now startedAt)"

definition Advance ::
    "'w LiveRunner \<Rightarrow> AgentRollout \<Rightarrow> Stage \<Rightarrow> AgentManifestSpec \<Rightarrow> AgentManifestSpec \<Rightarrow> time \<Rightarrow> 'w
      \<Rightarrow> Step result \<times> 'w" where
  "Advance L rollout stage incumbent candidate startedAt w =
     (case lr_Now L w of (now, w0) \<Rightarrow>
     (case rt_Split (lr_Router L) (targetFor rollout stage) w0 of
        (Inl e, w1) \<Rightarrow> (Inl (Sprintf ''reading the traffic split: %w'' [AErr e]), w1)
      | (Inr split, w1) \<Rightarrow>
          (let step = new_Step (sp_Candidate split)
           in if over_budget stage now startedAt
              then (Inr (step\<lparr>step_Outcome := StepRollBack, step_Trigger := TriggerBudgetBreach,
                      step_Reason := Sprintf ''stage %q ran for %s without concluding, past its budget of %s''
                        [AStr (stage_Name stage), AInt (duration_Round (time_Sub now startedAt) second),
                         AInt (case stage_MaxDuration stage of Some d \<Rightarrow> d | None \<Rightarrow> 0)]\<rparr>), w1)
              else (case lr_Activity L of
                None \<Rightarrow> step_on_observations L rollout stage incumbent candidate now startedAt step w1
              | Some activity \<Rightarrow>
                  (case activity (Agent incumbent) (BehaviorDigest incumbent) (BehaviorDigest candidate) startedAt w1 of
                     (Inl e, w2) \<Rightarrow> (Inl (Sprintf ''gathering write attempts: %w'' [AErr e]), w2)
                   | (Inr (inc, cand), w2) \<Rightarrow>
                       (let finding = CompareActivity inc cand;
                            step = step\<lparr>step_Activity := Some finding\<rparr>
                        in if af_Violated finding \<and>
                              Fires (rs_Rollback (ro_Spec rollout)) TriggerWriteDivergence
                           then (Inr (step\<lparr>step_Outcome := StepRollBack, step_Trigger := TriggerWriteDivergence,
                                   step_Reason := af_Reason finding\<rparr>), w2)
                           else step_on_observations L rollout stage incumbent candidate now startedAt step w2))))))"

section \<open>Entering and withdrawing\<close>

text \<open>Switch mirroring off, taking a router that cannot mirror as having done so.\<close>

definition mirror_off :: "'w router \<Rightarrow> Target \<Rightarrow> 'w \<Rightarrow> msg option \<times> 'w" where
  "mirror_off R t w =
     (case rt_Mirror R t 0 w of
        (Some e, w1) \<Rightarrow> if isUnsupported e then (None, w1) else (Some e, w1)
      | (None, w1) \<Rightarrow> (None, w1))"

definition Enter :: "'w LiveRunner \<Rightarrow> AgentRollout \<Rightarrow> Stage \<Rightarrow> 'w \<Rightarrow> msg option \<times> 'w" where
  "Enter L rollout stage w =
     (let target = targetFor rollout stage
      in case stage_Mode stage of
        StageShadow \<Rightarrow>
          (case rt_SetSplit (lr_Router L) target FullyIncumbent w of
             (Some e, w1) \<Rightarrow> (Some e, w1)
           | (None, w1) \<Rightarrow>
               rt_Mirror (lr_Router L) target (if stage_MirrorPercent stage = 0 then 100 else stage_MirrorPercent stage) w1)
      | StageLive \<Rightarrow>
          (case mirror_off (lr_Router L) target w of
             (Some e, w1) \<Rightarrow> (Some e, w1)
           | (None, w1) \<Rightarrow>
               rt_SetSplit (lr_Router L) target
                 \<lparr> sp_Incumbent = 100 - stage_Weight stage, sp_Candidate = stage_Weight stage \<rparr> w1)
      | _ \<Rightarrow> (Some (Sprintf ''stage %q has mode %q, which is not a live stage''
                     [AStr (stage_Name stage), AStr (StageMode_string (stage_Mode stage))]), w))"

definition Withdraw :: "'w LiveRunner \<Rightarrow> AgentRollout \<Rightarrow> Stage \<Rightarrow> 'w \<Rightarrow> msg option \<times> 'w" where
  "Withdraw L rollout stage w =
     (case rt_SetSplit (lr_Router L) (targetFor rollout stage) FullyIncumbent w of
        (Some e, w1) \<Rightarrow> (Some e, w1)
      | (None, w1) \<Rightarrow> mirror_off (lr_Router L) (targetFor rollout stage) w1)"

section \<open>Traffic, against the contract of a router\<close>

lemma FullyIncumbent_percent [simp]: "percentages FullyIncumbent"
  by (simp add: percentages_def FullyIncumbent_def)

context router_contract begin

lemma mirror_off_configured:
  "env_ok \<Longrightarrow> mirror_off R t w = (r, w') \<Longrightarrow> configured t w' = configured t w"
  by (auto simp: mirror_off_def Mirror_configured split: prod.splits option.splits if_splits)

lemma mirror_off_silent:
  assumes env_ok and "mirror_off R t w = (None, w')" and "\<forall>e w1. rt_Mirror R t 0 w = (Some e, w1) \<longrightarrow> \<not> isUnsupported e"
  shows "\<not> mirroring t w'"
  using assms by (auto simp: mirror_off_def dest: Mirror_off split: prod.splits option.splits if_splits)

lemma withdraw_split:
  assumes env_ok and "tg_Incumbent (targetFor ro st) \<noteq> tg_Candidate (targetFor ro st)"
    and "lr_Router L = R" and "Withdraw L ro st w = (None, w')"
  shows "configured (targetFor ro st) w' = Some FullyIncumbent"
proof -
  obtain w1 where s: "rt_SetSplit R (targetFor ro st) FullyIncumbent w = (None, w1)"
    and m: "mirror_off R (targetFor ro st) w1 = (None, w')"
    using assms(3,4) by (auto simp: Withdraw_def split: prod.splits option.splits)
  show ?thesis
    using SetSplit_done [OF assms(1,2) FullyIncumbent_percent s] mirror_off_configured [OF assms(1) m] by simp
qed

text \<open>A withdrawal that failed left the split as it was or fully on the incumbent, never in between.\<close>

lemma withdraw_failed:
  assumes env_ok and "tg_Incumbent (targetFor ro st) \<noteq> tg_Candidate (targetFor ro st)"
    and "lr_Router L = R" and "Withdraw L ro st w = (Some e, w')"
  shows "configured (targetFor ro st) w' \<in> {configured (targetFor ro st) w, Some FullyIncumbent}"
proof (cases "rt_SetSplit R (targetFor ro st) FullyIncumbent w")
  case (Pair r w1)
  show ?thesis
  proof (cases r)
    case None
    then have "mirror_off R (targetFor ro st) w1 = (Some e, w')" using assms(3,4) Pair by (simp add: Withdraw_def)
    then show ?thesis
      using SetSplit_done [OF assms(1,2) FullyIncumbent_percent] Pair None mirror_off_configured [OF assms(1)] by fastforce
  next
    case (Some e')
    then have "w' = w1" using assms(3,4) Pair by (simp add: Withdraw_def)
    then show ?thesis using SetSplit_failed [OF assms(1,2) FullyIncumbent_percent] Pair Some by simp
  qed
qed

lemma enter_shadow_split:
  assumes env_ok and "tg_Incumbent (targetFor ro st) \<noteq> tg_Candidate (targetFor ro st)"
    and "lr_Router L = R" and "stage_Mode st = StageShadow" and "Enter L ro st w = (None, w')"
  shows "configured (targetFor ro st) w' = Some FullyIncumbent"
proof -
  obtain w1 p where "rt_SetSplit R (targetFor ro st) FullyIncumbent w = (None, w1)"
    "rt_Mirror R (targetFor ro st) p w1 = (None, w')"
    using assms(3-5) by (auto simp: Enter_def Let_def split: prod.splits option.splits)
  then show ?thesis using rollback_effect [OF assms(1,2)] by blast
qed

lemma enter_live_split:
  assumes env_ok and "tg_Incumbent (targetFor ro st) \<noteq> tg_Candidate (targetFor ro st)"
    and "lr_Router L = R" and "stage_Mode st = StageLive" and "0 \<le> stage_Weight st" "stage_Weight st \<le> 100"
    and "Enter L ro st w = (None, w')"
  shows "configured (targetFor ro st) w' =
    Some \<lparr> sp_Incumbent = 100 - stage_Weight st, sp_Candidate = stage_Weight st \<rparr>"
  using assms(3-7) SetSplit_done [OF assms(1,2)]
  by (auto simp: Enter_def Let_def percentages_def split: prod.splits option.splits)

end

section \<open>Lemmas about a step\<close>

lemma step_on_verdict_simps [simp]:
  "step_Verdict (step_on_verdict ro st now started s v) = v"
  "step_Activity (step_on_verdict ro st now started s v) = step_Activity s"
  "step_Weight (step_on_verdict ro st now started s v) = step_Weight s"
  by (auto simp: step_on_verdict_def Let_def split: Outcome.splits option.splits)

lemma step_on_verdict_promote:
  assumes "step_Outcome s = StepContinue"
  shows "step_Outcome (step_on_verdict ro st now started s v) = StepPromote \<longleftrightarrow>
    vd_Outcome v = OutcomePromote \<and>
    (\<forall>window. stage_MinObservationWindow st = Some window \<longrightarrow> window \<le> time_Sub now started)"
  using assms
  by (auto simp: step_on_verdict_def Let_def split: Outcome.splits option.splits)

lemma step_on_verdict_rollback:
  assumes "step_Outcome s = StepContinue"
  shows "step_Outcome (step_on_verdict ro st now started s v) = StepRollBack \<longleftrightarrow>
    vd_Outcome v = OutcomeWaveOff \<and> Fires (rs_Rollback (ro_Spec ro))
      (if list_ex mr_Inferior (vd_Guardrails v) then TriggerGuardrailViolation else TriggerGateFail)"
    "step_Outcome (step_on_verdict ro st now started s v) = StepRollBack \<Longrightarrow>
      Fires (rs_Rollback (ro_Spec ro)) (step_Trigger (step_on_verdict ro st now started s v))"
  using assms
  by (auto simp: step_on_verdict_def Let_def split: Outcome.splits option.splits if_splits)

lemma new_Step_simps [simp]:
  "step_Outcome (new_Step n) = StepContinue" "step_Weight (new_Step n) = n" "step_Activity (new_Step n) = None"
  by (simp_all add: new_Step_def)

lemma step_on_observations_promote:
  assumes "step_on_observations L ro st inc cand now started s w = (Inr s', w')"
    and "step_Outcome s = StepContinue" and "step_Outcome s' = StepPromote"
  shows "\<exists>obs missing w1. lr_Observations L (Agent inc) (BehaviorDigest inc) (BehaviorDigest cand) started w
      = (Inr (obs, missing), w1) \<and> obs \<noteq> [] \<and>
    lr_Analyze L (live_request st inc cand obs missing) w1 = (Inr (step_Verdict s'), w') \<and>
    vd_Outcome (step_Verdict s') = OutcomePromote \<and>
    (\<forall>window. stage_MinObservationWindow st = Some window \<longrightarrow> window \<le> time_Sub now started)"
  using assms
  by (auto simp: step_on_observations_def step_on_verdict_promote
      split: prod.splits sum.splits if_splits)

lemma step_on_observations_rollback:
  assumes "step_on_observations L ro st inc cand now started s w = (Inr s', w')"
    and "step_Outcome s = StepContinue" and "step_Outcome s' = StepRollBack"
  shows "Fires (rs_Rollback (ro_Spec ro)) (step_Trigger s')"
  using assms
  by (auto simp: step_on_observations_def step_on_verdict_rollback(2)
      split: prod.splits sum.splits if_splits)

text \<open>
  What the runner made of the write attempts before it read the observations: with no source nothing
  is compared and the world is untouched; with one, both arms were read, the finding is the comparison
  of the two, and it is not a violation the rollback policy fires on.
\<close>

definition writes_cleared ::
    "'w LiveRunner \<Rightarrow> AgentRollout \<Rightarrow> AgentManifestSpec \<Rightarrow> AgentManifestSpec \<Rightarrow> time \<Rightarrow> 'w
      \<Rightarrow> ActivityFinding option \<Rightarrow> 'w \<Rightarrow> bool" where
  "writes_cleared L ro inc cand started w finding w' =
     (case lr_Activity L of
        None \<Rightarrow> finding = None \<and> w' = w
      | Some activity \<Rightarrow>
          (\<exists>i c. activity (Agent inc) (BehaviorDigest inc) (BehaviorDigest cand) started w = (Inr (i, c), w') \<and>
             finding = Some (CompareActivity i c) \<and>
             \<not> (af_Violated (CompareActivity i c) \<and> Fires (rs_Rollback (ro_Spec ro)) TriggerWriteDivergence)))"

lemma new_Step_no_activity [simp]: "(new_Step n)\<lparr>step_Activity := None\<rparr> = new_Step n"
  by (simp add: new_Step_def)

lemma step_on_observations_frame:
  "step_on_observations L ro st inc cand now started s w = (Inr s', w') \<Longrightarrow>
    step_Activity s' = step_Activity s \<and> step_Weight s' = step_Weight s"
  by (auto simp: step_on_observations_def split: prod.splits sum.splits if_splits)

text \<open>What happened before the observations were read.\<close>

lemma Advance_Inr:
  assumes "Advance L ro st inc cand started w = (Inr s, w')"
  obtains now w0 split w1 where "lr_Now L w = (now, w0)"
    "rt_Split (lr_Router L) (targetFor ro st) w0 = (Inr split, w1)"
    "over_budget st now started \<longrightarrow> step_Outcome s = StepRollBack \<and> step_Trigger s = TriggerBudgetBreach \<and> w' = w1"
    "\<not> over_budget st now started \<longrightarrow>
       (\<exists>f. step_Outcome s = StepRollBack \<and> step_Trigger s = TriggerWriteDivergence \<and>
          step_Activity s = Some f \<and> af_Violated f \<and> Fires (rs_Rollback (ro_Spec ro)) TriggerWriteDivergence) \<or>
       (\<exists>finding w2. writes_cleared L ro inc cand started w1 finding w2 \<and>
          step_on_observations L ro st inc cand now started
            ((new_Step (sp_Candidate split))\<lparr>step_Activity := finding\<rparr>) w2 = (Inr s, w'))"
proof -
  obtain now w0 split w1 where h: "lr_Now L w = (now, w0)"
    "rt_Split (lr_Router L) (targetFor ro st) w0 = (Inr split, w1)"
    using assms by (auto simp: Advance_def split: prod.splits sum.splits)
  let ?n = "new_Step (sp_Candidate split)"
  show ?thesis
  proof (rule that [OF h])
    show "over_budget st now started \<longrightarrow> step_Outcome s = StepRollBack \<and> step_Trigger s = TriggerBudgetBreach \<and> w' = w1"
      using assms h by (auto simp: Advance_def Let_def)
    show "\<not> over_budget st now started \<longrightarrow>
       (\<exists>f. step_Outcome s = StepRollBack \<and> step_Trigger s = TriggerWriteDivergence \<and>
          step_Activity s = Some f \<and> af_Violated f \<and> Fires (rs_Rollback (ro_Spec ro)) TriggerWriteDivergence) \<or>
       (\<exists>finding w2. writes_cleared L ro inc cand started w1 finding w2 \<and>
          step_on_observations L ro st inc cand now started (?n\<lparr>step_Activity := finding\<rparr>) w2 = (Inr s, w'))"
      (is "_ \<longrightarrow> ?rolled \<or> ?read")
    proof
      assume nb: "\<not> over_budget st now started"
      show "?rolled \<or> ?read"
      proof (cases "lr_Activity L")
        case None
        then have "step_on_observations L ro st inc cand now started ?n w1 = (Inr s, w')"
          using assms h nb by (simp add: Advance_def Let_def)
        then show ?thesis
          by (intro disjI2 exI [of _ None] exI [of _ w1]) (simp add: writes_cleared_def None)
      next
        case (Some act)
        then obtain ai ac w2 where a: "act (Agent inc) (BehaviorDigest inc) (BehaviorDigest cand) started w1 = (Inr (ai, ac), w2)"
          using assms h nb by (auto simp: Advance_def Let_def split: prod.splits sum.splits)
        let ?f = "CompareActivity ai ac"
        show ?thesis
        proof (cases "af_Violated ?f \<and> Fires (rs_Rollback (ro_Spec ro)) TriggerWriteDivergence")
          case True
          then have "s = ?n\<lparr>step_Activity := Some ?f, step_Outcome := StepRollBack,
              step_Trigger := TriggerWriteDivergence, step_Reason := af_Reason ?f\<rparr>"
            using assms h nb Some a by (simp add: Advance_def Let_def)
          then show ?thesis using True by simp
        next
          case False
          then have "step_on_observations L ro st inc cand now started (?n\<lparr>step_Activity := Some ?f\<rparr>) w2 = (Inr s, w')"
            using assms h nb Some a by (auto simp: Advance_def Let_def split: if_splits)
          moreover have "writes_cleared L ro inc cand started w1 (Some ?f) w2"
            using False a by (auto simp: writes_cleared_def Some)
          ultimately show ?thesis by blast
        qed
      qed
    qed
  qed
qed

text \<open>Conversely, a step that clears the budget and the writes is what the observations make of it.\<close>

lemma Advance_cleared:
  assumes "lr_Now L w = (now, w0)" and "rt_Split (lr_Router L) (targetFor ro st) w0 = (Inr split, w1)"
    and "\<not> over_budget st now started" and "writes_cleared L ro inc cand started w1 finding w2"
    and "step_on_observations L ro st inc cand now started
      ((new_Step (sp_Candidate split))\<lparr>step_Activity := finding\<rparr>) w2 = (Inr s, w')"
  shows "Advance L ro st inc cand started w = (Inr s, w')"
  using assms by (cases "lr_Activity L") (auto simp: Advance_def writes_cleared_def Let_def)

lemma Advance_promote:
  assumes "Advance L ro st inc cand started w = (Inr s, w')" and "step_Outcome s = StepPromote"
  shows "\<exists>now w0 split w1 w2 obs missing w3. lr_Now L w = (now, w0) \<and>
    rt_Split (lr_Router L) (targetFor ro st) w0 = (Inr split, w1) \<and> step_Weight s = sp_Candidate split \<and>
    \<not> over_budget st now started \<and>
    writes_cleared L ro inc cand started w1 (step_Activity s) w2 \<and>
    lr_Observations L (Agent inc) (BehaviorDigest inc) (BehaviorDigest cand) started w2 = (Inr (obs, missing), w3) \<and>
    obs \<noteq> [] \<and> lr_Analyze L (live_request st inc cand obs missing) w3 = (Inr (step_Verdict s), w') \<and>
    vd_Outcome (step_Verdict s) = OutcomePromote \<and>
    (\<forall>window. stage_MinObservationWindow st = Some window \<longrightarrow> window \<le> time_Sub now started)"
proof -
  obtain now w0 split w1 finding w2 where h: "lr_Now L w = (now, w0)"
    "rt_Split (lr_Router L) (targetFor ro st) w0 = (Inr split, w1)" "\<not> over_budget st now started"
    "writes_cleared L ro inc cand started w1 finding w2"
    and n: "step_on_observations L ro st inc cand now started
            ((new_Step (sp_Candidate split))\<lparr>step_Activity := finding\<rparr>) w2 = (Inr s, w')"
    using Advance_Inr [OF assms(1)] assms(2) StepOutcome.distinct by metis
  show ?thesis
    using h step_on_observations_frame [OF n] step_on_observations_promote [OF n _ assms(2)] by auto
qed

section \<open>Properties\<close>

text \<open>A stage, a rollout and a runner over a world that is only the clock.\<close>

definition ex_gate_metric :: "GateTest \<Rightarrow> GateMetric" where
  "ex_gate_metric t = \<lparr> gm_Metric = ''ok'', gm_Test = t, gm_Margin = None, gm_Threshold = None,
     gm_Alpha = None, gm_Direction = HigherIsBetter \<rparr>"

definition ex_stage :: "string \<Rightarrow> StageMode \<Rightarrow> duration option \<Rightarrow> Stage" where
  "ex_stage n mode budget = \<lparr> stage_Name = n, stage_Mode = mode,
     stage_Corpus = \<lparr> cs_Ref = ''c'', cs_Limit = 0, cs_Sessions = [] \<rparr>,
     stage_Scorer = \<lparr> scorer_Exec = None, scorer_HTTP = Some \<lparr> http_Endpoint = ''u'' \<rparr>, scorer_TimeoutSeconds = 0 \<rparr>,
     stage_Gate = \<lparr> gate_Primary = ex_gate_metric GateSequential, gate_Guardrails = [], gate_KappaFloor = None \<rparr>,
     stage_Traffic = Some \<lparr> ts_Router = ''gateway-api'', ts_RouteRef = ''r'', ts_IncumbentBackend = ''a'',
       ts_CandidateBackend = ''b'' \<rparr>,
     stage_Weight = 5, stage_MirrorPercent = 0, stage_MinObservationWindow = None, stage_MaxDuration = budget \<rparr>"

definition ex_rollout :: "bool \<Rightarrow> Stage list \<Rightarrow> AgentRollout" where
  "ex_rollout auto_rollback stages = \<lparr> ro_Namespace = [], ro_Name = ''x'', ro_Generation = 1,
     ro_Spec = \<lparr> rs_IncumbentRef = ''m1'', rs_CandidateRef = ''m2'', rs_Stages = stages,
       rs_Analyzer = \<lparr> as_Endpoint = [], as_TimeoutSeconds = 0 \<rparr>,
       rs_Rollback = \<lparr> rb_Auto = auto_rollback, rb_Triggers = [], rb_RetainIncumbentFor = None \<rparr> \<rparr>,
     ro_Status = \<lparr> st_Phase = PhaseNone, st_Reason = no_msg, st_Stages = [], st_ObservedGeneration = 0 \<rparr> \<rparr>"

definition ex_live :: "time LiveRunner" where
  "ex_live = \<lparr> lr_Router = \<lparr> rt_SetSplit = (\<lambda>t sp w. (None, w)), rt_Split = (\<lambda>t w. (Inr FullyIncumbent, w)),
       rt_Mirror = (\<lambda>t p w. (None, w)), rt_Stickiness = (\<lambda>t w. (Inr StickyBySession, w)), rt_Name = [] \<rparr>,
     lr_Analyze = (\<lambda>req w. (Inr (zero_Verdict\<lparr>vd_Outcome := OutcomePromote\<rparr>), w)),
     lr_Observations = (\<lambda>a i c since w. (Inr ([new_Observation ''s1''], zero_Missingness), w)),
     lr_Activity = None, lr_Now = (\<lambda>w. (w, w)) \<rparr>"

text \<open>
  C4. A live stage promotes only on a verdict.  A step that promotes read the clock, then the traffic
  split (whose candidate weight it reports), was within the stage's budget, then, where the runner has
  a source of write attempts, read both arms' attempts, compared them, reports that very comparison
  and it is not a violation the rollback policy fires on; only then it saw at least one observation
  since the stage began, and it carries a promotion the analyzer returned for exactly those
  observations under the design of the stage's mode, after the whole minimum observation window.  Each
  of the four calls happens in the world the one before it left.
\<close>

theorem live_promotion_rests_on_a_verdict:
  assumes "Advance L ro st inc cand started w = (Inr s, w')" and "step_Outcome s = StepPromote"
  shows "\<exists>now w0 split w1 w2 obs missing w3. lr_Now L w = (now, w0) \<and>
    rt_Split (lr_Router L) (targetFor ro st) w0 = (Inr split, w1) \<and> step_Weight s = sp_Candidate split \<and>
    \<not> over_budget st now started \<and>
    (case lr_Activity L of
       None \<Rightarrow> step_Activity s = None \<and> w2 = w1
     | Some activity \<Rightarrow>
         (\<exists>i c. activity (Agent inc) (BehaviorDigest inc) (BehaviorDigest cand) started w1 = (Inr (i, c), w2) \<and>
            step_Activity s = Some (CompareActivity i c) \<and>
            \<not> (af_Violated (CompareActivity i c) \<and> Fires (rs_Rollback (ro_Spec ro)) TriggerWriteDivergence))) \<and>
    lr_Observations L (Agent inc) (BehaviorDigest inc) (BehaviorDigest cand) started w2 = (Inr (obs, missing), w3) \<and>
    obs \<noteq> [] \<and> lr_Analyze L (live_request st inc cand obs missing) w3 = (Inr (step_Verdict s), w') \<and>
    vd_Outcome (step_Verdict s) = OutcomePromote \<and>
    (\<forall>window. stage_MinObservationWindow st = Some window \<longrightarrow> window \<le> time_Sub now started)"
  using Advance_promote [OF assms] unfolding writes_cleared_def .

text \<open>A runner whose write source reports identical attempts on both sides, so that the comparison runs.\<close>

definition ex_activity :: "string \<Rightarrow> int \<Rightarrow> Activity" where
  "ex_activity arm n = \<lparr> act_Arm = arm, act_Sessions = 1, act_Attempts = [(''refund'', n)] \<rparr>"

definition ex_watched :: "time LiveRunner" where
  "ex_watched = ex_live\<lparr>lr_Activity :=
     Some (\<lambda>a i c since w. (Inr (ex_activity ''incumbent'' 1, ex_activity ''candidate'' 2), w + 1))\<rparr>"

lemma ex_activity_agrees: "\<not> af_Violated (CompareActivity (ex_activity a 1) (ex_activity b 2))"
  by (auto simp: CompareActivity_Violated set_act_Tools ex_activity_def)

theorem live_promotion_rests_on_a_verdict_witness:
  "\<exists>s f. Advance ex_watched (ex_rollout True []) (ex_stage ''s'' StageLive None) (ex_manifest ''d1'') (ex_manifest ''d2'') 0 5 = (Inr s, 6) \<and>
     step_Activity s = Some f \<and> \<not> af_Violated f \<and> vd_Outcome (step_Verdict s) = OutcomePromote"
proof -
  obtain s where s: "Advance ex_watched (ex_rollout True []) (ex_stage ''s'' StageLive None) (ex_manifest ''d1'') (ex_manifest ''d2'') 0 5 = (Inr s, 6)"
    "step_Outcome s = StepPromote"
    by (simp add: Advance_def ex_watched_def ex_live_def over_budget_def ex_stage_def Let_def step_on_observations_def
        step_on_verdict_def ex_activity_agrees)
  have "Fires (rs_Rollback (ro_Spec (ex_rollout True []))) TriggerWriteDivergence"
    by (simp add: ex_rollout_def Fires_def)
  with live_promotion_rests_on_a_verdict [OF s] s(1) show ?thesis
    by (auto simp: ex_watched_def ex_activity_agrees)
qed

text \<open>
  C5. What rolls a candidate back.  A step rolls back only for a trigger the rollout's rollback policy
  fires on, or because the stage ran past its budget; and past the budget it always does, even where
  automatic rollback is switched off or limited to other triggers.
\<close>

theorem rollback_causes:
  assumes "Advance L ro st inc cand started w = (Inr s, w')"
  shows "(step_Outcome s = StepRollBack \<longrightarrow>
      step_Trigger s = TriggerBudgetBreach \<or> Fires (rs_Rollback (ro_Spec ro)) (step_Trigger s)) \<and>
    (over_budget st (fst (lr_Now L w)) started \<longrightarrow>
      step_Outcome s = StepRollBack \<and> step_Trigger s = TriggerBudgetBreach)"
proof -
  obtain now w0 split w1 where h: "lr_Now L w = (now, w0)"
    "rt_Split (lr_Router L) (targetFor ro st) w0 = (Inr split, w1)"
    "over_budget st now started \<longrightarrow> step_Outcome s = StepRollBack \<and> step_Trigger s = TriggerBudgetBreach \<and> w' = w1"
    "\<not> over_budget st now started \<longrightarrow>
       (\<exists>f. step_Outcome s = StepRollBack \<and> step_Trigger s = TriggerWriteDivergence \<and>
          step_Activity s = Some f \<and> af_Violated f \<and> Fires (rs_Rollback (ro_Spec ro)) TriggerWriteDivergence) \<or>
       (\<exists>finding w2. writes_cleared L ro inc cand started w1 finding w2 \<and>
          step_on_observations L ro st inc cand now started
            ((new_Step (sp_Candidate split))\<lparr>step_Activity := finding\<rparr>) w2 = (Inr s, w'))"
    by (rule Advance_Inr [OF assms])
  have "Fires (rs_Rollback (ro_Spec ro)) (step_Trigger s)" if nb: "\<not> over_budget st now started" and r: "step_Outcome s = StepRollBack"
    using h(4) nb
  proof (elim impE disjE exE conjE)
    fix finding w2
    assume "step_on_observations L ro st inc cand now started
            ((new_Step (sp_Candidate split))\<lparr>step_Activity := finding\<rparr>) w2 = (Inr s, w')"
    then show ?thesis by (rule step_on_observations_rollback) (simp_all add: r)
  qed simp_all
  then show ?thesis using h(1,3) by auto
qed

theorem rollback_causes_witness:
  "\<exists>s. Advance ex_live (ex_rollout False []) (ex_stage ''s'' StageLive (Some 3)) (ex_manifest ''d1'') (ex_manifest ''d2'') 0 5 = (Inr s, 5) \<and>
     step_Outcome s = StepRollBack \<and> \<not> Fires (rs_Rollback (ro_Spec (ex_rollout False []))) (step_Trigger s)"
proof -
  obtain s where s: "Advance ex_live (ex_rollout False []) (ex_stage ''s'' StageLive (Some 3)) (ex_manifest ''d1'') (ex_manifest ''d2'') 0 5 = (Inr s, 5)"
    by (simp add: Advance_def ex_live_def over_budget_def ex_stage_def Let_def time_Sub_def saturate_def)
  have "over_budget (ex_stage ''s'' StageLive (Some 3)) (fst (lr_Now ex_live 5)) 0"
    by (simp add: ex_live_def over_budget_def ex_stage_def time_Sub_def saturate_def)
  with rollback_causes [OF s] s show ?thesis by (auto simp: ex_rollout_def Fires_def)
qed

end
