(* ===== verification/Bootstrap.thy ===== *)
theory Bootstrap
  imports Missing
begin

text \<open>
  \<open>internal/analysis/bootstrap.go\<close>: the fixed-horizon analyzer of the offline stages.  The
  random generator and the cancellation of the context are the environment: \<open>env\_Intn\<close> draws
  below a bound, \<open>env\_Err\<close> polls \<open>ctx.Err()\<close>, \<open>env\_NewRand\<close> seeds a fresh generator, and
  all three pass the environment's state along.
\<close>

record 's env =
  env_Intn :: "int \<Rightarrow> 's \<Rightarrow> int \<times> 's"
  env_Err :: "'s \<Rightarrow> msg option \<times> 's"
  env_NewRand :: "int \<Rightarrow> 's \<Rightarrow> 's"

definition DefaultResamples :: int where "DefaultResamples = 10000"
definition BootstrapFloor :: int where "BootstrapFloor = 30"

text \<open>The analyzer's fields; \<open>pb\_Rand\<close> says whether a generator was supplied.\<close>

record PairedBootstrap =
  pb_Resamples :: int
  pb_Rand :: bool

section \<open>Numerics\<close>

definition mean :: "f64 list \<Rightarrow> f64" where
  "mean xs = (if length xs = 0 then 0 else foldl (+) 0 xs / of_int64 (int (length xs)))"

text \<open>\<open>sort.Float64s\<close> orders NaNs first.\<close>

definition fbefore :: "f64 \<Rightarrow> f64 \<Rightarrow> bool" where
  "fbefore a b = (a < b \<or> (is_NaN a \<and> \<not> is_NaN b))"

fun finsert :: "f64 \<Rightarrow> f64 list \<Rightarrow> f64 list" where
  "finsert x [] = [x]"
| "finsert x (y # ys) = (if fbefore y x then y # finsert x ys else x # y # ys)"

definition Float64s :: "f64 list \<Rightarrow> f64 list" where
  "Float64s xs = foldr finsert xs []"

definition percentile_index :: "int \<Rightarrow> f64 \<Rightarrow> int" where
  "percentile_index len p =
     (let idx = to_int64 (p * of_int64 len);
          idx = (if idx < 0 then 0 else idx)
      in if len \<le> idx then len - 1 else idx)"

definition percentile :: "f64 list \<Rightarrow> f64 \<Rightarrow> f64" where
  "percentile xs p =
     (if length xs = 0 then NaN
      else xs ! nat (percentile_index (int (length xs)) p))"

fun resample_sum :: "'s env \<Rightarrow> f64 list \<Rightarrow> nat \<Rightarrow> f64 \<Rightarrow> 's \<Rightarrow> f64 \<times> 's" where
  "resample_sum E ds 0 acc s = (acc, s)"
| "resample_sum E ds (Suc k) acc s =
     (case env_Intn E (int (length ds)) s of (j, s') \<Rightarrow>
        resample_sum E ds k (acc + ds ! nat j) s')"

fun resample_means :: "'s env \<Rightarrow> f64 list \<Rightarrow> nat \<Rightarrow> nat \<Rightarrow> 's \<Rightarrow> f64 list result \<times> 's" where
  "resample_means E ds r 0 s = (Inr [], s)"
| "resample_means E ds r (Suc left) s =
     (case (if r mod 1024 = 0 then env_Err E s else (None, s)) of
        (Some e, s1) \<Rightarrow> (Inl e, s1)
      | (None, s1) \<Rightarrow>
        (case resample_sum E ds (length ds) 0 s1 of (sm, s2) \<Rightarrow>
          (case resample_means E ds (Suc r) left s2 of
             (Inl e, s3) \<Rightarrow> (Inl e, s3)
           | (Inr ms, s3) \<Rightarrow> (Inr (sm / of_int64 (int (length ds)) # ms), s3))))"

definition bootstrapCI ::
    "'s env \<Rightarrow> f64 list \<Rightarrow> f64 \<Rightarrow> int \<Rightarrow> 's \<Rightarrow> (f64 \<times> f64) result \<times> 's" where
  "bootstrapCI E ds alpha resamples s =
     (if length ds = 0 then (Inl (Text ''no paired observations''), s)
      else if length ds = 1 then (Inr (Inf True, Inf False), s)
      else case resample_means E ds 0 (nat resamples) s of
        (Inl e, s') \<Rightarrow> (Inl e, s')
      | (Inr means, s') \<Rightarrow>
          (Inr (percentile (Float64s means) (alpha / Fin 2),
                percentile (Float64s means) (Fin 1 - alpha / Fin 2)), s'))"

section \<open>One metric\<close>

definition worst_of :: "MetricDirection \<Rightarrow> f64 list \<Rightarrow> f64" where
  "worst_of dir candidate =
     foldl (\<lambda>worst v. if dir = LowerIsBetter \<and> worst < v then v
                      else if dir \<noteq> LowerIsBetter \<and> v < worst then v else worst)
       (hd candidate) candidate"

text \<open>Called with at least one measurement.\<close>

definition threshold :: "MetricResult \<Rightarrow> Metric \<Rightarrow> f64 list \<Rightarrow> MetricResult" where
  "threshold result m candidate =
     (let worst = worst_of (metric_Direction m) candidate;
          pass = (if metric_Direction m = LowerIsBetter then worst \<le> metric_Threshold m
                  else metric_Threshold m \<le> worst);
          detail = (if metric_Direction m = LowerIsBetter
                    then Sprintf ''worst observed %.4f against a limit of %.4f''
                           [AFloat worst, AFloat (metric_Threshold m)]
                    else Sprintf ''worst observed %.4f against a floor of %.4f''
                           [AFloat worst, AFloat (metric_Threshold m)])
      in result\<lparr>mr_Pass := pass, mr_Detail := detail, mr_Inferior := \<not> pass\<rparr>)"

text \<open>Where an interval sits against the margin: acceptable, worse, or straddling.\<close>

definition read_interval :: "Metric \<Rightarrow> MetricResult \<Rightarrow> MetricResult" where
  "read_interval m result =
     (let pass = (if metric_Direction m = LowerIsBetter then mr_CIUpper result < metric_Margin m
                  else metric_Margin m < mr_CILower result);
          inferior = (if metric_Direction m = LowerIsBetter then metric_Margin m < mr_CILower result
                      else mr_CIUpper result < metric_Margin m)
      in result\<lparr>mr_Pass := pass, mr_Inferior := inferior, mr_Indeterminate := \<not> pass \<and> \<not> inferior\<rparr>)"

definition bootstrap_detail :: "Metric \<Rightarrow> MetricResult \<Rightarrow> msg" where
  "bootstrap_detail m result =
     (let bound = (if metric_Direction m = LowerIsBetter then mr_CIUpper result else mr_CILower result);
          d = Sprintf ''candidate is %+.4f against the incumbent; the %.0f%% interval reaches %s %+.4f''
                [AFloat (mr_Delta result), AFloat ((Fin 1 - mr_Alpha result) * Fin 100),
                 AStr ''at worst'', AFloat bound, AFloat (metric_Margin m)]
      in if mr_Indeterminate result
         then Concat d (Sprintf ''the interval [%+.4f, %+.4f] straddles the margin''
                          [AFloat (mr_CILower result), AFloat (mr_CIUpper result)])
         else d)"

definition metric_start :: "Metric \<Rightarrow> int \<Rightarrow> MetricResult" where
  "metric_start m n =
     new_MetricResult (metric_Name m) (metric_Test m) n
       (if feq (metric_Alpha m) 0 then DefaultAlpha else metric_Alpha m)"

definition with_means :: "f64 list \<Rightarrow> f64 list \<Rightarrow> MetricResult \<Rightarrow> MetricResult" where
  "with_means incumbent candidate result =
     result\<lparr>mr_IncumbentMean := mean incumbent, mr_CandidateMean := mean candidate,
            mr_Delta := mean candidate - mean incumbent\<rparr>"

definition resamples :: "PairedBootstrap \<Rightarrow> int" where
  "resamples p = (if 0 < pb_Resamples p then pb_Resamples p else DefaultResamples)"

definition bootstrap_metric ::
    "'s env \<Rightarrow> PairedBootstrap \<Rightarrow> Request \<Rightarrow> Metric \<Rightarrow> 's \<Rightarrow> MetricResult result \<times> 's" where
  "bootstrap_metric E p req m s =
     (case Request_Values req (metric_Name m) of (incumbent, candidate, _) \<Rightarrow>
       (let result = metric_start m (int (length incumbent))
        in if length incumbent = 0
           then (Inr (result\<lparr>mr_Pass := False,
                   mr_Detail := Sprintf ''no item was scored for %q under both arms'' [AStr (metric_Name m)]\<rparr>), s)
           else
             let result = with_means incumbent candidate result
             in if metric_Test m = GateThreshold then (Inr (threshold result m candidate), s)
                else
                  let ds = map2 (\<lambda>c i. c - i) candidate incumbent
                  in (case bootstrapCI E ds (mr_Alpha result) (resamples p) s of
                        (Inl e, s') \<Rightarrow> (Inl e, s')
                      | (Inr (lower, upper), s') \<Rightarrow>
                          (let result = read_interval m (result\<lparr>mr_CILower := lower, mr_CIUpper := upper\<rparr>)
                           in (Inr (result\<lparr>mr_Detail := bootstrap_detail m result\<rparr>), s')))))"

fun bootstrap_guardrails ::
    "'s env \<Rightarrow> PairedBootstrap \<Rightarrow> Request \<Rightarrow> f64 \<Rightarrow> Metric list \<Rightarrow> 's \<Rightarrow> MetricResult list result \<times> 's" where
  "bootstrap_guardrails E p req guardAlpha [] s = (Inr [], s)"
| "bootstrap_guardrails E p req guardAlpha (g # gs) s =
     (let g = (if feq (metric_Alpha g) 0 then g\<lparr>metric_Alpha := guardAlpha\<rparr> else g)
      in case bootstrap_metric E p req g s of
           (Inl e, s1) \<Rightarrow> (Inl e, s1)
         | (Inr r, s1) \<Rightarrow>
           (case bootstrap_guardrails E p req guardAlpha gs s1 of
              (Inl e, s2) \<Rightarrow> (Inl e, s2)
            | (Inr rs, s2) \<Rightarrow> (Inr (r # rs), s2)))"

section \<open>The decision\<close>

definition decide :: "Verdict \<Rightarrow> Verdict" where
  "decide v =
     (if 0 < mi_Attempted (vd_Missing v) \<and> \<not> mc_Pass (vd_MissingCheck v)
      then v\<lparr>vd_Outcome := OutcomeInconclusive, vd_Reason := mc_Detail (vd_MissingCheck v)\<rparr>
      else case find mr_Inferior (vd_Guardrails v) of
        Some g \<Rightarrow> v\<lparr>vd_Outcome := OutcomeWaveOff,
          vd_Reason := Sprintf ''guardrail %s was breached: %s'' [AStr (mr_Name g), AMsg (mr_Detail g)]\<rparr>
      | None \<Rightarrow>
      (case find (\<lambda>g. mr_Indeterminate g \<or> \<not> mr_Pass g) (vd_Guardrails v) of
        Some g \<Rightarrow> v\<lparr>vd_Outcome := OutcomeInconclusive,
          vd_Reason := Sprintf ''guardrail %s could not be decided: %s'' [AStr (mr_Name g), AMsg (mr_Detail g)]\<rparr>
      | None \<Rightarrow>
        if mr_N (vd_Primary v) = 0
        then v\<lparr>vd_Outcome := OutcomeInconclusive,
               vd_Reason := Sprintf ''nothing was measured for %s'' [AStr (mr_Name (vd_Primary v))]\<rparr>
        else if mr_N (vd_Primary v) < BootstrapFloor
        then v\<lparr>vd_Outcome := OutcomeInconclusive,
               vd_Reason := Sprintf ''only %d item(s) were scored under both arms''
                 [AInt (mr_N (vd_Primary v)), AInt BootstrapFloor]\<rparr>
        else if mr_Indeterminate (vd_Primary v)
        then v\<lparr>vd_Outcome := OutcomeInconclusive,
               vd_Reason := Sprintf ''%s could not be decided: %s''
                 [AStr (mr_Name (vd_Primary v)), AMsg (mr_Detail (vd_Primary v))]\<rparr>
        else if mr_Pass (vd_Primary v)
        then v\<lparr>vd_Outcome := OutcomePromote,
               vd_Reason := Sprintf ''%s is non-inferior: %s''
                 [AStr (mr_Name (vd_Primary v)), AMsg (mr_Detail (vd_Primary v))]\<rparr>
        else v\<lparr>vd_Outcome := OutcomeWaveOff,
               vd_Reason := Sprintf ''%s is worse than the margin allows: %s''
                 [AStr (mr_Name (vd_Primary v)), AMsg (mr_Detail (vd_Primary v))]\<rparr>))"

definition primary_alpha :: "Request \<Rightarrow> f64" where
  "primary_alpha req = (if 0 < metric_Alpha (rq_Primary req) then metric_Alpha (rq_Primary req) else DefaultAlpha)"

definition PairedBootstrap_Analyze ::
    "mathlib \<Rightarrow> 's env \<Rightarrow> PairedBootstrap \<Rightarrow> Request \<Rightarrow> 's \<Rightarrow> Verdict result \<times> 's" where
  "PairedBootstrap_Analyze M E p req s =
     (case Request_Validate req of
        Inl e \<Rightarrow> (Inl e, s)
      | Inr _ \<Rightarrow>
        (let s0 = (if pb_Rand p then s else env_NewRand E (seedOrDefault req) s);
             verdict = zero_Verdict\<lparr>vd_Analyzer := ''paired-bootstrap'', vd_Missing := rq_Missing req,
                         vd_Seed := (if rq_Seed req = 0 then 1 else rq_Seed req),
                         vd_Observations := rq_Observations req\<rparr>
         in case bootstrap_metric E p req (rq_Primary req) s0 of
              (Inl e, s1) \<Rightarrow> (Inl e, s1)
            | (Inr primary, s1) \<Rightarrow>
              (case bootstrap_guardrails E p req (primary_alpha req) (rq_Guardrails req) s1 of
                 (Inl e, s2) \<Rightarrow> (Inl e, s2)
               | (Inr guards, s2) \<Rightarrow>
                   (Inr (decide (verdict\<lparr>vd_Primary := primary, vd_N := mr_N primary,
                           vd_Guardrails := guards,
                           vd_MissingCheck := CheckMissingness M (rq_Missing req) (rq_MissingPolicy req)
                                                (primary_alpha req)\<rparr>)), s2))))"

section \<open>The interval is ordered\<close>

lemma fbefore_total: "\<not> fbefore a b \<Longrightarrow> \<not> fbefore b a \<Longrightarrow> a = b"
  by (cases a; cases b) (auto simp: fbefore_def is_NaN_def feq_def)

lemma fbefore_trans: "\<not> fbefore b a \<Longrightarrow> \<not> fbefore c b \<Longrightarrow> \<not> fbefore c a"
  by (cases a; cases b; cases c) (auto simp: fbefore_def is_NaN_def feq_def)

lemma fbefore_asym: "fbefore a b \<Longrightarrow> \<not> fbefore b a"
  by (cases a; cases b) (auto simp: fbefore_def is_NaN_def feq_def)

definition fle :: "f64 \<Rightarrow> f64 \<Rightarrow> bool" where
  "fle a b = (\<not> fbefore b a)"

lemma set_finsert [simp]: "set (finsert x xs) = insert x (set xs)"
  by (induction xs) auto

lemma sorted_finsert: "sorted_wrt fle xs \<Longrightarrow> sorted_wrt fle (finsert x xs)"
  by (induction xs) (auto simp: fle_def dest: fbefore_asym fbefore_trans)

lemma length_Float64s [simp]: "length (Float64s xs) = length xs"
proof -
  have f: "length (finsert x ys) = Suc (length ys)" for x ys by (induction ys) auto
  show ?thesis unfolding Float64s_def by (induction xs) (auto simp: f)
qed

lemma sorted_Float64s: "sorted_wrt fle (Float64s xs)"
  unfolding Float64s_def by (induction xs) (auto intro: sorted_finsert)

lemma fle_not_crossing: "fle lower upper \<Longrightarrow> \<not> (margin < lower \<and> upper < margin)"
  by (auto simp: fle_def fbefore_def dest: f64_less_trans)

lemma to_int64_small:
  assumes "0 \<le> q" and "q < 2 ^ 53"
  shows "to_int64 (Fin q) = \<lfloor>q\<rfloor>"
proof -
  have "\<lfloor>q\<rfloor> < 2 ^ 53" using assms by (simp add: floor_less_iff)
  moreover have "0 \<le> \<lfloor>q\<rfloor>" using assms by simp
  ultimately show ?thesis using assms by (simp add: Let_def)
qed

lemma fround_between:
  assumes "fround lo = Fin lo" "fround hi = Fin hi" "lo \<le> q" "q \<le> hi"
  shows "\<exists>r. fround q = Fin r \<and> lo \<le> r \<and> r \<le> hi"
proof -
  have "Fin lo \<le> fround q" "fround q \<le> Fin hi"
    using fround_mono [OF assms(3)] fround_mono [OF assms(4)] unfolding assms(1,2) by blast+
  then show ?thesis by (cases "fround q") auto
qed

lemma fround_0_half_1:
  "fround 0 = Fin 0" "fround (1 / 2) = Fin (1 / 2)" "fround 1 = Fin 1"
  using of_int64_exact [of 1] fround_half by (simp_all add: of_int64_def fround_def)

lemma percentile_levels:
  assumes "0 \<le> a" and "a \<le> 1"
  obtains p q where "Fin a / Fin 2 = Fin p" "Fin 1 - Fin a / Fin 2 = Fin q"
    "0 \<le> p" "p \<le> 1 / 2" "1 / 2 \<le> q" "q \<le> 1"
proof -
  obtain p where p: "fround (a / 2) = Fin p" "0 \<le> p" "p \<le> 1 / 2"
    using fround_between [of 0 "1 / 2" "a / 2"] assms fround_0_half_1 by auto
  obtain q where "fround (1 - p) = Fin q" "1 / 2 \<le> q" "q \<le> 1"
    using fround_between [of "1 / 2" 1 "1 - p"] p fround_0_half_1 by auto
  then show ?thesis using that p by (simp add: minus_f64_def)
qed

lemma percentile_index_mono:
  assumes "0 \<le> p" "p \<le> q" "q \<le> 1" and n: "0 < n" "n < 2 ^ 53"
  shows "percentile_index n (Fin p) \<le> percentile_index n (Fin q)"
    and "0 \<le> percentile_index n (Fin p)" and "percentile_index n (Fin q) < n"
proof -
  have fn: "of_int64 n = Fin (of_int n)" using n by (intro of_int64_exact) auto
  then have fr: "fround (of_int n) = Fin (of_int n)" by (simp add: of_int64_def)
  have lt: "(of_int n :: rat) < 2 ^ 53"
  proof -
    have "(of_int n :: rat) < of_int (2 ^ 53)" using n(2) by (simp only: of_int_less_iff)
    then show ?thesis by simp
  qed
  have pq: "p * of_int n \<le> q * of_int n" "0 \<le> p * of_int n" "q * of_int n \<le> of_int n"
    using assms by (auto simp: mult_right_mono mult_left_le_one_le)
  obtain x where x: "fround (p * of_int n) = Fin x" "0 \<le> x" "x \<le> of_int n"
    using fround_between [OF fround_0_half_1(1) fr] pq by (metis order_trans)
  obtain y where y: "fround (q * of_int n) = Fin y" "0 \<le> y" "y \<le> of_int n"
    using fround_between [OF fround_0_half_1(1) fr] pq by (metis order_trans)
  have "x \<le> y" using fround_mono [OF pq(1)] x y by simp
  then have "\<lfloor>x\<rfloor> \<le> \<lfloor>y\<rfloor>" "0 \<le> \<lfloor>x\<rfloor>" using x by (auto intro: floor_mono)
  moreover have "percentile_index n (Fin p) = (if n \<le> \<lfloor>x\<rfloor> then n - 1 else \<lfloor>x\<rfloor>)"
    using x lt to_int64_small [of x] by (simp add: percentile_index_def fn Let_def del: to_int64.simps)
  moreover have "percentile_index n (Fin q) = (if n \<le> \<lfloor>y\<rfloor> then n - 1 else \<lfloor>y\<rfloor>)"
    using y lt to_int64_small [of y] by (simp add: percentile_index_def fn Let_def del: to_int64.simps)
  ultimately show "percentile_index n (Fin p) \<le> percentile_index n (Fin q)"
    "0 \<le> percentile_index n (Fin p)" "percentile_index n (Fin q) < n"
    using n by auto
qed

lemma percentile_fle:
  assumes "0 \<le> p" "p \<le> q" "q \<le> 1" and n: "xs \<noteq> []" "int (length xs) < 2 ^ 53"
  shows "fle (percentile (Float64s xs) (Fin p)) (percentile (Float64s xs) (Fin q))"
proof -
  let ?n = "int (length xs)"
  have n0: "0 < ?n" using n by simp
  note m = percentile_index_mono [OF assms(1-3) n0 n(2)]
  let ?i = "nat (percentile_index ?n (Fin p))" and ?j = "nat (percentile_index ?n (Fin q))"
  have ij: "?i \<le> ?j" "?j < length (Float64s xs)" using m by auto
  have refl: "fle x x" for x using fbefore_asym [of x x] by (auto simp: fle_def)
  have "fle (Float64s xs ! ?i) (Float64s xs ! ?j)"
  proof (cases "?i = ?j")
    case True
    then show ?thesis using refl by simp
  next
    case False
    then have "?i < ?j" using ij(1) by linarith
    then show ?thesis using ij(2) by (rule sorted_wrt_nth_less [OF sorted_Float64s])
  qed
  then show ?thesis using n by (simp add: percentile_def)
qed

lemma resample_means_length:
  "resample_means E ds r k s = (Inr ms, s') \<Longrightarrow> length ms = k"
  by (induction E ds r k s arbitrary: ms s' rule: resample_means.induct)
     (auto split: prod.splits sum.splits option.splits if_splits)

lemma bootstrapCI_fle:
  assumes "bootstrapCI E ds (Fin a) k s = (Inr (lower, upper), s')"
    and "0 \<le> a" "a \<le> 1" and "0 < k" "k < 2 ^ 53"
  shows "fle lower upper"
proof (cases "length ds = 1")
  case True
  then show ?thesis using assms(1) by (auto simp: bootstrapCI_def fle_def fbefore_def is_NaN_def feq_def)
next
  case False
  then obtain means where m: "resample_means E ds 0 (nat k) s = (Inr means, s')"
    and lu: "lower = percentile (Float64s means) (Fin a / Fin 2)"
      "upper = percentile (Float64s means) (Fin 1 - Fin a / Fin 2)"
    using assms(1) by (auto simp: bootstrapCI_def split: if_splits prod.splits sum.splits)
  have len: "length means = nat k" using m by (rule resample_means_length)
  obtain p q where pq: "Fin a / Fin 2 = Fin p" "Fin 1 - Fin a / Fin 2 = Fin q"
    "0 \<le> p" "p \<le> 1 / 2" "1 / 2 \<le> q" "q \<le> 1"
    using percentile_levels [OF assms(2,3)] by blast
  show ?thesis unfolding lu pq(2) unfolding pq(1)
    using pq len assms(4,5) by (intro percentile_fle) auto
qed

section \<open>Lemmas about one metric\<close>

lemma find_None_Ball: "find P xs = None \<longleftrightarrow> (\<forall>x \<in> set xs. \<not> P x)"
  by (auto simp: find_None_iff)

lemma metric_start_simps [simp]:
  "mr_N (metric_start m n) = n" "mr_Pass (metric_start m n) = False"
  "mr_Inferior (metric_start m n) = False" "mr_Indeterminate (metric_start m n) = False"
  "mr_Name (metric_start m n) = metric_Name m" "mr_Test (metric_start m n) = metric_Test m"
  "mr_Alpha (metric_start m n) = (if feq (metric_Alpha m) 0 then DefaultAlpha else metric_Alpha m)"
  by (simp_all add: metric_start_def new_MetricResult_def)

lemma with_means_simps [simp]:
  "mr_N (with_means i c r) = mr_N r" "mr_Alpha (with_means i c r) = mr_Alpha r"
  "mr_Name (with_means i c r) = mr_Name r" "mr_Indeterminate (with_means i c r) = mr_Indeterminate r"
  by (simp_all add: with_means_def)

lemma threshold_simps [simp]:
  "mr_N (threshold r m c) = mr_N r" "mr_Indeterminate (threshold r m c) = mr_Indeterminate r"
  "mr_Inferior (threshold r m c) = (\<not> mr_Pass (threshold r m c))"
  by (simp_all add: threshold_def Let_def)

lemma read_interval_simps [simp]:
  "mr_N (read_interval m r) = mr_N r" "mr_CILower (read_interval m r) = mr_CILower r"
  "mr_CIUpper (read_interval m r) = mr_CIUpper r"
  "mr_Pass (read_interval m r) =
     (if metric_Direction m = LowerIsBetter then mr_CIUpper r < metric_Margin m
      else metric_Margin m < mr_CILower r)"
  "mr_Inferior (read_interval m r) =
     (if metric_Direction m = LowerIsBetter then metric_Margin m < mr_CILower r
      else mr_CIUpper r < metric_Margin m)"
  "mr_Indeterminate (read_interval m r) = (\<not> mr_Pass (read_interval m r) \<and> \<not> mr_Inferior (read_interval m r))"
  by (simp_all add: read_interval_def Let_def)

lemma bootstrap_metric_N:
  assumes "bootstrap_metric E p req m s = (Inr r, s')"
  shows "mr_N r = int (length (fst (Request_Values req (metric_Name m))))"
    and "mr_Pass r \<Longrightarrow> 0 < mr_N r"
  using assms
  by (auto simp: bootstrap_metric_def Let_def split: prod.splits if_splits sum.splits)

lemma bootstrap_guardrails_results:
  "bootstrap_guardrails E p req a gs s = (Inr rs, s') \<Longrightarrow>
     length rs = length gs \<and> (\<forall>r \<in> set rs. mr_Pass r \<longrightarrow> 0 < mr_N r)"
proof (induction E p req a gs s arbitrary: rs s' rule: bootstrap_guardrails.induct)
  case (2 E p req a g gs s)
  let ?g = "if feq (metric_Alpha g) 0 then g\<lparr>metric_Alpha := a\<rparr> else g"
  obtain r s1 rs1 s2 where r: "bootstrap_metric E p req ?g s = (Inr r, s1)"
    and rs1: "bootstrap_guardrails E p req a gs s1 = (Inr rs1, s2)" and rs: "rs = r # rs1"
    using 2 by (auto simp: Let_def split: prod.splits sum.splits)
  have "length rs1 = length gs \<and> (\<forall>r \<in> set rs1. mr_Pass r \<longrightarrow> 0 < mr_N r)"
    using "2.IH" [OF refl r [symmetric] refl rs1] by simp
  then show ?case using rs bootstrap_metric_N(2) [OF r] by auto
qed simp

lemma decide_promote_iff:
  "vd_Outcome (decide v) = OutcomePromote \<longleftrightarrow>
     (mi_Attempted (vd_Missing v) \<le> 0 \<or> mc_Pass (vd_MissingCheck v)) \<and>
     (\<forall>g \<in> set (vd_Guardrails v). mr_Pass g \<and> \<not> mr_Inferior g \<and> \<not> mr_Indeterminate g) \<and>
     BootstrapFloor \<le> mr_N (vd_Primary v) \<and>
     \<not> mr_Indeterminate (vd_Primary v) \<and> mr_Pass (vd_Primary v)"
proof -
  have a: "find mr_Inferior (vd_Guardrails v) = None \<longleftrightarrow> (\<forall>g \<in> set (vd_Guardrails v). \<not> mr_Inferior g)"
    "find (\<lambda>g. mr_Indeterminate g \<or> \<not> mr_Pass g) (vd_Guardrails v) = None \<longleftrightarrow>
       (\<forall>g \<in> set (vd_Guardrails v). \<not> mr_Indeterminate g \<and> mr_Pass g)"
    by (auto simp: find_None_Ball)
  show ?thesis
    by (cases "find mr_Inferior (vd_Guardrails v)";
        cases "find (\<lambda>g. mr_Indeterminate g \<or> \<not> mr_Pass g) (vd_Guardrails v)")
       (use a in \<open>auto simp: decide_def BootstrapFloor_def not_less\<close>)
qed

lemma decide_outcome:
  "vd_Outcome (decide v) \<in> {OutcomePromote, OutcomeWaveOff, OutcomeInconclusive}"
  by (auto simp: decide_def split: option.splits)

lemma decide_frame [simp]:
  "vd_Primary (decide v) = vd_Primary v" "vd_Guardrails (decide v) = vd_Guardrails v"
  "vd_N (decide v) = vd_N v" "vd_Missing (decide v) = vd_Missing v"
  "vd_MissingCheck (decide v) = vd_MissingCheck v"
  by (auto simp: decide_def split: option.splits)

lemma PairedBootstrap_Analyze_Inr:
  assumes "PairedBootstrap_Analyze M E p req s = (Inr v, s')"
  shows "\<exists>w s0 s1. Request_Validate req = Inr () \<and> v = decide w \<and>
    bootstrap_metric E p req (rq_Primary req) s0 = (Inr (vd_Primary w), s1) \<and>
    bootstrap_guardrails E p req (primary_alpha req) (rq_Guardrails req) s1 = (Inr (vd_Guardrails w), s') \<and>
    vd_N w = mr_N (vd_Primary w) \<and> vd_Missing w = rq_Missing req \<and>
    vd_MissingCheck w = CheckMissingness M (rq_Missing req) (rq_MissingPolicy req) (primary_alpha req)"
  using assms
  by (auto simp: PairedBootstrap_Analyze_def Let_def split: sum.splits prod.splits intro!: exI)

interpretation paired_bootstrap: measured_analyzer
  "\<lambda>req. fst (PairedBootstrap_Analyze M E p req s)" for M E p s
proof
  fix req v assume v: "fst (PairedBootstrap_Analyze M E p req s) = Inr v"
  then obtain s' where "PairedBootstrap_Analyze M E p req s = (Inr v, s')"
    by (cases "PairedBootstrap_Analyze M E p req s") auto
  then obtain w where w: "v = decide w" "vd_N w = mr_N (vd_Primary w)"
    by (blast dest: PairedBootstrap_Analyze_Inr)
  then show "vd_Outcome v \<in> {OutcomePromote, OutcomeWaveOff, OutcomeInconclusive}"
    by (simp only: decide_outcome)
  show "vd_Outcome v = OutcomePromote \<Longrightarrow> vd_N v \<noteq> 0"
    using w by (auto simp: decide_promote_iff BootstrapFloor_def)
qed

lemma worst_floor:
  assumes "dir \<noteq> LowerIsBetter" and "finite64 w" and "\<forall>v \<in> set c. finite64 v"
  shows "t \<le> foldl (\<lambda>worst v. if dir = LowerIsBetter \<and> worst < v then v
                    else if dir \<noteq> LowerIsBetter \<and> v < worst then v else worst) w c
         \<longleftrightarrow> t \<le> w \<and> (\<forall>v \<in> set c. t \<le> v)"
  using assms(2,3)
proof (induction c arbitrary: w)
  case (Cons v c)
  have "finite64 v" "finite64 w" using Cons.prems by auto
  then have "t \<le> (if v < w then v else w) \<longleftrightarrow> t \<le> w \<and> t \<le> v"
    by (cases v; cases w; cases t) (auto simp: finite64_def)
  then show ?case using Cons assms(1) by auto
qed simp

lemma worst_limit:
  assumes "finite64 w" and "\<forall>v \<in> set c. finite64 v"
  shows "foldl (\<lambda>worst v. if LowerIsBetter = LowerIsBetter \<and> worst < v then v
                    else if LowerIsBetter \<noteq> LowerIsBetter \<and> v < worst then v else worst) w c \<le> t
         \<longleftrightarrow> w \<le> t \<and> (\<forall>v \<in> set c. v \<le> t)"
  using assms
proof (induction c arbitrary: w)
  case (Cons v c)
  have "finite64 v" "finite64 w" using Cons.prems by auto
  then have "(if w < v then v else w) \<le> t \<longleftrightarrow> w \<le> t \<and> v \<le> t"
    by (cases v; cases w; cases t) (auto simp: finite64_def)
  then show ?case using Cons by auto
qed simp

section \<open>A concrete run\<close>

text \<open>
  An environment whose generator always draws the first index and is never cancelled, and requests of
  \<open>n\<close> identical observations, for the properties below.
\<close>

definition first_env :: "unit env" where
  "first_env = \<lparr> env_Intn = (\<lambda>n s. (0, s)), env_Err = (\<lambda>s. (None, s)), env_NewRand = (\<lambda>n s. s) \<rparr>"

definition zero_math :: mathlib where
  "zero_math = \<lparr> m_Log = (\<lambda>x. 0), m_Exp = (\<lambda>x. 0), m_Sqrt = (\<lambda>x. x), m_Lgamma = (\<lambda>x. 0) \<rparr>"

definition ex_metric :: "GateTest \<Rightarrow> Metric" where
  "ex_metric t = \<lparr> metric_Name = ''ok'', metric_Test = t, metric_Margin = 0, metric_Threshold = Fin 0,
     metric_Alpha = Fin (1 / 2), metric_Direction = HigherIsBetter \<rparr>"

definition ex_request :: "Design \<Rightarrow> GateTest \<Rightarrow> Observation list \<Rightarrow> Request" where
  "ex_request d t os = \<lparr> rq_Agent = [], rq_Incumbent = ''a'', rq_Candidate = ''b'', rq_Primary = ex_metric t,
     rq_Guardrails = [], rq_Observations = os, rq_Missing = zero_Missingness,
     rq_MissingPolicy = \<lparr> mp_MaxRate = 0, mp_Alpha = 0 \<rparr>, rq_Reasons = [], rq_Design = d, rq_Seed = 7 \<rparr>"

definition ex_obs :: "f64 \<Rightarrow> f64 \<Rightarrow> nat \<Rightarrow> Observation" where
  "ex_obs a b k = \<lparr> obs_Item = replicate k CHR ''i'', obs_Incumbent = [(''ok'', a)], obs_Candidate = [(''ok'', b)] \<rparr>"

lemma ex_request_simps [simp]:
  "rq_Primary (ex_request d t os) = ex_metric t" "rq_Guardrails (ex_request d t os) = []"
  "rq_Observations (ex_request d t os) = os" "rq_Missing (ex_request d t os) = zero_Missingness"
  "rq_Design (ex_request d t os) = d" "rq_Seed (ex_request d t os) = 7"
  "metric_Name (ex_metric t) = ''ok''" "metric_Test (ex_metric t) = t" "metric_Threshold (ex_metric t) = Fin 0"
  "metric_Direction (ex_metric t) = HigherIsBetter" "metric_Alpha (ex_metric t) = Fin (1 / 2)"
  "metric_Margin (ex_metric t) = 0"
  by (simp_all add: ex_request_def ex_metric_def)

lemma ex_paired_values [simp]:
  "List.map_filter (paired_value ''ok'') (map (ex_obs a b) ks) = map (\<lambda>k. (a, b, replicate k CHR ''i'')) ks"
  by (induction ks) (auto simp: paired_value_def ex_obs_def List.map_filter_def)

lemma ex_request_valid [simp]:
  "ks \<noteq> [] \<Longrightarrow> distinct ks \<Longrightarrow> Request_Validate (ex_request DesignPaired t (map (ex_obs a b) ks)) = Inr ()"
  by (subst Request_Validate_paired)
     (auto simp: ex_obs_def comp_def distinct_map inj_on_def zero_f64_def one_f64_def less_eq_f64_def feq_def)

lemma worst_replicate:
  assumes "0 < n"
  shows "worst_of d (replicate n v) = v"
proof -
  have "foldl (\<lambda>worst v. if d = LowerIsBetter \<and> worst < v then v
                      else if d \<noteq> LowerIsBetter \<and> v < worst then v else worst) v (replicate k v) = v" for k
    by (induction k) auto
  then show ?thesis using assms by (cases n) (simp_all add: worst_of_def)
qed

definition ex_bootstrap :: PairedBootstrap where
  "ex_bootstrap = \<lparr> pb_Resamples = 2, pb_Rand = False \<rparr>"

lemma ex_promotion_run:
  "\<exists>v. PairedBootstrap_Analyze zero_math first_env ex_bootstrap
      (ex_request DesignPaired GateThreshold (map (ex_obs (Fin 1) (Fin 1)) [0..<30])) () = (Inr v, ()) \<and>
    mr_Pass (vd_Primary v) \<and> \<not> mr_Indeterminate (vd_Primary v) \<and> vd_Guardrails v = []"
  by (simp add: PairedBootstrap_Analyze_def Let_def bootstrap_metric_def Request_Values_def
      threshold_def comp_def worst_replicate first_env_def ex_bootstrap_def map_replicate_const
      del: upt.simps upt_rec_numeral replicate.simps)

section \<open>Properties\<close>

text \<open>
  C6. The offline gate promotes exactly on complete evidence.  Whenever the paired bootstrap returns
  a verdict, it is a promotion if and only if the drop pattern was acceptable (or nothing was
  attempted), every guardrail passed its own test and was actually measured, and the primary metric
  was measured on at least thirty paired items and passed: an unmeasured, underpowered or breached
  metric never promotes.
\<close>

theorem offline_promotes_iff_evidence:
  assumes "PairedBootstrap_Analyze M E p req s = (Inr v, s')"
  shows "vd_Outcome v = OutcomePromote \<longleftrightarrow>
     (mi_Attempted (rq_Missing req) \<le> 0 \<or>
        mc_Pass (CheckMissingness M (rq_Missing req) (rq_MissingPolicy req) (primary_alpha req))) \<and>
     length (vd_Guardrails v) = length (rq_Guardrails req) \<and>
     (\<forall>g \<in> set (vd_Guardrails v). mr_Pass g \<and> \<not> mr_Inferior g \<and> \<not> mr_Indeterminate g \<and> 0 < mr_N g) \<and>
     30 \<le> length (fst (Request_Values req (metric_Name (rq_Primary req)))) \<and>
     mr_Pass (vd_Primary v) \<and> \<not> mr_Indeterminate (vd_Primary v)"
proof -
  obtain w s0 s1 where w: "v = decide w" "vd_Missing w = rq_Missing req"
    "vd_MissingCheck w = CheckMissingness M (rq_Missing req) (rq_MissingPolicy req) (primary_alpha req)"
    and p: "bootstrap_metric E p req (rq_Primary req) s0 = (Inr (vd_Primary w), s1)"
    and g: "bootstrap_guardrails E p req (primary_alpha req) (rq_Guardrails req) s1 = (Inr (vd_Guardrails w), s')"
    using PairedBootstrap_Analyze_Inr [OF assms] by blast
  show ?thesis
    using w bootstrap_metric_N(1) [OF p] bootstrap_guardrails_results [OF g]
    by (auto simp: decide_promote_iff BootstrapFloor_def)
qed

theorem offline_promotes_iff_evidence_witness:
  "\<exists>v. PairedBootstrap_Analyze zero_math first_env ex_bootstrap
      (ex_request DesignPaired GateThreshold (map (ex_obs (Fin 1) (Fin 1)) [0..<30])) () = (Inr v, ()) \<and>
    vd_Outcome v = OutcomePromote"
proof -
  obtain v where v: "PairedBootstrap_Analyze zero_math first_env ex_bootstrap
      (ex_request DesignPaired GateThreshold (map (ex_obs (Fin 1) (Fin 1)) [0..<30])) () = (Inr v, ())"
    "mr_Pass (vd_Primary v)" "\<not> mr_Indeterminate (vd_Primary v)" "vd_Guardrails v = []"
    using ex_promotion_run by blast
  then have "vd_Outcome v = OutcomePromote"
    by (subst offline_promotes_iff_evidence [OF v(1)])
       (simp add: zero_Missingness_def Request_Values_def Let_def del: upt.simps upt_rec_numeral)
  then show ?thesis using v(1) by blast
qed

text \<open>
  The interval gives three answers and always exactly one of them.  For a measured metric that
  is not a threshold test, at a level between 0 and 1, the metric is non-inferior, demonstrably
  worse, or undecided, and never two of these at once: the lower percentile never crosses the upper
  one, whatever the resamples were, rounding included.
\<close>

theorem interval_reading_is_a_trichotomy:
  assumes "bootstrap_metric E p req m s = (Inr r, s')"
    and "metric_Test m \<noteq> GateThreshold" and "0 < mr_N r"
    and "metric_Alpha m = Fin a" and "0 < a" and "a \<le> 1" and "resamples p < 2 ^ 53"
  shows "(mr_Pass r \<and> \<not> mr_Inferior r \<and> \<not> mr_Indeterminate r) \<or>
         (\<not> mr_Pass r \<and> mr_Inferior r \<and> \<not> mr_Indeterminate r) \<or>
         (\<not> mr_Pass r \<and> \<not> mr_Inferior r \<and> mr_Indeterminate r)"
proof -
  obtain ds lower upper q where ci: "bootstrapCI E ds (Fin a) (resamples p) s = (Inr (lower, upper), s')"
    and r: "r = q\<lparr>mr_Detail := bootstrap_detail m q\<rparr>"
    and q: "mr_Pass q = (if metric_Direction m = LowerIsBetter then upper < metric_Margin m
                         else metric_Margin m < lower)"
      "mr_Inferior q = (if metric_Direction m = LowerIsBetter then metric_Margin m < lower
                         else upper < metric_Margin m)"
      "mr_Indeterminate q = (\<not> mr_Pass q \<and> \<not> mr_Inferior q)"
    using assms(1-5)
    by (auto simp: bootstrap_metric_def Let_def feq_def zero_f64_def split: prod.splits if_splits sum.splits)
  have "0 < resamples p" by (simp add: resamples_def DefaultResamples_def)
  then have "fle lower upper" using ci assms by (intro bootstrapCI_fle) auto
  then show ?thesis
    using fle_not_crossing [of lower upper "metric_Margin m"] q r by auto
qed

theorem interval_reading_is_a_trichotomy_witness:
  "\<exists>r. bootstrap_metric first_env ex_bootstrap
       (ex_request DesignPaired GatePairedBootstrap (map (ex_obs (Fin 1) (Fin 0)) [0]))
       (ex_metric GatePairedBootstrap) () = (Inr r, ()) \<and>
     \<not> mr_Pass r \<and> \<not> mr_Inferior r \<and> mr_Indeterminate r"
proof -
  obtain r where r: "bootstrap_metric first_env ex_bootstrap
       (ex_request DesignPaired GatePairedBootstrap (map (ex_obs (Fin 1) (Fin 0)) [0]))
       (ex_metric GatePairedBootstrap) () = (Inr r, ())"
    "mr_N r = 1" "\<not> mr_Pass r" "\<not> mr_Inferior r"
    using ex_paired_values [of "Fin 1" "Fin 0" "[0]"]
    by (simp add: bootstrap_metric_def Request_Values_def Let_def bootstrapCI_def zero_f64_def)
  show ?thesis
    using interval_reading_is_a_trichotomy [OF r(1), of "1 / 2"] r
    by (auto simp: ex_bootstrap_def resamples_def)
qed

text \<open>
  A threshold test reads every item: over finite measurements it passes exactly when no
  candidate measurement is on the wrong side of the bound, and a failure is always reported as a
  demonstrated breach.
\<close>

theorem threshold_reads_every_item:
  assumes "c \<noteq> []" and "\<forall>v \<in> set c. finite64 v"
  shows "(mr_Pass (threshold r m c) \<longleftrightarrow>
      (if metric_Direction m = LowerIsBetter then \<forall>v \<in> set c. v \<le> metric_Threshold m
       else \<forall>v \<in> set c. metric_Threshold m \<le> v)) \<and>
    mr_Inferior (threshold r m c) = (\<not> mr_Pass (threshold r m c))"
proof -
  have hd: "finite64 (hd c)" "hd c \<in> set c" using assms by auto
  show ?thesis
    using worst_limit [OF hd(1) assms(2), of "metric_Threshold m"]
      worst_floor [OF _ hd(1) assms(2), of "metric_Direction m" "metric_Threshold m"] hd(2)
    by (cases "metric_Direction m = LowerIsBetter") (auto simp: threshold_def worst_of_def Let_def)
qed

theorem threshold_reads_every_item_witness:
  "\<not> mr_Pass (threshold (new_MetricResult ''errors'' GateThreshold 2 0)
      \<lparr> metric_Name = ''errors'', metric_Test = GateThreshold, metric_Margin = 0, metric_Threshold = Fin 0,
        metric_Alpha = 0, metric_Direction = LowerIsBetter \<rparr> [Fin 0, Fin 1])"
  by (subst threshold_reads_every_item [THEN conjunct1]) (simp_all add: finite64_def)

end
