(* ===== verification/Sequential.thy ===== *)
theory Sequential
  imports Bootstrap
begin

text \<open>
  \<open>internal/analysis/sequential.go\<close>: the anytime-valid analyzer of the live stages, an
  empirical-Bernstein confidence sequence.  \<open>math.Log\<close> and \<open>math.Sqrt\<close> are fields of
  \<open>mathlib\<close>; the arithmetic is rounded as the machine rounds it.
\<close>

record Sequential =
  sq_Lower :: f64
  sq_Upper :: f64

section \<open>The confidence sequence\<close>

text \<open>The literals \<open>0.25\<close>, \<open>0.9\<close> and \<open>1e-6\<close> as the compiler rounds them.\<close>

definition lit_quarter :: f64 where "lit_quarter = Fin (1 / 4)"
definition lit_stake_cap :: f64 where "lit_stake_cap = fround (9 / 10)"
definition lit_stake_floor :: f64 where "lit_stake_floor = fround (1 / 10 ^ 6)"

definition psiE :: "mathlib \<Rightarrow> f64 \<Rightarrow> f64" where
  "psiE M lambda =
     (if lambda \<le> 0 \<or> 1 \<le> lambda then Inf False
      else (- m_Log M (1 - lambda) - lambda) / Fin 4)"

definition bounds :: "Sequential \<Rightarrow> f64 \<times> f64" where
  "bounds s = (if feq (sq_Lower s) 0 \<and> feq (sq_Upper s) 0 then (Fin (-1), 1) else (sq_Lower s, sq_Upper s))"

text \<open>The local variables of the loop; \<open>sr\_n\<close> is the number of observations weighed.\<close>

record seq_running =
  sr_n :: nat
  sr_muHat :: f64
  sr_varHat :: f64
  sr_sumZ :: f64
  sr_sumSq :: f64
  sr_sumLambdaZ :: f64
  sr_sumLambda :: f64
  sr_penalty :: f64

definition seq_start :: seq_running where
  "seq_start = \<lparr> sr_n = 0, sr_muHat = half, sr_varHat = lit_quarter, sr_sumZ = 0, sr_sumSq = 0,
     sr_sumLambdaZ = 0, sr_sumLambda = 0, sr_penalty = 0 \<rparr>"

definition stake :: "mathlib \<Rightarrow> f64 \<Rightarrow> f64 \<Rightarrow> seq_running \<Rightarrow> f64" where
  "stake M width logInv r =
     (let n = of_int64 (int (sr_n r) + 1);
          lambda = m_Sqrt M (Fin 2 * logInv / (sr_varHat r * n * m_Log M (1 + n)));
          capped = half / width;
          lambda = (if capped < lambda then capped else lambda);
          lambda = (if lit_stake_cap < lambda then lit_stake_cap else lambda)
      in if lambda \<le> 0 \<or> is_NaN lambda then lit_stake_floor else lambda)"

definition seq_step :: "mathlib \<Rightarrow> f64 \<Rightarrow> f64 \<Rightarrow> f64 \<Rightarrow> f64 \<Rightarrow> seq_running \<Rightarrow> seq_running" where
  "seq_step M lo width logInv d r =
     (let z = (d - lo) / width;
          n = of_int64 (int (sr_n r) + 1);
          lambda = stake M width logInv r;
          v = Fin 4 * (z - sr_muHat r) * (z - sr_muHat r);
          sumZ = sr_sumZ r + z;
          muNext = (half + sumZ) / (n + 1);
          sumSq = sr_sumSq r + (z - sr_muHat r) * (z - sr_muHat r)
      in \<lparr> sr_n = Suc (sr_n r), sr_muHat = muNext, sr_varHat = (lit_quarter + sumSq) / (n + 1),
           sr_sumZ = sumZ, sr_sumSq = sumSq,
           sr_sumLambdaZ = sr_sumLambdaZ r + lambda * z, sr_sumLambda = sr_sumLambda r + lambda,
           sr_penalty = sr_penalty r + v * psiE M lambda \<rparr>)"

definition interval :: "mathlib \<Rightarrow> Sequential \<Rightarrow> f64 list \<Rightarrow> f64 \<Rightarrow> f64 \<times> f64" where
  "interval M s ds alpha =
     (if length ds = 0 then (Inf True, Inf False)
      else case bounds s of (lo, hi) \<Rightarrow>
        (let width = hi - lo
         in if width \<le> 0 then (Inf True, Inf False)
            else
              let logInv = m_Log M (Fin 2 / alpha);
                  r = fold (seq_step M lo width logInv) ds seq_start
              in if sr_sumLambda r \<le> 0 then (Inf True, Inf False)
                 else
                   let center = sr_sumLambdaZ r / sr_sumLambda r;
                       radius = (logInv + sr_penalty r) / sr_sumLambda r
                   in (lo + (center - radius) * width, lo + (center + radius) * width)))"

section \<open>One metric\<close>

definition sequential_detail :: "bool \<Rightarrow> Metric \<Rightarrow> MetricResult \<Rightarrow> msg" where
  "sequential_detail unpaired m r =
     Sprintf ''candidate is %+.4f against the incumbent after %d %s observation(s)''
       [AFloat (mr_Delta r), AInt (mr_N r), AStr (if unpaired then ''unpaired'' else ''paired''),
        AFloat (mr_CILower r), AFloat (mr_CIUpper r), AFloat (metric_Margin m)]"

definition sequential_ci :: "mathlib \<Rightarrow> Sequential \<Rightarrow> bool \<Rightarrow> f64 list \<Rightarrow> f64 list \<Rightarrow> f64 \<Rightarrow> f64 \<times> f64" where
  "sequential_ci M s unpaired incumbent candidate alpha =
     (if unpaired
      then let arm = (if sq_Lower s < sq_Upper s then \<lparr> sq_Lower = sq_Lower s, sq_Upper = sq_Upper s \<rparr>
                      else \<lparr> sq_Lower = 0, sq_Upper = 1 \<rparr>)
           in case interval M arm incumbent (alpha / Fin 2) of (incLo, incHi) \<Rightarrow>
              (case interval M arm candidate (alpha / Fin 2) of (candLo, candHi) \<Rightarrow>
                 (candLo - incHi, candHi - incLo))
      else interval M s (map2 (\<lambda>c i. c - i) candidate incumbent) alpha)"

definition sequential_metric ::
    "mathlib \<Rightarrow> 's env \<Rightarrow> Sequential \<Rightarrow> Request \<Rightarrow> Metric \<Rightarrow> 's \<Rightarrow> MetricResult result \<times> 's" where
  "sequential_metric M E s req m st =
     (let unpaired = (rq_Design req = DesignUnpaired);
          (incumbent, candidate) =
            (if unpaired then Arms req (metric_Name m)
             else (case Request_Values req (metric_Name m) of (i, c, _) \<Rightarrow> (i, c)));
          n = (if unpaired \<and> length candidate < length incumbent then length candidate
               else length incumbent);
          result = metric_start m (int n)
      in if length incumbent = 0 \<or> length candidate = 0
         then (Inr (result\<lparr>mr_Detail :=
                 Sprintf ''no observation for %q under both arms'' [AStr (metric_Name m)]\<rparr>), st)
         else (case env_Err E st of
           (Some e, st1) \<Rightarrow> (Inl e, st1)
         | (None, st1) \<Rightarrow>
           (let result = with_means incumbent candidate result
            in if metric_Test m = GateThreshold then (Inr (threshold result m candidate), st1)
               else (case sequential_ci M s unpaired incumbent candidate (mr_Alpha result) of
                 (lower, upper) \<Rightarrow>
                   (let result = read_interval m (result\<lparr>mr_CILower := lower, mr_CIUpper := upper\<rparr>)
                    in (Inr (result\<lparr>mr_Detail := sequential_detail unpaired m result\<rparr>), st1))))))"

definition sequential_guard_alpha :: "Request \<Rightarrow> Metric \<Rightarrow> Metric" where
  "sequential_guard_alpha req g =
     (if feq (metric_Alpha g) 0
      then g\<lparr>metric_Alpha := (if feq (metric_Alpha (rq_Primary req)) 0 then DefaultAlpha
                             else metric_Alpha (rq_Primary req))\<rparr>
      else g)"

fun sequential_guardrails ::
    "mathlib \<Rightarrow> 's env \<Rightarrow> Sequential \<Rightarrow> Request \<Rightarrow> Metric list \<Rightarrow> 's \<Rightarrow> MetricResult list result \<times> 's" where
  "sequential_guardrails M E s req [] st = (Inr [], st)"
| "sequential_guardrails M E s req (g # gs) st =
     (case sequential_metric M E s req (sequential_guard_alpha req g) st of
        (Inl e, s1) \<Rightarrow> (Inl e, s1)
      | (Inr r, s1) \<Rightarrow>
        (case sequential_guardrails M E s req gs s1 of
           (Inl e, s2) \<Rightarrow> (Inl e, s2)
         | (Inr rs, s2) \<Rightarrow> (Inr (r # rs), s2)))"

section \<open>The decision\<close>

definition decideSequential :: "Verdict \<Rightarrow> Verdict" where
  "decideSequential v =
     (if 0 < mi_Attempted (vd_Missing v) \<and> \<not> mc_Pass (vd_MissingCheck v)
      then v\<lparr>vd_Outcome := OutcomeInconclusive, vd_Reason := mc_Detail (vd_MissingCheck v)\<rparr>
      else case find mr_Inferior (vd_Guardrails v) of
        Some g \<Rightarrow> v\<lparr>vd_Outcome := OutcomeWaveOff,
          vd_Reason := Sprintf ''guardrail %s was breached: %s'' [AStr (mr_Name g), AMsg (mr_Detail g)]\<rparr>
      | None \<Rightarrow>
        if mr_Inferior (vd_Primary v)
        then v\<lparr>vd_Outcome := OutcomeWaveOff,
               vd_Reason := Sprintf ''%s is worse than the margin allows: %s''
                 [AStr (mr_Name (vd_Primary v)), AMsg (mr_Detail (vd_Primary v))]\<rparr>
        else if mr_Indeterminate (vd_Primary v)
        then v\<lparr>vd_Outcome := OutcomeInconclusive,
               vd_Reason := Sprintf ''%s has not accumulated enough evidence yet: %s''
                 [AStr (mr_Name (vd_Primary v)), AMsg (mr_Detail (vd_Primary v))]\<rparr>
        else (case find (\<lambda>g. \<not> mr_Pass g) (vd_Guardrails v) of
          Some g \<Rightarrow> v\<lparr>vd_Outcome := OutcomeInconclusive,
            vd_Reason := Sprintf ''guardrail %s has not been established yet: %s''
              [AStr (mr_Name g), AMsg (mr_Detail g)]\<rparr>
        | None \<Rightarrow> v\<lparr>vd_Outcome := OutcomePromote,
            vd_Reason := Sprintf ''%s is non-inferior: %s''
              [AStr (mr_Name (vd_Primary v)), AMsg (mr_Detail (vd_Primary v))]\<rparr>))"

definition Sequential_Analyze ::
    "mathlib \<Rightarrow> 's env \<Rightarrow> Sequential \<Rightarrow> Request \<Rightarrow> 's \<Rightarrow> Verdict result \<times> 's" where
  "Sequential_Analyze M E s req st =
     (case Request_Validate req of
        Inl e \<Rightarrow> (Inl e, st)
      | Inr _ \<Rightarrow>
        (let verdict = zero_Verdict\<lparr>vd_Analyzer := ''sequential-confidence-sequence'',
                         vd_Missing := rq_Missing req, vd_Seed := seedOrDefault req,
                         vd_Observations := rq_Observations req\<rparr>
         in case sequential_metric M E s req (rq_Primary req) st of
              (Inl e, s1) \<Rightarrow> (Inl e, s1)
            | (Inr primary, s1) \<Rightarrow>
              (case sequential_guardrails M E s req (rq_Guardrails req) s1 of
                 (Inl e, s2) \<Rightarrow> (Inl e, s2)
               | (Inr guards, s2) \<Rightarrow>
                   (Inr (decideSequential (verdict\<lparr>vd_Primary := primary, vd_N := mr_N primary,
                           vd_Guardrails := guards,
                           vd_MissingCheck := CheckMissingness M (rq_Missing req) (rq_MissingPolicy req)
                                                (primary_alpha req)\<rparr>)), s2))))"

section \<open>Lemmas\<close>

lemma decideSequential_promote_iff:
  "vd_Outcome (decideSequential v) = OutcomePromote \<longleftrightarrow>
     (mi_Attempted (vd_Missing v) \<le> 0 \<or> mc_Pass (vd_MissingCheck v)) \<and>
     (\<forall>g \<in> set (vd_Guardrails v). mr_Pass g \<and> \<not> mr_Inferior g) \<and>
     \<not> mr_Inferior (vd_Primary v) \<and> \<not> mr_Indeterminate (vd_Primary v)"
proof -
  have a: "find mr_Inferior (vd_Guardrails v) = None \<longleftrightarrow> (\<forall>g \<in> set (vd_Guardrails v). \<not> mr_Inferior g)"
    "find (\<lambda>g. \<not> mr_Pass g) (vd_Guardrails v) = None \<longleftrightarrow> (\<forall>g \<in> set (vd_Guardrails v). mr_Pass g)"
    by (auto simp: find_None_Ball)
  show ?thesis
    by (cases "find mr_Inferior (vd_Guardrails v)"; cases "find (\<lambda>g. \<not> mr_Pass g) (vd_Guardrails v)")
       (use a in \<open>auto simp: decideSequential_def\<close>)
qed

lemma decideSequential_outcome:
  "vd_Outcome (decideSequential v) \<in> {OutcomePromote, OutcomeWaveOff, OutcomeInconclusive}"
  by (auto simp: decideSequential_def split: option.splits)

lemma decideSequential_frame [simp]:
  "vd_Primary (decideSequential v) = vd_Primary v" "vd_Guardrails (decideSequential v) = vd_Guardrails v"
  "vd_N (decideSequential v) = vd_N v" "vd_Missing (decideSequential v) = vd_Missing v"
  "vd_MissingCheck (decideSequential v) = vd_MissingCheck v"
  by (auto simp: decideSequential_def split: option.splits)

lemma sequential_metric_reading:
  assumes "sequential_metric M E s req m st = (Inr r, st')"
  shows "mr_N r \<noteq> 0 \<Longrightarrow> mr_Pass r \<or> mr_Inferior r \<or> mr_Indeterminate r"
    and "mr_Pass r \<Longrightarrow> 0 < mr_N r" and "0 \<le> mr_N r"
  using assms length_Request_Values [of req "metric_Name m"]
  by (auto simp: sequential_metric_def Let_def split: prod.splits if_splits option.splits)

lemma sequential_guardrails_results:
  "sequential_guardrails M E s req gs st = (Inr rs, st') \<Longrightarrow>
     length rs = length gs \<and> (\<forall>r \<in> set rs. mr_Pass r \<longrightarrow> 0 < mr_N r)"
proof (induction M E s req gs st arbitrary: rs st' rule: sequential_guardrails.induct)
  case (2 M E s req g gs st)
  obtain r s1 rs1 where r: "sequential_metric M E s req (sequential_guard_alpha req g) st = (Inr r, s1)"
    and rs1: "sequential_guardrails M E s req gs s1 = (Inr rs1, st')" and rs: "rs = r # rs1"
    using 2 by (auto split: prod.splits sum.splits)
  show ?case using "2.IH" [OF r [symmetric] refl rs1] rs sequential_metric_reading(2) [OF r] by auto
qed simp

lemma Sequential_Analyze_Inr:
  assumes "Sequential_Analyze M E s req st = (Inr v, st')"
  shows "\<exists>w s1. Request_Validate req = Inr () \<and> v = decideSequential w \<and>
    sequential_metric M E s req (rq_Primary req) st = (Inr (vd_Primary w), s1) \<and>
    sequential_guardrails M E s req (rq_Guardrails req) s1 = (Inr (vd_Guardrails w), st') \<and>
    vd_N w = mr_N (vd_Primary w) \<and> vd_Missing w = rq_Missing req \<and>
    vd_MissingCheck w = CheckMissingness M (rq_Missing req) (rq_MissingPolicy req) (primary_alpha req)"
  using assms
  by (auto simp: Sequential_Analyze_def Let_def split: sum.splits prod.splits intro!: exI)

lemma seq_step_sumLambda:
  "sr_sumLambda (seq_step M lo width l d r) = sr_sumLambda r + stake M width l r"
  "sr_n (seq_step M lo width l d r) = Suc (sr_n r)"
  by (simp_all add: seq_step_def Let_def)

lemma fold_seq_n: "sr_n (fold (seq_step M lo width l) ds r) = sr_n r + length ds"
  by (induction ds arbitrary: r) (simp_all add: seq_step_sumLambda)

lemma sequential_metric_unmeasured:
  assumes "sequential_metric M E s req m st = (Inr r, st')" and "mr_N r = 0"
  shows "\<not> mr_Pass r" "\<not> mr_Inferior r" "\<not> mr_Indeterminate r"
  using assms length_Request_Values [of req "metric_Name m"]
  by (auto simp: sequential_metric_def Let_def split: prod.splits if_splits option.splits)

text \<open>Nothing was lost: no drop rate and no asymmetry to object to.\<close>

lemma lit_fifth_nonneg: "\<not> fround (1 / 5) < Fin 0"
proof -
  have "Fin 0 \<le> fround (1 / 5)" using fround_mono [of 0 "1 / 5"] fround_0_half_1 by simp
  then show ?thesis by (cases "fround (1 / 5)") auto
qed

lemma DefaultAlpha_le_1: "\<not> 1 < DefaultAlpha"
proof -
  have "fround (1 / 20) \<le> Fin 1" using fround_mono [of "1 / 20" 1] fround_0_half_1 by simp
  then show ?thesis by (cases "fround (1 / 20)") (auto simp: DefaultAlpha_def one_f64_def)
qed

lemma zero_divided: "Fin 0 / x = Fin 0 \<or> Fin 0 / x = NaN"
  using fround_0_half_1(1) by (cases x) auto

lemma CheckMissingness_nothing_lost:
  assumes "mi_CandidateOnlyFailed m = 0" "mi_IncumbentOnlyFailed m = 0" "mi_BothFailed m = 0"
    and "policy = zero_MissingnessPolicy" and "\<not> 1 < alpha" and "0 < mi_Attempted m"
  shows "mc_Pass (CheckMissingness M m policy alpha)"
proof -
  have "Missing_Rate m = Fin 0 \<or> Missing_Rate m = NaN"
    using assms(1-3) zero_divided fround_0_half_1 by (auto simp: Missing_Rate_def Dropped_def of_int64_def zero_f64_def)
  then have "\<not> miss_maxRate policy < Missing_Rate m"
    using lit_fifth_nonneg assms(4)
    by (auto simp: miss_maxRate_def zero_MissingnessPolicy_def DefaultMaxDropRate_def zero_f64_def)
  moreover have "\<not> 1 < miss_alpha policy alpha"
    using assms(4,5) DefaultAlpha_le_1
    by (auto simp: miss_alpha_def zero_MissingnessPolicy_def Let_def zero_f64_def)
  ultimately show ?thesis using assms by (simp add: CheckMissingness_Pass_iff)
qed

lemma no_candidate_promoted:
  assumes "rq_Design req = DesignUnpaired" and "metric_Name (rq_Primary req) \<noteq> []"
    and "rq_Observations req \<noteq> []"
    and "\<forall>o' \<in> set (rq_Observations req). map_of (obs_Candidate o') (metric_Name (rq_Primary req)) = None"
    and "rq_Guardrails req = []"
    and "mi_CandidateOnlyFailed (rq_Missing req) = 0" "mi_IncumbentOnlyFailed (rq_Missing req) = 0"
      "mi_BothFailed (rq_Missing req) = 0"
    and "rq_MissingPolicy req = zero_MissingnessPolicy" and "\<not> 1 < primary_alpha req"
  shows "\<exists>v. Sequential_Analyze M E s req st = (Inr v, st) \<and>
     vd_Outcome v = OutcomePromote \<and> vd_N v = 0"
proof -
  have none: "snd (Arms req (metric_Name (rq_Primary req))) = []"
    using assms(4) by (auto simp: Arms_def List.map_filter_def)
  have "Request_Validate req = Inr ()" using assms by (simp add: Request_Validate_unpaired)
  moreover have "mi_Attempted (rq_Missing req) \<le> 0 \<or>
      mc_Pass (CheckMissingness M (rq_Missing req) (rq_MissingPolicy req) (primary_alpha req))"
    using CheckMissingness_nothing_lost [OF assms(6-10)] by (cases "0 < mi_Attempted (rq_Missing req)") auto
  ultimately show ?thesis
    using assms none
    by (auto simp: Sequential_Analyze_def Let_def sequential_metric_def decideSequential_promote_iff
        split: prod.splits)
qed

section \<open>Properties\<close>

text \<open>
  C7. What a live promotion rests on.  Whenever the sequential analyzer returns a verdict, it is a
  promotion if and only if the drop pattern was acceptable, every guardrail was measured and is
  established as acceptable, and the primary metric is either established as acceptable or was not
  measured at all.
\<close>

theorem live_promotes_iff:
  assumes "Sequential_Analyze M E s req st = (Inr v, st')"
  shows "vd_Outcome v = OutcomePromote \<longleftrightarrow>
     (mi_Attempted (rq_Missing req) \<le> 0 \<or>
        mc_Pass (CheckMissingness M (rq_Missing req) (rq_MissingPolicy req) (primary_alpha req))) \<and>
     length (vd_Guardrails v) = length (rq_Guardrails req) \<and>
     (\<forall>g \<in> set (vd_Guardrails v). mr_Pass g \<and> \<not> mr_Inferior g \<and> 0 < mr_N g) \<and>
     (vd_N v = 0 \<or>
        mr_Pass (vd_Primary v) \<and> \<not> mr_Inferior (vd_Primary v) \<and> \<not> mr_Indeterminate (vd_Primary v))"
proof -
  obtain w s1 where w: "v = decideSequential w" "vd_Missing w = rq_Missing req" "vd_N w = mr_N (vd_Primary w)"
    "vd_MissingCheck w = CheckMissingness M (rq_Missing req) (rq_MissingPolicy req) (primary_alpha req)"
    and p: "sequential_metric M E s req (rq_Primary req) st = (Inr (vd_Primary w), s1)"
    and g: "sequential_guardrails M E s req (rq_Guardrails req) s1 = (Inr (vd_Guardrails w), st')"
    using Sequential_Analyze_Inr [OF assms] by blast
  show ?thesis
    using w sequential_metric_reading(1) [OF p] sequential_metric_unmeasured [OF p]
      sequential_guardrails_results [OF g]
    by (auto simp: decideSequential_promote_iff)
qed

theorem live_promotes_iff_witness:
  "\<exists>v. Sequential_Analyze zero_math first_env \<lparr> sq_Lower = 0, sq_Upper = 0 \<rparr>
      (ex_request DesignPaired GateThreshold (map (ex_obs (Fin 1) (Fin 1)) [0])) () = (Inr v, ()) \<and>
    vd_Outcome v = OutcomePromote"
proof -
  have "sequential_metric zero_math first_env \<lparr> sq_Lower = 0, sq_Upper = 0 \<rparr>
      (ex_request DesignPaired GateThreshold (map (ex_obs (Fin 1) (Fin 1)) [0]))
      (ex_metric GateThreshold) () =
     (Inr (threshold (with_means [Fin 1] [Fin 1] (metric_start (ex_metric GateThreshold) 1))
            (ex_metric GateThreshold) [Fin 1]), ())"
    using ex_paired_values [of "Fin 1" "Fin 1" "[0]"]
    by (simp add: sequential_metric_def Let_def first_env_def Request_Values_def)
  then obtain v where v: "Sequential_Analyze zero_math first_env \<lparr> sq_Lower = 0, sq_Upper = 0 \<rparr>
      (ex_request DesignPaired GateThreshold (map (ex_obs (Fin 1) (Fin 1)) [0])) () = (Inr v, ())"
    "mr_Pass (vd_Primary v)" "\<not> mr_Indeterminate (vd_Primary v)" "\<not> mr_Inferior (vd_Primary v)"
    "vd_Guardrails v = []"
    using ex_request_valid [of "[0]" GateThreshold "Fin 1" "Fin 1"]
    by (simp add: Sequential_Analyze_def Let_def threshold_def worst_of_def)
  then have "vd_Outcome v = OutcomePromote"
    by (subst live_promotes_iff [OF v(1)]) (simp add: zero_Missingness_def)
  then show ?thesis using v(1) by blast
qed

text \<open>
  A live canary is promoted on nothing.  If no observation carries the primary metric for the
  candidate, no guardrail is declared, and no item was lost to a failed scoring (in a live canary an
  item is attempted under one arm only, so none ever counts as lost), the sequential analyzer promotes
  with zero observations behind the verdict, although an analyzer "must never return OutcomePromote
  when it could not complete".
\<close>

theorem live_promotes_with_no_candidate_data:
  assumes "rq_Design req = DesignUnpaired" and "metric_Name (rq_Primary req) \<noteq> []"
    and "rq_Observations req \<noteq> []"
    and "\<forall>o' \<in> set (rq_Observations req). map_of (obs_Candidate o') (metric_Name (rq_Primary req)) = None"
    and "rq_Guardrails req = []"
    and "mi_CandidateOnlyFailed (rq_Missing req) = 0" "mi_IncumbentOnlyFailed (rq_Missing req) = 0"
      "mi_BothFailed (rq_Missing req) = 0"
    and "rq_MissingPolicy req = zero_MissingnessPolicy" and "\<not> 1 < primary_alpha req"
  shows "\<exists>v. Sequential_Analyze M E s req st = (Inr v, st) \<and>
     vd_Outcome v = OutcomePromote \<and> vd_N v = 0"
  using no_candidate_promoted [OF assms] .

theorem live_promotes_with_no_candidate_data_witness:
  "\<exists>v. Sequential_Analyze zero_math first_env \<lparr> sq_Lower = 0, sq_Upper = 1 \<rparr>
      (ex_request DesignUnpaired GateSequential
        [\<lparr> obs_Item = ''s1'', obs_Incumbent = [(''ok'', 1)], obs_Candidate = [] \<rparr>]
        \<lparr>rq_Missing := zero_Missingness\<lparr>mi_Attempted := 1\<rparr>\<rparr>) () = (Inr v, ()) \<and>
    vd_Outcome v = OutcomePromote \<and> vd_N v = 0"
  by (rule live_promotes_with_no_candidate_data)
     (simp_all add: zero_Missingness_def ex_request_def zero_MissingnessPolicy_def primary_alpha_def
        ex_metric_def one_f64_def zero_f64_def)

text \<open>
  The stake is predictable.  The total stake placed by the confidence sequence, which is the
  denominator of its centre and its radius, does not depend on the last observation weighed: each
  stake is fixed before the observation it is placed on, which is what makes stopping at any time
  valid.
\<close>

theorem stake_is_predictable:
  "sr_sumLambda (fold (seq_step M lo width logInv) (ds @ [d]) seq_start) =
   sr_sumLambda (fold (seq_step M lo width logInv) (ds @ [d']) seq_start)"
  by (simp add: seq_step_sumLambda)

end
