(* ===== verification/Controller.thy ===== *)
theory Controller
  imports Live Sequential Istio
begin

text \<open>
  \<open>internal/rollout/controller.go\<close>: the reconciler.  The cluster is the stored rollouts, which
  the controller reads and whose status it writes, and everything else (\<open>cl\_rest\<close>), on which
  the routers, the sources of measurements, the scorer, the analyzers, the recorder of events and the
  clock act.  A rollout read from the API server is a value; \<open>writeStatus\<close> stores it back.
\<close>

record 'x cluster =
  cl_rollouts :: "object_key \<Rightarrow> AgentRollout option"
  cl_rest :: 'x

definition lift :: "('x \<Rightarrow> 'a \<times> 'x) \<Rightarrow> 'x cluster \<Rightarrow> 'a \<times> 'x cluster" where
  "lift f w = (case f (cl_rest w) of (a, x) \<Rightarrow> (a, w\<lparr>cl_rest := x\<rparr>))"

record ctrl_Result =
  cr_Requeue :: bool
  cr_RequeueAfter :: duration

definition no_requeue :: ctrl_Result where
  "no_requeue = \<lparr> cr_Requeue = False, cr_RequeueAfter = 0 \<rparr>"

type_synonym outcome = "ctrl_Result \<times> msg option"

datatype EventType = EventNormal | EventWarning
datatype EventReason = EventWavedOff | EventPromoted | EventHeld | EventStageStarted

record 'x Reconciler =
  rc_Rollouts :: "(AgentRollout, 'x cluster) client"
  rc_IsNotFound :: "msg \<Rightarrow> bool"
  rc_Manifest :: "object_key \<Rightarrow> 'x \<Rightarrow> AgentManifestSpec result \<times> 'x"
  rc_Routes :: "(HTTPRoute, 'x) client"
  rc_VirtualServices :: "(object, 'x) client"
  rc_Unstructured :: unstructured
  rc_Event :: "EventType \<Rightarrow> EventReason \<Rightarrow> msg \<Rightarrow> 'x \<Rightarrow> 'x"
  rc_Now :: "'x \<Rightarrow> time \<times> 'x"
  rc_CorpusRoot :: string
  rc_OutputRoot :: string
  rc_BlobDir :: string
  rc_Observations :: "('x observation_source \<times> 'x activity_source option) option"
  rc_StageTimeout :: duration
  rc_Mkdir :: "string \<Rightarrow> 'x \<Rightarrow> msg option \<times> 'x"
  rc_Dir :: "'x dir_os"
  rc_Codec :: codec
  rc_ExecScore :: "ExecScorerSpec \<Rightarrow> duration \<Rightarrow> Ref list \<Rightarrow> 'x \<Rightarrow> Result list result \<times> 'x"
  rc_HTTPScore :: "HTTPScorerSpec \<Rightarrow> duration \<Rightarrow> Ref list \<Rightarrow> 'x \<Rightarrow> Result list result \<times> 'x"
  rc_Driver :: "string \<Rightarrow> string \<Rightarrow> string \<Rightarrow> AgentManifestSpec \<Rightarrow> ArmLabel \<Rightarrow> 'x \<Rightarrow> Report result \<times> 'x"
  rc_Math :: mathlib
  rc_Env :: "'x env"
  rc_Post :: "string \<Rightarrow> duration \<Rightarrow> Request \<Rightarrow> 'x \<Rightarrow> http_reply \<times> 'x"
  rc_Decode :: "string \<Rightarrow> Verdict result"
  rc_WithTimeout :: "duration \<Rightarrow> 'x \<Rightarrow> 'x"
  rc_Cancel :: "'x \<Rightarrow> 'x"

section \<open>The status\<close>

definition nextStage :: "AgentRollout \<Rightarrow> nat option" where
  "nextStage rollout =
     (let promoted = map ss_Name (filter (\<lambda>s. ss_Phase s = PhasePromoted) (st_Stages (ro_Status rollout)))
      in find (\<lambda>i. stage_Name (rs_Stages (ro_Spec rollout) ! i) \<notin> set promoted)
           [0..<length (rs_Stages (ro_Spec rollout))])"

definition terminal :: "RolloutPhase \<Rightarrow> bool" where
  "terminal p = (p = PhasePromoted \<or> p = PhaseWavedOff \<or> p = PhaseHeld \<or> p = PhaseFailed)"

fun record_in :: "StageStatus \<Rightarrow> StageStatus list \<Rightarrow> StageStatus list" where
  "record_in status [] = [status]"
| "record_in status (s # ss) = (if ss_Name s = ss_Name status then status # ss else s # record_in status ss)"

definition recordStage :: "StageStatus \<Rightarrow> AgentRollout \<Rightarrow> AgentRollout" where
  "recordStage status rollout =
     rollout\<lparr>ro_Status := (ro_Status rollout)\<lparr>st_Stages := record_in status (st_Stages (ro_Status rollout))\<rparr>\<rparr>"

definition stageStatus :: "AgentRollout \<Rightarrow> string \<Rightarrow> StageStatus \<times> bool" where
  "stageStatus rollout name =
     (case find (\<lambda>s. ss_Name s = name) (st_Stages (ro_Status rollout)) of
        Some s \<Rightarrow> (s, ss_StartedAt s \<noteq> None)
      | None \<Rightarrow> (new_StageStatus name, False))"

definition with_phase :: "RolloutPhase \<Rightarrow> msg \<Rightarrow> AgentRollout \<Rightarrow> AgentRollout" where
  "with_phase phase reason rollout =
     rollout\<lparr>ro_Status := (ro_Status rollout)\<lparr>st_Phase := phase, st_Reason := reason,
       st_ObservedGeneration := ro_Generation rollout\<rparr>\<rparr>"

definition rollout_key :: "AgentRollout \<Rightarrow> object_key" where
  "rollout_key rollout = (ro_Namespace rollout, ro_Name rollout)"

text \<open>
  What the API server keeps of an instant: \<open>metav1.Time\<close> is written in whole seconds and reads
  back truncated to them, and the zero instant is written as null.
\<close>

definition metav1_Time :: "time option \<Rightarrow> time option" where
  "metav1_Time t = (case t of None \<Rightarrow> None | Some n \<Rightarrow> if n = 0 then None else Some (n - n mod second))"

definition stored_status :: "StageStatus \<Rightarrow> StageStatus" where
  "stored_status s =
     s\<lparr>ss_StartedAt := metav1_Time (ss_StartedAt s), ss_FinishedAt := metav1_Time (ss_FinishedAt s)\<rparr>"

definition as_stored :: "AgentRollout \<Rightarrow> AgentRollout" where
  "as_stored rollout =
     rollout\<lparr>ro_Status := (ro_Status rollout)\<lparr>st_Stages := map stored_status (st_Stages (ro_Status rollout))\<rparr>\<rparr>"

definition writeStatus ::
    "'x Reconciler \<Rightarrow> AgentRollout \<Rightarrow> RolloutPhase \<Rightarrow> msg \<Rightarrow> 'x cluster \<Rightarrow> msg option \<times> 'x cluster" where
  "writeStatus R rollout phase reason w =
     c_Update (rc_Rollouts R) (rollout_key rollout) (as_stored (with_phase phase reason rollout)) w"

definition event :: "'x Reconciler \<Rightarrow> EventType \<Rightarrow> EventReason \<Rightarrow> msg \<Rightarrow> 'x cluster \<Rightarrow> 'x cluster" where
  "event R kind reason m w = w\<lparr>cl_rest := rc_Event R kind reason m (cl_rest w)\<rparr>"

definition hold :: "'x Reconciler \<Rightarrow> AgentRollout \<Rightarrow> msg \<Rightarrow> 'x cluster \<Rightarrow> outcome \<times> 'x cluster" where
  "hold R rollout reason w =
     (case writeStatus R rollout PhaseHeld reason (event R EventWarning EventHeld reason w) of
        (e, w1) \<Rightarrow> ((no_requeue, e), w1))"

definition finish ::
    "'x Reconciler \<Rightarrow> AgentRollout \<Rightarrow> RolloutPhase \<Rightarrow> msg \<Rightarrow> EventReason \<Rightarrow> 'x cluster \<Rightarrow> outcome \<times> 'x cluster" where
  "finish R rollout phase reason ev w =
     (let kind = (if phase \<noteq> PhasePromoted then EventWarning else EventNormal)
      in case writeStatus R rollout phase reason (event R kind ev reason w) of
           (e, w1) \<Rightarrow> ((no_requeue, e), w1))"

text \<open>Write the status and, when that worked, return the given result.\<close>

definition write_then ::
    "'x Reconciler \<Rightarrow> AgentRollout \<Rightarrow> RolloutPhase \<Rightarrow> msg \<Rightarrow> ctrl_Result \<Rightarrow> 'x cluster \<Rightarrow> outcome \<times> 'x cluster" where
  "write_then R rollout phase reason result w =
     (case writeStatus R rollout phase reason w of
        (Some e, w1) \<Rightarrow> ((no_requeue, Some e), w1)
      | (None, w1) \<Rightarrow> ((result, None), w1))"

section \<open>Building the collaborators\<close>

definition corpusPath :: "'x Reconciler \<Rightarrow> string \<Rightarrow> string" where
  "corpusPath R ref = (if HasPrefix ref ''/'' then ref else path_Join (rc_CorpusRoot R) ref)"

text \<open>\<open>time.Duration(n) * time.Second\<close>: the product wraps around at 64 bits.\<close>

definition seconds :: "int \<Rightarrow> duration" where
  "seconds n = signed_take_bit 63 (n * second)"

definition buildScorer ::
    "'x Reconciler \<Rightarrow> ScorerSpec \<Rightarrow> (Ref list \<Rightarrow> 'x \<Rightarrow> Result list result \<times> 'x) result" where
  "buildScorer R spec =
     (let timeout = seconds (scorer_TimeoutSeconds spec)
      in case scorer_Exec spec of
           Some e \<Rightarrow> Inr (rc_ExecScore R e timeout)
         | None \<Rightarrow>
             (case scorer_HTTP spec of
                Some h \<Rightarrow> Inr (rc_HTTPScore R h timeout)
              | None \<Rightarrow> Inl (Text ''no scorer configured: this gate has no source of measurements'')))"

definition remote_analyzer ::
    "'x Reconciler \<Rightarrow> AnalyzerSpec \<Rightarrow> Request \<Rightarrow> 'x \<Rightarrow> Verdict result \<times> 'x" where
  "remote_analyzer R spec req x =
     (let r = \<lparr> rm_Endpoint = as_Endpoint spec \<rparr>
      in case Request_Validate req of
           Inl e \<Rightarrow> (Inl e, x)
         | Inr _ \<Rightarrow>
             (case rc_Post R (as_Endpoint spec) (seconds (as_TimeoutSeconds spec)) req x of
                (reply, x1) \<Rightarrow> (Remote_Analyze (\<lambda>_. reply) (rc_Decode R) r req, x1)))"

definition buildAnalyzer ::
    "'x Reconciler \<Rightarrow> AnalyzerSpec \<Rightarrow> Request \<Rightarrow> 'x \<Rightarrow> Verdict result \<times> 'x" where
  "buildAnalyzer R spec =
     (if as_Endpoint spec = []
      then PairedBootstrap_Analyze (rc_Math R) (rc_Env R) \<lparr> pb_Resamples = 0, pb_Rand = False \<rparr>
      else remote_analyzer R spec)"

definition buildLiveAnalyzer ::
    "'x Reconciler \<Rightarrow> AnalyzerSpec \<Rightarrow> Request \<Rightarrow> 'x \<Rightarrow> Verdict result \<times> 'x" where
  "buildLiveAnalyzer R spec =
     (if as_Endpoint spec = []
      then Sequential_Analyze (rc_Math R) (rc_Env R) \<lparr> sq_Lower = 0, sq_Upper = 0 \<rparr>
      else remote_analyzer R spec)"

definition routerFor :: "'x Reconciler \<Rightarrow> Stage \<Rightarrow> 'x router result" where
  "routerFor R stage =
     (case stage_Traffic stage of
        None \<Rightarrow> Inl (Sprintf ''stage %q moves live traffic but has no traffic block'' [AStr (stage_Name stage)])
      | Some t \<Rightarrow>
          if ts_Router t = ''gateway-api'' then Inr (GatewayAPI (rc_Routes R))
          else if ts_Router t = ''istio'' then Inr (Istio (rc_Unstructured R) (rc_VirtualServices R))
          else Inl (Sprintf ''stage %q asks for traffic router %q, which is not implemented''
                      [AStr (stage_Name stage), AStr (ts_Router t)]))"

definition liveSources ::
    "'x Reconciler \<Rightarrow> Stage \<Rightarrow> (Ref list \<Rightarrow> 'x \<Rightarrow> Result list result \<times> 'x) \<Rightarrow> 'x
      \<Rightarrow> ('x observation_source \<times> 'x activity_source option) result \<times> 'x" where
  "liveSources R stage scorer x =
     (case rc_Observations R of
        Some src \<Rightarrow> (Inr src, x)
      | None \<Rightarrow>
          if cs_Ref (stage_Corpus stage) = []
          then (Inl (Sprintf ''stage %q has nothing to measure'' [AStr (stage_Name stage)]), x)
          else
            let dir = corpusPath R (cs_Ref (stage_Corpus stage))
            in (case rc_Mkdir R dir x of
                 (Some e, x1) \<Rightarrow> (Inl (Sprintf ''create corpus at %s: %w'' [AStr dir, AErr e]), x1)
               | (None, x1) \<Rightarrow>
                   (let src = \<lparr> co_Store = FS (rc_Dir R) dir, co_Dir = dir, co_Blobs = rc_BlobDir R,
                                co_Scorer = scorer, co_Limit = cs_Limit (stage_Corpus stage) \<rparr>
                    in (Inr (Since src, Some (Activity_of (rc_Codec R) src)), x1))))"

definition writeActivityStatus :: "ActivityFinding option \<Rightarrow> WriteActivityStatus option" where
  "writeActivityStatus f =
     map_option (\<lambda>f.
       \<lparr> wa_IncumbentAttempts = Sprintf ''%.2f/session'' [AFloat (act_Rate (af_Incumbent f))],
         wa_CandidateAttempts = Sprintf ''%.2f/session'' [AFloat (act_Rate (af_Candidate f))],
         wa_NewClasses = af_NewClasses f, wa_DroppedClasses = af_DroppedClasses f,
         wa_IncumbentSessions = act_Sessions (af_Incumbent f),
         wa_CandidateSessions = act_Sessions (af_Candidate f) \<rparr>) f"

definition load_manifest ::
    "'x Reconciler \<Rightarrow> AgentRollout \<Rightarrow> string \<Rightarrow> 'x \<Rightarrow> AgentManifestSpec result \<times> 'x" where
  "load_manifest R rollout name x =
     (case rc_Manifest R (ro_Namespace rollout, name) x of
        (Inl e, x1) \<Rightarrow>
          (Inl (if rc_IsNotFound R e
                then Sprintf ''no AgentManifest %q in %s'' [AStr name, AStr (ro_Namespace rollout)] else e), x1)
      | (Inr m, x1) \<Rightarrow> (Inr m, x1))"

definition manifests ::
    "'x Reconciler \<Rightarrow> AgentRollout \<Rightarrow> 'x \<Rightarrow> (AgentManifestSpec \<times> AgentManifestSpec) result \<times> 'x" where
  "manifests R rollout x =
     (case load_manifest R rollout (rs_IncumbentRef (ro_Spec rollout)) x of
        (Inl e, x1) \<Rightarrow> (Inl e, x1)
      | (Inr incumbent, x1) \<Rightarrow>
          (case load_manifest R rollout (rs_CandidateRef (ro_Spec rollout)) x1 of
             (Inl e, x2) \<Rightarrow> (Inl e, x2)
           | (Inr candidate, x2) \<Rightarrow> (Inr (incumbent, candidate), x2)))"

section \<open>An offline stage\<close>

definition stage_runner ::
    "'x Reconciler \<Rightarrow> string \<Rightarrow> string \<Rightarrow> (Ref list \<Rightarrow> 'x \<Rightarrow> Result list result \<times> 'x) \<Rightarrow> AnalyzerSpec \<Rightarrow> 'x Runner" where
  "stage_runner R corpus outDir scorer analyzer =
     \<lparr> rn_Corpus = FS (rc_Dir R) corpus, rn_Replay = rc_Driver R corpus outDir, rn_Score = scorer,
       rn_Analyze = buildAnalyzer R analyzer, rn_CtxErr = os_CtxErr (rc_Dir R), rn_Now = rc_Now R,
       rn_OutputCorpus = outDir, rn_BlobDir = rc_BlobDir R \<rparr>"

definition output_dir :: "'x Reconciler \<Rightarrow> AgentRollout \<Rightarrow> string" where
  "output_dir R rollout =
     path_Join (rc_OutputRoot R)
       (ro_Namespace rollout @ ''-'' @ ro_Name rollout @ ''-'' @ int_string (ro_Generation rollout))"

fun mkdirs :: "'x Reconciler \<Rightarrow> (string \<times> string) list \<Rightarrow> 'x \<Rightarrow> msg option \<times> 'x" where
  "mkdirs R [] x = (None, x)"
| "mkdirs R ((what, d) # ds) x =
     (case rc_Mkdir R d x of
        (Some e, x1) \<Rightarrow> (Some (Sprintf (''create '' @ what @ '' at %s: %w'') [AStr d, AErr e]), x1)
      | (None, x1) \<Rightarrow> mkdirs R ds x1)"

definition runStage ::
    "'x Reconciler \<Rightarrow> AgentRollout \<Rightarrow> Stage \<Rightarrow> AgentManifestSpec \<Rightarrow> AgentManifestSpec \<Rightarrow> 'x
      \<Rightarrow> (StageResult option \<times> msg option) \<times> 'x" where
  "runStage R rollout stage incumbent candidate x =
     (if stage_Mode stage \<noteq> StageOfflineReplay
      then ((None, Some (Sprintf ''stage mode %q is not implemented'' [AStr (StageMode_string (stage_Mode stage))])), x)
      else
        let timeout = (if rc_StageTimeout R \<le> 0 then 30 * minute else rc_StageTimeout R);
            corpus = corpusPath R (cs_Ref (stage_Corpus stage));
            outDir = output_dir R rollout;
            (res, x1) =
              (case mkdirs R [(''corpus'', corpus), (''blob store'', rc_BlobDir R), (''corpus'', outDir)]
                      (rc_WithTimeout R timeout x) of
                 (Some e, x1) \<Rightarrow> ((None, Some e), x1)
               | (None, x1) \<Rightarrow>
                   (case buildScorer R (stage_Scorer stage) of
                      Inl e \<Rightarrow> ((None, Some e), x1)
                    | Inr scorer \<Rightarrow>
                        RunOfflineReplay (stage_runner R corpus outDir scorer (rs_Analyzer (ro_Spec rollout)))
                          stage incumbent candidate x1))
        in (res, rc_Cancel R x1))"

section \<open>A live stage\<close>

text \<open>The first pass over a stage: its traffic configuration is put in place.\<close>

definition enter_stage ::
    "'x Reconciler \<Rightarrow> AgentRollout \<Rightarrow> Stage \<Rightarrow> 'x LiveRunner \<Rightarrow> 'x cluster \<Rightarrow> outcome \<times> 'x cluster" where
  "enter_stage R rollout stage live w =
     (case lift (Enter live rollout stage) w of
        (Some e, w1) \<Rightarrow>
          hold R rollout (Sprintf ''stage %q could not be started: %v'' [AStr (stage_Name stage), AMsg e]) w1
      | (None, w1) \<Rightarrow>
          (case lift (rc_Now R) w1 of (now, w2) \<Rightarrow>
            (let status = (new_StageStatus (stage_Name stage))\<lparr>ss_Phase := PhaseRunning, ss_StartedAt := Some now\<rparr>
             in write_then R (recordStage status rollout) PhaseRunning
                  (Text (''running stage '' @ stage_Name stage))
                  \<lparr> cr_Requeue = False, cr_RequeueAfter = DefaultPollInterval \<rparr>
                  (event R EventNormal EventStageStarted
                     (Sprintf ''stage %q started (%s)''
                        [AStr (stage_Name stage), AStr (StageMode_string (stage_Mode stage))]) w2))))"

definition step_status :: "StageStatus \<Rightarrow> Step \<Rightarrow> StageStatus" where
  "step_status status step =
     status\<lparr>ss_Weight := step_Weight step, ss_Reason := step_Reason step,
       ss_Verdict := Outcome_string (vd_Outcome (step_Verdict step)),
       ss_Analyzer := vd_Analyzer (step_Verdict step), ss_Scored := vd_N (step_Verdict step),
       ss_WriteActivity := writeActivityStatus (step_Activity step)\<rparr>"

text \<open>What a step comes to: withdraw and record, record a promotion, or keep watching.\<close>

definition conclude_step ::
    "'x Reconciler \<Rightarrow> AgentRollout \<Rightarrow> nat \<Rightarrow> Stage \<Rightarrow> 'x LiveRunner \<Rightarrow> StageStatus \<Rightarrow> Step \<Rightarrow> 'x cluster
      \<Rightarrow> outcome \<times> 'x cluster" where
  "conclude_step R rollout index stage live status step w =
     (let status = step_status status step
      in case step_Outcome step of
        StepRollBack \<Rightarrow>
          (case lift (Withdraw live rollout stage) w of
             (Some e, w1) \<Rightarrow>
               hold R rollout (Sprintf ''stage %q failed its gate and could not be withdrawn''
                 [AStr (stage_Name stage), AMsg e]) w1
           | (None, w1) \<Rightarrow>
               (case lift (rc_Now R) w1 of (finished, w2) \<Rightarrow>
                  (let status = status\<lparr>ss_Phase := PhaseWavedOff, ss_RolledBack := True,
                         ss_Trigger := step_Trigger step, ss_FinishedAt := Some finished\<rparr>
                   in write_then R (recordStage status rollout) PhaseWavedOff (step_Reason step) no_requeue
                        (event R EventWarning EventWavedOff
                           (Sprintf ''stage %q: %s (trigger %s); all traffic returned to the incumbent''
                              [AStr (stage_Name stage), AMsg (step_Reason step)]) w2))))
      | StepPromote \<Rightarrow>
          (case lift (rc_Now R) w of (finished, w1) \<Rightarrow>
            (let rollout = recordStage (status\<lparr>ss_Phase := PhasePromoted, ss_FinishedAt := Some finished\<rparr>) rollout
             in if int index = int (length (rs_Stages (ro_Spec rollout))) - 1
                then finish R rollout PhasePromoted (step_Reason step) EventPromoted w1
                else write_then R rollout PhaseRunning (step_Reason step)
                       \<lparr> cr_Requeue = True, cr_RequeueAfter = 0 \<rparr> w1))
      | StepContinue \<Rightarrow>
          write_then R (recordStage status rollout) PhaseRunning (step_Reason step)
            (if step_RequeueAfter step \<le> 0 then no_requeue
             else \<lparr> cr_Requeue = False, cr_RequeueAfter = step_RequeueAfter step \<rparr>) w)"

text \<open>
  Session affinity, for a live stage: the reason to hold, if there is one.  A stage that is not live
  is not asked about.
\<close>

definition affinity_problem :: "'x router \<Rightarrow> AgentRollout \<Rightarrow> Stage \<Rightarrow> 'x \<Rightarrow> msg option \<times> 'x" where
  "affinity_problem router rollout stage x =
     (if stage_Mode stage \<noteq> StageLive then (None, x)
      else (case rt_Stickiness router (targetFor rollout stage) x of
        (Inl e, x1) \<Rightarrow>
          (Some (Sprintf ''stage %q: cannot determine session affinity: %v''
             [AStr (stage_Name stage), AMsg e]), x1)
      | (Inr sticky, x1) \<Rightarrow>
          if sticky \<noteq> StickyBySession
          then (Some (Sprintf ''stage %q routes live traffic without session affinity''
                  [AStr (stage_Name stage), AStr SessionHeader]), x1)
          else (None, x1)))"

definition advanceLive ::
    "'x Reconciler \<Rightarrow> AgentRollout \<Rightarrow> nat \<Rightarrow> Stage \<Rightarrow> AgentManifestSpec \<Rightarrow> AgentManifestSpec \<Rightarrow> 'x cluster
      \<Rightarrow> outcome \<times> 'x cluster" where
  "advanceLive R rollout index stage incumbent candidate w =
     (case buildScorer R (stage_Scorer stage) of
        Inl e \<Rightarrow> hold R rollout e w
      | Inr scorer \<Rightarrow>
     (case lift (liveSources R stage scorer) w of
        (Inl e, w1) \<Rightarrow> hold R rollout e w1
      | (Inr (observations, activity), w1) \<Rightarrow>
     (case routerFor R stage of
        Inl e \<Rightarrow> hold R rollout e w1
      | Inr router \<Rightarrow>
          if stage_Mode stage = StageLive \<and> gm_Test (gate_Primary (stage_Gate stage)) \<noteq> GateSequential
          then hold R rollout
            (Sprintf ''stage %q is live and gated by a fixed-horizon test'' [AStr (stage_Name stage)]) w1
          else
     (case lift (affinity_problem router rollout stage) w1 of
        (Some e, w2) \<Rightarrow> hold R rollout e w2
      | (None, w2) \<Rightarrow>
          (let live = \<lparr> lr_Router = router, lr_Analyze = buildLiveAnalyzer R (rs_Analyzer (ro_Spec rollout)),
                        lr_Observations = observations, lr_Activity = activity, lr_Now = rc_Now R \<rparr>
           in case stageStatus rollout (stage_Name stage) of
                (status, False) \<Rightarrow> enter_stage R rollout stage live w2
              | (status, True) \<Rightarrow>
                  (case lift (Advance live rollout stage incumbent candidate
                               (case ss_StartedAt status of Some t \<Rightarrow> t | None \<Rightarrow> 0)) w2 of
                     (Inl e, w3) \<Rightarrow>
                       hold R rollout (Sprintf ''stage %q could not be advanced: %v''
                         [AStr (stage_Name stage), AMsg e]) w3
                   | (Inr step, w3) \<Rightarrow>
                       conclude_step R rollout index stage live status step w3))))))"

section \<open>Reconcile\<close>

definition offline_status :: "Stage \<Rightarrow> StageResult \<Rightarrow> StageStatus" where
  "offline_status stage result =
     (new_StageStatus (stage_Name stage))
       \<lparr>ss_Sessions := sr_Sessions result, ss_Scored := sr_Scored result, ss_Excluded := sr_Excluded result,
        ss_Verdict := Outcome_string (vd_Outcome (sr_Verdict result)), ss_Reason := vd_Reason (sr_Verdict result),
        ss_Analyzer := vd_Analyzer (sr_Verdict result),
        ss_StartedAt := Some (sr_Started result), ss_FinishedAt := Some (sr_Ended result)\<rparr>"

definition conclude_offline ::
    "'x Reconciler \<Rightarrow> AgentRollout \<Rightarrow> nat \<Rightarrow> Stage \<Rightarrow> StageResult \<Rightarrow> 'x cluster \<Rightarrow> outcome \<times> 'x cluster" where
  "conclude_offline R rollout index stage result w =
     (let status = offline_status stage result; reason = vd_Reason (sr_Verdict result)
      in case vd_Outcome (sr_Verdict result) of
        OutcomePromote \<Rightarrow>
          (let rollout = recordStage (status\<lparr>ss_Phase := PhasePromoted\<rparr>) rollout
           in if int index = int (length (rs_Stages (ro_Spec rollout))) - 1
              then finish R rollout PhasePromoted reason EventPromoted w
              else write_then R rollout PhaseRunning reason \<lparr> cr_Requeue = True, cr_RequeueAfter = 0 \<rparr> w)
      | OutcomeWaveOff \<Rightarrow>
          finish R (recordStage (status\<lparr>ss_Phase := PhaseWavedOff\<rparr>) rollout) PhaseWavedOff reason EventWavedOff w
      | _ \<Rightarrow>
          finish R (recordStage (status\<lparr>ss_Phase := PhaseHeld\<rparr>) rollout) PhaseHeld reason EventHeld w)"

definition offline_stage ::
    "'x Reconciler \<Rightarrow> AgentRollout \<Rightarrow> nat \<Rightarrow> Stage \<Rightarrow> AgentManifestSpec \<Rightarrow> AgentManifestSpec \<Rightarrow> 'x cluster
      \<Rightarrow> outcome \<times> 'x cluster" where
  "offline_stage R rollout index stage incumbent candidate w =
     (case writeStatus R rollout PhaseRunning (Text (''running stage '' @ stage_Name stage))
             (event R EventNormal EventStageStarted (Sprintf ''stage %q started (%s)''
                        [AStr (stage_Name stage), AStr (StageMode_string (stage_Mode stage))]) w) of
        (Some e, w1) \<Rightarrow> ((no_requeue, Some e), w1)
      | (None, w1) \<Rightarrow>
          (let rollout = with_phase PhaseRunning (Text (''running stage '' @ stage_Name stage)) rollout
           in case lift (runStage R rollout stage incumbent candidate) w1 of
                ((_, Some runErr), w2) \<Rightarrow>
                  hold R rollout (Sprintf ''stage %q could not run: %v'' [AStr (stage_Name stage), AMsg runErr]) w2
              | ((None, None), w2) \<Rightarrow> ((no_requeue, None), w2)
              | ((Some result, None), w2) \<Rightarrow> conclude_offline R rollout index stage result w2))"

definition fresh_status :: "AgentRollout \<Rightarrow> AgentRollout" where
  "fresh_status rollout =
     (if st_ObservedGeneration (ro_Status rollout) \<noteq> ro_Generation rollout
      then rollout\<lparr>ro_Status := \<lparr> st_Phase = PhaseNone, st_Reason = no_msg, st_Stages = [],
             st_ObservedGeneration = ro_Generation rollout \<rparr>\<rparr>
      else rollout)"

definition Reconcile :: "'x Reconciler \<Rightarrow> object_key \<Rightarrow> 'x cluster \<Rightarrow> outcome \<times> 'x cluster" where
  "Reconcile R key w =
     (case c_Get (rc_Rollouts R) key w of
        (Inl e, w1) \<Rightarrow> ((no_requeue, if rc_IsNotFound R e then None else Some e), w1)
      | (Inr rollout, w1) \<Rightarrow>
          if terminal (st_Phase (ro_Status rollout)) \<and>
             st_ObservedGeneration (ro_Status rollout) = ro_Generation rollout
          then ((no_requeue, None), w1)
          else
            let rollout = fresh_status rollout
            in (case lift (manifests R rollout) w1 of
                 (Inl e, w2) \<Rightarrow>
                   hold R rollout (Sprintf ''cannot load the manifests under comparison: %v'' [AMsg e]) w2
               | (Inr (incumbent, candidate), w2) \<Rightarrow>
                   (case nextStage rollout of
                      None \<Rightarrow> finish R rollout PhasePromoted (Text ''every stage passed'') EventPromoted w2
                    | Some i \<Rightarrow>
                        (let stage = rs_Stages (ro_Spec rollout) ! i
                         in if stage_Mode stage = StageLive \<or> stage_Mode stage = StageShadow
                            then advanceLive R rollout i stage incumbent candidate w2
                            else offline_stage R rollout i stage incumbent candidate w2))))"

end
