(* ===== verification/RolloutSafety.thy ===== *)
theory RolloutSafety
  imports Controller
begin

text \<open>
  What the reconciler guarantees about the rollouts it writes, over any sequence of reconciles, edits
  of specs and changes in the rest of the cluster.
\<close>

section \<open>What one call writes\<close>

text \<open>
  Every stored rollout is the one that was there or what the API server keeps of one with the property.
\<close>

definition writes_only :: "(AgentRollout \<Rightarrow> bool) \<Rightarrow> 'x cluster \<Rightarrow> 'x cluster \<Rightarrow> bool" where
  "writes_only P w w' \<longleftrightarrow>
     (\<forall>k. cl_rollouts w' k = cl_rollouts w k \<or> (\<exists>ro. cl_rollouts w' k = Some (as_stored ro) \<and> P ro))"

lemma writes_only_refl: "cl_rollouts w' = cl_rollouts w \<Longrightarrow> writes_only P w w'"
  by (simp add: writes_only_def)

lemma writes_only_trans: "writes_only P w w1 \<Longrightarrow> writes_only P w1 w2 \<Longrightarrow> writes_only P w w2"
  unfolding writes_only_def by metis

lemma writes_only_same: "cl_rollouts w1 = cl_rollouts w \<Longrightarrow> writes_only P w1 w' \<Longrightarrow> writes_only P w w'"
  by (simp add: writes_only_def)

lemma lift_rollouts [simp]: "lift f w = (a, w') \<Longrightarrow> cl_rollouts w' = cl_rollouts w"
  by (cases "f (cl_rest w)") (auto simp: lift_def)

lemma lift_eq: "lift f w = (a, w') \<longleftrightarrow> (\<exists>x. f (cl_rest w) = (a, x) \<and> w' = w\<lparr>cl_rest := x\<rparr>)"
  by (cases "f (cl_rest w)") (auto simp: lift_def)

lemma lift_then_only: "lift f w = (a, w1) \<Longrightarrow> writes_only P w1 w' \<Longrightarrow> writes_only P w w'"
  by (rule writes_only_same) simp_all

lemma event_rollouts [simp]: "cl_rollouts (event R kd rs m w) = cl_rollouts w"
  by (simp add: event_def)

lemma writeStatus_only:
  assumes "kube_ok (rc_Rollouts R) cl_rollouts" and "writeStatus R ro phase reason w = (e, w')"
    and "P (with_phase phase reason ro)"
  shows "writes_only P w w'"
proof (cases e)
  case None
  then show ?thesis
    using kube_Update(1) [OF assms(1)] assms(2,3) unfolding writeStatus_def by (fastforce simp: writes_only_def)
next
  case (Some m)
  then show ?thesis
    using kube_Update(2) [OF assms(1)] assms(2,3) unfolding writeStatus_def by (fastforce simp: writes_only_def)
qed

lemma hold_only:
  assumes "kube_ok (rc_Rollouts R) cl_rollouts" and "hold R ro reason w = (out, w')"
    and "P (with_phase PhaseHeld reason ro)"
  shows "writes_only P w w'"
proof -
  have "writeStatus R ro PhaseHeld reason (event R EventWarning EventHeld reason w) = (snd out, w')"
    using assms(2) by (auto simp: hold_def split: prod.splits)
  from writeStatus_only [of R _ _ _ _ _ _ P, OF assms(1) this assms(3)] show ?thesis
    by (rule writes_only_same [rotated]) simp
qed

lemma finish_only:
  assumes "kube_ok (rc_Rollouts R) cl_rollouts" and "finish R ro phase reason ev w = (out, w')"
    and "P (with_phase phase reason ro)"
  shows "writes_only P w w'"
proof -
  obtain kd where "writeStatus R ro phase reason (event R kd ev reason w) = (snd out, w')"
    using assms(2) by (auto simp: finish_def Let_def split: prod.splits)
  from writeStatus_only [of R _ _ _ _ _ _ P, OF assms(1) this assms(3)] show ?thesis
    by (rule writes_only_same [rotated]) simp
qed

lemma write_then_only:
  assumes "kube_ok (rc_Rollouts R) cl_rollouts" and "write_then R ro phase reason res w = (out, w')"
    and "P (with_phase phase reason ro)"
  shows "writes_only P w w'"
proof -
  obtain e where "writeStatus R ro phase reason w = (e, w')"
    using assms(2) by (auto simp: write_then_def split: prod.splits option.splits)
  from writeStatus_only [of R _ _ _ _ _ _ P, OF assms(1) this assms(3)] show ?thesis .
qed

lemmas status_writes = hold_only finish_only write_then_only

section \<open>The paths through a live stage\<close>

lemma enter_stage_only:
  assumes K: "kube_ok (rc_Rollouts R) cl_rollouts" and "enter_stage R ro st live w = (out, w')"
    and "\<And>m. P (with_phase PhaseHeld m ro)"
    and "\<And>s m. ss_Phase s = PhaseRunning \<Longrightarrow> P (with_phase PhaseRunning m (recordStage s ro))"
  shows "writes_only P w w'"
proof (cases "lift (Enter live ro st) w")
  case (Pair r w1)
  show ?thesis
  proof (cases r)
    case (Some e)
    then have "hold R ro (Sprintf ''stage %q could not be started: %v'' [AStr (stage_Name st), AMsg e]) w1 = (out, w')"
      using assms(2) Pair by (simp add: enter_stage_def)
    from hold_only [of R _ _ _ _ _ P, OF K this assms(3)] show ?thesis
      by (rule lift_then_only [OF Pair])
  next
    case None
    obtain now w2 where n: "lift (rc_Now R) w1 = (now, w2)" by fastforce
    let ?s = "(new_StageStatus (stage_Name st))\<lparr>ss_Phase := PhaseRunning, ss_StartedAt := Some now\<rparr>"
    obtain m res ev where "write_then R (recordStage ?s ro) PhaseRunning m res (event R EventNormal EventStageStarted ev w2) = (out, w')"
      using assms(2) Pair None n by (auto simp: enter_stage_def Let_def)
    from write_then_only [of R _ _ _ _ _ _ _ P, OF K this assms(4)]
    have "writes_only P (event R EventNormal EventStageStarted ev w2) w'" by simp
    then have "writes_only P w2 w'" by (rule writes_only_same [rotated]) simp
    then show ?thesis by (rule lift_then_only [OF Pair, OF lift_then_only [OF n]])
  qed
qed

text \<open>
  A concluded step, with the facts each write rests on: \<open>P\<close> has to hold of the rollout written, given
  how it came about.
\<close>

lemma conclude_step_only:
  assumes K: "kube_ok (rc_Rollouts R) cl_rollouts"
    and c: "conclude_step R ro i st live status step w = (out, w')"
    and held: "\<And>m. P (with_phase PhaseHeld m ro)"
    and rolled: "\<And>s w1 w2 now. step_Outcome step = StepRollBack \<Longrightarrow> lift (Withdraw live ro st) w = (None, w1) \<Longrightarrow>
        lift (rc_Now R) w1 = (now, w2) \<Longrightarrow> ss_Phase s = PhaseWavedOff \<Longrightarrow>
        P (with_phase PhaseWavedOff (step_Reason step) (recordStage s ro))"
    and promoted: "\<And>s phase. step_Outcome step = StepPromote \<Longrightarrow> ss_Phase s = PhasePromoted \<Longrightarrow>
        ss_Name s = ss_Name status \<Longrightarrow> ss_Verdict s = Outcome_string (vd_Outcome (step_Verdict step)) \<Longrightarrow>
        phase = (if int i = int (length (rs_Stages (ro_Spec ro))) - 1 then PhasePromoted else PhaseRunning) \<Longrightarrow>
        P (with_phase phase (step_Reason step) (recordStage s ro))"
    and continue: "step_Outcome step = StepContinue \<Longrightarrow>
        P (with_phase PhaseRunning (step_Reason step) (recordStage (step_status status step) ro))"
  shows "writes_only P w w'"
proof (cases "step_Outcome step")
  case StepContinue
  then obtain res where "write_then R (recordStage (step_status status step) ro) PhaseRunning (step_Reason step) res w = (out, w')"
    using c by (auto simp: conclude_step_def Let_def)
  from write_then_only [of R _ _ _ _ _ _ _ P, OF K this continue [OF StepContinue]] show ?thesis .
next
  case StepPromote
  obtain now w1 where n: "lift (rc_Now R) w = (now, w1)" by fastforce
  let ?s = "(step_status status step)\<lparr>ss_Phase := PhasePromoted, ss_FinishedAt := Some now\<rparr>"
  have s: "ss_Phase ?s = PhasePromoted" "ss_Name ?s = ss_Name status"
    "ss_Verdict ?s = Outcome_string (vd_Outcome (step_Verdict step))"
    by (simp_all add: step_status_def)
  note p = promoted [OF StepPromote s refl]
  have spec: "rs_Stages (ro_Spec (recordStage ?s ro)) = rs_Stages (ro_Spec ro)" by (simp add: recordStage_def)
  have "writes_only P w1 w'"
  proof (cases "int i = int (length (rs_Stages (ro_Spec ro))) - 1")
    case True
    then have "finish R (recordStage ?s ro) PhasePromoted (step_Reason step) EventPromoted w1 = (out, w')"
      using c n StepPromote spec by (simp add: conclude_step_def Let_def)
    from finish_only [of R _ _ _ _ _ _ _ P, OF K this] p True show ?thesis by simp
  next
    case False
    then obtain res where "write_then R (recordStage ?s ro) PhaseRunning (step_Reason step) res w1 = (out, w')"
      using c n StepPromote spec by (simp add: conclude_step_def Let_def)
    from write_then_only [of R _ _ _ _ _ _ _ P, OF K this] p False show ?thesis by simp
  qed
  then show ?thesis by (rule lift_then_only [OF n])
next
  case StepRollBack
  show ?thesis
  proof (cases "lift (Withdraw live ro st) w")
    case (Pair r w1)
    show ?thesis
    proof (cases r)
      case (Some e)
      then obtain m where "hold R ro m w1 = (out, w')"
        using c Pair StepRollBack by (simp add: conclude_step_def Let_def)
      from hold_only [of R _ _ _ _ _ P, OF K this held] show ?thesis
        by (rule lift_then_only [OF Pair])
    next
      case None
      obtain now w2 where n: "lift (rc_Now R) w1 = (now, w2)" by fastforce
      let ?s = "(step_status status step)\<lparr>ss_Phase := PhaseWavedOff, ss_RolledBack := True,
                         ss_Trigger := step_Trigger step, ss_FinishedAt := Some now\<rparr>"
      obtain ev where "write_then R (recordStage ?s ro) PhaseWavedOff (step_Reason step) no_requeue
          (event R EventWarning EventWavedOff ev w2) = (out, w')"
        using c Pair n None StepRollBack by (simp add: conclude_step_def Let_def)
      from write_then_only [of R _ _ _ _ _ _ _ P, OF K this rolled [OF StepRollBack Pair [unfolded None] n]]
      have "writes_only P (event R EventWarning EventWavedOff ev w2) w'" by simp
      then have "writes_only P w2 w'" by (rule writes_only_same [rotated]) simp
      then show ?thesis by (rule lift_then_only [OF Pair, OF lift_then_only [OF n]])
    qed
  qed
qed

lemma stageStatus_name: "stageStatus ro n = (s, started) \<Longrightarrow> ss_Name s = n"
  by (auto simp: stageStatus_def split: option.splits dest: find_SomeD)

text \<open>Every path through \<open>advanceLive\<close> holds, enters the stage, or concludes a step.\<close>

lemma advanceLive_cases:
  assumes "advanceLive R ro i st inc cand w = r"
  obtains (held) e w1 where "cl_rollouts w1 = cl_rollouts w" "r = hold R ro e w1"
  | (entered) live w1 where "cl_rollouts w1 = cl_rollouts w" "r = enter_stage R ro st live w1"
      "routerFor R st = Inr (lr_Router live)"
  | (stepped) live status step started w1 w2 where "cl_rollouts w2 = cl_rollouts w"
      "stageStatus ro (stage_Name st) = (status, True)" "routerFor R st = Inr (lr_Router live)"
      "lift (Advance live ro st inc cand started) w1 = (Inr step, w2)"
      "r = conclude_step R ro i st live status step w2"
proof (cases "buildScorer R (stage_Scorer st)")
  case (Inl e)
  then show ?thesis using assms held [of w e] by (simp add: advanceLive_def)
next
  case scorer: (Inr scorer)
  obtain ls w1 where l: "lift (liveSources R st scorer) w = (ls, w1)" by fastforce
  then have w1: "cl_rollouts w1 = cl_rollouts w" by simp
  show ?thesis
  proof (cases ls)
    case (Inl e)
    then show ?thesis using assms held [OF w1, of e] scorer l by (simp add: advanceLive_def)
  next
    case (Inr src)
    obtain obs act where src: "ls = Inr (obs, act)" using Inr by (cases src) auto
    show ?thesis
    proof (cases "routerFor R st")
      case (Inl e)
      then show ?thesis using assms held [OF w1, of e] scorer l src by (simp add: advanceLive_def)
    next
      case router: (Inr router)
      obtain p w2 where a: "lift (affinity_problem router ro st) w1 = (p, w2)" by fastforce
      then have w2: "cl_rollouts w2 = cl_rollouts w" using w1 by simp
      let ?live = "\<lparr> lr_Router = router, lr_Analyze = buildLiveAnalyzer R (rs_Analyzer (ro_Spec ro)),
                    lr_Observations = obs, lr_Activity = act, lr_Now = rc_Now R \<rparr>"
      note unf = assms [symmetric] scorer l src router a
      show ?thesis
      proof (cases "(stage_Mode st = StageLive \<and> gm_Test (gate_Primary (stage_Gate st)) \<noteq> GateSequential) \<or> p \<noteq> None")
        case True
        then show ?thesis
          using held [OF w1] held [OF w2] unf by (auto simp: advanceLive_def split: if_splits)
      next
        case False
        obtain status started where s: "stageStatus ro (stage_Name st) = (status, started)" by fastforce
        show ?thesis
        proof (cases started)
          case False2: False
          then have "advanceLive R ro i st inc cand w = enter_stage R ro st ?live w2"
            using False s scorer l src router a by (auto simp: advanceLive_def)
          then show ?thesis using entered [of w2 ?live] w2 router assms by simp
        next
          case True
          let ?t = "case ss_StartedAt status of Some t \<Rightarrow> t | None \<Rightarrow> 0"
          obtain stp w3 where adv: "lift (Advance ?live ro st inc cand ?t) w2 = (stp, w3)" by fastforce
          then have w3: "cl_rollouts w3 = cl_rollouts w" using w2 by simp
          show ?thesis
          proof (cases stp)
            case (Inl e)
            then have "advanceLive R ro i st inc cand w =
                hold R ro (Sprintf ''stage %q could not be advanced: %v'' [AStr (stage_Name st), AMsg e]) w3"
              using True False s scorer l src router a adv by (auto simp: advanceLive_def)
            then show ?thesis using held [OF w3] assms by simp
          next
            case (Inr step)
            then have "advanceLive R ro i st inc cand w = conclude_step R ro i st ?live status step w3"
              using True False s scorer l src router a adv by (auto simp: advanceLive_def)
            then show ?thesis
              using stepped [of w3 status ?live ?t w2 step] w3 True s router adv Inr assms by simp
          qed
        qed
      qed
    qed
  qed
qed

section \<open>Sound statuses\<close>

definition verdicts_sound :: "AgentRollout \<Rightarrow> bool" where
  "verdicts_sound ro =
     (\<forall>ss \<in> set (st_Stages (ro_Status ro)). ss_Phase ss = PhasePromoted \<longrightarrow> ss_Verdict ss = ''promote'')"

definition promoted_name :: "AgentRollout \<Rightarrow> string \<Rightarrow> bool" where
  "promoted_name ro n = (\<exists>ss \<in> set (st_Stages (ro_Status ro)). ss_Name ss = n \<and> ss_Phase ss = PhasePromoted)"

definition all_promoted :: "AgentRollout \<Rightarrow> bool" where
  "all_promoted ro = (\<forall>s \<in> set (rs_Stages (ro_Spec ro)). promoted_name ro (stage_Name s))"

definition status_sound :: "AgentRollout \<Rightarrow> bool" where
  "status_sound ro \<longleftrightarrow>
     st_ObservedGeneration (ro_Status ro) \<le> ro_Generation ro \<and> verdicts_sound ro \<and>
     (st_Phase (ro_Status ro) = PhasePromoted \<and> st_ObservedGeneration (ro_Status ro) = ro_Generation ro
        \<longrightarrow> all_promoted ro)"

lemma set_record_in: "set (record_in s xs) \<subseteq> insert s (set xs)" "s \<in> set (record_in s xs)"
  "x \<in> set xs \<Longrightarrow> ss_Name x \<noteq> ss_Name s \<Longrightarrow> x \<in> set (record_in s xs)"
  by (induction xs) auto

lemma recordStage_simps [simp]:
  "ro_Spec (recordStage s ro) = ro_Spec ro" "ro_Generation (recordStage s ro) = ro_Generation ro"
  "st_Stages (ro_Status (recordStage s ro)) = record_in s (st_Stages (ro_Status ro))"
  "rollout_key (recordStage s ro) = rollout_key ro"
  by (simp_all add: recordStage_def rollout_key_def)

lemma with_phase_simps [simp]:
  "ro_Spec (with_phase p m ro) = ro_Spec ro" "ro_Generation (with_phase p m ro) = ro_Generation ro"
  "st_Stages (ro_Status (with_phase p m ro)) = st_Stages (ro_Status ro)"
  "st_Phase (ro_Status (with_phase p m ro)) = p"
  "st_ObservedGeneration (ro_Status (with_phase p m ro)) = ro_Generation ro"
  by (simp_all add: with_phase_def)

lemma as_stored_simps [simp]:
  "ro_Spec (as_stored ro) = ro_Spec ro" "ro_Generation (as_stored ro) = ro_Generation ro"
  "st_Phase (ro_Status (as_stored ro)) = st_Phase (ro_Status ro)"
  "st_ObservedGeneration (ro_Status (as_stored ro)) = st_ObservedGeneration (ro_Status ro)"
  "st_Stages (ro_Status (as_stored ro)) = map stored_status (st_Stages (ro_Status ro))"
  "ss_Name (stored_status s) = ss_Name s" "ss_Phase (stored_status s) = ss_Phase s"
  "ss_Verdict (stored_status s) = ss_Verdict s"
  by (simp_all add: as_stored_def stored_status_def)

lemma status_sound_stored [simp]: "status_sound (as_stored ro) \<longleftrightarrow> status_sound ro"
  by (simp add: status_sound_def verdicts_sound_def all_promoted_def promoted_name_def)

lemma verdicts_recordStage:
  "verdicts_sound ro \<Longrightarrow> (ss_Phase s = PhasePromoted \<Longrightarrow> ss_Verdict s = ''promote'') \<Longrightarrow> verdicts_sound (recordStage s ro)"
  using set_record_in(1) [of s "st_Stages (ro_Status ro)"] by (fastforce simp: verdicts_sound_def)

lemma status_sound_with_phase:
  "status_sound (with_phase p m ro) \<longleftrightarrow> verdicts_sound ro \<and> (p = PhasePromoted \<longrightarrow> all_promoted ro)"
  by (simp add: status_sound_def verdicts_sound_def all_promoted_def promoted_name_def)

lemma promoted_name_alt:
  "promoted_name ro n \<longleftrightarrow>
     n \<in> set (map ss_Name (filter (\<lambda>s. ss_Phase s = PhasePromoted) (st_Stages (ro_Status ro))))"
  by (auto simp: promoted_name_def image_iff)

lemma nextStage_alt:
  "nextStage ro = find (\<lambda>i. \<not> promoted_name ro (stage_Name (rs_Stages (ro_Spec ro) ! i)))
                    [0..<length (rs_Stages (ro_Spec ro))]"
  unfolding nextStage_def Let_def promoted_name_alt ..

lemma nextStage_Some:
  assumes "nextStage ro = Some i"
  shows "i < length (rs_Stages (ro_Spec ro))" "\<not> promoted_name ro (stage_Name (rs_Stages (ro_Spec ro) ! i))"
    "j < i \<Longrightarrow> promoted_name ro (stage_Name (rs_Stages (ro_Spec ro) ! j))"
  using assms by (auto simp: nextStage_alt find_Some_iff)

lemma nextStage_None:
  assumes "nextStage ro = None"
  shows "all_promoted ro"
  unfolding all_promoted_def
proof
  fix s assume "s \<in> set (rs_Stages (ro_Spec ro))"
  then obtain j where "j < length (rs_Stages (ro_Spec ro))" "s = rs_Stages (ro_Spec ro) ! j"
    by (auto simp: in_set_conv_nth)
  then show "promoted_name ro (stage_Name s)" using assms by (auto simp: nextStage_alt find_None_iff)
qed

lemma promoted_recordStage:
  assumes "ss_Phase s = PhasePromoted" and "promoted_name ro n \<or> n = ss_Name s"
  shows "promoted_name (recordStage s ro) n"
  using assms set_record_in(2) [of s "st_Stages (ro_Status ro)"]
    set_record_in(3) [of _ "st_Stages (ro_Status ro)" s]
  by (cases "n = ss_Name s") (auto simp: promoted_name_def)

lemma all_promoted_last:
  assumes "nextStage ro = Some i" and "int i = int (length (rs_Stages (ro_Spec ro))) - 1"
    and "ss_Phase s = PhasePromoted" and "ss_Name s = stage_Name (rs_Stages (ro_Spec ro) ! i)"
  shows "all_promoted (recordStage s ro)"
proof -
  have "promoted_name (recordStage s ro) (stage_Name (rs_Stages (ro_Spec ro) ! j))"
    if "j < length (rs_Stages (ro_Spec ro))" for j
  proof (cases "j = i")
    case True
    then show ?thesis using assms(3,4) by (intro promoted_recordStage) simp_all
  next
    case False
    then have "j < i" using that assms(2) by linarith
    from nextStage_Some(3) [OF assms(1) this] show ?thesis using assms(3) by (intro promoted_recordStage) simp_all
  qed
  then show ?thesis by (auto simp: all_promoted_def in_set_conv_nth)
qed

lemma advanceLive_sound:
  assumes K: "kube_ok (rc_Rollouts R) cl_rollouts" and v: "verdicts_sound ro" and nx: "nextStage ro = Some i"
    and st: "st = rs_Stages (ro_Spec ro) ! i" and a: "advanceLive R ro i st inc cand w = (out, w')"
  shows "writes_only status_sound w w'"
  using a
proof (cases rule: advanceLive_cases)
  case (held e w1)
  then show ?thesis
    using hold_only [OF K, of ro e w1 out w' status_sound] v
    by (auto simp: status_sound_with_phase intro: writes_only_same)
next
  case (entered live w1)
  have "writes_only status_sound w1 w'"
    by (rule enter_stage_only [OF K entered(2) [symmetric]])
       (auto simp: status_sound_with_phase v intro: verdicts_recordStage [OF v])
  then show ?thesis using entered(1) by (auto intro: writes_only_same)
next
  case (stepped live status step started w1 w2)
  obtain x where adv: "Advance live ro st inc cand started (cl_rest w1) = (Inr step, x)"
    using stepped(4) [unfolded lift_eq] by blast
  have name: "ss_Name status = stage_Name st" using stageStatus_name stepped(2) by blast
  have ph: "ss_Phase status \<noteq> PhasePromoted"
    using stepped(2) nextStage_Some(2) [OF nx] name st
    by (auto simp: stageStatus_def promoted_name_def split: option.splits dest: find_SomeD)
  have "writes_only status_sound w2 w'"
  proof (rule conclude_step_only [OF K stepped(5) [symmetric]])
    fix s :: StageStatus and phase assume s: "step_Outcome step = StepPromote" "ss_Phase s = PhasePromoted" "ss_Name s = ss_Name status"
      "ss_Verdict s = Outcome_string (vd_Outcome (step_Verdict step))"
      and p: "phase = (if int i = int (length (rs_Stages (ro_Spec ro))) - 1 then PhasePromoted else PhaseRunning)"
    have "vd_Outcome (step_Verdict step) = OutcomePromote" using Advance_promote [OF adv s(1)] by blast
    then show "status_sound (with_phase phase (step_Reason step) (recordStage s ro))"
      using s name st p all_promoted_last [OF nx _ s(2)]
      by (auto simp: status_sound_with_phase intro!: verdicts_recordStage [OF v])
  qed (use v ph in \<open>auto simp: status_sound_with_phase step_status_def intro!: verdicts_recordStage\<close>)
  then show ?thesis using stepped(1) by (auto intro: writes_only_same)
qed

lemma conclude_offline_sound:
  assumes K: "kube_ok (rc_Rollouts R) cl_rollouts" and v: "verdicts_sound ro" and nx: "nextStage ro = Some i"
    and st: "st = rs_Stages (ro_Spec ro) ! i" and c: "conclude_offline R ro i st res w = (out, w')"
  shows "writes_only status_sound w w'"
proof -
  have name: "ss_Name (offline_status st res) = stage_Name st" by (simp add: offline_status_def)
  have verdict: "ss_Verdict (offline_status st res) = Outcome_string (vd_Outcome (sr_Verdict res))"
    by (simp add: offline_status_def)
  have rec: "verdicts_sound (recordStage s ro)" if "ss_Phase s \<noteq> PhasePromoted \<or> ss_Verdict s = ''promote''" for s
    using verdicts_recordStage [OF v] that by blast
  note only = status_writes [OF K, where P = status_sound]
  show ?thesis
  proof (cases "vd_Outcome (sr_Verdict res)")
    case OutcomePromote
    let ?s = "(offline_status st res)\<lparr>ss_Phase := PhasePromoted\<rparr>"
    have "verdicts_sound (recordStage ?s ro)" using rec verdict OutcomePromote by simp
    moreover have "int i = int (length (rs_Stages (ro_Spec ro))) - 1 \<Longrightarrow> all_promoted (recordStage ?s ro)"
      using all_promoted_last [OF nx, of ?s] name st by simp
    ultimately show ?thesis
      using c OutcomePromote
      by (auto simp: conclude_offline_def Let_def status_sound_with_phase split: if_splits dest!: only)
  qed (use c rec in \<open>auto simp: conclude_offline_def Let_def status_sound_with_phase dest!: only\<close>)
qed

lemma offline_stage_sound:
  assumes K: "kube_ok (rc_Rollouts R) cl_rollouts" and v: "verdicts_sound ro" and nx: "nextStage ro = Some i"
    and c: "offline_stage R ro i (rs_Stages (ro_Spec ro) ! i) inc cand w = (out, w')"
  shows "writes_only status_sound w w'"
proof -
  let ?st = "rs_Stages (ro_Spec ro) ! i"
  define m where "m = Text (''running stage '' @ stage_Name ?st)"
  define ev where "ev = event R EventNormal EventStageStarted (Sprintf ''stage %q started (%s)''
                        [AStr (stage_Name ?st), AStr (StageMode_string (stage_Mode ?st))]) w"
  define ro1 where "ro1 = with_phase PhaseRunning m ro"
  have ev_w: "cl_rollouts ev = cl_rollouts w" by (simp add: ev_def)
  have v': "verdicts_sound ro1" using v by (simp add: verdicts_sound_def ro1_def)
  have nx': "nextStage ro1 = Some i" "?st = rs_Stages (ro_Spec ro1) ! i" using nx by (simp_all add: nextStage_def ro1_def)
  obtain e w1 where s: "writeStatus R ro PhaseRunning m ev = (e, w1)" by fastforce
  have start: "writes_only status_sound w w1"
    using writeStatus_only [OF K s, of status_sound] v ev_w by (auto simp: status_sound_with_phase intro: writes_only_same)
  note c = c [unfolded offline_stage_def Let_def, folded m_def, folded ev_def ro1_def, unfolded s]
  show ?thesis
  proof (cases e)
    case (Some e')
    then show ?thesis using c start by simp
  next
    case None
    obtain res err w2 where r: "lift (runStage R ro1 ?st inc cand) w1 = ((res, err), w2)" by (metis surj_pair)
    note c = c [unfolded None] r
    have "writes_only status_sound w2 w'"
    proof (cases err)
      case (Some e')
      with c obtain m' where "hold R ro1 m' w2 = (out, w')" by (cases res) (auto split: prod.splits)
      from hold_only [OF K this, of status_sound] show ?thesis using v' by (simp add: status_sound_with_phase)
    next
      case err: None
      show ?thesis
      proof (cases res)
        case None
        then show ?thesis using c err by (auto intro: writes_only_refl)
      next
        case (Some result)
        then have "conclude_offline R ro1 i ?st result w2 = (out, w')" using c err by simp
        from conclude_offline_sound [OF K v' nx' this] show ?thesis .
      qed
    qed
    then show ?thesis using writes_only_trans [OF start] lift_then_only [OF r] by blast
  qed
qed

lemma verdicts_fresh: "verdicts_sound ro \<Longrightarrow> verdicts_sound (fresh_status ro)"
  by (simp add: fresh_status_def verdicts_sound_def)

lemma Reconcile_sound:
  assumes K: "kube_ok (rc_Rollouts R) cl_rollouts"
    and stored: "\<And>k ro. cl_rollouts w k = Some ro \<Longrightarrow> status_sound ro"
    and c: "Reconcile R key w = (out, w')"
  shows "writes_only status_sound w w'"
proof (cases "c_Get (rc_Rollouts R) key w")
  case (Pair g w1)
  have w1: "cl_rollouts w1 = cl_rollouts w" using kube_Get(1) [OF K Pair] .
  show ?thesis
  proof (cases g)
    case (Inl e)
    then show ?thesis using c Pair w1 by (auto simp: Reconcile_def writes_only_refl)
  next
    case (Inr ro0)
    have "status_sound ro0" using stored kube_Get(2) [OF K Pair [unfolded Inr]] by blast
    then have v: "verdicts_sound (fresh_status ro0)" by (simp add: verdicts_fresh status_sound_def)
    define ro where "ro = fresh_status ro0"
    note v = v [folded ro_def]
    show ?thesis
    proof (cases "terminal (st_Phase (ro_Status ro0)) \<and> st_ObservedGeneration (ro_Status ro0) = ro_Generation ro0")
      case True
      then show ?thesis using c Pair Inr w1 by (auto simp: Reconcile_def writes_only_refl)
    next
      case False
      obtain m w2 where m: "lift (manifests R ro) w1 = (m, w2)" by fastforce
      have w2: "cl_rollouts w2 = cl_rollouts w" using m w1 by simp
      note unf = c Pair Inr False m ro_def
      have "writes_only status_sound w2 w'"
      proof (cases m)
        case (Inl e)
        then obtain m' where "hold R ro m' w2 = (out, w')" using unf by (auto simp: Reconcile_def Let_def)
        from hold_only [OF K this, of status_sound] show ?thesis using v by (simp add: status_sound_with_phase)
      next
        case man: (Inr ms)
        obtain inc cand where ms: "ms = (inc, cand)" by fastforce
        show ?thesis
        proof (cases "nextStage ro")
          case None
          then have "finish R ro PhasePromoted (Text ''every stage passed'') EventPromoted w2 = (out, w')"
            using unf man ms by (auto simp: Reconcile_def Let_def)
          from finish_only [OF K this, of status_sound] show ?thesis
            using v nextStage_None [OF None] by (simp add: status_sound_with_phase)
        next
          case (Some i)
          let ?st = "rs_Stages (ro_Spec ro) ! i"
          have "(if stage_Mode ?st = StageLive \<or> stage_Mode ?st = StageShadow
                 then advanceLive R ro i ?st inc cand w2 else offline_stage R ro i ?st inc cand w2) = (out, w')"
            using unf man ms Some unfolding ro_def by (simp add: Reconcile_def Let_def split del: if_split)
          then show ?thesis
            using advanceLive_sound [OF K v Some refl] offline_stage_sound [OF K v Some] by (auto split: if_splits)
        qed
      qed
      then show ?thesis using w2 by (auto intro: writes_only_same)
    qed
  qed
qed

section \<open>Traffic at a wave-off\<close>

text \<open>
  What the cluster would serve for a stage, by the router its traffic block names: \<open>routes\<close> and
  \<open>vss\<close> read the stored route objects.  \<open>quiet\<close> says the clock, the recorder of events and the
  store of rollouts leave those alone.
\<close>

definition served ::
    "('x \<Rightarrow> object_key \<Rightarrow> HTTPRoute option) \<Rightarrow> ('x \<Rightarrow> object_key \<Rightarrow> object option)
      \<Rightarrow> AgentRollout \<Rightarrow> Stage \<Rightarrow> 'x \<Rightarrow> Split option" where
  "served routes vss ro st x =
     (case stage_Traffic st of
        None \<Rightarrow> None
      | Some t \<Rightarrow> if ts_Router t = ''gateway-api'' then stored routes gw_read (targetFor ro st) x
                  else stored vss istio_weights (targetFor ro st) x)"

definition quiet :: "'x Reconciler \<Rightarrow> ('x \<Rightarrow> 'b) \<Rightarrow> bool" where
  "quiet R f \<longleftrightarrow>
     (\<forall>x. f (snd (rc_Now R x)) = f x) \<and> (\<forall>kd rs m x. f (rc_Event R kd rs m x) = f x) \<and>
     (\<forall>k ro w. f (cl_rest (snd (c_Update (rc_Rollouts R) k ro w))) = f (cl_rest w))"

lemma quiet_now: "quiet R f \<Longrightarrow> lift (rc_Now R) w = (now, w1) \<Longrightarrow> f (cl_rest w1) = f (cl_rest w)"
  unfolding quiet_def lift_eq by (metis cluster.select_convs(2) cluster.surjective cluster.update_convs(2) snd_conv)

lemma quiet_event: "quiet R f \<Longrightarrow> f (cl_rest (event R kd rs m w)) = f (cl_rest w)"
  by (simp add: quiet_def event_def)

lemma quiet_write: "quiet R f \<Longrightarrow> writeStatus R ro phase reason w = (e, w1) \<Longrightarrow> f (cl_rest w1) = f (cl_rest w)"
  unfolding quiet_def writeStatus_def by (metis snd_conv)

lemma write_then_quiet:
  "quiet R f \<Longrightarrow> write_then R ro phase reason res w = (out, w') \<Longrightarrow> f (cl_rest w') = f (cl_rest w)"
  by (auto simp: write_then_def quiet_write split: prod.splits option.splits)

lemma conclude_step_withdrawn:
  assumes q: "quiet R f" and c: "conclude_step R ro i st live status step w = (out, w')"
    and "step_Outcome step = StepRollBack" and "lift (Withdraw live ro st) w = (None, w1)"
  shows "f (cl_rest w') = f (cl_rest w1)"
proof -
  obtain now w2 where n: "lift (rc_Now R) w1 = (now, w2)" by fastforce
  obtain s ev where "write_then R (recordStage s ro) PhaseWavedOff (step_Reason step) no_requeue
          (event R EventWarning EventWavedOff ev w2) = (out, w')"
    using c assms(3,4) n by (auto simp: conclude_step_def Let_def)
  then show ?thesis using write_then_quiet [OF q] quiet_now [OF q n] quiet_event [OF q] by metis
qed

lemma Withdraw_served:
  assumes "kube_ok (rc_Routes R) routes" and "kube_ok (rc_VirtualServices R) vss"
    and "routerFor R st = Inr (lr_Router live)"
    and "tg_Incumbent (targetFor ro st) \<noteq> tg_Candidate (targetFor ro st)"
    and "Withdraw live ro st x = (None, x')"
  shows "served routes vss ro st x' = Some FullyIncumbent"
proof -
  obtain t where t: "stage_Traffic st = Some t" using assms(3) by (auto simp: routerFor_def split: option.splits)
  show ?thesis
  proof (cases "ts_Router t = ''gateway-api''")
    case True
    then have "lr_Router live = GatewayAPI (rc_Routes R)" using assms(3) t by (simp add: routerFor_def)
    from gateway.withdraw_split [OF assms(1,4) this assms(5)] show ?thesis
      using t True by (simp add: served_def)
  next
    case False
    then have "lr_Router live = Istio (rc_Unstructured R) (rc_VirtualServices R)"
      using assms(3) t by (simp add: routerFor_def split: if_splits)
    from istio.withdraw_split [OF assms(2,4) this assms(5)] show ?thesis
      using t False by (simp add: served_def)
  qed
qed

lemma advanceLive_waved_off:
  assumes K: "kube_ok (rc_Rollouts R) cl_rollouts"
    and "kube_ok (rc_Routes R) routes" and "kube_ok (rc_VirtualServices R) vss"
    and q: "quiet R (served routes vss ro st)"
    and "tg_Incumbent (targetFor ro st) \<noteq> tg_Candidate (targetFor ro st)"
    and a: "advanceLive R ro i st inc cand w = (out, w')"
  shows "writes_only (\<lambda>ro'. st_Phase (ro_Status ro') = PhaseWavedOff \<longrightarrow>
    served routes vss ro st (cl_rest w') = Some FullyIncumbent) w w'"
    (is "writes_only ?P w w'")
  using a
proof (cases rule: advanceLive_cases)
  case (held e w1)
  from hold_only [OF K held(2) [symmetric], of ?P] held(1) show ?thesis by (auto intro: writes_only_same)
next
  case (entered live w1)
  from enter_stage_only [OF K entered(2) [symmetric], of ?P] entered(1) show ?thesis by (auto intro: writes_only_same)
next
  case (stepped live status step started w1 w2)
  have "writes_only ?P w2 w'"
  proof (rule conclude_step_only [OF K stepped(5) [symmetric]])
    fix s :: StageStatus and w3 w4 now
    assume "step_Outcome step = StepRollBack" and wd: "lift (Withdraw live ro st) w2 = (None, w3)"
    obtain x where x: "Withdraw live ro st (cl_rest w2) = (None, x)" "w3 = w2\<lparr>cl_rest := x\<rparr>"
      using wd [unfolded lift_eq] by blast
    from conclude_step_withdrawn [OF q stepped(5) [symmetric] \<open>step_Outcome step = StepRollBack\<close> wd]
      Withdraw_served [OF assms(2,3) stepped(3) assms(5) x(1)]
    show "?P (with_phase PhaseWavedOff (step_Reason step) (recordStage s ro))"
      using x(2) by simp
  qed simp_all
  then show ?thesis by (rule writes_only_same [OF stepped(1)])
qed

end
