(* ===== verification/RolloutHistory.thy ===== *)
theory RolloutHistory
  imports RolloutSafety
begin

text \<open>
  The cluster over time: reconciles interleaved with edits of rollouts and changes of everything else.
  What holds of every reachable cluster, what a wave-off leaves of the traffic, and a run of the
  controller from an empty cluster to a promotion and to a wave-off.
\<close>

section \<open>A reconcile that waves off\<close>

lemma fresh_status_simps [simp]:
  "ro_Spec (fresh_status ro) = ro_Spec ro" "ro_Namespace (fresh_status ro) = ro_Namespace ro"
  "targetFor (fresh_status ro) st = targetFor ro st"
  "served routes vss (fresh_status ro) st = served routes vss ro st"
  by (simp_all add: fresh_status_def targetFor_def served_def fun_eq_iff split: option.splits)

lemma Reconcile_waved_off:
  assumes K: "kube_ok (rc_Rollouts R) cl_rollouts"
    and kube: "kube_ok (rc_Routes R) routes" "kube_ok (rc_VirtualServices R) vss"
    and stored: "cl_rollouts w key = Some ro" and nx: "nextStage (fresh_status ro) = Some i"
    and st: "st = rs_Stages (ro_Spec ro) ! i" "stage_Mode st = StageLive \<or> stage_Mode st = StageShadow"
    and arms: "tg_Incumbent (targetFor ro st) \<noteq> tg_Candidate (targetFor ro st)"
    and q: "quiet R (served routes vss ro st)"
    and c: "Reconcile R key w = (out, w')"
  shows "writes_only (\<lambda>ro'. st_Phase (ro_Status ro') = PhaseWavedOff \<longrightarrow>
    served routes vss ro st (cl_rest w') = Some FullyIncumbent) w w'"
    (is "writes_only ?P w w'")
proof (cases "c_Get (rc_Rollouts R) key w")
  case (Pair g w1)
  have w1: "cl_rollouts w1 = cl_rollouts w" using kube_Get(1) [OF K Pair] .
  show ?thesis
  proof (cases g)
    case (Inl e)
    then show ?thesis using c Pair w1 by (auto simp: Reconcile_def writes_only_refl)
  next
    case (Inr ro0)
    then have g: "c_Get (rc_Rollouts R) key w = (Inr ro, w1)" using kube_Get(2) [OF K] Pair stored by fastforce
    obtain m w2 where m: "lift (manifests R (fresh_status ro)) w1 = (m, w2)" by fastforce
    have w2: "cl_rollouts w2 = cl_rollouts w" using m w1 by simp
    consider "cl_rollouts w' = cl_rollouts w" | m' where "hold R (fresh_status ro) m' w2 = (out, w')"
      | inc cand where "advanceLive R (fresh_status ro) i st inc cand w2 = (out, w')"
      using c g m nx st w1
      by (auto simp: Reconcile_def Let_def split: if_splits sum.splits)
    then show ?thesis
    proof cases
      case 2
      from hold_only [OF K this, of ?P] show ?thesis by (auto intro: writes_only_same [OF w2])
    next
      case 3
      from advanceLive_waved_off [OF K kube _ _ this] q arms show ?thesis
        by (auto intro: writes_only_same [OF w2])
    qed (simp add: writes_only_refl)
  qed
qed

section \<open>The cluster over time\<close>

text \<open>
  A step of the cluster: the controller reconciles a key, a user creates a rollout, edits its spec
  (which the API server answers with a new generation) or deletes it, or anything else in the cluster
  changes, the routes and the sources of measurements included.  A reconcile is one step: a status
  written over an edit made in the meantime is refused by the API server, which is a failed update.
\<close>

definition empty_status :: AgentRolloutStatus where
  "empty_status = \<lparr> st_Phase = PhaseNone, st_Reason = no_msg, st_Stages = [], st_ObservedGeneration = 0 \<rparr>"

inductive cluster_step :: "'x Reconciler \<Rightarrow> 'x cluster \<Rightarrow> 'x cluster \<Rightarrow> bool" for R where
  reconciled: "Reconcile R key w = (out, w') \<Longrightarrow> cluster_step R w w'"
| created: "cl_rollouts w (rollout_key ro) = None \<Longrightarrow> ro_Generation ro = 1 \<Longrightarrow> ro_Status ro = empty_status \<Longrightarrow>
    cluster_step R w (w\<lparr>cl_rollouts := (cl_rollouts w)(rollout_key ro \<mapsto> ro)\<rparr>)"
| edited: "cl_rollouts w k = Some ro \<Longrightarrow>
    cluster_step R w
      (w\<lparr>cl_rollouts := (cl_rollouts w)(k \<mapsto> ro\<lparr>ro_Spec := spec, ro_Generation := ro_Generation ro + 1\<rparr>)\<rparr>)"
| deleted: "cluster_step R w (w\<lparr>cl_rollouts := (cl_rollouts w)(k := None)\<rparr>)"
| elsewhere: "cluster_step R w (w\<lparr>cl_rest := x\<rparr>)"

inductive_cases cluster_stepE: "cluster_step R w w'"

definition all_sound :: "'x cluster \<Rightarrow> bool" where
  "all_sound w \<longleftrightarrow> (\<forall>k ro. cl_rollouts w k = Some ro \<longrightarrow> status_sound ro)"

lemma all_soundD: "all_sound w \<Longrightarrow> cl_rollouts w k = Some ro \<Longrightarrow> status_sound ro"
  unfolding all_sound_def by blast

lemma status_sound_new: "ro_Status ro = empty_status \<Longrightarrow> ro_Generation ro = 1 \<Longrightarrow> status_sound ro"
  by (simp add: status_sound_def verdicts_sound_def empty_status_def)

lemma status_sound_edit:
  "status_sound ro \<Longrightarrow> status_sound (ro\<lparr>ro_Spec := spec, ro_Generation := ro_Generation ro + 1\<rparr>)"
  by (simp add: status_sound_def verdicts_sound_def)

lemma writes_only_sound: "all_sound w \<Longrightarrow> writes_only status_sound w w' \<Longrightarrow> all_sound w'"
  unfolding all_sound_def writes_only_def by (metis option.inject status_sound_stored)

lemma cluster_step_sound:
  assumes "cluster_step R w w'" and K: "kube_ok (rc_Rollouts R) cl_rollouts" and "all_sound w"
  shows "all_sound w'"
  using assms(1,3)
proof (cases rule: cluster_step.cases)
  case (reconciled key out)
  from Reconcile_sound [OF K all_soundD [OF assms(3)] this] show ?thesis by (rule writes_only_sound [OF assms(3)])
next
  case (edited k ro spec)
  then show ?thesis using assms(3) by (auto simp: all_sound_def status_sound_edit)
qed (auto simp: all_sound_def status_sound_new)

lemma reachable_sound:
  assumes "(cluster_step R)\<^sup>*\<^sup>* w w'" and "kube_ok (rc_Rollouts R) cl_rollouts" and "all_sound w"
  shows "all_sound w'"
  using assms by (induction rule: rtranclp_induct) (auto intro: cluster_step_sound)

section \<open>A run of the controller\<close>

definition no_objects :: "('o, 'w) client" where
  "no_objects = \<lparr> c_Get = (\<lambda>k w. (Inl no_msg, w)), c_Update = (\<lambda>k v w. (Some no_msg, w)) \<rparr>"

definition rollout_store :: "(AgentRollout, 'x cluster) client" where
  "rollout_store = \<lparr> c_Get = (\<lambda>k w. (case cl_rollouts w k of None \<Rightarrow> Inl no_msg | Some ro \<Rightarrow> Inr ro, w)),
     c_Update = (\<lambda>k v w. (None, w\<lparr>cl_rollouts := (cl_rollouts w)(k \<mapsto> v)\<rparr>)) \<rparr>"

lemma example_stores_ok: "kube_ok no_objects (\<lambda>w. Map.empty)" "kube_ok rollout_store cl_rollouts"
  by (auto simp: kube_ok_def no_objects_def rollout_store_def split: option.splits)

text \<open>A controller whose cluster is one HTTPRoute, and whose remote analyzer answers with a fixed verdict.\<close>

definition ex_reconciler :: "Verdict \<Rightarrow> HTTPRoute Reconciler" where
  "ex_reconciler v = \<lparr> rc_Rollouts = rollout_store, rc_IsNotFound = (\<lambda>_. False),
     rc_Manifest = (\<lambda>k x. (Inr (ex_manifest (snd k)), x)), rc_Routes = one_object,
     rc_VirtualServices = no_objects, rc_Unstructured = ex_unstructured, rc_Event = (\<lambda>kd rs m x. x),
     rc_Now = (\<lambda>x. (7 * second + 5, x)), rc_CorpusRoot = ''/c'', rc_OutputRoot = ''/o'', rc_BlobDir = ''/b'',
     rc_Observations = Some (\<lambda>a i c since x. (Inr ([new_Observation ''s1''], zero_Missingness), x), None),
     rc_StageTimeout = 0, rc_Mkdir = (\<lambda>d x. (None, x)),
     rc_Dir = \<lparr> os_ReadDir = (\<lambda>d x. (Inr [], x)), os_Header = (\<lambda>p x. (Inl no_msg, x)),
       os_File = (\<lambda>p x. (Inr None, x)), os_CtxErr = (\<lambda>x. (None, x)) \<rparr>,
     rc_Codec = \<lparr> dec_header = (\<lambda>s. Inl no_msg), dec_span = (\<lambda>s. Inl no_msg) \<rparr>,
     rc_ExecScore = (\<lambda>e t refs x. (Inr [], x)), rc_HTTPScore = (\<lambda>e t refs x. (Inr [], x)),
     rc_Driver = (\<lambda>corp outp s m arm x. (Inr (ex_report 0), x)), rc_Math = zero_math,
     rc_Env = \<lparr> env_Intn = (\<lambda>n x. (0, x)), env_Err = (\<lambda>x. (None, x)), env_NewRand = (\<lambda>n x. x) \<rparr>,
     rc_Post = (\<lambda>e t r x. (HttpReply 200 [], x)), rc_Decode = (\<lambda>_. Inr v),
     rc_WithTimeout = (\<lambda>d x. x), rc_Cancel = (\<lambda>x. x) \<rparr>"

text \<open>Session persistence on the header; one live stage at weight 5.\<close>

definition ex_live_route :: "int option \<Rightarrow> int option \<Rightarrow> HTTPRoute" where
  "ex_live_route a b = \<lparr> hr_Rules = [\<lparr> rr_BackendRefs = [ex_ref ''a'' a, ex_ref ''b'' b], rr_Filters = [],
     rr_SessionPersistence = Some \<lparr> sps_SessionName = Some SessionHeader, sps_Type = Some HeaderBasedSessionPersistence \<rparr>,
     rr_Rest = JNull \<rparr>], hr_Rest = JNull \<rparr>"

definition ex_live_rollout :: AgentRollout where
  "ex_live_rollout = (ex_rollout True [ex_stage ''canary'' StageLive None])
     \<lparr>ro_Spec := (ro_Spec (ex_rollout True [ex_stage ''canary'' StageLive None]))
        \<lparr>rs_Analyzer := \<lparr> as_Endpoint = ''u'', as_TimeoutSeconds = 0 \<rparr>\<rparr>\<rparr>"

definition ex_start :: "HTTPRoute cluster" where
  "ex_start = \<lparr> cl_rollouts = [([], ''x'') \<mapsto> ex_live_rollout], cl_rest = ex_live_route (Some 100) (Some 0) \<rparr>"

definition ex_entered :: AgentRollout where
  "ex_entered = with_phase PhaseRunning (Text ''running stage canary'')
     (recordStage ((new_StageStatus ''canary'')\<lparr>ss_Phase := PhaseRunning, ss_StartedAt := Some (7 * second)\<rparr>)
       (fresh_status ex_live_rollout))"

lemmas reconcile_eval =
  Reconcile_def ex_reconciler_def rollout_store_def ex_live_rollout_def ex_rollout_def ex_stage_def ex_gate_metric_def
  terminal_def Let_def fresh_status_def lift_def manifests_def load_manifest_def nextStage_alt promoted_name_def advanceLive_def
  buildScorer_def liveSources_def routerFor_def affinity_problem_def GatewayAPI_def gw_Stickiness_def one_object_def
  targetFor_def target_key_def ex_live_route_def gw_sticky_def stageStatus_def enter_stage_def Enter_def
  mirror_off_def gw_Mirror_def gw_SetSplit_def modify_def gw_mirror_def Valid_def gw_reweight_def backendRefs_def
  build_ref_def ex_ref_def index_by_def to_int32_percent write_then_def writeStatus_def event_def rollout_key_def
  recordStage_def with_phase_def Advance_def gw_Split_def gw_read_def add_weight_def over_budget_def
  step_on_observations_def buildLiveAnalyzer_def remote_analyzer_def live_request_def Request_Validate_def
  toMetric_def Remote_Analyze_def Verdict_Validate_def step_on_verdict_def conclude_step_def step_status_def finish_def
  Withdraw_def ex_manifest_def designFor_def as_stored_def stored_status_def metav1_Time_def second_def

lemma ex_enter:
  "Reconcile (ex_reconciler v) ([], ''x'') ex_start =
     ((\<lparr> cr_Requeue = False, cr_RequeueAfter = DefaultPollInterval \<rparr>, None),
      \<lparr> cl_rollouts = [([], ''x'') \<mapsto> ex_entered], cl_rest = ex_live_route (Some 95) (Some 5) \<rparr>)"
  by (simp add: ex_entered_def reconcile_eval ex_start_def new_StageStatus_def)

definition ex_verdict :: "Outcome \<Rightarrow> Verdict" where
  "ex_verdict out = zero_Verdict\<lparr>vd_Outcome := out, vd_N := 1\<rparr>"

definition ex_canary :: "HTTPRoute cluster" where
  "ex_canary = \<lparr> cl_rollouts = [([], ''x'') \<mapsto> ex_entered], cl_rest = ex_live_route (Some 95) (Some 5) \<rparr>"

lemma ex_promoted:
  obtains out w' ro where "Reconcile (ex_reconciler (ex_verdict OutcomePromote)) ([], ''x'') ex_canary = (out, w')"
    "cl_rollouts w' ([], ''x'') = Some ro" "st_Phase (ro_Status ro) = PhasePromoted"
    "st_ObservedGeneration (ro_Status ro) = ro_Generation ro"
    "rs_Stages (ro_Spec ro) = [ex_stage ''canary'' StageLive None]"
  by (simp add: ex_canary_def ex_entered_def reconcile_eval ex_verdict_def zero_Verdict_def)

lemma ex_waved_off:
  obtains out w' ro where "Reconcile (ex_reconciler (ex_verdict OutcomeWaveOff)) ([], ''x'') ex_canary = (out, w')"
    "cl_rollouts w' ([], ''x'') = Some ro" "st_Phase (ro_Status ro) = PhaseWavedOff"
  by (simp add: ex_canary_def ex_entered_def reconcile_eval ex_verdict_def zero_Verdict_def Fires_def FullyIncumbent_def)

lemma ex_reachable:
  assumes "Reconcile (ex_reconciler v) ([], ''x'') ex_canary = (out, w')"
  shows "(cluster_step (ex_reconciler v))\<^sup>*\<^sup>* (ex_start\<lparr>cl_rollouts := Map.empty\<rparr>) w'"
proof -
  have "cluster_step (ex_reconciler v) (ex_start\<lparr>cl_rollouts := Map.empty\<rparr>)
      ((ex_start\<lparr>cl_rollouts := Map.empty\<rparr>)\<lparr>cl_rollouts := (cl_rollouts (ex_start\<lparr>cl_rollouts := Map.empty\<rparr>))
         (rollout_key ex_live_rollout \<mapsto> ex_live_rollout)\<rparr>)"
    by (rule created) (simp_all add: ex_live_rollout_def ex_rollout_def empty_status_def)
  moreover have "(ex_start\<lparr>cl_rollouts := Map.empty\<rparr>)\<lparr>cl_rollouts := (cl_rollouts (ex_start\<lparr>cl_rollouts := Map.empty\<rparr>))
         (rollout_key ex_live_rollout \<mapsto> ex_live_rollout)\<rparr> = ex_start"
    by (simp add: ex_start_def rollout_key_def ex_live_rollout_def ex_rollout_def)
  ultimately have "cluster_step (ex_reconciler v) (ex_start\<lparr>cl_rollouts := Map.empty\<rparr>) ex_start" by simp
  moreover have "cluster_step (ex_reconciler v) ex_start ex_canary"
    using ex_enter unfolding ex_canary_def by (rule reconciled)
  ultimately show ?thesis using reconciled [OF assms] by (meson converse_rtranclp_into_rtranclp rtranclp.rtrancl_refl)
qed

section \<open>Properties\<close>

text \<open>
  C1. A promoted rollout has a promoting verdict for every stage.  However reconciles, edits, creations,
  deletions and other changes of the cluster interleave, starting from a cluster without rollouts: a
  rollout whose status is promoted for its current generation has, for every stage of its spec, a
  recorded status that is promoted and carries the verdict the analyzer calls promote.
\<close>

theorem promoted_rollout_has_promoting_verdicts:
  assumes "kube_ok (rc_Rollouts R) cl_rollouts" and "cl_rollouts w0 = Map.empty"
    and "(cluster_step R)\<^sup>*\<^sup>* w0 w" and "cl_rollouts w k = Some ro"
    and "st_Phase (ro_Status ro) = PhasePromoted" and "st_ObservedGeneration (ro_Status ro) = ro_Generation ro"
    and "stage \<in> set (rs_Stages (ro_Spec ro))"
  shows "\<exists>ss \<in> set (st_Stages (ro_Status ro)). ss_Name ss = stage_Name stage \<and>
    ss_Phase ss = PhasePromoted \<and> ss_Verdict ss = ''promote''"
proof -
  have "all_sound w0" using assms(2) by (simp add: all_sound_def)
  then have "status_sound ro" using reachable_sound [OF assms(3,1)] all_soundD assms(4) by blast
  then show ?thesis
    using assms(5-7) unfolding status_sound_def all_promoted_def promoted_name_def verdicts_sound_def by blast
qed

theorem promoted_rollout_has_promoting_verdicts_witness:
  "\<exists>w ro. (cluster_step (ex_reconciler (ex_verdict OutcomePromote)))\<^sup>*\<^sup>* (ex_start\<lparr>cl_rollouts := Map.empty\<rparr>) w \<and>
     cl_rollouts w ([], ''x'') = Some ro \<and> st_Phase (ro_Status ro) = PhasePromoted \<and>
     (\<exists>ss \<in> set (st_Stages (ro_Status ro)). ss_Name ss = ''canary'' \<and> ss_Verdict ss = ''promote'')"
proof -
  obtain out w' ro where w: "Reconcile (ex_reconciler (ex_verdict OutcomePromote)) ([], ''x'') ex_canary = (out, w')"
    and ro: "cl_rollouts w' ([], ''x'') = Some ro" "st_Phase (ro_Status ro) = PhasePromoted"
      "st_ObservedGeneration (ro_Status ro) = ro_Generation ro"
      "rs_Stages (ro_Spec ro) = [ex_stage ''canary'' StageLive None]"
    by (rule ex_promoted)
  have K: "kube_ok (rc_Rollouts (ex_reconciler (ex_verdict OutcomePromote))) cl_rollouts"
    by (simp add: ex_reconciler_def example_stores_ok)
  from promoted_rollout_has_promoting_verdicts [OF K _ ex_reachable [OF w] ro(1-3), of "ex_stage ''canary'' StageLive None"]
  show ?thesis using ex_reachable [OF w] ro by (auto simp: ex_stage_def)
qed

text \<open>
  C2. Waved off means withdrawn.  When a reconcile of a rollout whose current stage is shadow or live
  leaves a newly written status waved off, the stored route of that stage's router, the HTTPRoute or
  the VirtualService, sends all traffic to the incumbent: a status never says the candidate was
  waved off while the route still sends it sessions.
\<close>

theorem waved_off_means_withdrawn:
  assumes "kube_ok (rc_Rollouts R) cl_rollouts"
    and "kube_ok (rc_Routes R) routes" and "kube_ok (rc_VirtualServices R) vss"
    and "cl_rollouts w key = Some ro" and "nextStage (fresh_status ro) = Some i"
    and "st = rs_Stages (ro_Spec ro) ! i" and "stage_Mode st = StageLive \<or> stage_Mode st = StageShadow"
    and "tg_Incumbent (targetFor ro st) \<noteq> tg_Candidate (targetFor ro st)"
    and "quiet R (served routes vss ro st)"
    and "Reconcile R key w = (out, w')"
    and "cl_rollouts w' k = Some ro'" and "cl_rollouts w k \<noteq> Some ro'"
    and "st_Phase (ro_Status ro') = PhaseWavedOff"
  shows "served routes vss ro st (cl_rest w') = Some FullyIncumbent"
  using Reconcile_waved_off [OF assms(1-10)] assms(11-13) unfolding writes_only_def by (metis as_stored_simps(3) option.inject)

theorem waved_off_means_withdrawn_witness:
  "\<exists>out w'. Reconcile (ex_reconciler (ex_verdict OutcomeWaveOff)) ([], ''x'') ex_canary = (out, w') \<and>
     served (\<lambda>w. [([], ''r'') \<mapsto> w]) (\<lambda>w. Map.empty) ex_entered (ex_stage ''canary'' StageLive None) (cl_rest ex_canary) =
       Some \<lparr> sp_Incumbent = 95, sp_Candidate = 5 \<rparr> \<and>
     served (\<lambda>w. [([], ''r'') \<mapsto> w]) (\<lambda>w. Map.empty) ex_entered (ex_stage ''canary'' StageLive None) (cl_rest w') =
       Some FullyIncumbent"
proof -
  let ?R = "ex_reconciler (ex_verdict OutcomeWaveOff)" and ?st = "ex_stage ''canary'' StageLive None"
  let ?r = "\<lambda>w. [([], ''r'') \<mapsto> w]"
  obtain out w' ro where w: "Reconcile ?R ([], ''x'') ex_canary = (out, w')"
    and ro: "cl_rollouts w' ([], ''x'') = Some ro" "st_Phase (ro_Status ro) = PhaseWavedOff"
    by (rule ex_waved_off)
  have K: "kube_ok (rc_Rollouts ?R) cl_rollouts" "kube_ok (rc_Routes ?R) ?r"
      "kube_ok (rc_VirtualServices ?R) (\<lambda>w. Map.empty)"
    by (simp_all add: ex_reconciler_def example_stores_ok one_object_ok)
  have s: "cl_rollouts ex_canary ([], ''x'') = Some ex_entered" by (simp add: ex_canary_def)
  have n: "nextStage (fresh_status ex_entered) = Some 0" and st: "?st = rs_Stages (ro_Spec ex_entered) ! 0"
    and ph: "st_Phase (ro_Status ex_entered) \<noteq> PhaseWavedOff"
    by (simp_all add: ex_entered_def reconcile_eval)
  have q: "quiet ?R (served ?r (\<lambda>w. Map.empty) ex_entered ?st)"
    by (simp add: quiet_def ex_reconciler_def rollout_store_def)
  have "served ?r (\<lambda>w. Map.empty) ex_entered ?st (cl_rest w') = Some FullyIncumbent"
    by (rule waved_off_means_withdrawn [OF K s n st _ _ q w ro(1) _ ro(2)])
       (use s ph ro in \<open>auto simp: ex_stage_def targetFor_def\<close>)
  moreover have "served ?r (\<lambda>w. Map.empty) ex_entered ?st (cl_rest ex_canary) = Some \<lparr> sp_Incumbent = 95, sp_Candidate = 5 \<rparr>"
    by (simp add: served_def ex_canary_def stored_def no_split_def ex_entered_def reconcile_eval)
  ultimately show ?thesis using w by blast
qed

end
