(* ===== verification/GoLib.thy ===== *)
theory GoLib
  imports Json Api
begin

text \<open>
  Further operations of Go's standard library on byte strings, instants and lists, as the digests,
  the comparison of manifests and the recorder use them.
\<close>

section \<open>Fallible maps\<close>

text \<open>A loop that appends one converted element per round and returns at the first error.\<close>

fun mapR :: "('a \<Rightarrow> 'e + 'b) \<Rightarrow> 'a list \<Rightarrow> 'e + 'b list" where
  "mapR f [] = Inr []"
| "mapR f (x # xs) = bindR (f x) (\<lambda>y. bindR (mapR f xs) (\<lambda>ys. Inr (y # ys)))"

text \<open>A sequence of fallible steps on one state.\<close>

fun stepsR :: "('s \<Rightarrow> 'e + 's) list \<Rightarrow> 's \<Rightarrow> 'e + 's" where
  "stepsR [] s = Inr s"
| "stepsR (f # fs) s = bindR (f s) (stepsR fs)"

lemma stepsR_append: "stepsR (fs @ gs) s = bindR (stepsR fs s) (stepsR gs)"
proof (induction fs arbitrary: s)
  case (Cons f fs)
  then show ?case by (cases "f s") simp_all
qed simp

lemma mapR_total: "(\<And>x. x \<in> set xs \<Longrightarrow> f x = Inr (g x)) \<Longrightarrow> mapR f xs = Inr (map g xs)"
  by (induction xs) auto

lemma mapR_Inr_length: "mapR f xs = Inr ys \<Longrightarrow> length ys = length xs"
  by (induction xs arbitrary: ys) (auto simp: bindR_Inr_iff)

section \<open>Strings\<close>

text \<open>\<open>strings.Split\<close> with a one-byte separator, and \<open>strings.Join\<close>.\<close>

fun strings_Split :: "char \<Rightarrow> string \<Rightarrow> string list" where
  "strings_Split c [] = [[]]"
| "strings_Split c (x # xs) =
     (if x = c then [] # strings_Split c xs
      else (case strings_Split c xs of [] \<Rightarrow> [[x]] | y # ys \<Rightarrow> (x # y) # ys))"

fun strings_Join :: "string \<Rightarrow> string list \<Rightarrow> string" where
  "strings_Join sep [] = []"
| "strings_Join sep [s] = s"
| "strings_Join sep (s # ss) = s @ sep @ strings_Join sep ss"

definition HasSuffix :: "string \<Rightarrow> string \<Rightarrow> bool" where
  "HasSuffix s p = HasPrefix (rev s) (rev p)"

definition TrimPrefix :: "string \<Rightarrow> string \<Rightarrow> string" where
  "TrimPrefix s p = (if HasPrefix s p then drop (length p) s else s)"

definition TrimSuffix :: "string \<Rightarrow> string \<Rightarrow> string" where
  "TrimSuffix s p = (if HasSuffix s p then take (length s - length p) s else s)"

text \<open>\<open>strings.Trim\<close> and \<open>strings.TrimRight\<close> with a cutset of ASCII characters.\<close>

definition TrimRight :: "string \<Rightarrow> string \<Rightarrow> string" where
  "TrimRight s cutset = rev (dropWhile (\<lambda>c. c \<in> set cutset) (rev s))"

definition Trim :: "string \<Rightarrow> string \<Rightarrow> string" where
  "Trim s cutset = TrimRight (dropWhile (\<lambda>c. c \<in> set cutset) s) cutset"

text \<open>\<open>strings.TrimSpace\<close> on the ASCII white space: tab, newline, vertical tab, form feed,
  carriage return and space.\<close>

definition space_chars :: string where
  "space_chars = map char_of [9::nat, 10, 11, 12, 13, 32]"

definition TrimSpace :: "string \<Rightarrow> string" where
  "TrimSpace s = Trim s space_chars"

text \<open>\<open>strings.Contains\<close>.\<close>

fun Contains :: "string \<Rightarrow> string \<Rightarrow> bool" where
  "Contains [] p = (p = [])"
| "Contains (c # s) p = (HasPrefix (c # s) p \<or> Contains s p)"

lemma strings_Split_ne [simp]: "strings_Split c s \<noteq> []"
  by (induction s) (auto split: list.splits)

lemma Join_Split: "strings_Join [c] (strings_Split c s) = s"
proof (induction s)
  case (Cons x xs)
  then show ?case
    by (cases "([c], strings_Split c xs)" rule: strings_Join.cases) auto
qed simp

lemma Split_no_sep: "s \<in> set (strings_Split c t) \<Longrightarrow> c \<notin> set s"
  by (induction t arbitrary: s) (auto split: if_splits list.splits)

lemma Split_Join: "ss \<noteq> [] \<Longrightarrow> \<forall>s \<in> set ss. c \<notin> set s \<Longrightarrow> strings_Split c (strings_Join [c] ss) = ss"
proof (induction ss rule: list_nonempty_induct)
  case (single s)
  then have "strings_Split c s = [s]"
    by (induction s) (auto split: list.splits)
  then show ?case by simp
next
  case (cons s ss)
  then obtain t ts where ss: "ss = t # ts" by (cases ss) auto
  have "c \<notin> set s \<Longrightarrow> strings_Split c (s @ c # r) = s # strings_Split c r" for r
    by (induction s) (auto split: list.splits)
  then show ?case using cons ss by simp
qed

lemma HasPrefix_iff: "HasPrefix s p \<longleftrightarrow> (\<exists>r. s = p @ r)"
proof
  assume "HasPrefix s p"
  then have "s = p @ drop (length p) s" using append_take_drop_id [of "length p" s]
    by (simp add: HasPrefix_def)
  then show "\<exists>r. s = p @ r" ..
qed (auto simp: HasPrefix_def)

lemma HasSuffix_iff: "HasSuffix s p \<longleftrightarrow> (\<exists>r. s = r @ p)"
  unfolding HasSuffix_def HasPrefix_iff by (metis rev_append rev_rev_ident)

lemma TrimPrefix_append [simp]: "TrimPrefix (p @ s) p = s"
  by (simp add: TrimPrefix_def HasPrefix_def)

lemma Contains_iff: "Contains s p \<longleftrightarrow> (\<exists>a b. s = a @ p @ b)"
proof (induction s)
  case (Cons c s)
  have "(\<exists>a b. c # s = a @ p @ b) \<longleftrightarrow> (\<exists>b. c # s = p @ b) \<or> (\<exists>a b. s = a @ p @ b)"
    by (simp only: Cons_eq_append_conv) blast
  then show ?case using Cons.IH by (simp add: HasPrefix_iff)
qed auto

section \<open>Request paths\<close>

text \<open>
  The canonical form in which \<open>http.ServeMux\<close> matches a path: rooted, without empty, \<open>.\<close> and
  \<open>..\<close> segments, a final slash kept.
\<close>

fun clean_segments :: "string list \<Rightarrow> string list \<Rightarrow> string list" where
  "clean_segments [] acc = rev acc"
| "clean_segments (s # ss) acc =
     (if s = [] \<or> s = ''.'' then clean_segments ss acc
      else if s = ''..'' then clean_segments ss (tl acc)
      else clean_segments ss (s # acc))"

definition cleanPath :: "string \<Rightarrow> string" where
  "cleanPath p =
     (if p = [] then ''/''
      else let q = (if hd p \<noteq> CHR ''/'' then CHR ''/'' # p else p);
               np = CHR ''/'' # strings_Join ''/'' (clean_segments (strings_Split CHR ''/'' q) [])
           in if last q = CHR ''/'' \<and> np \<noteq> ''/'' then np @ ''/'' else np)"

text \<open>A path that is not in its canonical form is redirected before it reaches a handler.\<close>

definition clean_path :: "string \<Rightarrow> bool" where
  "clean_path p \<longleftrightarrow> cleanPath p = p"

section \<open>Stable sorting by a key\<close>

text \<open>
  \<open>sort.SliceStable\<close> is the library's \<open>sort_key\<close>.  With distinct keys the result depends on the
  elements only.
\<close>

lemma sort_key_perm_eq:
  assumes "distinct (map f xs)" and "distinct (map f ys)" and "set xs = set ys"
  shows "sort_key f xs = sort_key f ys"
proof (rule map_sorted_distinct_set_unique)
  show "inj_on f (set (sort_key f xs) \<union> set (sort_key f ys))"
    using assms by (simp add: distinct_map)
qed (use assms in \<open>simp_all add: distinct_map\<close>)

lemma sort_key_eq_set:
  "sort_key f xs = sort_key f ys \<Longrightarrow> set xs = set ys"
  by (metis set_sort)

section \<open>Instants as texts\<close>

text \<open>
  The calendar date of an instant in UTC, counted from 1 January of the year 1 as the \<open>time\<close>
  package counts: whole cycles of 400 years, then centuries, four-year groups and years, the last of
  each kind one day longer or shorter.  A day of the year is then looked up in the month table.
\<close>

definition is_leap :: "int \<Rightarrow> bool" where
  "is_leap y = (y mod 4 = 0 \<and> (y mod 100 \<noteq> 0 \<or> y mod 400 = 0))"

definition month_lengths :: "int \<Rightarrow> int list" where
  "month_lengths y = [31, if is_leap y then 29 else 28, 31, 30, 31, 30, 31, 31, 30, 31, 30, 31]"

fun month_of :: "int list \<Rightarrow> int \<Rightarrow> int \<Rightarrow> int \<times> int" where
  "month_of [] m d = (m, d + 1)"
| "month_of (l # ls) m d = (if d < l then (m, d + 1) else month_of ls (m + 1) (d - l))"

definition civil_date :: "int \<Rightarrow> int \<times> int \<times> int" where
  "civil_date days =
     (let n400 = days div 146097; d = days mod 146097;
          n100 = min 3 (d div 36524); d = d - 36524 * n100;
          n4 = d div 1461; d = d - 1461 * n4;
          n1 = min 3 (d div 365); d = d - 365 * n1;
          year = 400 * n400 + 100 * n100 + 4 * n4 + n1 + 1
      in (year, month_of (month_lengths year) 1 d))"

text \<open>A number padded with zeros to a width, the sign before the padding.\<close>

definition pad_nat :: "nat \<Rightarrow> int \<Rightarrow> string" where
  "pad_nat w n = (let s = nat_string (nat n) in replicate (w - length s) CHR ''0'' @ s)"

definition pad_int :: "nat \<Rightarrow> int \<Rightarrow> string" where
  "pad_int w n = (if n < 0 then CHR ''-'' # pad_nat w (- n) else pad_nat w n)"

text \<open>\<open>t.UTC().Format\<close> with the layouts \<open>2006-01-02\<close> and \<open>2006-01-02T15:04:05Z\<close>.\<close>

definition format_date :: "time \<Rightarrow> string" where
  "format_date t =
     (case civil_date (t div (86400 * second)) of (y, m, d) \<Rightarrow>
        pad_int 4 y @ ''-'' @ pad_int 2 m @ ''-'' @ pad_int 2 d)"

definition format_instant :: "time \<Rightarrow> string" where
  "format_instant t =
     (let s = t div second mod 86400 in
      format_date t @ ''T'' @ pad_int 2 (s div 3600) @ '':'' @ pad_int 2 (s div 60 mod 60) @ '':''
        @ pad_int 2 (s mod 60) @ ''Z'')"

lemma format_date_examples:
  "format_date 0 = ''0001-01-01''"
  "format_instant (63902822399 * second) = ''2025-12-31T23:59:59Z''"
  by code_simp+

end
