(* ===== verification/Redact.thy ===== *)
theory Redact
  imports GoLib
begin

text \<open>
  \<open>internal/cassette/redact.go\<close>: the removal of credentials before anything is recorded.  A compiled
  regular expression is what the code does with it, a test and a replacement of every match; the
  expressions themselves and \<open>regexp.Compile\<close> are parameters.  An HTTP header is a map from a
  canonical name to its values.
\<close>

type_synonym http_header = "(string \<times> string list) list"

record regex =
  re_Match :: "string \<Rightarrow> bool"
  re_ReplaceAll :: "string \<Rightarrow> string \<Rightarrow> string"

record labelledPattern =
  lp_label :: string
  lp_re :: regex
  lp_replacement :: string

record Redactor =
  rd_headers :: "string list"
  rd_patterns :: "labelledPattern list"

definition DefaultRedactedHeaders :: "string list" where
  "DefaultRedactedHeaders =
     [''authorization'', ''proxy-authorization'', ''x-api-key'', ''api-key'', ''x-auth-token'',
      ''x-access-token'', ''x-session-token'', ''x-amz-security-token'', ''cookie'', ''set-cookie'',
      ''x-goog-api-key'', ''openai-organization'', ''mcp-session-id'']"

definition Placeholder :: "string \<Rightarrow> string" where
  "Placeholder label = ''[REDACTED:'' @ label @ '']''"

text \<open>The labels of the built-in rules, in order; the expression of each is a parameter.\<close>

definition default_labels :: "string list" where
  "default_labels =
     [''anthropic-key'', ''openai-key'', ''google-key'', ''aws-access-key'', ''github-token'',
      ''slack-token'', ''stripe-key'', ''bearer-token'', ''jwt'', ''private-key'', ''secret-field'']"

text \<open>Only the rule for secret fields keeps part of what it matches.\<close>

definition defaultPatterns :: "(string \<Rightarrow> regex) \<Rightarrow> labelledPattern list" where
  "defaultPatterns re =
     map (\<lambda>l. \<lparr> lp_label = l, lp_re = re l,
               lp_replacement = (if l = ''secret-field''
                                 then ''${1}${2}'' @ [CHR 0x22] @ Placeholder ''secret-field'' @ ''${3}'' @ [CHR 0x22]
                                 else []) \<rparr>)
       default_labels"

text \<open>The custom rules compile in order, each numbered by its position.\<close>

fun custom_patterns :: "(string \<Rightarrow> regex result) \<Rightarrow> nat \<Rightarrow> string list \<Rightarrow> labelledPattern list result" where
  "custom_patterns compile i [] = Inr []"
| "custom_patterns compile i (p # ps) =
     (case compile p of
        Inl e \<Rightarrow> Inl (Sprintf ''redaction pattern %d (%q): %w'' [AInt (int i), AStr p, AErr e])
      | Inr re \<Rightarrow>
          bindR (custom_patterns compile (Suc i) ps) (\<lambda>rest.
            Inr (\<lparr> lp_label = ''custom-'' @ nat_string i, lp_re = re, lp_replacement = [] \<rparr> # rest)))"

definition NewRedactor ::
    "(string \<Rightarrow> regex) \<Rightarrow> (string \<Rightarrow> regex result) \<Rightarrow> string list \<Rightarrow> string list \<Rightarrow> Redactor result" where
  "NewRedactor re compile extraHeaders extraPatterns =
     bindR (custom_patterns compile 0 extraPatterns) (\<lambda>custom.
       Inr \<lparr> rd_headers = map ToLower DefaultRedactedHeaders @
                filter (\<lambda>h. h \<noteq> []) (map (\<lambda>h. TrimSpace (ToLower h)) extraHeaders),
             rd_patterns = defaultPatterns re @ custom \<rparr>)"

text \<open>
  \<open>Headers\<close> ranges over the header map; the removed names are sorted, so the order of the map does
  not show.
\<close>

definition redact_values :: "Redactor \<Rightarrow> string \<Rightarrow> string list \<Rightarrow> string list" where
  "redact_values r name values =
     (if ToLower name \<in> set (rd_headers r) then [Placeholder ''header''] else values)"

definition Redactor_Headers :: "Redactor \<Rightarrow> http_header \<Rightarrow> http_header \<times> string list" where
  "Redactor_Headers r h =
     (map (\<lambda>(name, values). (name, redact_values r name values)) h,
      sort (map (\<lambda>(name, _). ToLower name)
                (filter (\<lambda>(name, _). ToLower name \<in> set (rd_headers r)) h)))"

fun dedupe :: "string list \<Rightarrow> string list" where
  "dedupe (x # y # xs) = (if x = y then dedupe (x # xs) else x # dedupe (y # xs))"
| "dedupe xs = xs"

fun apply_patterns :: "labelledPattern list \<Rightarrow> string \<Rightarrow> string list \<Rightarrow> string \<times> string list" where
  "apply_patterns [] out fired = (out, fired)"
| "apply_patterns (p # ps) out fired =
     (if \<not> re_Match (lp_re p) out then apply_patterns ps out fired
      else apply_patterns ps
             (re_ReplaceAll (lp_re p) out
                (if lp_replacement p \<noteq> [] then lp_replacement p else Placeholder (lp_label p)))
             (fired @ [lp_label p]))"

definition Redactor_Body :: "Redactor \<Rightarrow> string \<Rightarrow> string \<times> string list" where
  "Redactor_Body r b =
     (if b = [] then (b, [])
      else (case apply_patterns (rd_patterns r) b [] of (out, fired) \<Rightarrow> (out, dedupe (sort fired))))"

section \<open>Lemmas\<close>

lemma custom_patterns_labels:
  "custom_patterns compile i ps = Inr ls \<Longrightarrow>
     map lp_label ls = map (\<lambda>j. ''custom-'' @ nat_string j) [i..<i + length ps]"
proof (induction ps arbitrary: i ls)
  case (Cons p ps)
  then show ?case
    by (auto simp: bindR_Inr_iff upt_conv_Cons simp del: upt_Suc split: sum.splits)
qed simp

lemma set_dedupe: "set (dedupe xs) = set xs"
  by (induction xs rule: dedupe.induct) auto

lemma distinct_dedupe: "sorted xs \<Longrightarrow> distinct (dedupe xs)"
proof (induction xs rule: dedupe.induct)
  case (1 x y xs)
  then show ?case by (auto simp: set_dedupe)
qed auto

lemma NewRedactor_headers:
  assumes "NewRedactor re compile hs ps = Inr r"
  shows "map ToLower DefaultRedactedHeaders @ filter (\<lambda>h. h \<noteq> []) (map (\<lambda>h. TrimSpace (ToLower h)) hs)
      = rd_headers r"
    and "set (defaultPatterns re) \<subseteq> set (rd_patterns r)"
  using assms by (auto simp: NewRedactor_def bindR_Inr_iff)

lemma lower_char_idem [simp]: "lower_char (lower_char c) = lower_char c"
proof (cases "65 \<le> byte c \<and> byte c \<le> 90")
  case True
  then have "byte (char_of (byte c + 32)) = byte c + 32" by (simp add: byte_def)
  then show ?thesis using True by (simp add: lower_char_def)
qed (auto simp: lower_char_def)

lemma ToLower_idem [simp]: "ToLower (ToLower s) = ToLower s"
  by (simp add: ToLower_def)

lemma Redactor_Headers_names:
  "map fst (fst (Redactor_Headers r h)) = map fst h"
  by (simp add: Redactor_Headers_def comp_def case_prod_beta)

lemma Redactor_Headers_value:
  "(name, values) \<in> set (fst (Redactor_Headers r h)) \<Longrightarrow>
     ToLower name \<in> set (rd_headers r) \<Longrightarrow> values = [Placeholder ''header'']"
  by (auto simp: Redactor_Headers_def redact_values_def)

text \<open>
  No credential header survives.  Whatever redactor was built, with whatever additions, the
  recorded headers keep every name, a header from the default list is reduced to the placeholder
  whatever the case of its name, so is one the operator added, any other header keeps its values, and
  the removed names are reported in order.
\<close>

theorem credential_headers_are_replaced:
  assumes "NewRedactor re compile extra ps = Inr r" and "Redactor_Headers r h = (out, removed)"
  shows "map fst out = map fst h \<and>
    (\<forall>(name, values) \<in> set out.
       (if ToLower name \<in> ToLower ` set DefaultRedactedHeaders \<or>
           (ToLower name \<noteq> [] \<and> ToLower name \<in> (\<lambda>x. TrimSpace (ToLower x)) ` set extra)
        then values = [Placeholder ''header''] \<and> ToLower name \<in> set removed
        else (name, values) \<in> set h \<and> ToLower name \<notin> set removed)) \<and>
    sorted removed"
proof -
  have secret: "x \<in> set (rd_headers r) \<longleftrightarrow> x \<in> ToLower ` set DefaultRedactedHeaders \<or>
      (x \<noteq> [] \<and> x \<in> (\<lambda>x. TrimSpace (ToLower x)) ` set extra)" for x
    unfolding NewRedactor_headers(1) [OF assms(1), symmetric] by auto
  have out: "out = fst (Redactor_Headers r h)" and removed: "removed = snd (Redactor_Headers r h)"
    using assms(2) by simp_all
  have "map fst out = map fst h" unfolding out by (rule Redactor_Headers_names)
  moreover have "if ToLower name \<in> set (rd_headers r)
      then vals = [Placeholder ''header''] \<and> ToLower name \<in> set removed
      else (name, vals) \<in> set h \<and> ToLower name \<notin> set removed"
    if "(name, vals) \<in> set out" for name vals
    using that unfolding out removed
    by (force simp: Redactor_Headers_def redact_values_def)
  moreover have "sorted removed" unfolding removed by (simp add: Redactor_Headers_def)
  ultimately show ?thesis unfolding secret by blast
qed

text \<open>A redactor with the defaults only, whose expressions match nothing.\<close>

definition no_match :: "string \<Rightarrow> regex" where
  "no_match l = \<lparr> re_Match = (\<lambda>_. False), re_ReplaceAll = (\<lambda>s _. s) \<rparr>"

definition ex_redactor :: Redactor where
  "ex_redactor = \<lparr> rd_headers = DefaultRedactedHeaders, rd_patterns = defaultPatterns no_match \<rparr>"

lemma ex_redactor_new: "NewRedactor no_match (\<lambda>_. Inl no_msg) [] [] = Inr ex_redactor"
proof -
  have "map ToLower DefaultRedactedHeaders = DefaultRedactedHeaders" by code_simp
  then show ?thesis by (simp add: NewRedactor_def ex_redactor_def)
qed

theorem credential_headers_are_replaced_witness:
  "fst (Redactor_Headers ex_redactor [(''Authorization'', [''secret'']), (''Accept'', [''text''])]) =
     [(''Authorization'', [Placeholder ''header'']), (''Accept'', [''text''])]"
proof -
  let ?h = "[(''Authorization'', [''secret'']), (''Accept'', [''text''])]"
  obtain out removed where out: "Redactor_Headers ex_redactor ?h = (out, removed)"
    by (cases "Redactor_Headers ex_redactor ?h")
  note props = credential_headers_are_replaced [OF ex_redactor_new out]
  obtain a b where ab: "out = [(''Authorization'', a), (''Accept'', b)]"
    using props by (auto simp: map_eq_Cons_conv)
  have "ToLower ''Authorization'' \<in> ToLower ` set DefaultRedactedHeaders"
    "ToLower ''Accept'' \<notin> ToLower ` set DefaultRedactedHeaders" by code_simp+
  then have "a = [Placeholder ''header'']" "(''Accept'', b) \<in> set ?h" using props ab by simp_all
  then show ?thesis using out ab by simp
qed

end
