(* ===== verification/Sha256.thy ===== *)
theory Sha256
  imports GoLib "HOL-Library.Word"
begin

text \<open>
  \<open>crypto/sha256\<close> and \<open>encoding/hex\<close> of Go's standard library, which name every blob: the hash of
  FIPS 180-4 on 32-bit words, and the lower-case hexadecimal text of its 32 bytes.
\<close>

unbundle bit_operations_syntax

type_synonym w32 = "32 word"

definition rotr :: "nat \<Rightarrow> w32 \<Rightarrow> w32" where
  "rotr n x = drop_bit n x OR push_bit (32 - n) x"

definition sha_k :: "w32 list" where
  "sha_k = [
     0x428a2f98, 0x71374491, 0xb5c0fbcf, 0xe9b5dba5, 0x3956c25b, 0x59f111f1, 0x923f82a4, 0xab1c5ed5,
     0xd807aa98, 0x12835b01, 0x243185be, 0x550c7dc3, 0x72be5d74, 0x80deb1fe, 0x9bdc06a7, 0xc19bf174,
     0xe49b69c1, 0xefbe4786, 0x0fc19dc6, 0x240ca1cc, 0x2de92c6f, 0x4a7484aa, 0x5cb0a9dc, 0x76f988da,
     0x983e5152, 0xa831c66d, 0xb00327c8, 0xbf597fc7, 0xc6e00bf3, 0xd5a79147, 0x06ca6351, 0x14292967,
     0x27b70a85, 0x2e1b2138, 0x4d2c6dfc, 0x53380d13, 0x650a7354, 0x766a0abb, 0x81c2c92e, 0x92722c85,
     0xa2bfe8a1, 0xa81a664b, 0xc24b8b70, 0xc76c51a3, 0xd192e819, 0xd6990624, 0xf40e3585, 0x106aa070,
     0x19a4c116, 0x1e376c08, 0x2748774c, 0x34b0bcb5, 0x391c0cb3, 0x4ed8aa4a, 0x5b9cca4f, 0x682e6ff3,
     0x748f82ee, 0x78a5636f, 0x84c87814, 0x8cc70208, 0x90befffa, 0xa4506ceb, 0xbef9a3f7, 0xc67178f2]"

definition sha_init :: "w32 list" where
  "sha_init = [0x6a09e667, 0xbb67ae85, 0x3c6ef372, 0xa54ff53a, 0x510e527f, 0x9b05688c, 0x1f83d9ab, 0x5be0cd19]"

text \<open>The padded message: a one bit, zeros, and the length in bits as 64 bits.\<close>

fun be_bytes :: "nat \<Rightarrow> nat \<Rightarrow> nat list" where
  "be_bytes 0 n = []"
| "be_bytes (Suc k) n = be_bytes k (n div 256) @ [n mod 256]"

definition sha_pad :: "nat list \<Rightarrow> nat list" where
  "sha_pad m =
     (let l = length m; zeros = (119 - l mod 64) mod 64
      in m @ [128] @ replicate zeros 0 @ be_bytes 8 (8 * l))"

definition be_word :: "nat list \<Rightarrow> w32" where
  "be_word bs = of_nat (foldl (\<lambda>n b. 256 * n + b) 0 bs)"

text \<open>The message schedule, kept as the last sixteen words, oldest first.\<close>

definition sched_next :: "w32 list \<Rightarrow> w32" where
  "sched_next w =
     (let w15 = w ! 1; w2 = w ! 14;
          s0 = rotr 7 w15 XOR rotr 18 w15 XOR drop_bit 3 w15;
          s1 = rotr 17 w2 XOR rotr 19 w2 XOR drop_bit 10 w2
      in w ! 0 + s0 + w ! 9 + s1)"

fun sha_round :: "w32 list \<Rightarrow> w32 \<Rightarrow> w32 \<Rightarrow> w32 list" where
  "sha_round [a, b, c, d, e, f, g, h] k w =
     (let s1 = rotr 6 e XOR rotr 11 e XOR rotr 25 e;
          ch = (e AND f) XOR (NOT e AND g);
          t1 = h + s1 + ch + k + w;
          s0 = rotr 2 a XOR rotr 13 a XOR rotr 22 a;
          maj = (a AND b) XOR (a AND c) XOR (b AND c)
      in [t1 + s0 + maj, a, b, c, d + t1, e, f, g])"
| "sha_round st k w = st"

fun sha_rounds :: "w32 list \<Rightarrow> w32 list \<Rightarrow> w32 list \<Rightarrow> w32 list" where
  "sha_rounds [] w st = st"
| "sha_rounds (k # ks) w st = sha_rounds ks (tl w @ [sched_next w]) (sha_round st k (hd w))"

fun words_of :: "nat list \<Rightarrow> w32 list" where
  "words_of (a # b # c # d # bs) = be_word [a, b, c, d] # words_of bs"
| "words_of bs = []"

definition sha_block :: "w32 list \<Rightarrow> nat list \<Rightarrow> w32 list" where
  "sha_block st block = map2 (+) st (sha_rounds sha_k (words_of block) st)"

function sha_blocks :: "w32 list \<Rightarrow> nat list \<Rightarrow> w32 list" where
  "sha_blocks st bs = (if length bs < 64 then st else sha_blocks (sha_block st (take 64 bs)) (drop 64 bs))"
  by auto
termination by (relation "measure (\<lambda>(st, bs). length bs)") auto

declare sha_blocks.simps [simp del]

definition Sum256 :: "string \<Rightarrow> string" where
  "Sum256 s =
     map char_of (concat (map (\<lambda>w. be_bytes 4 (unat w)) (sha_blocks sha_init (sha_pad (map byte s)))))"

definition hex_of :: "nat \<Rightarrow> char" where
  "hex_of n = (if n < 10 then char_of (48 + n) else char_of (87 + n))"

definition EncodeToString :: "string \<Rightarrow> string" where
  "EncodeToString bs = concat (map (\<lambda>b. [hex_of (byte b div 16), hex_of (byte b mod 16)]) bs)"

section \<open>Lemmas\<close>

lemma length_sha_round [simp]: "length (sha_round st k w) = length st"
  by (induction st k w rule: sha_round.induct) (auto simp: Let_def)

lemma length_sha_rounds [simp]: "length (sha_rounds ks w st) = length st"
  by (induction ks w st rule: sha_rounds.induct) auto

lemma length_sha_block [simp]: "length (sha_block st b) = length st"
  by (simp add: sha_block_def)

lemma length_sha_blocks [simp]: "length (sha_blocks st bs) = length st"
  by (induction st bs rule: sha_blocks.induct) (subst sha_blocks.simps, simp)

lemma length_be_bytes [simp]: "length (be_bytes k n) = k"
  by (induction k arbitrary: n) auto

text \<open>Thirty-two bytes, and their sixty-four hexadecimal digits.\<close>

lemma length_concat_const: "(\<And>x. length (f x) = n) \<Longrightarrow> length (concat (map f xs)) = n * length xs"
  by (induction xs) auto

lemma length_Sum256 [simp]: "length (Sum256 s) = 32"
proof -
  have "length (concat (map (\<lambda>w :: w32. be_bytes 4 (unat w)) ws)) = 4 * length ws" for ws
    by (rule length_concat_const) simp
  then show ?thesis by (simp add: Sum256_def sha_init_def)
qed

lemma length_EncodeToString [simp]: "length (EncodeToString bs) = 2 * length bs"
  unfolding EncodeToString_def by (subst length_concat_const [of _ 2]) auto

definition lower_hex :: "char \<Rightarrow> bool" where
  "lower_hex c \<longleftrightarrow> (48 \<le> byte c \<and> byte c \<le> 57) \<or> (97 \<le> byte c \<and> byte c \<le> 102)"

lemma lower_hex_hex_of: "n < 16 \<Longrightarrow> lower_hex (hex_of n)"
  by (auto simp: lower_hex_def hex_of_def byte_def)

lemma hex_digits: "c \<in> set (EncodeToString bs) \<Longrightarrow> lower_hex c"
proof -
  have "byte b < 256" for b by (simp add: byte_def)
  then have "lower_hex (hex_of (byte b div 16))" "lower_hex (hex_of (byte b mod 16))" for b
    by (auto intro!: lower_hex_hex_of simp: less_mult_imp_div_less)
  then show "c \<in> set (EncodeToString bs) \<Longrightarrow> lower_hex c" by (auto simp: EncodeToString_def)
qed

end
