(* ===== verification/Cas.thy ===== *)
theory Cas
  imports Sha256
begin

text \<open>
  The content-addressed blob store of \<open>internal/cas\<close>: digests and their validation (\<open>cas.go\<close>), the
  contract of a store as a locale, and the store on a file system (\<open>fs.go\<close>).  A file system is a map
  from paths to contents; every system call may fail, and which ones fail in a call is an argument.
\<close>

section \<open>Digests\<close>

type_synonym digest = string

definition ErrNotFound :: msg where
  "ErrNotFound = Text ''blob not found''"

definition cas_Compute :: "string \<Rightarrow> digest" where
  "cas_Compute b = ''sha256:'' @ EncodeToString (Sum256 b)"

definition cas_Validate :: "digest \<Rightarrow> unit result" where
  "cas_Validate s =
     (if \<not> HasPrefix s ''sha256:'' then Inl (Sprintf ''digest %q: want a sha256: prefix'' [AStr s])
      else let rest = drop 7 s in
        if length rest \<noteq> 64
        then Inl (Sprintf ''digest %q: want 64 hex characters, got %d'' [AStr s, AInt (int (length rest))])
        else (case find (\<lambda>c. (byte c < 48 \<or> byte c > 57) \<and> (byte c < 97 \<or> byte c > 102)) rest of
                Some c \<Rightarrow> Inl (Sprintf ''digest %q: %q is not lowercase hex'' [AStr s, AStr [c]])
              | None \<Rightarrow> Inr ()))"

definition Hex :: "digest \<Rightarrow> string" where
  "Hex d = TrimPrefix d ''sha256:''"

definition cas_Short :: "digest \<Rightarrow> nat \<Rightarrow> string" where
  "cas_Short d n = (let h = Hex d in if length h < n then h else take n h)"

lemma cas_Validate_ok:
  "cas_Validate s = Inr () \<longleftrightarrow> (\<exists>h. s = ''sha256:'' @ h \<and> length h = 64 \<and> (\<forall>c \<in> set h. lower_hex c))"
proof -
  let ?bad = "\<lambda>c. (byte c < 48 \<or> byte c > 57) \<and> (byte c < 97 \<or> byte c > 102)"
  have "cas_Validate s = Inr () \<longleftrightarrow>
      HasPrefix s ''sha256:'' \<and> length (drop 7 s) = 64 \<and> find ?bad (drop 7 s) = None"
    by (auto simp: cas_Validate_def Let_def split: option.splits)
  moreover have "find ?bad h = None \<longleftrightarrow> (\<forall>c \<in> set h. lower_hex c)" for h
    by (auto simp: find_None_iff lower_hex_def not_less not_le)
  moreover have "HasPrefix s ''sha256:'' \<longleftrightarrow> (\<exists>h. s = ''sha256:'' @ h)"
    by (rule HasPrefix_iff)
  ultimately show ?thesis by auto
qed

lemma cas_Compute_valid [simp]: "cas_Validate (cas_Compute b) = Inr ()"
  unfolding cas_Validate_ok cas_Compute_def using hex_digits by auto

lemma Hex_valid: "cas_Validate d = Inr () \<Longrightarrow> length (Hex d) = 64 \<and> d = ''sha256:'' @ Hex d"
  by (auto simp: cas_Validate_ok Hex_def TrimPrefix_def HasPrefix_def)

section \<open>The contract of a store\<close>

text \<open>A history of puts, each with what fails in it.\<close>

fun puts :: "('e \<Rightarrow> string \<Rightarrow> 's \<Rightarrow> 'r \<times> 's) \<Rightarrow> ('e \<times> string) list \<Rightarrow> 's \<Rightarrow> 's" where
  "puts put [] s = s"
| "puts put ((e, c) # ps) s = puts put ps (snd (put e c s))"

text \<open>
  What a store promises of the blobs it holds, whatever fails: a successful put returns the digest of
  its content and leaves a blob under it, no other blob changes, a failed put changes none, and every
  blob hashes to the digest it is stored under.
\<close>

locale blob_store =
  fixes put :: "'e \<Rightarrow> string \<Rightarrow> 's \<Rightarrow> digest result \<times> 's"
    and get :: "'e \<Rightarrow> digest \<Rightarrow> 's \<Rightarrow> string result"
    and blobs :: "'s \<Rightarrow> digest \<Rightarrow> string option"
    and ok :: "'s \<Rightarrow> bool"
  assumes put_ok: "ok s \<Longrightarrow> put e c s = (r, s') \<Longrightarrow> ok s'"
    and put_other: "ok s \<Longrightarrow> put e c s = (r, s') \<Longrightarrow> d \<noteq> cas_Compute c \<Longrightarrow> blobs s' d = blobs s d"
    and put_same: "ok s \<Longrightarrow> put e c s = (r, s') \<Longrightarrow>
      blobs s' (cas_Compute c) = blobs s (cas_Compute c) \<or> blobs s' (cas_Compute c) = Some c"
    and put_stored: "ok s \<Longrightarrow> put e c s = (Inr d, s') \<Longrightarrow> d = cas_Compute c \<and> blobs s' d \<noteq> None"
    and put_failed: "ok s \<Longrightarrow> put e c s = (Inl err, s') \<Longrightarrow> blobs s' = blobs s"
    and get_blob: "get e d s = Inr c \<Longrightarrow> blobs s d = Some c"
    and blob_digest: "ok s \<Longrightarrow> blobs s d = Some c \<Longrightarrow> cas_Compute c = d"
begin

lemma put_ok': "ok s \<Longrightarrow> ok (snd (put e c s))"
  by (rule put_ok) (auto intro: prod.collapse [symmetric])

lemma puts_ok: "ok s \<Longrightarrow> ok (puts put ps s)"
  by (induction ps arbitrary: s) (auto simp: put_ok')

lemma put_keeps:
  assumes "ok s" and "blobs s d = Some c"
  shows "\<exists>c'. blobs (snd (put e b s)) d = Some c' \<and> cas_Compute c' = d"
proof -
  obtain r s' where s': "put e b s = (r, s')" by (cases "put e b s")
  have "blobs s' d \<noteq> None"
    using put_other [OF assms(1) s', of d] put_same [OF assms(1) s'] assms(2) by (cases "d = cas_Compute b") auto
  then show ?thesis using blob_digest [OF put_ok [OF assms(1) s']] s' by auto
qed

lemma puts_keep:
  "ok s \<Longrightarrow> blobs s d = Some c \<Longrightarrow> \<exists>c'. blobs (puts put ps s) d = Some c' \<and> cas_Compute c' = d"
proof (induction ps arbitrary: s c)
  case Nil
  then show ?case using blob_digest by auto
next
  case (Cons p ps)
  obtain e b where p: "p = (e, b)" by (cases p)
  from put_keeps [OF Cons(2,3), of e b] obtain c' where "blobs (snd (put e b s)) d = Some c'" by blast
  moreover have "ok (snd (put e b s))" using Cons(2) by (rule put_ok')
  ultimately show ?case using Cons(1) p by simp
qed

text \<open>What was put can be read back, whatever was put and whatever failed in between.\<close>

lemma put_get:
  assumes "ok s" and "put e c s = (Inr d, s')" and "get e' d (puts put ps s') = Inr c'"
  shows "cas_Compute c' = cas_Compute c"
  using assms put_ok [OF assms(1,2)] put_stored [OF assms(1,2)]
  by (metis blob_digest get_blob puts_ok)

end

section \<open>The store on a file system\<close>

type_synonym files = "(string \<times> string) list"

record FS =
  fs_root :: string

text \<open>Which calls fail, and the name the operating system gives the temporary file.\<close>

record fs_env =
  fe_Ctx :: "msg option"
  fe_MkdirAll :: "msg option"
  fe_CreateTemp :: "msg option"
  fe_Copy :: "msg option"
  fe_Sync :: "msg option"
  fe_Close :: "msg option"
  fe_Stat :: "msg option"
  fe_Rename :: "msg option"
  fe_Open :: "msg option"
  fe_TempName :: string

definition NewFS :: "fs_env \<Rightarrow> string \<Rightarrow> FS result" where
  "NewFS e dir =
     (case fe_MkdirAll e of
        Some err \<Rightarrow> Inl (Sprintf ''create blob store at %s: %w'' [AStr dir, AErr err])
      | None \<Rightarrow> Inr \<lparr> fs_root = dir \<rparr>)"

text \<open>\<open>filepath.Join\<close> of a clean root with path elements.\<close>

definition Join :: "string \<Rightarrow> string list \<Rightarrow> string" where
  "Join dir parts = strings_Join ''/'' (dir # parts)"

definition FS_path :: "FS \<Rightarrow> digest \<Rightarrow> string result" where
  "FS_path f d =
     bindR (cas_Validate d) (\<lambda>_.
       let h = Hex d in Inr (Join (fs_root f) [take 2 h, take 2 (drop 2 h), h]))"

definition temp_path :: "FS \<Rightarrow> fs_env \<Rightarrow> string" where
  "temp_path f e = Join (fs_root f) [''.incoming-'' @ fe_TempName e]"

text \<open>
  \<open>Put\<close>: the temporary file, whose name must be free, exists from its creation until the deferred
  removal; a rename moves it, after which the removal finds nothing.
\<close>

definition FS_commit :: "FS \<Rightarrow> fs_env \<Rightarrow> string \<Rightarrow> files \<Rightarrow> digest result \<times> files" where
  "FS_commit f e content files =
     (let digest = cas_Compute content in
      case FS_path f digest of
        Inl err \<Rightarrow> (Inl err, files)
      | Inr final \<Rightarrow>
          (let exists = (has_key files final \<and> fe_Stat e = None) in
           if exists then (Inr digest, files)
           else (case fe_MkdirAll e of
             Some err \<Rightarrow> (Inl (Sprintf ''create blob directory: %w'' [AErr err]), files)
           | None \<Rightarrow>
               (case fe_Rename e of
                  None \<Rightarrow>
                    (Inr digest, AList.update final (lookup_or [] files (temp_path f e))
                                   (AList.delete (temp_path f e) files))
                | Some err \<Rightarrow>
                    if exists then (Inr digest, files)
                    else (Inl (Sprintf ''commit blob: %w'' [AErr err]), files)))))"

definition FS_Put :: "FS \<Rightarrow> fs_env \<Rightarrow> string \<Rightarrow> files \<Rightarrow> digest result \<times> files" where
  "FS_Put f e content files =
     (case fe_Ctx e of
        Some err \<Rightarrow> (Inl err, files)
      | None \<Rightarrow>
     (case fe_CreateTemp e of
        Some err \<Rightarrow> (Inl (Sprintf ''create temp blob: %w'' [AErr err]), files)
      | None \<Rightarrow>
          if has_key files (temp_path f e)
          then (Inl (Sprintf ''create temp blob: %w'' [AErr (Text ''file exists'')]), files)
          else (let files1 = AList.update (temp_path f e) content files;
               (r, files2) =
                 (case fe_Copy e of
                    Some err \<Rightarrow> (Inl (Sprintf ''write blob: %w'' [AErr err]), files1)
                  | None \<Rightarrow>
                 (case fe_Sync e of
                    Some err \<Rightarrow> (Inl (Sprintf ''sync blob: %w'' [AErr err]), files1)
                  | None \<Rightarrow>
                 (case fe_Close e of
                    Some err \<Rightarrow> (Inl (Sprintf ''close blob: %w'' [AErr err]), files1)
                  | None \<Rightarrow> FS_commit f e content files1)))
           in (r, AList.delete (temp_path f e) files2))))"

definition FS_Get :: "FS \<Rightarrow> fs_env \<Rightarrow> digest \<Rightarrow> files \<Rightarrow> string result" where
  "FS_Get f e d files =
     (case fe_Ctx e of
        Some err \<Rightarrow> Inl err
      | None \<Rightarrow>
          bindR (FS_path f d) (\<lambda>p.
            case map_of files p of
              None \<Rightarrow> Inl (Sprintf ''%w: %s'' [AErr ErrNotFound, AStr d])
            | Some c \<Rightarrow> (case fe_Open e of Some err \<Rightarrow> Inl err | None \<Rightarrow> Inr c)))"

definition FS_Has :: "FS \<Rightarrow> fs_env \<Rightarrow> digest \<Rightarrow> files \<Rightarrow> bool result" where
  "FS_Has f e d files =
     (case fe_Ctx e of
        Some err \<Rightarrow> Inl err
      | None \<Rightarrow>
          bindR (FS_path f d) (\<lambda>p.
            if \<not> has_key files p then Inr False
            else (case fe_Stat e of Some err \<Rightarrow> Inl err | None \<Rightarrow> Inr True)))"

definition FS_Stat :: "FS \<Rightarrow> fs_env \<Rightarrow> digest \<Rightarrow> files \<Rightarrow> int result" where
  "FS_Stat f e d files =
     (case fe_Ctx e of
        Some err \<Rightarrow> Inl err
      | None \<Rightarrow>
          bindR (FS_path f d) (\<lambda>p.
            case map_of files p of
              None \<Rightarrow> Inl (Sprintf ''%w: %s'' [AErr ErrNotFound, AStr d])
            | Some c \<Rightarrow> (case fe_Stat e of Some err \<Rightarrow> Inl err | None \<Rightarrow> Inr (int (length c)))))"

text \<open>A negative limit reads the whole blob.\<close>

definition GetBytes :: "(digest \<Rightarrow> string result) \<Rightarrow> digest \<Rightarrow> int \<Rightarrow> string result" where
  "GetBytes get d limit =
     bindR (get d) (\<lambda>c. Inr (if limit \<ge> 0 then take (nat limit) c else c))"

section \<open>The file system is a store\<close>

definition fs_blobs :: "FS \<Rightarrow> files \<Rightarrow> digest \<Rightarrow> string option" where
  "fs_blobs f files d = (case FS_path f d of Inr p \<Rightarrow> map_of files p | Inl _ \<Rightarrow> None)"

text \<open>Every blob hashes to the name it is stored under.\<close>

definition well_stored :: "FS \<Rightarrow> files \<Rightarrow> bool" where
  "well_stored f files = (\<forall>d c. fs_blobs f files d = Some c \<longrightarrow> cas_Compute c = d)"

lemma FS_path_Inr:
  "FS_path f d = Inr p \<longleftrightarrow> cas_Validate d = Inr () \<and>
     p = fs_root f @ ''/'' @ take 2 (Hex d) @ ''/'' @ take 2 (drop 2 (Hex d)) @ ''/'' @ Hex d"
  by (auto simp: FS_path_def bindR_Inr_iff Let_def Join_def)

lemma FS_path_inject: "FS_path f d = Inr p \<Longrightarrow> FS_path f d' = Inr p \<Longrightarrow> d = d'"
proof -
  assume "FS_path f d = Inr p" "FS_path f d' = Inr p"
  then have v: "cas_Validate d = Inr ()" "cas_Validate d' = Inr ()"
    and eq: "take 2 (Hex d) @ ''/'' @ take 2 (drop 2 (Hex d)) @ ''/'' @ Hex d =
      take 2 (Hex d') @ ''/'' @ take 2 (drop 2 (Hex d')) @ ''/'' @ Hex d'"
    by (auto simp: FS_path_Inr)
  have "drop 6 (take 2 (Hex d) @ ''/'' @ take 2 (drop 2 (Hex d)) @ ''/'' @ Hex d) = Hex d"
    if "cas_Validate d = Inr ()" for d
    using Hex_valid [OF that] by simp
  then have "Hex d = Hex d'" using v eq by metis
  then show "d = d'" using Hex_valid [OF v(1)] Hex_valid [OF v(2)] by simp
qed

lemma temp_not_blob: "FS_path f d = Inr p \<Longrightarrow> p \<noteq> temp_path f e"
proof
  assume p: "FS_path f d = Inr p" "p = temp_path f e"
  then have v: "cas_Validate d = Inr ()" by (simp add: FS_path_Inr)
  obtain c h where h: "Hex d = c # h" using Hex_valid [OF v] by (cases "Hex d") auto
  have "lower_hex c" using v h by (auto simp: cas_Validate_ok Hex_def TrimPrefix_def HasPrefix_def)
  moreover have "c = CHR ''.''" using p h by (auto simp: FS_path_Inr temp_path_def Join_def)
  ultimately show False by (simp add: lower_hex_def byte_def)
qed

lemma fs_blobs_update:
  assumes "FS_path f d = Inr p"
  shows "fs_blobs f (AList.update p c files) d' = (if d' = d then Some c else fs_blobs f files d')"
proof (cases "FS_path f d'")
  case (Inr q)
  then have "q = p \<longleftrightarrow> d' = d" using assms FS_path_inject by auto
  then show ?thesis using Inr by (simp add: fs_blobs_def update_conv')
qed (use assms in \<open>auto simp: fs_blobs_def\<close>)

lemma fs_blobs_temp:
  "fs_blobs f (AList.update (temp_path f e) c files) = fs_blobs f files"
  "fs_blobs f (AList.delete (temp_path f e) files) = fs_blobs f files"
  using temp_not_blob by (fastforce simp: fs_blobs_def fun_eq_iff update_conv' delete_conv' split: sum.splits)+

text \<open>What a commit, and so a put, does to the blobs.\<close>

lemma FS_commit_blobs:
  assumes "FS_commit f e c files = (r, files')" and "map_of files (temp_path f e) = Some c"
  shows "(fs_blobs f files' = fs_blobs f files \<or> fs_blobs f files' = (fs_blobs f files)(cas_Compute c \<mapsto> c)) \<and>
    (\<forall>d. r = Inr d \<longrightarrow> d = cas_Compute c \<and> fs_blobs f files' d \<noteq> None) \<and>
    (\<forall>err. r = Inl err \<longrightarrow> fs_blobs f files' = fs_blobs f files)"
proof -
  obtain p where p: "FS_path f (cas_Compute c) = Inr p" by (simp add: FS_path_def Let_def)
  have "fs_blobs f (AList.update p c (AList.delete (temp_path f e) files)) =
      (fs_blobs f files)(cas_Compute c \<mapsto> c)"
    using fs_blobs_update [OF p] by (simp add: fs_blobs_temp fun_eq_iff)
  moreover have "has_key files p \<Longrightarrow> fs_blobs f files (cas_Compute c) \<noteq> None"
    using p by (simp add: fs_blobs_def has_key_def)
  ultimately show ?thesis
    using assms p
    by (auto simp: FS_commit_def Let_def lookup_or_def split: if_splits option.splits)
qed

lemma FS_Put_blobs:
  assumes "FS_Put f e c files = (r, files')"
  shows "(fs_blobs f files' = fs_blobs f files \<or> fs_blobs f files' = (fs_blobs f files)(cas_Compute c \<mapsto> c)) \<and>
    (\<forall>d. r = Inr d \<longrightarrow> d = cas_Compute c \<and> fs_blobs f files' d \<noteq> None) \<and>
    (\<forall>err. r = Inl err \<longrightarrow> fs_blobs f files' = fs_blobs f files)"
proof -
  let ?files1 = "AList.update (temp_path f e) c files"
  obtain r1 files2 where commit: "FS_commit f e c ?files1 = (r1, files2)"
    by (cases "FS_commit f e c ?files1")
  from FS_commit_blobs [OF commit] show ?thesis
    using assms commit
    by (auto simp: FS_Put_def Let_def fs_blobs_temp update_conv' split: option.splits if_splits)
qed

interpretation fs_store: blob_store "FS_Put f" "FS_Get f" "fs_blobs f" "well_stored f" for f
proof unfold_locales
  fix s :: files and e c r s'
  assume ok: "well_stored f s" and put: "FS_Put f e c s = (r, s')"
  note b = FS_Put_blobs [OF put]
  show "well_stored f s'"
  proof -
    have "fs_blobs f s' = fs_blobs f s \<or> fs_blobs f s' = (fs_blobs f s)(cas_Compute c \<mapsto> c)" using b by blast
    then show ?thesis using ok by (auto simp: well_stored_def split: if_splits)
  qed
  show "d \<noteq> cas_Compute c \<Longrightarrow> fs_blobs f s' d = fs_blobs f s d" for d using b by fastforce
  show "fs_blobs f s' (cas_Compute c) = fs_blobs f s (cas_Compute c) \<or> fs_blobs f s' (cas_Compute c) = Some c"
    using b by fastforce
next
  fix s :: files and e c d s'
  show "FS_Put f e c s = (Inr d, s') \<Longrightarrow> d = cas_Compute c \<and> fs_blobs f s' d \<noteq> None"
    by (drule FS_Put_blobs) blast
next
  fix s :: files and e c err s'
  show "FS_Put f e c s = (Inl err, s') \<Longrightarrow> fs_blobs f s' = fs_blobs f s"
    by (drule FS_Put_blobs) blast
next
  fix e d s c
  show "FS_Get f e d s = Inr c \<Longrightarrow> fs_blobs f s d = Some c"
    by (auto simp: FS_Get_def fs_blobs_def bindR_Inr_iff split: option.splits)
next
  fix s :: files and d c
  show "well_stored f s \<Longrightarrow> fs_blobs f s d = Some c \<Longrightarrow> cas_Compute c = d"
    by (simp add: well_stored_def)
qed

section \<open>Properties\<close>

text \<open>The abstract store: a map from digests to contents, in which a content is added once.\<close>

definition content_put :: "string \<Rightarrow> (digest \<rightharpoonup> string) \<Rightarrow> (digest \<rightharpoonup> string)" where
  "content_put c m = (if cas_Compute c \<in> dom m then m else m(cas_Compute c \<mapsto> c))"

lemma FS_commit_content:
  assumes "FS_commit f e c files = (Inr d, files')" and "map_of files (temp_path f e) = Some c"
    and "fe_Stat e = None"
  shows "fs_blobs f files' = content_put c (fs_blobs f files)"
proof -
  obtain p where p: "FS_path f (cas_Compute c) = Inr p" by (simp add: FS_path_def Let_def)
  have dom: "cas_Compute c \<in> dom (fs_blobs f files) \<longleftrightarrow> has_key files p"
    using p by (auto simp: fs_blobs_def has_key_def)
  have upd: "fs_blobs f (AList.update p c (AList.delete (temp_path f e) files)) =
      (fs_blobs f files)(cas_Compute c \<mapsto> c)"
    using fs_blobs_update [OF p] by (simp add: fs_blobs_temp fun_eq_iff)
  show ?thesis
    using assms p dom upd
    by (auto simp: FS_commit_def content_put_def Let_def lookup_or_def split: if_splits option.splits)
qed

lemma FS_Put_content:
  assumes "FS_Put f e c files = (Inr d, files')" and "fe_Stat e = None"
  shows "fs_blobs f files' = content_put c (fs_blobs f files)"
proof -
  let ?files1 = "AList.update (temp_path f e) c files"
  obtain r1 files2 where commit: "FS_commit f e c ?files1 = (r1, files2)"
    by (cases "FS_commit f e c ?files1")
  have "r1 = Inr d" "files' = AList.delete (temp_path f e) files2"
    using assms(1) commit by (auto simp: FS_Put_def Let_def split: option.splits if_splits)
  then show ?thesis
    using FS_commit_content [of f e c ?files1 d files2] commit assms(2)
    by (simp add: fs_blobs_temp update_conv')
qed

text \<open>
  C38. The file system implements a content map.  Whatever system calls fail, a put either fails and
  changes no blob, or returns the digest of its content; unless the existence check itself failed, the
  blobs are then those of the abstract store after the same put.  Every blob still hashes to its name,
  and a read that is not interrupted returns the content the abstract store holds, or the
  not-found error where it holds none.
\<close>

theorem blob_store_refines_content_map:
  assumes "well_stored f files" and "FS_Put f e c files = (r, files')"
    and "fe_Stat e = None" and "fe_Ctx e' = None" and "fe_Open e' = None" and "cas_Validate d' = Inr ()"
  shows "(case r of
      Inl _ \<Rightarrow> fs_blobs f files' = fs_blobs f files
    | Inr d \<Rightarrow> d = cas_Compute c \<and> fs_blobs f files' = content_put c (fs_blobs f files)) \<and>
    well_stored f files' \<and>
    FS_Get f e' d' files' = (case fs_blobs f files' d' of
      Some b \<Rightarrow> Inr b
    | None \<Rightarrow> Inl (Sprintf ''%w: %s'' [AErr ErrNotFound, AStr d']))"
proof -
  have "FS_Get f e' d' files' = (case fs_blobs f files' d' of
      Some b \<Rightarrow> Inr b
    | None \<Rightarrow> Inl (Sprintf ''%w: %s'' [AErr ErrNotFound, AStr d']))"
    using assms(4-6) by (simp add: FS_Get_def fs_blobs_def FS_path_def Let_def split: option.split)
  moreover have "case r of
      Inl _ \<Rightarrow> fs_blobs f files' = fs_blobs f files
    | Inr d \<Rightarrow> d = cas_Compute c \<and> fs_blobs f files' = content_put c (fs_blobs f files)"
    using FS_Put_blobs [OF assms(2)] FS_Put_content [of f e c files _ files'] assms(2,3)
    by (cases r) simp_all
  ultimately show ?thesis using fs_store.put_ok [OF assms(1,2)] by blast
qed

definition ex_env :: fs_env where
  "ex_env = \<lparr> fe_Ctx = None, fe_MkdirAll = None, fe_CreateTemp = None, fe_Copy = None, fe_Sync = None,
     fe_Close = None, fe_Stat = None, fe_Rename = None, fe_Open = None, fe_TempName = ''1'' \<rparr>"

definition ex_fs :: FS where "ex_fs = \<lparr> fs_root = ''/blobs'' \<rparr>"

lemma ex_put: "fst (FS_Put ex_fs ex_env c []) = Inr (cas_Compute c)"
proof -
  obtain p where p: "FS_path ex_fs (cas_Compute c) = Inr p" by (simp add: FS_path_def Let_def)
  then have "p \<noteq> temp_path ex_fs ex_env" by (rule temp_not_blob)
  then show ?thesis
    using p by (simp add: FS_Put_def FS_commit_def ex_env_def has_key_def Let_def)
qed

lemma well_stored_empty: "well_stored f []"
  by (simp add: well_stored_def fs_blobs_def split: sum.splits)

theorem blob_store_refines_content_map_witness:
  "fs_blobs ex_fs (snd (FS_Put ex_fs ex_env ''x'' [])) = [cas_Compute ''x'' \<mapsto> ''x''] \<and>
   FS_Get ex_fs ex_env (cas_Compute ''x'') (snd (FS_Put ex_fs ex_env ''x'' [])) = Inr ''x''"
proof -
  obtain files' where put: "FS_Put ex_fs ex_env ''x'' [] = (Inr (cas_Compute ''x''), files')"
    using ex_put [of "''x''"] by (metis prod.collapse)
  have "fs_blobs ex_fs [] = Map.empty" by (simp add: fs_blobs_def fun_eq_iff split: sum.splits)
  then show ?thesis
    using blob_store_refines_content_map [OF well_stored_empty put, of ex_env "cas_Compute ''x''"] put
    by (simp add: ex_env_def content_put_def)
qed

text \<open>
  A blob can always be read back.  After a successful put and any further puts of any contents,
  with any system calls failing in them, a successful read of the returned digest yields a content
  with the same hash as the one put: nothing overwrites, truncates or mixes up a stored blob.
\<close>

theorem blob_survives_any_history:
  assumes "well_stored f files" and "FS_Put f e c files = (Inr d, files')"
    and "FS_Get f e' d (puts (FS_Put f) history files') = Inr c'"
  shows "cas_Compute c' = cas_Compute c"
  using assms by (rule fs_store.put_get)

theorem blob_survives_any_history_witness:
  "cas_Compute (projr (FS_Get ex_fs ex_env (cas_Compute ''x'')
     (puts (FS_Put ex_fs) [(ex_env, ''y'')] (snd (FS_Put ex_fs ex_env ''x'' []))))) = cas_Compute ''x''"
proof -
  obtain files' where put: "FS_Put ex_fs ex_env ''x'' [] = (Inr (cas_Compute ''x''), files')"
    using ex_put [of "''x''"] by (metis prod.collapse)
  let ?files = "puts (FS_Put ex_fs) [(ex_env, ''y'')] files'"
  have ok: "well_stored ex_fs files'" using fs_store.put_ok [OF well_stored_empty put] .
  have "fs_blobs ex_fs files' (cas_Compute ''x'') \<noteq> None"
    using fs_store.put_stored [OF well_stored_empty put] by blast
  then obtain b where "fs_blobs ex_fs files' (cas_Compute ''x'') = Some b" by blast
  then obtain c' where "fs_blobs ex_fs ?files (cas_Compute ''x'') = Some c'"
    using fs_store.puts_keep [OF ok] by blast
  then have "FS_Get ex_fs ex_env (cas_Compute ''x'') ?files = Inr c'"
    by (auto simp: FS_Get_def fs_blobs_def ex_env_def split: sum.splits)
  from blob_survives_any_history [OF well_stored_empty put this] this put show ?thesis by simp
qed

end
