(* ===== verification/Utf8.thy ===== *)
theory Utf8
  imports Prelude
begin

text \<open>
  UTF-8 as Go decodes it: what \<open>encoding/json\<close> makes of a string that is not valid UTF-8.  A byte that
  begins no well-formed sequence is written as U+FFFD, the replacement character, and decoding goes on
  behind it.
\<close>

section \<open>Decoding\<close>

definition in_range :: "nat \<Rightarrow> nat \<Rightarrow> nat \<Rightarrow> string \<Rightarrow> bool" where
  "in_range lo hi i s = (i < length s \<and> lo \<le> byte (s ! i) \<and> byte (s ! i) \<le> hi)"

definition continuation :: "nat \<Rightarrow> string \<Rightarrow> bool" where
  "continuation i s = in_range 128 191 i s"

text \<open>How many bytes of \<open>s\<close> belong to the sequence that \<open>c\<close> begins; \<open>None\<close> if there is none.\<close>

definition rune_tail :: "char \<Rightarrow> string \<Rightarrow> nat option" where
  "rune_tail c s =
     (let b = byte c in
      if b < 128 then Some 0
      else if 194 \<le> b \<and> b \<le> 223 \<and> continuation 0 s then Some 1
      else if 224 \<le> b \<and> b \<le> 239 \<and>
              in_range (if b = 224 then 160 else 128) (if b = 237 then 159 else 191) 0 s \<and> continuation 1 s then Some 2
      else if 240 \<le> b \<and> b \<le> 244 \<and>
              in_range (if b = 240 then 144 else 128) (if b = 244 then 143 else 191) 0 s \<and>
              continuation 1 s \<and> continuation 2 s then Some 3
      else None)"

definition replacement :: string where
  "replacement = [char_of (239::nat), char_of (191::nat), char_of (189::nat)]"

fun valid_utf8 :: "string \<Rightarrow> bool" where
  "valid_utf8 [] = True"
| "valid_utf8 (c # s) = (case rune_tail c s of Some n \<Rightarrow> valid_utf8 (drop n s) | None \<Rightarrow> False)"

text \<open>A string through the JSON encoder and decoder.\<close>

fun coerce_utf8 :: "string \<Rightarrow> string" where
  "coerce_utf8 [] = []"
| "coerce_utf8 (c # s) =
     (case rune_tail c s of
        Some n \<Rightarrow> c # take n s @ coerce_utf8 (drop n s)
      | None \<Rightarrow> replacement @ coerce_utf8 s)"

section \<open>What is kept\<close>

lemma coerce_valid: "valid_utf8 s \<Longrightarrow> coerce_utf8 s = s"
  by (induction s rule: valid_utf8.induct) (auto split: option.splits)

definition ascii :: "string \<Rightarrow> bool" where
  "ascii s = (\<forall>c \<in> set s. byte c < 128)"

lemma ascii_valid: "ascii s \<Longrightarrow> valid_utf8 s"
  by (induction s) (simp_all add: ascii_def rune_tail_def)

lemma coerce_ascii [simp]: "ascii s \<Longrightarrow> coerce_utf8 s = s"
  by (simp add: ascii_valid coerce_valid)

lemma byte_replacement: "c \<in> set replacement \<Longrightarrow> 128 \<le> byte c"
  by (auto simp: replacement_def byte_def)

text \<open>What comes out as ASCII went in as it is.\<close>

lemma coerce_to_ascii: "ascii (coerce_utf8 s) \<Longrightarrow> coerce_utf8 s = s"
proof (induction s rule: coerce_utf8.induct)
  case (2 c s)
  show ?case
  proof (cases "rune_tail c s")
    case None
    then have "hd replacement \<in> set (coerce_utf8 (c # s))" by (simp add: replacement_def)
    then show ?thesis
      using 2(3) byte_replacement [of "hd replacement"] by (fastforce simp: ascii_def replacement_def)
  next
    case (Some n)
    then show ?thesis using 2 by (auto simp: ascii_def)
  qed
qed simp

lemma coerce_eq_ascii: "ascii k \<Longrightarrow> coerce_utf8 s = k \<longleftrightarrow> s = k"
  using coerce_to_ascii [of s] by auto

text \<open>Bytes of no text do not come back.\<close>

lemma coerce_changes: "\<not> valid_utf8 s \<Longrightarrow> length s < length (coerce_utf8 s)"
proof (induction s rule: valid_utf8.induct)
  case (2 c s)
  have le: "length t \<le> length (coerce_utf8 t)" for t
    by (induction t rule: coerce_utf8.induct) (auto simp: replacement_def min_def split: option.splits)
  show ?case
  proof (cases "rune_tail c s")
    case None
    then show ?thesis using le [of s] by (simp add: replacement_def)
  next
    case (Some n)
    then have "length (drop n s) < length (coerce_utf8 (drop n s))" using 2 by simp
    moreover from Some have "drop n s \<noteq> []" using "2.prems" by (cases "drop n s") simp_all
    ultimately show ?thesis using Some by (auto simp: min_def)
  qed
qed simp

lemma coerce_id_iff: "coerce_utf8 s = s \<longleftrightarrow> valid_utf8 s"
  using coerce_changes [of s] coerce_valid [of s] by (cases "valid_utf8 s") auto

text \<open>A compressed body begins like this.\<close>

lemma gzip_is_no_text: "\<not> valid_utf8 (char_of (31::nat) # char_of (139::nat) # s)"
  by (simp add: rune_tail_def byte_def in_range_def Let_def)

end
