(* ===== verification/Writer.thy ===== *)
theory Writer
  imports Cassette Redact Cas Utf8
begin

text \<open>
  \<open>internal/cassette/writer.go\<close>: the writer of a cassette, one line for the header and one per
  span, with credentials removed and large payloads moved to the blob store, and the resolution of a
  payload by the reader (\<open>reader.go\<close>).  The file is the list of its lines.  What \<open>encoding/json\<close>
  makes of a header or a span is a parameter, as is what each write to the file reports; the store is
  the interface \<open>blob\_store\<close> of the theory Cas.
\<close>

definition InlineThreshold :: int where "InlineThreshold = 4096"

definition AttrSchemaVersion :: string where "AttrSchemaVersion = ''waveoff.schema_version''"
definition AttrKind :: string where "AttrKind = ''waveoff.kind''"
definition AttrRedacted :: string where "AttrRedacted = ''waveoff.redacted''"
definition AttrRequestBody :: string where "AttrRequestBody = ''waveoff.request.body''"
definition AttrRequestRef :: string where "AttrRequestRef = ''waveoff.request.body_ref''"
definition AttrRequestBytes :: string where "AttrRequestBytes = ''waveoff.request.bytes''"
definition AttrResponseBody :: string where "AttrResponseBody = ''waveoff.response.body''"
definition AttrResponseRef :: string where "AttrResponseRef = ''waveoff.response.body_ref''"
definition AttrResponseBytes :: string where "AttrResponseBytes = ''waveoff.response.bytes''"

record encoder =
  enc_header :: "Header \<Rightarrow> string result"
  enc_span :: "Span \<Rightarrow> string result"

text \<open>
  \<open>cw\_offload\<close> is whether a blob store was given.  A write that fails may have left part of its line
  in the file; a \<open>json.Encoder\<close> remembers the error and returns it from then on.
\<close>

type_synonym failure = "(string \<times> msg) option"

record Writer =
  cw_out :: "string list"
  cw_encErr :: "msg option"
  cw_offload :: bool
  cw_redactor :: Redactor
  cw_threshold :: int
  cw_wroteHeader :: bool
  cw_nextStep :: int

definition NewWriter :: "string list \<Rightarrow> bool \<Rightarrow> Redactor \<Rightarrow> Writer" where
  "NewWriter out blobs redactor =
     \<lparr> cw_out = out, cw_encErr = None, cw_offload = blobs, cw_redactor = redactor,
       cw_threshold = InlineThreshold, cw_wroteHeader = False, cw_nextStep = 0 \<rparr>"

definition Encode :: "string result \<Rightarrow> failure \<Rightarrow> Writer \<Rightarrow> msg option \<times> Writer" where
  "Encode line io w =
     (case cw_encErr w of
        Some e \<Rightarrow> (Some e, w)
      | None \<Rightarrow>
          (case line of
             Inl e \<Rightarrow> (Some e, w)
           | Inr l \<Rightarrow>
               (case io of
                  Some (torn, e) \<Rightarrow> (Some e, w\<lparr>cw_encErr := Some e, cw_out := cw_out w @ [torn]\<rparr>)
                | None \<Rightarrow> (None, w\<lparr>cw_out := cw_out w @ [l]\<rparr>))))"

definition WriteHeader :: "encoder \<Rightarrow> failure \<Rightarrow> Header \<Rightarrow> Writer \<Rightarrow> msg option \<times> Writer" where
  "WriteHeader E io h w =
     (if cw_wroteHeader w then (Some (Text ''cassette: header already written''), w)
      else (case Encode (enc_header E (h\<lparr>hd_SchemaVersion := SchemaVersion\<rparr>)) io w of
              (Some e, w1) \<Rightarrow> (Some (Sprintf ''cassette: write header: %w'' [AErr e]), w1)
            | (None, w1) \<Rightarrow> (None, w1\<lparr>cw_wroteHeader := True\<rparr>)))"

definition AdoptHeader :: "Writer \<Rightarrow> msg option \<times> Writer" where
  "AdoptHeader w =
     (if cw_wroteHeader w then (Some (Text ''cassette: header already written''), w)
      else (None, w\<lparr>cw_wroteHeader := True\<rparr>))"

type_synonym attributes = "(string \<times> json) list"

fun payloadBytes :: "json \<Rightarrow> string option" where
  "payloadBytes (JBytes b) = Some b"
| "payloadBytes (JStr s) = Some s"
| "payloadBytes _ = None"

text \<open>Only a \<open>[]string\<close> counts as the labels that are there already.\<close>

fun add_label :: "string \<Rightarrow> string list \<Rightarrow> string list" where
  "add_label s out = (if s \<in> set out then out else out @ [s])"

definition mergeLabels :: "json \<Rightarrow> string list \<Rightarrow> string list" where
  "mergeLabels existing add =
     fold add_label ((case existing of JStrs prev \<Rightarrow> prev | _ \<Rightarrow> []) @ add) []"

definition handlePayload ::
    "Writer \<Rightarrow> (string \<Rightarrow> 's \<Rightarrow> digest result \<times> 's) \<Rightarrow> string \<Rightarrow> string \<Rightarrow> string \<Rightarrow> attributes \<Rightarrow> 's
     \<Rightarrow> msg option \<times> attributes \<times> 's" where
  "handlePayload w put bodyKey refKey sizeKey a st =
     (case payloadBytes (jfield bodyKey a) of
        None \<Rightarrow> (None, a, st)
      | Some raw \<Rightarrow>
          (case Redactor_Body (cw_redactor w) raw of
             (clean, fired) \<Rightarrow>
               let a1 = (if fired = [] then a
                         else AList.update AttrRedacted (JStrs (mergeLabels (jfield AttrRedacted a) fired)) a);
                   a2 = AList.update sizeKey (JInt (int (length clean))) a1
               in if \<not> cw_offload w \<or> cw_threshold w \<le> 0 \<or> int (length clean) \<le> cw_threshold w
                  then (None, AList.update bodyKey (JStr clean) a2, st)
                  else (case put clean st of
                          (Inl e, st1) \<Rightarrow> (Some (Sprintf ''cassette: offload payload: %w'' [AErr e]), a2, st1)
                        | (Inr d, st1) \<Rightarrow> (None, AList.update refKey (JStr d) (AList.delete bodyKey a2), st1))))"

text \<open>A span that is a step and carries no index is given the next one.\<close>

definition number_span :: "Span \<Rightarrow> Writer \<Rightarrow> Span \<times> Writer" where
  "number_span s w =
     (if span_Kind s \<noteq> KindSession \<and> StepIndex s = None
      then (s\<lparr>span_Attributes := AList.update AttrStepIndex (JInt (cw_nextStep w)) (span_Attributes s)\<rparr>,
            w\<lparr>cw_nextStep := cw_nextStep w + 1\<rparr>)
      else (s, w))"

definition label_span :: "Span \<Rightarrow> Span" where
  "label_span s =
     s\<lparr>span_Attributes :=
         AList.update AttrKind (JStr (Kind_string (span_Kind s)))
           (AList.update AttrSchemaVersion (JStr SchemaVersion) (span_Attributes s))\<rparr>"

text \<open>
  The span is changed in place, so it is returned as well.  The system calls of the two puts are told
  apart by the payload they belong to.
\<close>

definition WriteSpan ::
    "encoder \<Rightarrow> failure \<Rightarrow> ('e \<Rightarrow> string \<Rightarrow> 's \<Rightarrow> digest result \<times> 's) \<Rightarrow> (string \<Rightarrow> 'e) \<Rightarrow> Span \<Rightarrow> Writer \<Rightarrow> 's
     \<Rightarrow> msg option \<times> Span \<times> Writer \<times> 's" where
  "WriteSpan E io put e s w st =
     (if \<not> cw_wroteHeader w
      then (Some (Text ''cassette: WriteHeader must be called first''), s, w, st)
      else (case number_span (label_span s) w of (s1, w1) \<Rightarrow>
           (case handlePayload w1 (put (e AttrRequestBody)) AttrRequestBody AttrRequestRef AttrRequestBytes
                   (span_Attributes s1) st of
              (Some err, a, st1) \<Rightarrow> (Some err, s1\<lparr>span_Attributes := a\<rparr>, w1, st1)
            | (None, a, st1) \<Rightarrow>
           (case handlePayload w1 (put (e AttrResponseBody)) AttrResponseBody AttrResponseRef AttrResponseBytes
                   a st1 of
              (Some err, a', st2) \<Rightarrow> (Some err, s1\<lparr>span_Attributes := a'\<rparr>, w1, st2)
            | (None, a', st2) \<Rightarrow>
           (let s2 = s1\<lparr>span_Attributes := a'\<rparr>
            in case Encode (enc_span E s2) io w1 of
                 (Some err, w2) \<Rightarrow> (Some (Sprintf ''cassette: write span: %w'' [AErr err]), s2, w2, st2)
               | (None, w2) \<Rightarrow> (None, s2, w2, st2))))))"

section \<open>Reading a payload\<close>

definition Payload :: "(digest \<Rightarrow> string result) option \<Rightarrow> Span \<Rightarrow> string \<Rightarrow> string \<Rightarrow> string result" where
  "Payload blobs s bodyKey refKey =
     (case map_of (span_Attributes s) bodyKey of
        Some v \<Rightarrow> Inr (case payloadBytes v of Some b \<Rightarrow> b | None \<Rightarrow> [])
      | None \<Rightarrow>
          (case BodyRef s refKey of
             None \<Rightarrow> Inr []
           | Some ref \<Rightarrow>
               (case blobs of
                  None \<Rightarrow> Inl (Sprintf ''cassette: payload %s is in the blob store, but no store was provided''
                                 [AStr (cas_Short ref 12)])
                | Some get \<Rightarrow>
                    (case GetBytes get ref (-1) of
                       Inl e \<Rightarrow> Inl (Sprintf ''cassette: resolve payload %s: %w'' [AStr (cas_Short ref 12), AErr e])
                     | Inr body \<Rightarrow> Inr body))))"

section \<open>What a line reads back as\<close>

text \<open>
  Decoding what was encoded: a number becomes a float, a list of strings an array, bytes a text in
  base 64, and a map its entries in the order of their keys.  The encoder coerces every string to valid
  UTF-8, keys included, and of two keys that become one the decoder keeps the later value.
\<close>

definition b64_char :: "nat \<Rightarrow> char" where
  "b64_char n =
     (if n < 26 then char_of (65 + n) else if n < 52 then char_of (71 + n)
      else if n < 62 then char_of (n - 4) else if n = 62 then CHR ''+'' else CHR ''/'')"

fun base64 :: "string \<Rightarrow> string" where
  "base64 [] = []"
| "base64 [a] = [b64_char (byte a div 4), b64_char (byte a mod 4 * 16), CHR ''='', CHR ''='']"
| "base64 [a, b] =
     [b64_char (byte a div 4), b64_char (byte a mod 4 * 16 + byte b div 16), b64_char (byte b mod 16 * 4), CHR ''='']"
| "base64 (a # b # c # s) =
     b64_char (byte a div 4) # b64_char (byte a mod 4 * 16 + byte b div 16) #
     b64_char (byte b mod 16 * 4 + byte c div 64) # b64_char (byte c mod 64) # base64 s"

definition decoded_map :: "(string \<times> json) list \<Rightarrow> (string \<times> json) list" where
  "decoded_map m = fold (\<lambda>(k, v). AList.update (coerce_utf8 k) v) (sort_key fst m) []"

fun wire :: "json \<Rightarrow> json" where
  "wire (JInt i) = JFloat (of_int64 i)"
| "wire (JArr xs) = JArr (map wire xs)"
| "wire (JObj m) = JObj (decoded_map (map (\<lambda>(k, v). (k, wire v)) m))"
| "wire (JStr s) = JStr (coerce_utf8 s)"
| "wire (JStrs ss) = JArr (map (\<lambda>s. JStr (coerce_utf8 s)) ss)"
| "wire (JBytes b) = JStr (base64 b)"
| "wire v = v"

definition wire_span :: "Span \<Rightarrow> Span" where
  "wire_span s =
     \<lparr> span_TraceID = coerce_utf8 (span_TraceID s), span_SpanID = coerce_utf8 (span_SpanID s),
       span_ParentID = coerce_utf8 (span_ParentID s), span_Name = coerce_utf8 (span_Name s), span_Kind = span_Kind s,
       span_StartTime = span_StartTime s, span_EndTime = span_EndTime s,
       span_Attributes = decoded_map (map (\<lambda>(k, v). (k, wire v)) (span_Attributes s)),
       span_Status = \<lparr> status_Code = coerce_utf8 (status_Code (span_Status s)),
                       status_Message = coerce_utf8 (status_Message (span_Status s)) \<rparr> \<rparr>"

text \<open>The two laws of the codec, for one header and one span.\<close>

definition header_reads_back :: "encoder \<Rightarrow> codec \<Rightarrow> Header \<Rightarrow> bool" where
  "header_reads_back E J h = (case enc_header E h of Inr l \<Rightarrow> dec_header J l = Inr h | Inl _ \<Rightarrow> True)"

definition span_reads_back :: "encoder \<Rightarrow> codec \<Rightarrow> Span \<Rightarrow> bool" where
  "span_reads_back E J s =
     (case enc_span E s of Inr l \<Rightarrow> l \<noteq> [] \<and> dec_span J l = Inr (wire_span s) | Inl _ \<Rightarrow> True)"

section \<open>Attributes through the writer and the wire\<close>

lemma map_of_sort_key: "distinct (map fst m) \<Longrightarrow> map_of (sort_key fst m) = map_of m"
  by (rule map_of_inject_set [THEN iffD2]) (simp_all add: distinct_map)

lemma map_of_fold_update_pairs:
  assumes "\<And>a. f a = k \<longleftrightarrow> a = k" and "distinct (map fst xs)"
  shows "map_of (fold (\<lambda>(a, v). AList.update (f a) v) xs m) k = (case map_of xs k of Some v \<Rightarrow> Some v | None \<Rightarrow> map_of m k)"
  using assms(2)
proof (induction xs arbitrary: m)
  case (Cons x xs)
  obtain a v where x: "x = (a, v)" by (cases x)
  have "f a = k \<longleftrightarrow> a = k" by (rule assms(1))
  then have new: "map_of (AList.update (f a) v m) k = (if a = k then Some v else map_of m k)"
    by (auto simp: update_conv')
  have "a = k \<Longrightarrow> map_of xs k = None" using Cons.prems by (simp add: x map_of_eq_None_iff)
  then show ?case using Cons new by (auto simp: x split: option.split)
qed simp

lemma map_of_decoded_map:
  assumes "distinct (map fst m)" and "ascii k"
  shows "map_of (decoded_map m) k = map_of m k"
proof -
  have "distinct (map fst (sort_key fst m))" using assms(1) by (simp add: distinct_map)
  from map_of_fold_update_pairs [of coerce_utf8 k, OF coerce_eq_ascii [OF assms(2)] this, of "[]"]
  show ?thesis by (simp add: decoded_map_def map_of_sort_key assms(1) split: option.split)
qed

lemma map_of_wire:
  assumes "distinct (map fst (span_Attributes s))" and "ascii k"
  shows "map_of (span_Attributes (wire_span s)) k = map_option wire (map_of (span_Attributes s) k)"
proof -
  have "distinct (map fst (map (\<lambda>(k, v). (k, wire v)) (span_Attributes s)))"
    using assms(1) by (simp add: comp_def case_prod_beta)
  then have "map_of (span_Attributes (wire_span s)) k = map_of (map (\<lambda>(k, v). (k, wire v)) (span_Attributes s)) k"
    by (simp add: wire_span_def map_of_decoded_map assms(2))
  then show ?thesis by (simp add: map_of_map)
qed

lemma ascii_keys [simp]:
  "ascii AttrRequestBody" "ascii AttrRequestRef" "ascii AttrResponseBody" "ascii AttrResponseRef"
  "ascii AttrStepIndex" "ascii AttrRequestHash"
  by code_simp+

lemma ascii_cas_Compute [simp]: "ascii (cas_Compute s)"
proof -
  have "ascii ''sha256:''" by code_simp
  then show ?thesis using hex_digits by (fastforce simp: cas_Compute_def ascii_def lower_hex_def)
qed

section \<open>What one call writes\<close>

lemma Encode_None:
  "Encode line io w = (None, w') \<longleftrightarrow>
     cw_encErr w = None \<and> io = None \<and> (\<exists>l. line = Inr l \<and> w' = w\<lparr>cw_out := cw_out w @ [l]\<rparr>)"
  by (auto simp: Encode_def split: option.splits sum.splits)

lemma Encode_out: "Encode line io w = (r, w') \<Longrightarrow>
    (\<exists>ls. cw_out w' = cw_out w @ ls) \<and> cw_wroteHeader w' = cw_wroteHeader w \<and>
    cw_nextStep w' = cw_nextStep w \<and> cw_redactor w' = cw_redactor w"
  by (auto simp: Encode_def split: option.splits sum.splits)

lemma number_span_frame:
  "number_span s w = (s', w') \<Longrightarrow>
     cw_out w' = cw_out w \<and> cw_encErr w' = cw_encErr w \<and> cw_wroteHeader w' = cw_wroteHeader w \<and>
     cw_redactor w' = cw_redactor w \<and> cw_offload w' = cw_offload w \<and> cw_threshold w' = cw_threshold w \<and>
     span_Kind s' = span_Kind s"
  by (auto simp: number_span_def split: if_splits)

lemma WriteSpan_None:
  assumes "WriteSpan E io put e s w st = (None, s', w', st')"
  obtains s1 w1 a st1 a' line where
    "cw_wroteHeader w" and "number_span (label_span s) w = (s1, w1)"
    and "handlePayload w1 (put (e AttrRequestBody)) AttrRequestBody AttrRequestRef AttrRequestBytes
           (span_Attributes s1) st = (None, a, st1)"
    and "handlePayload w1 (put (e AttrResponseBody)) AttrResponseBody AttrResponseRef AttrResponseBytes a st1
           = (None, a', st')"
    and "s' = s1\<lparr>span_Attributes := a'\<rparr>" and "enc_span E s' = Inr line"
    and "w' = w1\<lparr>cw_out := cw_out w @ [line]\<rparr>" and "cw_encErr w = None" and "io = None"
proof -
  obtain s1 w1 where n: "number_span (label_span s) w = (s1, w1)" by (cases "number_span (label_span s) w")
  show ?thesis
    using assms n number_span_frame [OF n] that [of s1 w1]
    by (auto simp: WriteSpan_def Let_def Encode_None split: if_splits prod.splits option.splits)
qed

lemma WriteSpan_out:
  assumes "WriteSpan E io put e s w st = (r, s', w', st')"
  shows "(\<exists>ls. cw_out w' = cw_out w @ ls) \<and> cw_wroteHeader w' = cw_wroteHeader w \<and> cw_redactor w' = cw_redactor w"
proof -
  obtain s1 w1 where n: "number_span (label_span s) w = (s1, w1)" by (cases "number_span (label_span s) w")
  show ?thesis
    using assms n number_span_frame [OF n]
    by (auto simp: WriteSpan_def Let_def split: if_splits prod.splits option.splits dest: Encode_out)
qed

lemma Encode_err: "Encode line io w = (r, w') \<Longrightarrow> cw_encErr w' = None \<Longrightarrow>
    cw_encErr w = None \<and> (r \<noteq> None \<longrightarrow> cw_out w' = cw_out w)"
  by (auto simp: Encode_def split: option.splits sum.splits)

lemma WriteSpan_err:
  assumes "WriteSpan E io put e s w st = (r, s', w', st')" and "cw_encErr w' = None"
  shows "cw_encErr w = None \<and> (r \<noteq> None \<longrightarrow> cw_out w' = cw_out w)"
proof -
  obtain s1 w1 where n: "number_span (label_span s) w = (s1, w1)" by (cases "number_span (label_span s) w")
  show ?thesis
    using assms n number_span_frame [OF n]
    by (auto simp: WriteSpan_def Let_def split: if_splits prod.splits option.splits dest: Encode_err)
qed

section \<open>A sequence of calls\<close>

text \<open>The spans a caller writes one after the other, until a call fails.\<close>

fun write_all ::
    "encoder \<Rightarrow> ('e \<Rightarrow> string \<Rightarrow> 's \<Rightarrow> digest result \<times> 's) \<Rightarrow> (failure \<times> (string \<Rightarrow> 'e) \<times> Span) list \<Rightarrow> Writer \<Rightarrow> 's
     \<Rightarrow> msg option \<times> Span list \<times> Writer \<times> 's" where
  "write_all E put [] w st = (None, [], w, st)"
| "write_all E put ((io, e, s) # xs) w st =
     (case WriteSpan E io put e s w st of
        (Some err, _, w1, st1) \<Rightarrow> (Some err, [], w1, st1)
      | (None, s1, w1, st1) \<Rightarrow>
          (case write_all E put xs w1 st1 of (err, ss, w2, st2) \<Rightarrow> (err, s1 # ss, w2, st2)))"

lemma write_all_lines:
  assumes "write_all E put xs w st = (err, ss, w', st')"
  shows "\<exists>lines rest. cw_out w' = cw_out w @ lines @ rest \<and> list_all2 (\<lambda>s l. enc_span E s = Inr l) ss lines \<and>
    (err = None \<longrightarrow> rest = [] \<and> length ss = length xs)"
  using assms
proof (induction xs arbitrary: w st err ss w' st')
  case (Cons x xs)
  obtain io e s where x: "x = (io, e, s)" by (cases x)
  obtain r s1 w1 st1 where w1: "WriteSpan E io put e s w st = (r, s1, w1, st1)"
    by (cases "WriteSpan E io put e s w st")
  show ?case
  proof (cases r)
    case None
    obtain err' ss' w2 st2 where w2: "write_all E put xs w1 st1 = (err', ss', w2, st2)"
      by (cases "write_all E put xs w1 st1")
    obtain line where line: "enc_span E s1 = Inr line" "cw_out w1 = cw_out w @ [line]"
      using w1 None by (auto elim: WriteSpan_None)
    from Cons.IH [OF w2] obtain lines rest where
      "cw_out w2 = cw_out w1 @ lines @ rest" "list_all2 (\<lambda>s l. enc_span E s = Inr l) ss' lines"
      "err' = None \<longrightarrow> rest = [] \<and> length ss' = length xs" by blast
    with line show ?thesis
      using Cons.prems x w1 None w2 by (intro exI [of _ "line # lines"] exI [of _ rest]) auto
  next
    case (Some err')
    then show ?thesis using Cons.prems x w1 WriteSpan_out [OF w1] by auto
  qed
qed simp

section \<open>Reading back\<close>

lemma Next_line:
  assumes "span_reads_back E J s" and "enc_span E s = Inr l"
  shows "Next J \<lparr> sc_lines = l # ls, sc_err = e \<rparr> = NextSpan (wire_span s) \<lparr> sc_lines = ls, sc_err = e \<rparr>"
  using assms by (simp add: Next_def span_reads_back_def)

lemma spans_of_lines:
  assumes "list_all2 (\<lambda>s l. enc_span E s = Inr l) ss lines" and "\<forall>s \<in> set ss. span_reads_back E J s"
  shows "spans_until_break J \<lparr> sc_lines = lines @ rest, sc_err = e \<rparr> =
      map wire_span ss @ spans_until_break J \<lparr> sc_lines = rest, sc_err = e \<rparr>"
  using assms
proof (induction ss lines rule: list_all2_induct)
  case (Cons s ss l ls)
  then show ?case
    using Next_line [of E J s l "ls @ rest" e] by (subst spans_until_break.simps) simp
qed simp

lemma All_of_lines:
  assumes "list_all2 (\<lambda>s l. enc_span E s = Inr l) ss lines" and "\<forall>s \<in> set ss. span_reads_back E J s"
  shows "All J \<lparr> sc_lines = lines, sc_err = None \<rparr> = Inr (map wire_span ss)"
  using assms
proof (induction ss lines rule: list_all2_induct)
  case Nil
  then show ?case by (subst All.simps) (simp add: Next_def)
next
  case (Cons s ss l ls)
  then show ?case using Next_line [of E J s l ls None] by (subst All.simps) simp
qed

text \<open>
  C29. What was written can be read.  After a header and any spans, the file opens with the header that
  was given, under this schema version, and yields the spans that were written, in order.  When a write
  failed, even in the middle of a line, the spans before it are still a readable prefix; when none
  failed, the file reads to its end.
\<close>

theorem cassette_reads_back:
  assumes "WriteHeader E io h (NewWriter [] blobs red) = (None, w0)"
    and "write_all E put xs w0 st = (err, ss, w, st')"
    and "header_reads_back E J (h\<lparr>hd_SchemaVersion := SchemaVersion\<rparr>)"
    and "\<forall>s \<in> set ss. span_reads_back E J s"
  shows "\<exists>rd. NewReader J \<lparr> sc_lines = cw_out w, sc_err = None \<rparr> = Inr rd \<and>
    rd_header rd = h\<lparr>hd_SchemaVersion := SchemaVersion\<rparr> \<and>
    take (length ss) (spans_until_break J (rd_sc rd)) = map wire_span ss \<and>
    (err = None \<longrightarrow> length ss = length xs \<and> All J (rd_sc rd) = Inr (map wire_span ss))"
proof -
  obtain l where l: "enc_header E (h\<lparr>hd_SchemaVersion := SchemaVersion\<rparr>) = Inr l" "cw_out w0 = [l]"
    using assms(1) by (auto simp: WriteHeader_def NewWriter_def Encode_None split: prod.splits option.splits)
  obtain lines rest where out: "cw_out w = l # lines @ rest"
    and lines: "list_all2 (\<lambda>s l. enc_span E s = Inr l) ss lines"
    and ok: "err = None \<longrightarrow> rest = [] \<and> length ss = length xs"
    using write_all_lines [OF assms(2)] l(2) by auto
  note spans = spans_of_lines [OF lines assms(4)] All_of_lines [OF lines assms(4)]
  show ?thesis
    using l(1) assms(3) ok spans by (auto simp: NewReader_def out header_reads_back_def)
qed

text \<open>One session span and one step, with an encoder that knows the two spans it meets.\<close>

definition ex_cassette_header :: Header where
  "ex_cassette_header = \<lparr> hd_SchemaVersion = [], hd_SessionID = ''s1'', hd_TraceID = [], hd_Agent = ''agent'',
     hd_BehaviorDigest = [], hd_ContentDigest = [], hd_RecordedAt = 0, hd_Recorder = ''waveoff-recorder'',
     hd_SourceSession = [], hd_Arm = [] \<rparr>"

definition ex_span :: "string \<Rightarrow> Span" where
  "ex_span body = \<lparr> span_TraceID = [], span_SpanID = [], span_ParentID = [], span_Name = ''chat'',
     span_Kind = KindModel, span_StartTime = 0, span_EndTime = 0,
     span_Attributes = [(AttrRequestBody, JStr body)], span_Status = \<lparr> status_Code = [], status_Message = [] \<rparr> \<rparr>"

definition ex_encoder :: encoder where
  "ex_encoder = \<lparr> enc_header = (\<lambda>_. Inr ''h''), enc_span = (\<lambda>_. Inr ''s'') \<rparr>"

definition ex_codec :: "Span \<Rightarrow> codec" where
  "ex_codec s = \<lparr> dec_header = (\<lambda>_. Inr (ex_cassette_header\<lparr>hd_SchemaVersion := SchemaVersion\<rparr>)),
     dec_span = (\<lambda>_. Inr (wire_span s)) \<rparr>"

definition ex_put :: "unit \<Rightarrow> string \<Rightarrow> unit \<Rightarrow> digest result \<times> unit" where
  "ex_put _ c st = (Inr (cas_Compute c), st)"

definition ex_writer :: Writer where
  "ex_writer = snd (WriteHeader ex_encoder None ex_cassette_header (NewWriter [] False ex_redactor))"

definition ex_written :: "msg option \<times> Span list \<times> Writer \<times> unit" where
  "ex_written = write_all ex_encoder ex_put [(None, \<lambda>_. (), ex_span ''hello'')] ex_writer ()"

lemma ex_written:
  "WriteHeader ex_encoder None ex_cassette_header (NewWriter [] False ex_redactor) = (None, ex_writer)"
  "fst ex_written = None \<and> map span_Name (fst (snd ex_written)) = [''chat'']"
  by (simp add: ex_writer_def WriteHeader_def Encode_def NewWriter_def ex_encoder_def) code_simp

theorem cassette_reads_back_witness:
  "\<exists>s rd. NewReader (ex_codec s) \<lparr> sc_lines = cw_out (fst (snd (snd ex_written))), sc_err = None \<rparr> = Inr rd \<and>
     All (ex_codec s) (rd_sc rd) = Inr [wire_span s] \<and> span_Name s = ''chat''"
proof -
  obtain ss w where run: "write_all ex_encoder ex_put [(None, \<lambda>_. (), ex_span ''hello'')] ex_writer () = (None, ss, w, ())"
    and ss: "map span_Name ss = [''chat'']" and w: "w = fst (snd (snd ex_written))"
    using ex_written(2) by (cases ex_written) (auto simp: ex_written_def)
  then obtain s where s: "ss = [s]" "span_Name s = ''chat''" by auto
  have "header_reads_back ex_encoder (ex_codec s) (ex_cassette_header\<lparr>hd_SchemaVersion := SchemaVersion\<rparr>)"
    "\<forall>x \<in> set ss. span_reads_back ex_encoder (ex_codec s) x"
    by (simp_all add: s header_reads_back_def span_reads_back_def ex_encoder_def ex_codec_def)
  from cassette_reads_back [OF ex_written(1) run this] show ?thesis using s w by auto
qed

section \<open>Payloads\<close>

lemma map_of_update: "map_of (AList.update k v m) k' = (if k' = k then Some v else map_of m k')"
  by (simp add: update_conv')

lemma map_of_delete: "map_of (AList.delete k m) k' = (if k' = k then None else map_of m k')"
  by (simp add: delete_conv')

lemmas attribute_updates = map_of_update map_of_delete distinct_update distinct_delete

lemma handlePayload_frame:
  assumes "handlePayload w put bk rk sk a st = (r, a', st')"
  shows "(k \<notin> {bk, rk, sk, AttrRedacted} \<longrightarrow> map_of a' k = map_of a k) \<and>
    (distinct (map fst a) \<longrightarrow> distinct (map fst a'))"
  using assms
  by (auto simp: handlePayload_def Let_def attribute_updates
      split: option.splits prod.splits if_splits sum.splits)

text \<open>
  Where the clean payload is: in the span, if a store was given only up to the threshold, or in the
  store under the digest the span refers to.
\<close>

definition offloaded :: "Writer \<Rightarrow> string \<Rightarrow> bool" where
  "offloaded w clean = (cw_offload w \<and> 0 < cw_threshold w \<and> cw_threshold w < int (length clean))"

definition payload_kept ::
    "Writer \<Rightarrow> (digest \<Rightarrow> string option) \<Rightarrow> attributes \<Rightarrow> string \<Rightarrow> string \<Rightarrow> string \<Rightarrow> bool" where
  "payload_kept w blobs a bk rk clean =
     (if offloaded w clean
      then map_of a bk = None \<and> map_of a rk = Some (JStr (cas_Compute clean)) \<and> blobs (cas_Compute clean) \<noteq> None
      else map_of a bk = Some (JStr clean))"

lemma attr_neq [simp]:
  "AttrRequestBody \<noteq> AttrRequestRef" "AttrRequestBody \<noteq> AttrRequestBytes" "AttrRequestBody \<noteq> AttrResponseBody"
  "AttrRequestBody \<noteq> AttrResponseRef" "AttrRequestBody \<noteq> AttrResponseBytes" "AttrRequestBody \<noteq> AttrRedacted"
  "AttrRequestBody \<noteq> AttrStepIndex" "AttrRequestBody \<noteq> AttrKind" "AttrRequestBody \<noteq> AttrSchemaVersion"
  "AttrRequestRef \<noteq> AttrRequestBody" "AttrRequestRef \<noteq> AttrRequestBytes" "AttrRequestRef \<noteq> AttrResponseBody"
  "AttrRequestRef \<noteq> AttrResponseRef" "AttrRequestRef \<noteq> AttrResponseBytes" "AttrRequestRef \<noteq> AttrRedacted"
  "AttrRequestRef \<noteq> AttrStepIndex" "AttrRequestRef \<noteq> AttrKind" "AttrRequestRef \<noteq> AttrSchemaVersion"
  "AttrRequestBytes \<noteq> AttrRequestBody" "AttrRequestBytes \<noteq> AttrRequestRef" "AttrRequestBytes \<noteq> AttrResponseBody"
  "AttrRequestBytes \<noteq> AttrResponseRef" "AttrRequestBytes \<noteq> AttrResponseBytes" "AttrRequestBytes \<noteq> AttrRedacted"
  "AttrRequestBytes \<noteq> AttrStepIndex" "AttrRequestBytes \<noteq> AttrKind" "AttrRequestBytes \<noteq> AttrSchemaVersion"
  "AttrResponseBody \<noteq> AttrRequestBody" "AttrResponseBody \<noteq> AttrRequestRef" "AttrResponseBody \<noteq> AttrRequestBytes"
  "AttrResponseBody \<noteq> AttrResponseRef" "AttrResponseBody \<noteq> AttrResponseBytes" "AttrResponseBody \<noteq> AttrRedacted"
  "AttrResponseBody \<noteq> AttrStepIndex" "AttrResponseBody \<noteq> AttrKind" "AttrResponseBody \<noteq> AttrSchemaVersion"
  "AttrResponseRef \<noteq> AttrRequestBody" "AttrResponseRef \<noteq> AttrRequestRef" "AttrResponseRef \<noteq> AttrRequestBytes"
  "AttrResponseRef \<noteq> AttrResponseBody" "AttrResponseRef \<noteq> AttrResponseBytes" "AttrResponseRef \<noteq> AttrRedacted"
  "AttrResponseRef \<noteq> AttrStepIndex" "AttrResponseRef \<noteq> AttrKind" "AttrResponseRef \<noteq> AttrSchemaVersion"
  "AttrResponseBytes \<noteq> AttrRequestBody" "AttrResponseBytes \<noteq> AttrRequestRef" "AttrResponseBytes \<noteq> AttrRequestBytes"
  "AttrResponseBytes \<noteq> AttrResponseBody" "AttrResponseBytes \<noteq> AttrResponseRef" "AttrResponseBytes \<noteq> AttrRedacted"
  "AttrResponseBytes \<noteq> AttrStepIndex" "AttrResponseBytes \<noteq> AttrKind" "AttrResponseBytes \<noteq> AttrSchemaVersion"
  "AttrRedacted \<noteq> AttrRequestBody" "AttrRedacted \<noteq> AttrRequestRef" "AttrRedacted \<noteq> AttrRequestBytes"
  "AttrRedacted \<noteq> AttrResponseBody" "AttrRedacted \<noteq> AttrResponseRef" "AttrRedacted \<noteq> AttrResponseBytes"
  "AttrRedacted \<noteq> AttrStepIndex" "AttrRedacted \<noteq> AttrKind" "AttrRedacted \<noteq> AttrSchemaVersion"
  "AttrStepIndex \<noteq> AttrRequestBody" "AttrStepIndex \<noteq> AttrRequestRef" "AttrStepIndex \<noteq> AttrRequestBytes"
  "AttrStepIndex \<noteq> AttrResponseBody" "AttrStepIndex \<noteq> AttrResponseRef" "AttrStepIndex \<noteq> AttrResponseBytes"
  "AttrStepIndex \<noteq> AttrRedacted" "AttrStepIndex \<noteq> AttrKind" "AttrStepIndex \<noteq> AttrSchemaVersion"
  "AttrKind \<noteq> AttrRequestBody" "AttrKind \<noteq> AttrRequestRef" "AttrKind \<noteq> AttrRequestBytes"
  "AttrKind \<noteq> AttrResponseBody" "AttrKind \<noteq> AttrResponseRef" "AttrKind \<noteq> AttrResponseBytes"
  "AttrKind \<noteq> AttrRedacted" "AttrKind \<noteq> AttrStepIndex" "AttrKind \<noteq> AttrSchemaVersion"
  "AttrSchemaVersion \<noteq> AttrRequestBody" "AttrSchemaVersion \<noteq> AttrRequestRef" "AttrSchemaVersion \<noteq> AttrRequestBytes"
  "AttrSchemaVersion \<noteq> AttrResponseBody" "AttrSchemaVersion \<noteq> AttrResponseRef" "AttrSchemaVersion \<noteq> AttrResponseBytes"
  "AttrSchemaVersion \<noteq> AttrRedacted" "AttrSchemaVersion \<noteq> AttrStepIndex" "AttrSchemaVersion \<noteq> AttrKind"
  by (simp_all add: AttrRequestBody_def AttrRequestRef_def AttrRequestBytes_def AttrResponseBody_def AttrResponseRef_def AttrResponseBytes_def AttrRedacted_def AttrStepIndex_def AttrKind_def AttrSchemaVersion_def)

context blob_store
begin

lemma handlePayload_kept:
  assumes "ok st" and "handlePayload w (put e) bk rk sk a st = (None, a', st')"
    and "distinct [bk, rk, sk, AttrRedacted]"
    and "payloadBytes (jfield bk a) = Some raw"
  shows "payload_kept w (blobs st') a' bk rk (fst (Redactor_Body (cw_redactor w) raw))"
proof -
  obtain clean fired where clean: "Redactor_Body (cw_redactor w) raw = (clean, fired)"
    by (cases "Redactor_Body (cw_redactor w) raw")
  show ?thesis
    using assms clean put_stored [OF assms(1), of e clean]
    by (auto simp: handlePayload_def Let_def payload_kept_def offloaded_def attribute_updates
        split: prod.splits if_splits sum.splits)
qed

lemma handlePayload_ok:
  assumes "ok st" and "handlePayload w (put e) bk rk sk a st = (r, a', st')"
  shows "ok st' \<and> (\<forall>d. blobs st d \<noteq> None \<longrightarrow> blobs st' d \<noteq> None)"
proof -
  have put: "ok (snd (put e c st)) \<and> (\<forall>d. blobs st d \<noteq> None \<longrightarrow> blobs (snd (put e c st)) d \<noteq> None)" for c
    using put_ok' [OF assms(1)] put_keeps [OF assms(1)] by fastforce
  have "st' = st \<or> (\<exists>c. st' = snd (put e c st))"
    using assms(2)
    by (auto simp: handlePayload_def Let_def split: option.splits prod.splits if_splits sum.splits)
       (metis snd_conv)+
  then show ?thesis using put assms(1) by auto
qed

lemma payload_kept_mono:
  "payload_kept w (blobs st) a bk rk clean \<Longrightarrow> (\<forall>d. blobs st d \<noteq> None \<longrightarrow> blobs st' d \<noteq> None) \<Longrightarrow>
   map_of a' bk = map_of a bk \<Longrightarrow> map_of a' rk = map_of a rk \<Longrightarrow> payload_kept w (blobs st') a' bk rk clean"
  by (auto simp: payload_kept_def)

text \<open>Both payloads of a span that was written.\<close>

lemma WriteSpan_kept:
  assumes "ok st" and "WriteSpan E io put e s w st = (None, s', w', st')"
    and "(bk, rk) \<in> {(AttrRequestBody, AttrRequestRef), (AttrResponseBody, AttrResponseRef)}"
    and "payloadBytes (jfield bk (span_Attributes s)) = Some raw"
  shows "payload_kept w (blobs st') (span_Attributes s') bk rk (fst (Redactor_Body (cw_redactor w) raw)) \<and> ok st'"
  using assms(2)
proof (rule WriteSpan_None)
  fix s1 w1 a st1 a' line
  assume n: "number_span (label_span s) w = (s1, w1)"
    and req: "handlePayload w1 (put (e AttrRequestBody)) AttrRequestBody AttrRequestRef AttrRequestBytes
           (span_Attributes s1) st = (None, a, st1)"
    and resp: "handlePayload w1 (put (e AttrResponseBody)) AttrResponseBody AttrResponseRef AttrResponseBytes a st1
           = (None, a', st')"
    and s': "s' = s1\<lparr>span_Attributes := a'\<rparr>"
  have w1: "payload_kept w = payload_kept w1" "cw_redactor w1 = cw_redactor w"
    using number_span_frame [OF n] by (auto simp: payload_kept_def offloaded_def fun_eq_iff)
  have in1: "jfield k (span_Attributes s1) = jfield k (span_Attributes s)" if "k \<in> {AttrRequestBody, AttrResponseBody}" for k
    using n that by (auto simp: number_span_def label_span_def split: if_splits)
  have in2: "jfield AttrResponseBody a = jfield AttrResponseBody (span_Attributes s1)"
    using handlePayload_frame [OF req, of AttrResponseBody] by (simp add: jfield_def lookup_or_def)
  have st1: "ok st1" using handlePayload_ok [OF assms(1) req] by blast
  have st': "ok st' \<and> (\<forall>d. blobs st1 d \<noteq> None \<longrightarrow> blobs st' d \<noteq> None)" using handlePayload_ok [OF st1 resp] .
  show ?thesis
  proof (cases "bk = AttrRequestBody")
    case True
    then have rk: "rk = AttrRequestRef" using assms(3) by auto
    have "payload_kept w1 (blobs st1) a bk rk (fst (Redactor_Body (cw_redactor w1) raw))"
      using handlePayload_kept [OF assms(1) req, of raw] True rk assms(4) in1 by simp
    then have "payload_kept w1 (blobs st') a' bk rk (fst (Redactor_Body (cw_redactor w1) raw))"
    proof (rule payload_kept_mono)
      show "\<forall>d. blobs st1 d \<noteq> None \<longrightarrow> blobs st' d \<noteq> None" using st' ..
      show "map_of a' bk = map_of a bk" "map_of a' rk = map_of a rk"
        using handlePayload_frame [OF resp] unfolding True rk by (simp_all del: not_None_eq)
    qed
    then show ?thesis using s' w1 st' by simp
  next
    case False
    then have k: "bk = AttrResponseBody" "rk = AttrResponseRef" using assms(3) by auto
    then have "payload_kept w1 (blobs st') a' bk rk (fst (Redactor_Body (cw_redactor w1) raw))"
      using handlePayload_kept [OF st1 resp, of raw] assms(4) in1 in2 by simp
    then show ?thesis using s' w1 st' by simp
  qed
qed

text \<open>Both payloads stay where they are, whatever is put later.\<close>

lemma kept_puts:
  "ok st \<Longrightarrow> payload_kept w (blobs st) a bk rk clean \<Longrightarrow> payload_kept w (blobs (puts put history st)) a bk rk clean"
  by (rule payload_kept_mono) (use puts_keep in \<open>fastforce+\<close>)

end

lemma WriteSpan_distinct:
  assumes "WriteSpan E io put e s w st = (None, s', w', st')" and "distinct (map fst (span_Attributes s))"
  shows "distinct (map fst (span_Attributes s'))"
  using assms(1)
proof (rule WriteSpan_None)
  fix s1 w1 a st1 a' line
  assume n: "number_span (label_span s) w = (s1, w1)"
    and req: "handlePayload w1 (put (e AttrRequestBody)) AttrRequestBody AttrRequestRef AttrRequestBytes
           (span_Attributes s1) st = (None, a, st1)"
    and resp: "handlePayload w1 (put (e AttrResponseBody)) AttrResponseBody AttrResponseRef AttrResponseBytes a st1
           = (None, a', st')"
    and s': "s' = s1\<lparr>span_Attributes := a'\<rparr>"
  have "distinct (map fst (span_Attributes s1))"
    using n assms(2) by (auto simp: number_span_def label_span_def distinct_update split: if_splits)
  then show ?thesis using handlePayload_frame [OF req] handlePayload_frame [OF resp] s' by simp
qed

lemma Payload_kept:
  assumes "distinct (map fst (span_Attributes s))" and "payload_kept w blobs (span_Attributes s) bk rk clean"
    and "ascii bk" and "ascii rk"
  shows "if offloaded w clean
    then blobs (cas_Compute clean) \<noteq> None \<and>
      (\<forall>g c. get = Some g \<longrightarrow> g (cas_Compute clean) = Inr c \<longrightarrow> Payload get (wire_span s) bk rk = Inr c)
    else Payload get (wire_span s) bk rk = Inr (coerce_utf8 clean)"
proof (cases "offloaded w clean")
  case True
  then have at: "map_of (span_Attributes (wire_span s)) bk = None"
      "map_of (span_Attributes (wire_span s)) rk = Some (JStr (cas_Compute clean))"
      "blobs (cas_Compute clean) \<noteq> None"
    using assms by (auto simp: payload_kept_def map_of_wire)
  have "cas_Compute clean \<noteq> []" by (simp add: cas_Compute_def)
  then have "BodyRef (wire_span s) rk = Some (cas_Compute clean)"
    using at(2) by (simp add: BodyRef_def span_String_def jfield_def lookup_or_def)
  then show ?thesis using at True by (auto simp: Payload_def GetBytes_def)
next
  case False
  then show ?thesis using assms by (auto simp: payload_kept_def Payload_def map_of_wire)
qed

text \<open>What the cassette gives back of a payload.\<close>

definition given_back :: "Writer \<Rightarrow> string \<Rightarrow> string \<Rightarrow> bool" where
  "given_back w clean c =
     (if offloaded w clean then cas_Compute c = cas_Compute clean
      else c = coerce_utf8 clean \<and> (c = clean \<longleftrightarrow> valid_utf8 clean))"

lemma FS_Payload_kept:
  assumes "well_stored f files" and "distinct (map fst (span_Attributes s))"
    and "payload_kept w (fs_blobs f files) (span_Attributes s) bk rk clean"
    and "fe_Ctx e = None" and "fe_Open e = None" and "ascii bk" and "ascii rk"
  shows "\<exists>c. Payload (Some (\<lambda>d. FS_Get f e d files)) (wire_span s) bk rk = Inr c \<and> given_back w clean c"
proof -
  let ?get = "\<lambda>d. FS_Get f e d files"
  note kept = Payload_kept [OF assms(2,3,6,7), of "Some ?get"]
  show ?thesis
  proof (cases "offloaded w clean")
    case False
    then show ?thesis using kept by (simp add: given_back_def coerce_id_iff)
  next
    case True
    then obtain c where c: "fs_blobs f files (cas_Compute clean) = Some c" using kept by auto
    then have "?get (cas_Compute clean) = Inr c"
      using assms(4,5) by (auto simp: FS_Get_def fs_blobs_def split: sum.splits)
    then show ?thesis using kept True fs_store.blob_digest [OF assms(1) c] by (auto simp: given_back_def)
  qed
qed

text \<open>
  C30. A recorded payload can be resolved.  Both payloads of a span that was written come back from the
  cassette without the credentials the redactor removes.  One that was offloaded, being longer than the
  threshold, comes back as a content with the same digest, whatever was put in the blob store after and
  whatever failed in those puts, provided the read itself is not interrupted.  One that stayed in the
  span comes back coerced to valid UTF-8: unchanged if it was text, and never unchanged if it was not,
  as a compressed body is not.
\<close>

theorem payload_resolves_to_redacted_body:
  assumes "well_stored f files"
    and "WriteSpan E io (FS_Put f) e s w files = (None, s', w', files')"
    and "distinct (map fst (span_Attributes s))"
    and "(bk, rk) \<in> {(AttrRequestBody, AttrRequestRef), (AttrResponseBody, AttrResponseRef)}"
    and "payloadBytes (jfield bk (span_Attributes s)) = Some raw"
    and "fe_Ctx e' = None" and "fe_Open e' = None"
    and "clean = fst (Redactor_Body (cw_redactor w) raw)"
  shows "\<exists>c. Payload (Some (\<lambda>d. FS_Get f e' d (puts (FS_Put f) history files'))) (wire_span s') bk rk = Inr c \<and>
    (if cw_offload w \<and> 0 < cw_threshold w \<and> cw_threshold w < int (length clean)
     then cas_Compute c = cas_Compute clean
     else c = coerce_utf8 clean \<and> (c = clean \<longleftrightarrow> valid_utf8 clean))"
proof -
  have kept: "payload_kept w (fs_blobs f files') (span_Attributes s') bk rk clean" and ok: "well_stored f files'"
    using fs_store.WriteSpan_kept [OF assms(1,2,4,5)] assms(8) by simp_all
  have "ascii bk" "ascii rk" using assms(4) by auto
  from FS_Payload_kept [OF fs_store.puts_ok [OF ok] WriteSpan_distinct [OF assms(2,3)]
      fs_store.kept_puts [OF ok kept] assms(6,7) this]
  show ?thesis unfolding given_back_def offloaded_def .
qed

definition ex_offloaded :: "Writer" where
  "ex_offloaded = ex_writer\<lparr>cw_offload := True, cw_threshold := 3\<rparr>"

theorem payload_resolves_to_redacted_body_witness:
  "\<exists>s' w' files' c. WriteSpan ex_encoder None (FS_Put ex_fs) (\<lambda>_. ex_env) (ex_span ''hello'') ex_offloaded []
       = (None, s', w', files') \<and>
     Payload (Some (\<lambda>d. FS_Get ex_fs ex_env d files')) (wire_span s') AttrRequestBody AttrRequestRef = Inr c \<and>
     cas_Compute c = cas_Compute ''hello''"
proof -
  have clean: "Redactor_Body ex_redactor ''hello'' = (''hello'', [])"
    by (simp add: Redactor_Body_def ex_redactor_def defaultPatterns_def default_labels_def no_match_def)
  obtain files' where put: "FS_Put ex_fs ex_env ''hello'' [] = (Inr (cas_Compute ''hello''), files')"
    using ex_put [of "''hello''"] by (metis prod.collapse)
  have w: "cw_wroteHeader ex_offloaded" "cw_encErr ex_offloaded = None" "cw_redactor ex_offloaded = ex_redactor"
    "cw_offload ex_offloaded" "cw_threshold ex_offloaded = 3" "cw_nextStep ex_offloaded = 0"
    by (simp_all add: ex_offloaded_def ex_writer_def WriteHeader_def NewWriter_def Encode_def ex_encoder_def)
  obtain s1 w1 where n: "number_span (label_span (ex_span ''hello'')) ex_offloaded = (s1, w1)"
    by (cases "number_span (label_span (ex_span ''hello'')) ex_offloaded")
  have a: "jfield AttrRequestBody (span_Attributes s1) = JStr ''hello''" "jfield AttrResponseBody (span_Attributes s1) = JNull"
    using n by (auto simp: number_span_def label_span_def ex_span_def jfield_def lookup_or_def split: if_splits)
  obtain a' where req: "handlePayload w1 (FS_Put ex_fs ex_env) AttrRequestBody AttrRequestRef AttrRequestBytes
      (span_Attributes s1) [] = (None, a', files')" "jfield AttrResponseBody a' = JNull"
    using a w number_span_frame [OF n] clean put by (simp add: handlePayload_def)
  have "\<exists>s' w'. WriteSpan ex_encoder None (FS_Put ex_fs) (\<lambda>_. ex_env) (ex_span ''hello'') ex_offloaded []
       = (None, s', w', files')"
    using req w number_span_frame [OF n] n
    by (simp add: WriteSpan_def handlePayload_def [of w1 _ AttrResponseBody] ex_encoder_def Encode_def)
  then obtain s' w' where run: "WriteSpan ex_encoder None (FS_Put ex_fs) (\<lambda>_. ex_env) (ex_span ''hello'') ex_offloaded []
       = (None, s', w', files')" by blast
  have "distinct (map fst (span_Attributes (ex_span ''hello'')))"
    "payloadBytes (jfield AttrRequestBody (span_Attributes (ex_span ''hello''))) = Some ''hello''"
    by (simp_all add: ex_span_def jfield_def lookup_or_def)
  from payload_resolves_to_redacted_body [OF well_stored_empty run this(1) _ this(2), of AttrRequestRef ex_env "''hello''" "[]"]
  show ?thesis using run clean w by (auto simp: ex_env_def)
qed

end
