(* ===== verification/Recorder.thy ===== *)
theory Recorder
  imports Writer
begin

text \<open>
  \<open>internal/recorder\<close>: the record of one proxied call (\<open>record.go\<close>), the sessions and their step
  counters (\<open>session.go\<close>), the bounded capture of a body (\<open>tee.go\<close>) and the recording proxy
  (\<open>proxy.go\<close>, \<open>state.go\<close>).  \<open>httputil.ReverseProxy\<close> is what it does with one request: it forwards
  it, and then either copies the response through, reports an error, or breaks off while copying,
  which it does by a panic that ends the handler.
\<close>

section \<open>Requests and records\<close>

text \<open>
  A header maps canonical names to values.  A body is what its reader delivers and the error, if any,
  it ends with; \<open>None\<close> is the nil body.
\<close>

type_synonym body_reader = "string \<times> msg option"

record http_request =
  hq_Method :: string
  hq_URL :: string
  hq_Header :: http_header
  hq_Body :: "body_reader option"
  hq_ContentLength :: int

text \<open>\<open>Header.Get\<close> with a name that is canonical already.\<close>

definition Header_Get :: "http_header \<Rightarrow> string \<Rightarrow> string" where
  "Header_Get h name = (case map_of h name of Some (v # _) \<Rightarrow> v | _ \<Rightarrow> [])"

datatype Plane = PlaneModel | PlaneTool

record Record =
  rc_Session :: string
  rc_Plane :: Plane
  rc_Step :: int
  rc_Method :: string
  rc_URL :: string
  rc_Target :: string
  rc_ReqHeader :: http_header
  rc_ReqRedacted :: "string list"
  rc_ReqBody :: string
  rc_ReqTruncated :: bool
  rc_Status :: int
  rc_RespHeader :: http_header
  rc_RespRedacted :: "string list"
  rc_RespBody :: string
  rc_RespTruncated :: bool
  rc_Streamed :: bool
  rc_Chunks :: int
  rc_Start :: time
  rc_End :: time
  rc_Upstream :: duration
  rc_MCPMethod :: string
  rc_ToolName :: string
  rc_ToolContractDigest :: string
  rc_ToolArgsHash :: string
  rc_ToolEffect :: string
  rc_Suppressed :: bool
  rc_Refused :: bool
  rc_Err :: "msg option"

definition zero_Record :: Record where
  "zero_Record =
     \<lparr> rc_Session = [], rc_Plane = PlaneModel, rc_Step = 0, rc_Method = [], rc_URL = [], rc_Target = [],
       rc_ReqHeader = [], rc_ReqRedacted = [], rc_ReqBody = [], rc_ReqTruncated = False, rc_Status = 0,
       rc_RespHeader = [], rc_RespRedacted = [], rc_RespBody = [], rc_RespTruncated = False,
       rc_Streamed = False, rc_Chunks = 0, rc_Start = 0, rc_End = 0, rc_Upstream = 0, rc_MCPMethod = [],
       rc_ToolName = [], rc_ToolContractDigest = [], rc_ToolArgsHash = [], rc_ToolEffect = [],
       rc_Suppressed = False, rc_Refused = False, rc_Err = None \<rparr>"

definition Record_Duration :: "Record \<Rightarrow> duration" where
  "Record_Duration r = rc_End r - rc_Start r"

section \<open>Sessions\<close>

definition SessionHeader :: string where "SessionHeader = ''X-Waveoff-Session''"

datatype Origin = OriginTrace | OriginHeader | OriginSynthetic

record sessionState =
  ss_step :: int
  ss_seen :: time

record Sessions =
  se_byID :: "(string \<times> sessionState) list"
  se_ttl :: duration
  se_synthetic :: int

definition NewSessions :: "duration \<Rightarrow> Sessions" where
  "NewSessions ttl =
     \<lparr> se_byID = [], se_ttl = (if ttl \<le> 0 then 30 * minute else ttl), se_synthetic = 0 \<rparr>"

text \<open>The session the agent named, or the trace its request belongs to.\<close>

definition sessionID :: "http_header \<Rightarrow> string \<times> Origin" where
  "sessionID h =
     (let v = TrimSpace (Header_Get h SessionHeader); tp = Header_Get h ''Traceparent'' in
      if v \<noteq> [] then (v, OriginHeader)
      else if tp \<noteq> []
      then (let parts = strings_Split CHR ''-'' tp in
            if 3 \<le> length parts \<and> length (parts ! 1) = 32 \<and> parts ! 1 \<noteq> replicate 32 CHR ''0''
            then (parts ! 1, OriginTrace) else ([], OriginSynthetic))
      else ([], OriginSynthetic))"

text \<open>
  What one call reads from its surroundings: the clock at the eviction and at the use of the entry,
  sixteen random bytes unless reading them fails, and then the time as a text.
\<close>

record id_env =
  ie_evict :: time
  ie_seen :: time
  ie_rand :: "string option"
  ie_stamp :: string

definition newSyntheticID :: "id_env \<Rightarrow> Sessions \<Rightarrow> string \<times> Sessions" where
  "newSyntheticID e s =
     (case ie_rand e of
        None \<Rightarrow> (''synthetic-'' @ EncodeToString (ie_stamp e), s)
      | Some b \<Rightarrow> (EncodeToString b, s\<lparr>se_synthetic := se_synthetic s + 1\<rparr>))"

definition evict :: "time \<Rightarrow> Sessions \<Rightarrow> Sessions" where
  "evict now s = s\<lparr>se_byID := filter (\<lambda>(_, st). \<not> ss_seen st < now - se_ttl s) (se_byID s)\<rparr>"

definition Identify :: "id_env \<Rightarrow> http_header \<Rightarrow> Sessions \<Rightarrow> (string \<times> Origin \<times> int) \<times> Sessions" where
  "Identify e h s =
     (case (case sessionID h of
              ([], _) \<Rightarrow> (case newSyntheticID e s of (i, s1) \<Rightarrow> (i, OriginSynthetic, s1))
            | (i, origin) \<Rightarrow> (i, origin, s)) of
        (i, origin, s1) \<Rightarrow>
          let s2 = evict (ie_evict e) s1;
              st = lookup_or \<lparr> ss_step = 0, ss_seen = 0 \<rparr> (se_byID s2) i
          in ((i, origin, ss_step st),
              s2\<lparr>se_byID := AList.update i \<lparr> ss_step = ss_step st + 1, ss_seen = ie_seen e \<rparr> (se_byID s2)\<rparr>))"

definition Sessions_Len :: "Sessions \<Rightarrow> nat" where
  "Sessions_Len s = length (se_byID s)"

section \<open>Bounded capture\<close>

record teeReader =
  te_limit :: int
  te_buf :: string
  te_truncated :: bool
  te_chunks :: int

definition newTeeReader :: "int \<Rightarrow> teeReader" where
  "newTeeReader limit = \<lparr> te_limit = limit, te_buf = [], te_truncated = False, te_chunks = 0 \<rparr>"

text \<open>One \<open>Read\<close>, given the bytes the source delivered; they reach the caller unchanged.\<close>

definition tee_Read :: "string \<Rightarrow> teeReader \<Rightarrow> teeReader" where
  "tee_Read p t =
     (if p = [] then t
      else let t = t\<lparr>te_chunks := te_chunks t + 1\<rparr>;
               remaining = te_limit t - int (length (te_buf t))
           in if 0 < remaining
              then (if int (length p) \<le> remaining then t\<lparr>te_buf := te_buf t @ p\<rparr>
                    else t\<lparr>te_buf := te_buf t @ take (nat remaining) p, te_truncated := True\<rparr>)
              else if 0 \<le> te_limit t then t\<lparr>te_truncated := True\<rparr>
              else t)"

definition captured :: "teeReader \<Rightarrow> string \<times> bool \<times> int" where
  "captured t = (te_buf t, te_truncated t, te_chunks t)"

text \<open>
  One byte past the limit is read, so that a body of exactly the limit is told from a longer one.  An
  error is met only if the body ends before that, and then ends the reading without being reported.
\<close>

definition readLimited :: "body_reader \<Rightarrow> int \<Rightarrow> string \<times> bool" where
  "readLimited r limit =
     (case r of
        (content, err) \<Rightarrow>
          let b = take (nat (limit + 1)) content in
          if err \<noteq> None \<and> int (length content) < limit + 1 then (b, False)
          else if limit < int (length b) then (take (nat limit) b, True)
          else (b, False))"

section \<open>The proxy\<close>

definition DefaultCaptureLimit :: int where "DefaultCaptureLimit = 8388608"

record Proxy =
  px_Upstream :: string
  px_Plane :: Plane
  px_Sessions :: Sessions
  px_CaptureLimit :: int
  px_Redactor :: Redactor
  px_recorded :: int
  px_truncated :: int
  px_failed :: int

text \<open>\<open>New\<close> fills in the defaults; \<open>None\<close> is a nil field.\<close>

definition NewProxy ::
    "Redactor \<Rightarrow> string \<Rightarrow> Plane \<Rightarrow> Sessions option \<Rightarrow> int \<Rightarrow> Redactor option \<Rightarrow> Proxy" where
  "NewProxy must upstream plane sessions limit redactor =
     \<lparr> px_Upstream = upstream, px_Plane = plane,
       px_Sessions = (case sessions of Some s \<Rightarrow> s | None \<Rightarrow> NewSessions 0),
       px_CaptureLimit = (if limit = 0 then DefaultCaptureLimit else limit),
       px_Redactor = (case redactor of Some r \<Rightarrow> r | None \<Rightarrow> must),
       px_recorded = 0, px_truncated = 0, px_failed = 0 \<rparr>"

text \<open>
  What the reverse proxy comes back with: an error before any response, a response delivered in
  chunks, or a response whose delivery broke off.
\<close>

datatype upstream =
    UpError msg
  | UpResponse int http_header "string list"
  | UpBroken int http_header "string list"

text \<open>What the client is given: a status, a header and the bytes delivered.\<close>

record delivered =
  dl_Status :: int
  dl_Header :: http_header
  dl_Body :: string

definition isEventStream :: "http_header \<Rightarrow> bool" where
  "isEventStream h = HasPrefix (ToLower (Header_Get h ''Content-Type'')) ''text/event-stream''"

record requestState =
  rs_rec :: Record
  rs_tee :: "teeReader option"

definition modifyResponse :: "Proxy \<Rightarrow> duration \<Rightarrow> int \<Rightarrow> http_header \<Rightarrow> requestState \<Rightarrow> requestState" where
  "modifyResponse p upstream status h st =
     (case Redactor_Headers (px_Redactor p) h of
        (hdr, redacted) \<Rightarrow>
          let st = st\<lparr>rs_rec := (rs_rec st)\<lparr>rc_Status := status, rc_RespHeader := hdr,
                        rc_RespRedacted := redacted, rc_Upstream := upstream,
                        rc_Streamed := isEventStream h\<rparr>\<rparr>
          in if px_CaptureLimit p < 0 then st
             else st\<lparr>rs_tee := Some (newTeeReader (px_CaptureLimit p))\<rparr>)"

definition errorHandler :: "msg \<Rightarrow> Proxy \<times> requestState \<Rightarrow> Proxy \<times> requestState" where
  "errorHandler err ps =
     (case ps of
        (p, st) \<Rightarrow> (p\<lparr>px_failed := px_failed p + 1\<rparr>,
                    st\<lparr>rs_rec := (rs_rec st)\<lparr>rc_Err := Some err, rc_Status := 502\<rparr>\<rparr>))"

definition finalise :: "time \<Rightarrow> Proxy \<Rightarrow> requestState \<Rightarrow> Proxy \<times> Record" where
  "finalise now p st =
     (let rec = (rs_rec st)\<lparr>rc_End := now\<rparr> in
      case (case rs_tee st of
              None \<Rightarrow> (p, rec)
            | Some t \<Rightarrow>
                (case captured t of
                   (body, truncated, chunks) \<Rightarrow>
                     (if truncated then p\<lparr>px_truncated := px_truncated p + 1\<rparr> else p,
                      rec\<lparr>rc_RespBody := body, rc_RespTruncated := truncated,
                          rc_Chunks := (if rc_Streamed rec then chunks else rc_Chunks rec)\<rparr>))) of
        (p, rec) \<Rightarrow> (p\<lparr>px_recorded := px_recorded p + 1\<rparr>, rec))"

text \<open>
  The clock readings of one request.  The request that is sent on is returned with the record handed
  to the sink, if the handler got that far, and what the client received.
\<close>

record proxy_env =
  pe_id :: id_env
  pe_start :: time
  pe_upstream :: duration
  pe_end :: time

definition start_record :: "Proxy \<Rightarrow> proxy_env \<Rightarrow> http_request \<Rightarrow> string \<Rightarrow> int \<Rightarrow> Record" where
  "start_record p e r session step =
     zero_Record\<lparr>rc_Session := session, rc_Plane := px_Plane p, rc_Step := step, rc_Method := hq_Method r,
       rc_URL := hq_URL r, rc_Target := px_Upstream p, rc_Start := pe_start e\<rparr>"

definition capture_request :: "http_request \<Rightarrow> Proxy \<Rightarrow> Record \<Rightarrow> http_request \<times> Proxy \<times> Record" where
  "capture_request r p rec =
     (case hq_Body r of
        None \<Rightarrow> (r, p, rec)
      | Some reader \<Rightarrow>
          if px_CaptureLimit p < 0 then (r, p, rec)
          else (case readLimited reader (px_CaptureLimit p) of
                  (body, truncated) \<Rightarrow>
                    (r\<lparr>hq_Body := Some (body, None)\<rparr>,
                     if truncated then p\<lparr>px_truncated := px_truncated p + 1\<rparr> else p,
                     rec\<lparr>rc_ReqBody := body, rc_ReqTruncated := truncated\<rparr>)))"

definition Proxy_ServeHTTP ::
    "proxy_env \<Rightarrow> (http_request \<Rightarrow> 'w \<Rightarrow> upstream \<times> 'w) \<Rightarrow> http_request \<Rightarrow> Proxy \<Rightarrow> 'w
     \<Rightarrow> (http_request \<times> Record option \<times> delivered) \<times> Proxy \<times> 'w" where
  "Proxy_ServeHTTP e upstream r p w =
     (case Identify (pe_id e) (hq_Header r) (px_Sessions p) of
        ((session, _, step), sessions) \<Rightarrow>
      (case capture_request r (p\<lparr>px_Sessions := sessions\<rparr>) (start_record p e r session step) of
        (r1, p1, rec1) \<Rightarrow>
      (case Redactor_Headers (px_Redactor p) (hq_Header r) of
        (hdr, redacted) \<Rightarrow>
      (let st = \<lparr> rs_rec = rec1\<lparr>rc_ReqHeader := hdr, rc_ReqRedacted := redacted\<rparr>, rs_tee = None \<rparr> in
       case upstream r1 w of
         (UpError err, w1) \<Rightarrow>
           (case errorHandler err (p1, st) of
              (p2, st1) \<Rightarrow>
                (case finalise (pe_end e) p2 st1 of
                   (p3, rec) \<Rightarrow>
                     ((r1, Some rec, \<lparr> dl_Status = 502, dl_Header = [], dl_Body = [] \<rparr>), p3, w1)))
       | (UpResponse status h chunks, w1) \<Rightarrow>
           (let st1 = modifyResponse p1 (pe_upstream e) status h st;
                st2 = st1\<lparr>rs_tee := map_option (fold tee_Read chunks) (rs_tee st1)\<rparr>
            in case finalise (pe_end e) p1 st2 of
                 (p2, rec) \<Rightarrow>
                   ((r1, Some rec, \<lparr> dl_Status = status, dl_Header = h, dl_Body = concat chunks \<rparr>), p2, w1))
       | (UpBroken status h chunks, w1) \<Rightarrow>
           ((r1, None, \<lparr> dl_Status = status, dl_Header = h, dl_Body = concat chunks \<rparr>), p1, w1)))))"

definition Proxy_Stats :: "Proxy \<Rightarrow> int \<times> int \<times> int" where
  "Proxy_Stats p = (px_recorded p, px_truncated p, px_failed p)"

section \<open>The capture is a bounded prefix\<close>

definition tee_of :: "int \<Rightarrow> string \<Rightarrow> int \<Rightarrow> teeReader" where
  "tee_of limit content chunks =
     \<lparr> te_limit = limit, te_buf = take (nat limit) content, te_truncated = (limit < int (length content)),
       te_chunks = chunks \<rparr>"

lemma tee_Read_step:
  "0 \<le> limit \<Longrightarrow> tee_Read p (tee_of limit content n) =
     tee_of limit (content @ p) (if p = [] then n else n + 1)"
  by (cases "int (length content) \<le> limit") (auto simp: tee_Read_def tee_of_def Let_def min_def nat_diff_distrib)

lemma fold_tee_Read:
  "0 \<le> limit \<Longrightarrow> fold tee_Read chunks (tee_of limit content n) =
     tee_of limit (content @ concat chunks) (n + int (length (filter (\<lambda>p. p \<noteq> []) chunks)))"
  by (induction chunks arbitrary: content n) (simp_all add: tee_Read_step add.assoc)

lemma newTeeReader_of: "0 \<le> limit \<Longrightarrow> newTeeReader limit = tee_of limit [] 0"
  by (simp add: newTeeReader_def tee_of_def)

text \<open>
  A capture never exceeds its limit and never lies about it.  However a body arrives, what is kept
  is its first \<open>limit\<close> bytes, it is called truncated exactly when there was more, and the chunks
  counted are the reads that delivered something.
\<close>

theorem capture_is_a_bounded_prefix:
  assumes "0 \<le> limit"
  shows "captured (fold tee_Read chunks (newTeeReader limit)) =
      (take (nat limit) (concat chunks), limit < int (length (concat chunks)),
       int (length (filter (\<lambda>p. p \<noteq> []) chunks))) \<and>
    int (length (fst (captured (fold tee_Read chunks (newTeeReader limit))))) \<le> limit"
  using assms by (simp add: newTeeReader_of fold_tee_Read) (simp add: captured_def tee_of_def)

theorem capture_is_a_bounded_prefix_witness:
  "captured (fold tee_Read [''ab'', [], ''cd''] (newTeeReader 3)) = (''abc'', True, 2)"
  using capture_is_a_bounded_prefix [of 3 "[''ab'', [], ''cd'']"] by simp

section \<open>What the proxy records\<close>

lemma readLimited_take:
  "0 \<le> limit \<Longrightarrow> readLimited (content, err) limit =
     (take (nat limit) content, limit < int (length content))"
proof -
  assume "0 \<le> limit"
  moreover from this have "int (length (take (nat (limit + 1)) content)) = min (limit + 1) (int (length content))"
    by simp
  ultimately show ?thesis
    by (auto simp: readLimited_def Let_def min_def)
qed

lemma capture_request_some:
  assumes "0 \<le> px_CaptureLimit p" and "hq_Body r = Some (content, err)"
  shows "capture_request r p rec =
    (r\<lparr>hq_Body := Some (take (nat (px_CaptureLimit p)) content, None)\<rparr>,
     p\<lparr>px_truncated := px_truncated p + (if px_CaptureLimit p < int (length content) then 1 else 0)\<rparr>,
     rec\<lparr>rc_ReqBody := take (nat (px_CaptureLimit p)) content,
         rc_ReqTruncated := px_CaptureLimit p < int (length content)\<rparr>)"
  using assms by (simp add: capture_request_def readLimited_take)

lemma finalise_none:
  "rs_tee st = None \<Longrightarrow>
     finalise t p st = (p\<lparr>px_recorded := px_recorded p + 1\<rparr>, (rs_rec st)\<lparr>rc_End := t\<rparr>)"
  by (simp add: finalise_def Let_def)

lemma finalise_some:
  "rs_tee st = Some (tee_of limit c n) \<Longrightarrow>
     finalise t p st =
       (p\<lparr>px_truncated := px_truncated p + (if limit < int (length c) then 1 else 0),
          px_recorded := px_recorded p + 1\<rparr>,
        (rs_rec st)\<lparr>rc_End := t, rc_RespBody := take (nat limit) c, rc_RespTruncated := limit < int (length c),
          rc_Chunks := (if rc_Streamed (rs_rec st) then n else rc_Chunks (rs_rec st))\<rparr>)"
  by (simp add: finalise_def Let_def captured_def tee_of_def)

text \<open>
  C31. The record is what was exchanged.  With capture on, the upstream is sent the request with the
  first \<open>limit\<close> bytes of its body and nothing of how the body ended, and that is what is recorded,
  called truncated exactly when there was more.  A response reaches the client whole, whatever the
  limit, while the record keeps its bounded prefix; an upstream error becomes a recorded 502; and a
  response that breaks off while it is copied leaves no record at all.
\<close>

theorem record_is_the_exchange:
  assumes "Proxy_ServeHTTP e upstream r p w = ((sent, recorded, resp), p', w')"
    and "hq_Body r = Some (content, err)" and "0 \<le> px_CaptureLimit p"
  shows "sent = r\<lparr>hq_Body := Some (take (nat (px_CaptureLimit p)) content, None)\<rparr> \<and>
    (case recorded of
       None \<Rightarrow> px_recorded p' = px_recorded p
     | Some rec \<Rightarrow>
         px_recorded p' = px_recorded p + 1 \<and>
         rc_ReqBody rec = take (nat (px_CaptureLimit p)) content \<and>
         rc_ReqTruncated rec = (px_CaptureLimit p < int (length content)) \<and>
         (rc_ReqHeader rec, rc_ReqRedacted rec) = Redactor_Headers (px_Redactor p) (hq_Header r)) \<and>
    (case fst (upstream sent w) of
       UpError uerr \<Rightarrow> dl_Status resp = 502 \<and> (\<exists>rec. recorded = Some rec \<and> rc_Status rec = 502 \<and> rc_Err rec = Some uerr)
     | UpResponse status h chunks \<Rightarrow>
         resp = \<lparr> dl_Status = status, dl_Header = h, dl_Body = concat chunks \<rparr> \<and>
         (\<exists>rec. recorded = Some rec \<and> rc_Status rec = status \<and> rc_Err rec = None \<and>
            rc_RespBody rec = take (nat (px_CaptureLimit p)) (concat chunks) \<and>
            rc_RespTruncated rec = (px_CaptureLimit p < int (length (concat chunks))))
     | UpBroken status h chunks \<Rightarrow> recorded = None)"
proof -
  obtain session origin step sessions where s: "Identify (pe_id e) (hq_Header r) (px_Sessions p) = ((session, origin, step), sessions)"
    by (cases "Identify (pe_id e) (hq_Header r) (px_Sessions p)") auto
  obtain hdr redacted where h: "Redactor_Headers (px_Redactor p) (hq_Header r) = (hdr, redacted)"
    by (cases "Redactor_Headers (px_Redactor p) (hq_Header r)")
  let ?limit = "px_CaptureLimit p"
  let ?r1 = "r\<lparr>hq_Body := Some (take (nat ?limit) content, None)\<rparr>"
  obtain p1 rec1 where cap: "capture_request r (p\<lparr>px_Sessions := sessions\<rparr>) (start_record p e r session step) = (?r1, p1, rec1)"
    and p1: "px_recorded p1 = px_recorded p" "px_CaptureLimit p1 = ?limit" "px_Redactor p1 = px_Redactor p"
    and rec1: "rc_ReqBody rec1 = take (nat ?limit) content" "rc_ReqTruncated rec1 = (?limit < int (length content))"
      "rc_Err rec1 = None"
    using capture_request_some [of "p\<lparr>px_Sessions := sessions\<rparr>" r content err "start_record p e r session step"] assms(2,3)
    by (simp add: start_record_def zero_Record_def)
  define st where "st = \<lparr> rs_rec = rec1\<lparr>rc_ReqHeader := hdr, rc_ReqRedacted := redacted\<rparr>, rs_tee = None \<rparr>"
  have strec: "rc_ReqBody (rs_rec st) = take (nat ?limit) content"
    "rc_ReqTruncated (rs_rec st) = (?limit < int (length content))" "rc_Err (rs_rec st) = None"
    "rc_ReqHeader (rs_rec st) = hdr" "rc_ReqRedacted (rs_rec st) = redacted"
    using rec1 by (simp_all add: st_def)
  have run: "(case upstream ?r1 w of
         (UpError err, w1) \<Rightarrow>
           (case errorHandler err (p1, st) of
              (p2, st1) \<Rightarrow>
                (case finalise (pe_end e) p2 st1 of
                   (p3, rec) \<Rightarrow>
                     ((?r1, Some rec, \<lparr> dl_Status = 502, dl_Header = [], dl_Body = [] \<rparr>), p3, w1)))
       | (UpResponse status h chunks, w1) \<Rightarrow>
           (let st1 = modifyResponse p1 (pe_upstream e) status h st;
                st2 = st1\<lparr>rs_tee := map_option (fold tee_Read chunks) (rs_tee st1)\<rparr>
            in case finalise (pe_end e) p1 st2 of
                 (p2, rec) \<Rightarrow>
                   ((?r1, Some rec, \<lparr> dl_Status = status, dl_Header = h, dl_Body = concat chunks \<rparr>), p2, w1))
       | (UpBroken status h chunks, w1) \<Rightarrow>
           ((?r1, None, \<lparr> dl_Status = status, dl_Header = h, dl_Body = concat chunks \<rparr>), p1, w1))
      = ((sent, recorded, resp), p', w')"
    using assms(1) by (simp only: Proxy_ServeHTTP_def s h cap prod.case Let_def st_def)
  obtain u w1 where u: "upstream ?r1 w = (u, w1)" by (cases "upstream ?r1 w")
  show ?thesis
  proof (cases u)
    case (UpError uerr)
    then show ?thesis
      using run u h rec1 p1 by (simp add: errorHandler_def finalise_none st_def) (elim conjE, hypsubst, simp add: u)
  next
    case (UpResponse status rh chunks)
    obtain rhdr rredacted where rh: "Redactor_Headers (px_Redactor p) rh = (rhdr, rredacted)"
      by (cases "Redactor_Headers (px_Redactor p) rh")
    let ?st2 = "(modifyResponse p1 (pe_upstream e) status rh st)
      \<lparr>rs_tee := map_option (fold tee_Read chunks) (rs_tee (modifyResponse p1 (pe_upstream e) status rh st))\<rparr>"
    have st2: "rs_tee ?st2 = Some (tee_of ?limit (concat chunks) (int (length (filter (\<lambda>p. p \<noteq> []) chunks))))"
      "rs_rec ?st2 = (rs_rec st)\<lparr>rc_Status := status, rc_RespHeader := rhdr, rc_RespRedacted := rredacted,
         rc_Upstream := pe_upstream e, rc_Streamed := isEventStream rh\<rparr>"
      using rh p1 assms(3) by (simp_all add: modifyResponse_def Let_def newTeeReader_of fold_tee_Read)
    show ?thesis
      using run u h strec p1 UpResponse
      by (simp add: Let_def finalise_some [OF st2(1)] st2(2)) (elim conjE, hypsubst, simp add: u)
  next
    case (UpBroken status rh chunks)
    then show ?thesis using run u h p1 by auto
  qed
qed

definition ex_request :: http_request where
  "ex_request = \<lparr> hq_Method = ''POST'', hq_URL = ''/v1'', hq_Header = [(SessionHeader, [''s1''])],
     hq_Body = Some (''hello'', Some (Text ''connection reset'')), hq_ContentLength = 9 \<rparr>"

definition ex_proxy :: Proxy where
  "ex_proxy = NewProxy ex_redactor ''http://model'' PlaneModel None 0 None"

definition ex_proxy_env :: proxy_env where
  "ex_proxy_env = \<lparr> pe_id = \<lparr> ie_evict = 0, ie_seen = 0, ie_rand = None, ie_stamp = [] \<rparr>,
     pe_start = 0, pe_upstream = 0, pe_end = 1 \<rparr>"

text \<open>A request whose body broke off after five bytes of nine is sent on, and recorded, as whole.\<close>

theorem record_is_the_exchange_witness:
  "\<exists>sent rec resp p' w'. Proxy_ServeHTTP ex_proxy_env (\<lambda>_ w. (UpResponse 200 [] [''ok''], w)) ex_request ex_proxy ()
       = ((sent, Some rec, resp), p', w') \<and>
     hq_Body sent = Some (''hello'', None) \<and> rc_ReqBody rec = ''hello'' \<and> \<not> rc_ReqTruncated rec \<and> dl_Body resp = ''ok''"
proof -
  let ?up = "\<lambda>_ w. (UpResponse 200 [] [''ok''], w)"
  obtain sent recd resp p' w' where run: "Proxy_ServeHTTP ex_proxy_env ?up ex_request ex_proxy () = ((sent, recd, resp), p', w')"
    by (metis prod.collapse)
  have "hq_Body ex_request = Some (''hello'', Some (Text ''connection reset''))" "px_CaptureLimit ex_proxy = 8388608"
    by (simp_all add: ex_request_def ex_proxy_def NewProxy_def DefaultCaptureLimit_def)
  with record_is_the_exchange [OF run, of "''hello''" "Some (Text ''connection reset'')"] run
  show ?thesis by (cases recd) auto
qed

section \<open>Step counters\<close>

fun identify_all :: "(id_env \<times> http_header) list \<Rightarrow> Sessions \<Rightarrow> (string \<times> int) list" where
  "identify_all [] s = []"
| "identify_all ((e, h) # cs) s =
     (case Identify e h s of ((i, _, step), s1) \<Rightarrow> (i, step) # identify_all cs s1)"

text \<open>The steps handed out for one session, and the step it would be given next.\<close>

definition steps_of :: "string \<Rightarrow> (string \<times> int) list \<Rightarrow> int list" where
  "steps_of i xs = map snd (filter (\<lambda>(j, _). j = i) xs)"

definition next_step :: "Sessions \<Rightarrow> string \<Rightarrow> int" where
  "next_step s i = (case map_of (se_byID s) i of Some st \<Rightarrow> ss_step st | None \<Rightarrow> 0)"

text \<open>No call finds the session idle for longer than the registry keeps it.\<close>

fun never_idle :: "string \<Rightarrow> (id_env \<times> http_header) list \<Rightarrow> Sessions \<Rightarrow> bool" where
  "never_idle i [] s = True"
| "never_idle i ((e, h) # cs) s =
     ((case map_of (se_byID s) i of Some st \<Rightarrow> \<not> ss_seen st < ie_evict e - se_ttl s | None \<Rightarrow> True) \<and>
      never_idle i cs (snd (Identify e h s)))"

lemma map_of_filter_value:
  "distinct (map fst m) \<Longrightarrow>
     map_of (filter (\<lambda>(_, v). P v) m) k = (case map_of m k of Some v \<Rightarrow> if P v then Some v else None | None \<Rightarrow> None)"
proof (induction m)
  case (Cons kv m)
  obtain k' v where kv: "kv = (k', v)" by (cases kv)
  have "k \<notin> fst ` set m \<Longrightarrow> map_of (filter (\<lambda>(_, v). P v) m) k = None \<and> map_of m k = None"
    by (auto simp: map_of_eq_None_iff)
  then show ?case using Cons kv by (cases "k = k'") auto
qed simp

lemma map_of_evict:
  assumes "distinct (map fst (se_byID s))"
  shows "map_of (se_byID (evict now s)) i =
    (case map_of (se_byID s) i of Some st \<Rightarrow> if ss_seen st < now - se_ttl s then None else Some st | None \<Rightarrow> None)"
  using map_of_filter_value [OF assms, of "\<lambda>st. \<not> ss_seen st < now - se_ttl s" i]
  by (auto simp: evict_def split: option.splits)

lemma distinct_evict: "distinct (map fst (se_byID s)) \<Longrightarrow> distinct (map fst (se_byID (evict now s)))"
  by (simp add: evict_def distinct_map_filter)

lemma newSyntheticID_frame: "newSyntheticID e s = (i, s') \<Longrightarrow> se_byID s' = se_byID s \<and> se_ttl s' = se_ttl s"
  by (auto simp: newSyntheticID_def split: option.splits)

lemma evict_cong: "se_byID s' = se_byID s \<Longrightarrow> se_ttl s' = se_ttl s \<Longrightarrow> se_byID (evict now s') = se_byID (evict now s)"
  by (simp add: evict_def)

lemma Identify_cases:
  assumes "Identify e h s = ((i, origin, step), s')"
  shows "step = next_step (evict (ie_evict e) s) i \<and>
    se_byID s' = AList.update i \<lparr> ss_step = step + 1, ss_seen = ie_seen e \<rparr> (se_byID (evict (ie_evict e) s)) \<and>
    se_ttl s' = se_ttl s"
proof -
  obtain i0 o0 s1 where first: "(case sessionID h of
              ([], _) \<Rightarrow> (case newSyntheticID e s of (i, s1) \<Rightarrow> (i, OriginSynthetic, s1))
            | (i, origin) \<Rightarrow> (i, origin, s)) = (i0, o0, s1)"
    by (metis prod_cases3)
  then have s1: "se_byID s1 = se_byID s \<and> se_ttl s1 = se_ttl s"
    using newSyntheticID_frame by (fastforce split: prod.splits list.splits)
  then have "se_byID (evict (ie_evict e) s1) = se_byID (evict (ie_evict e) s)" by (auto intro: evict_cong)
  then show ?thesis
    using assms s1 first
    by (auto simp: Identify_def Let_def next_step_def lookup_or_def evict_def split: option.splits)
qed

lemma identify_all_steps:
  "distinct (map fst (se_byID s)) \<Longrightarrow> never_idle i calls s \<Longrightarrow>
     steps_of i (identify_all calls s) =
       map (\<lambda>k. next_step s i + int k) [0..<length (steps_of i (identify_all calls s))]"
proof (induction calls arbitrary: s)
  case (Cons c calls)
  obtain e h where c: "c = (e, h)" by (cases c)
  obtain j origin step s1 where id: "Identify e h s = ((j, origin, step), s1)"
    by (cases "Identify e h s") auto
  note step = Identify_cases [OF id]
  have dist: "distinct (map fst (se_byID s1))" using step Cons.prems(1) by (simp add: distinct_update distinct_evict)
  have keep: "next_step (evict (ie_evict e) s) i = next_step s i"
    using Cons.prems c by (cases "map_of (se_byID s) i") (simp_all add: next_step_def map_of_evict)
  have idle: "never_idle i calls s1" using Cons.prems(2) c id by simp
  note IH = Cons.IH [OF dist idle]
  show ?case
  proof (cases "j = i")
    case True
    then have "step = next_step s i" using step keep by simp
    moreover have "next_step s1 i = next_step s i + 1" using step keep True by (simp add: next_step_def update_conv')
    ultimately show ?thesis
      using IH c id True
      by (simp add: steps_of_def upt_conv_Cons del: upt_Suc)
        (simp add: map_Suc_upt [symmetric] comp_def add.assoc del: upt_Suc)
  next
    case False
    have "next_step s1 i = next_step s i" using step keep False by (simp add: next_step_def update_conv')
    then show ?thesis using IH c id False by (simp add: steps_of_def)
  qed
qed (simp add: steps_of_def)

text \<open>
  Steps count up within a session, until it is forgotten.  While no call finds the session idle for
  longer than the registry keeps it, the steps handed out for it are consecutive, whatever other
  sessions do; but a call that finds it idle longer is given step 0 again.
\<close>

theorem steps_are_consecutive_until_idle:
  assumes "distinct (map fst (se_byID s))"
  shows "(never_idle i calls s \<longrightarrow>
      steps_of i (identify_all calls s) =
        map (\<lambda>k. next_step s i + int k) [0..<length (steps_of i (identify_all calls s))]) \<and>
    (\<forall>e h st origin step s'. map_of (se_byID s) i = Some st \<and> ss_seen st < ie_evict e - se_ttl s \<and>
       Identify e h s = ((i, origin, step), s') \<longrightarrow> step = 0)"
proof -
  have "step = 0" if "map_of (se_byID s) i = Some st" "ss_seen st < ie_evict e - se_ttl s"
      "Identify e h s = ((i, origin, step), s')" for e h st origin step s'
    using Identify_cases [OF that(3)] that(1,2) map_of_evict [OF assms, of "ie_evict e" i]
    by (simp add: next_step_def)
  then show ?thesis using identify_all_steps [OF assms] by blast
qed

definition ex_call :: "time \<Rightarrow> id_env \<times> http_header" where
  "ex_call t = (\<lparr> ie_evict = t, ie_seen = t, ie_rand = None, ie_stamp = [] \<rparr>, [(SessionHeader, [''s1''])])"

theorem steps_are_consecutive_until_idle_witness:
  "steps_of ''s1'' (identify_all [ex_call 0, ex_call 5, ex_call 9] (NewSessions 10)) = [0, 1, 2] \<and>
   identify_all [ex_call 0, ex_call 5, ex_call 20] (NewSessions 10) = [(''s1'', 0), (''s1'', 1), (''s1'', 0)]"
proof -
  let ?calls = "[ex_call 0, ex_call 5, ex_call 9]"
  have len: "length (steps_of ''s1'' (identify_all ?calls (NewSessions 10))) = 3" by code_simp
  have "never_idle ''s1'' ?calls (NewSessions 10)" "next_step (NewSessions 10) ''s1'' = 0"
    "distinct (map fst (se_byID (NewSessions 10)))" by code_simp+
  then have "steps_of ''s1'' (identify_all ?calls (NewSessions 10)) = map int [0..<3]"
    using steps_are_consecutive_until_idle [of "NewSessions 10" "''s1''" ?calls] len by (simp add: comp_def)
  moreover have "identify_all [ex_call 0, ex_call 5, ex_call 20] (NewSessions 10) = [(''s1'', 0), (''s1'', 1), (''s1'', 0)]"
    by code_simp
  ultimately show ?thesis by (simp add: upt_rec)
qed

end
