(* ===== verification/RecordSpan.thy ===== *)
theory RecordSpan
  imports Recorder Replay
begin

text \<open>
  What a recorded call looks like as a span (\<open>internal/recorder/sink.go\<close>), the annotation of tool
  traffic with the contract the server advertised (\<open>mcpplane.go\<close>) and the contract of a tool
  (\<open>internal/mcp/client.go\<close>).  RFC 8785 canonicalisation, the JSON decoders and the rendering of an
  error as a text are parameters.
\<close>

record span_env =
  sv_jcs :: "string \<Rightarrow> string result"
  sv_model :: "string \<Rightarrow> string result"
  sv_render :: "msg \<Rightarrow> string"

section \<open>The matching key\<close>

definition json_space :: string where
  "json_space = map char_of [32::nat, 9, 13, 10]"

definition looksLikeJSON :: "string \<Rightarrow> bool" where
  "looksLikeJSON b =
     (let t = dropWhile (\<lambda>c. c \<in> set json_space) b in HasPrefix t ''{'' \<or> HasPrefix t ''['')"

definition NormalisedHash :: "(string \<Rightarrow> string result) \<Rightarrow> string \<Rightarrow> string" where
  "NormalisedHash jcs body =
     (if body = [] then []
      else let canonical = (if looksLikeJSON body
                            then (case jcs body of Inr c \<Rightarrow> c | Inl _ \<Rightarrow> body) else body)
           in ''sha256:'' @ EncodeToString (Sum256 canonical))"

definition modelFrom :: "span_env \<Rightarrow> string \<Rightarrow> string" where
  "modelFrom V body =
     (if \<not> looksLikeJSON body then []
      else (case sv_model V body of Inl _ \<Rightarrow> [] | Inr m \<Rightarrow> m))"

section \<open>Tool contracts\<close>

record McpTool =
  mt_Name :: string
  mt_Description :: string
  mt_InputSchema :: string

text \<open>The encoder gets the name, the description and the schema as the server sent it.\<close>

definition ContractDigest ::
    "(string \<Rightarrow> string \<Rightarrow> string \<Rightarrow> string result) \<Rightarrow> (string \<Rightarrow> string result) \<Rightarrow> McpTool \<Rightarrow> string result" where
  "ContractDigest marshal jcs t =
     (let schema = (if mt_InputSchema t = [] then ''{}'' else mt_InputSchema t) in
      bindR (marshal (mt_Name t) (mt_Description t) schema) (\<lambda>raw.
        case jcs raw of
          Inl e \<Rightarrow> Inl (Sprintf ''canonicalise tool contract for %q: %w'' [AStr (mt_Name t), AErr e])
        | Inr canonical \<Rightarrow> Inr (''sha256:'' @ EncodeToString (Sum256 canonical))))"

record annotator_env =
  ae_request :: "string \<Rightarrow> (string \<times> string \<times> string) result"
  ae_tools :: "string \<Rightarrow> McpTool list result"
  ae_marshal :: "string \<Rightarrow> string \<Rightarrow> string \<Rightarrow> string result"
  ae_jcs :: "string \<Rightarrow> string result"

text \<open>The first event of a stream that carries data: its data lines joined.\<close>

fun sse_data :: "string list \<Rightarrow> string \<Rightarrow> string" where
  "sse_data [] sb = sb"
| "sse_data (l # ls) sb =
     (let line = TrimRight l [char_of (13::nat)] in
      if HasPrefix line ''data:'' then sse_data ls (sb @ TrimSpace (drop 5 line))
      else if line = [] \<and> sb \<noteq> [] then sb
      else sse_data ls sb)"

definition firstSSEData :: "string \<Rightarrow> string option" where
  "firstSSEData b =
     (if \<not> Contains b ''data:'' then None
      else let sb = sse_data (strings_Split (char_of (10::nat)) b) [] in
        if sb = [] then None else Some sb)"

type_synonym contracts = "(string \<times> string) list"

definition learnContracts :: "annotator_env \<Rightarrow> string \<Rightarrow> contracts \<Rightarrow> contracts" where
  "learnContracts A body cs =
     (let payload = (case firstSSEData body of Some p \<Rightarrow> p | None \<Rightarrow> body) in
      case ae_tools A payload of
        Inl _ \<Rightarrow> cs
      | Inr tools \<Rightarrow>
          fold (\<lambda>t cs. case ContractDigest (ae_marshal A) (ae_jcs A) t of
                         Inl _ \<Rightarrow> cs | Inr d \<Rightarrow> AList.update (mt_Name t) d cs) tools cs)"

definition annotate :: "annotator_env \<Rightarrow> Record \<Rightarrow> contracts \<Rightarrow> Record \<times> contracts" where
  "annotate A r cs =
     (case ae_request A (rc_ReqBody r) of
        Inl _ \<Rightarrow> (r, cs)
      | Inr (meth, name, args) \<Rightarrow>
          if meth = [] then (r, cs)
          else let r = r\<lparr>rc_MCPMethod := meth\<rparr> in
            if meth = ''tools/list'' then (r, learnContracts A (rc_RespBody r) cs)
            else if meth = ''tools/call''
            then (r\<lparr>rc_ToolName := name, rc_ToolArgsHash := NormalisedHash (ae_jcs A) args,
                    rc_ToolContractDigest := lookup_or [] cs name\<rparr>, cs)
            else (r, cs))"

definition Annotator_Record :: "annotator_env \<Rightarrow> Record \<Rightarrow> contracts \<Rightarrow> Record \<times> contracts" where
  "Annotator_Record A r cs = (if rc_Plane r = PlaneTool then annotate A r cs else (r, cs))"

section \<open>Spans\<close>

definition OpChat :: string where "OpChat = ''chat''"
definition AttrSessionID :: string where "AttrSessionID = ''waveoff.session.id''"
definition AttrUpstreamStatus :: string where "AttrUpstreamStatus = ''waveoff.upstream.status_code''"
definition AttrUpstreamDurationMS :: string where "AttrUpstreamDurationMS = ''waveoff.upstream.duration_ms''"
definition AttrRequestHeaders :: string where "AttrRequestHeaders = ''waveoff.request.headers''"
definition AttrResponseHeaders :: string where "AttrResponseHeaders = ''waveoff.response.headers''"
definition AttrStreamed :: string where "AttrStreamed = ''waveoff.response.streamed''"
definition AttrStreamChunks :: string where "AttrStreamChunks = ''waveoff.response.stream_chunks''"

definition SpanNameAndKind :: "span_env \<Rightarrow> Record \<Rightarrow> string \<times> Kind" where
  "SpanNameAndKind V r =
     (if rc_Plane r = PlaneTool
      then (if rc_ToolName r \<noteq> [] then (OpTool @ '' '' @ rc_ToolName r, KindTool) else (OpTool, KindTool))
      else let m = modelFrom V (rc_ReqBody r) in
        if m \<noteq> [] then (OpChat @ '' '' @ m, KindModel) else (OpChat, KindModel))"

definition flattenHeader :: "http_header \<Rightarrow> (string \<times> json) list" where
  "flattenHeader h =
     fold (\<lambda>(name, vs) m. AList.update (ToLower name) (JStr (strings_Join '', '' vs)) m) h []"

definition set_if :: "bool \<Rightarrow> string \<Rightarrow> json \<Rightarrow> attributes \<Rightarrow> attributes" where
  "set_if b k v a = (if b then AList.update k v a else a)"

definition mcpAttributes :: "Record \<Rightarrow> attributes \<Rightarrow> attributes" where
  "mcpAttributes r a =
     set_if (rc_Refused r) AttrToolRefused (JBool True)
    (set_if (rc_Suppressed r) AttrToolSuppressed (JBool True)
    (set_if (rc_ToolEffect r \<noteq> []) AttrToolEffect (JStr (rc_ToolEffect r))
    (set_if (rc_ToolArgsHash r \<noteq> []) AttrToolArgsHash (JStr (rc_ToolArgsHash r))
    (set_if (rc_ToolContractDigest r \<noteq> []) AttrToolContractDigest (JStr (rc_ToolContractDigest r))
    (set_if (rc_ToolName r \<noteq> []) ''gen_ai.tool.name'' (JStr (rc_ToolName r))
    (set_if (rc_ToolName r \<noteq> []) AttrToolName (JStr (rc_ToolName r))
    (set_if (rc_MCPMethod r \<noteq> []) ''mcp.method.name'' (JStr (rc_MCPMethod r)) a)))))))"

definition Milliseconds :: "duration \<Rightarrow> int" where
  "Milliseconds d = (if d < 0 then - ((- d) div 10 ^ 6) else d div 10 ^ 6)"

definition SpanAttributes :: "span_env \<Rightarrow> Record \<Rightarrow> attributes" where
  "SpanAttributes V r =
     (let a = [(AttrSessionID, JStr (rc_Session r)), (AttrStepIndex, JInt (rc_Step r)),
               (AttrRequestBody, JStr (rc_ReqBody r)), (AttrResponseBody, JStr (rc_RespBody r)),
               (AttrUpstreamStatus, JInt (rc_Status r)),
               (AttrUpstreamDurationMS, JInt (Milliseconds (rc_Upstream r))),
               (AttrRequestHash, JStr (NormalisedHash (sv_jcs V) (rc_ReqBody r))),
               (''http.request.method'', JStr (rc_Method r)), (''url.path'', JStr (rc_URL r)),
               (AttrServerAddress, JStr (rc_Target r))];
          a = set_if (flattenHeader (rc_ReqHeader r) \<noteq> []) AttrRequestHeaders (JObj (flattenHeader (rc_ReqHeader r))) a;
          a = set_if (flattenHeader (rc_RespHeader r) \<noteq> []) AttrResponseHeaders (JObj (flattenHeader (rc_RespHeader r))) a;
          labels = rc_ReqRedacted r @ rc_RespRedacted r;
          a = set_if (labels \<noteq> []) AttrRedacted (JStrs labels) a;
          a = set_if (rc_Streamed r) AttrStreamed (JBool True) a;
          a = set_if (rc_Streamed r) AttrStreamChunks (JInt (rc_Chunks r)) a;
          a = set_if (rc_ReqTruncated r \<or> rc_RespTruncated r) ''waveoff.truncated'' (JBool True) a;
          model = modelFrom V (rc_ReqBody r);
          a = set_if (model \<noteq> []) ''gen_ai.request.model'' (JStr model) a
      in if rc_Plane r = PlaneModel then AList.update ''gen_ai.operation.name'' (JStr OpChat) a
         else mcpAttributes r a)"

text \<open>\<open>itoa\<close>, digit by digit from the right.\<close>

function itoa_digits :: "int \<Rightarrow> string \<Rightarrow> string" where
  "itoa_digits n b = (if 0 < n then itoa_digits (n div 10) (char_of (nat (48 + n mod 10)) # b) else b)"
  by pat_completeness auto
termination
  by (relation "measure (\<lambda>(n, b). nat n)") auto

declare itoa_digits.simps [simp del]

definition itoa :: "int \<Rightarrow> string" where
  "itoa n = (if n = 0 then ''0''
             else if n < 0 then ''-'' @ itoa_digits (- n) [] else itoa_digits n [])"

definition SpanStatus :: "span_env \<Rightarrow> Record \<Rightarrow> Status" where
  "SpanStatus V r =
     (case rc_Err r of
        Some e \<Rightarrow> \<lparr> status_Code = ''ERROR'', status_Message = sv_render V e \<rparr>
      | None \<Rightarrow>
          if 400 \<le> rc_Status r
          then \<lparr> status_Code = ''ERROR'', status_Message = ''upstream returned '' @ itoa (rc_Status r) \<rparr>
          else \<lparr> status_Code = [], status_Message = [] \<rparr>)"

definition span_of :: "span_env \<Rightarrow> Record \<Rightarrow> Span" where
  "span_of V r =
     (case SpanNameAndKind V r of
        (name, kind) \<Rightarrow>
          \<lparr> span_TraceID = [], span_SpanID = [], span_ParentID = [], span_Name = name, span_Kind = kind,
            span_StartTime = rc_Start r, span_EndTime = rc_End r, span_Attributes = SpanAttributes V r,
            span_Status = SpanStatus V r \<rparr>)"

section \<open>Lemmas\<close>

lemma itoa_digits_nat: "0 < n \<Longrightarrow> itoa_digits n b = nat_string (nat n) @ b"
proof (induction "nat n" arbitrary: n b rule: less_induct)
  case less
  have step: "itoa_digits n b = itoa_digits (n div 10) (char_of (nat (48 + n mod 10)) # b)"
    using less.prems by (subst itoa_digits.simps) simp
  have digit: "nat (48 + n mod 10) = 48 + nat n mod 10" using less.prems by (simp add: nat_mod_distrib nat_add_distrib)
  show ?case
  proof (cases "n < 10")
    case True
    then have "nat n < 10" using less.prems by simp
    then show ?thesis using True less.prems step digit
      by (simp add: nat_string.simps [of "nat n"] itoa_digits.simps [of 0] div_pos_pos_trivial)
  next
    case False
    then have "nat (n div 10) < nat n" "0 < n div 10" "\<not> nat n < 10" using less.prems by auto
    from less.hyps [OF this(1,2)] this(3) show ?thesis
      using False less.prems step digit by (simp add: nat_string.simps [of "nat n"] nat_div_distrib)
  qed
qed

text \<open>The hand-written conversion is \<open>strconv.Itoa\<close>.\<close>

lemma itoa_eq: "itoa n = int_string n"
proof -
  have "char_of (48::nat) = CHR ''0''" by code_simp
  then show ?thesis
    by (auto simp: itoa_def int_string_def itoa_digits_nat nat_string.simps [of 0])
qed

text \<open>The keys of a span's attributes are distinct, and the ones matching goes by hold what they should.\<close>

lemma distinct_set_if: "distinct (map fst a) \<Longrightarrow> distinct (map fst (set_if b k v a))"
  by (simp add: set_if_def distinct_update)

lemma map_of_set_if: "k \<noteq> k' \<Longrightarrow> map_of (set_if b k v a) k' = map_of a k'"
  by (simp add: set_if_def update_conv')

lemmas attr_defs = AttrSessionID_def AttrUpstreamStatus_def AttrUpstreamDurationMS_def AttrRequestHeaders_def
  AttrResponseHeaders_def AttrStreamed_def AttrStreamChunks_def AttrRequestBody_def AttrResponseBody_def
  AttrRequestHash_def AttrServerAddress_def AttrStepIndex_def AttrToolName_def AttrToolArgsHash_def
  AttrToolContractDigest_def AttrToolEffect_def AttrToolSuppressed_def AttrToolRefused_def AttrRedacted_def
  AttrRequestRef_def AttrResponseRef_def AttrRequestBytes_def AttrResponseBytes_def AttrKind_def
  AttrSchemaVersion_def

lemma distinct_SpanAttributes: "distinct (map fst (SpanAttributes V r))"
proof -
  have "distinct (map fst [(AttrSessionID, JStr (rc_Session r)), (AttrStepIndex, JInt (rc_Step r)),
     (AttrRequestBody, JStr (rc_ReqBody r)), (AttrResponseBody, JStr (rc_RespBody r)),
     (AttrUpstreamStatus, JInt (rc_Status r)), (AttrUpstreamDurationMS, JInt (Milliseconds (rc_Upstream r))),
     (AttrRequestHash, JStr (NormalisedHash (sv_jcs V) (rc_ReqBody r))),
     (''http.request.method'', JStr (rc_Method r)), (''url.path'', JStr (rc_URL r)),
     (AttrServerAddress, JStr (rc_Target r))])"
    by (simp add: attr_defs)
  then show ?thesis
    unfolding SpanAttributes_def mcpAttributes_def Let_def
    by (auto intro!: distinct_set_if distinct_update)
qed

lemma SpanAttributes_values:
  "map_of (SpanAttributes V r) AttrSessionID = Some (JStr (rc_Session r))"
  "map_of (SpanAttributes V r) AttrStepIndex = Some (JInt (rc_Step r))"
  "map_of (SpanAttributes V r) AttrRequestBody = Some (JStr (rc_ReqBody r))"
  "map_of (SpanAttributes V r) AttrResponseBody = Some (JStr (rc_RespBody r))"
  "map_of (SpanAttributes V r) AttrRequestHash = Some (JStr (NormalisedHash (sv_jcs V) (rc_ReqBody r)))"
  by (simp_all add: SpanAttributes_def mcpAttributes_def Let_def map_of_set_if update_conv' attr_defs)

lemma SpanAttributes_tool:
  "rc_Plane r = PlaneTool \<Longrightarrow> rc_ToolName r \<noteq> [] \<Longrightarrow>
     map_of (SpanAttributes V r) AttrToolName = Some (JStr (rc_ToolName r))"
  by (simp add: SpanAttributes_def mcpAttributes_def Let_def map_of_set_if update_conv' attr_defs)
    (simp add: set_if_def update_conv')

end
