(* ===== verification/Sink.thy ===== *)
theory Sink
  imports RecordSpan Corpus
begin

text \<open>
  \<open>internal/recorder/sink.go\<close> and \<open>Create\<close> of \<open>internal/corpus/corpus.go\<close>: the bounded queue
  between the proxies and the worker that writes cassettes.  The corpus directory maps file names to
  their lines.  A send on the channel, the worker's turns, its sweeps and its shutdown are the steps of
  a relation; which of them comes next is the scheduler's choice.
\<close>

section \<open>The corpus directory\<close>

type_synonym corpus_dir = "(string \<times> string list) list"

text \<open>
  The file is created exclusively, so a session that has a file is an error whatever else would fail;
  a header that cannot be written removes the file again.
\<close>

definition Corpus_Create ::
    "encoder \<Rightarrow> Redactor \<Rightarrow> msg option \<Rightarrow> failure \<Rightarrow> Header \<Rightarrow> corpus_dir \<Rightarrow> string result \<times> corpus_dir" where
  "Corpus_Create E must openErr io h dir =
     (case safeName (hd_SessionID h) of
        Inl e \<Rightarrow> (Inl e, dir)
      | Inr name \<Rightarrow>
          if has_key dir name
          then (Inl (Sprintf ''corpus: session %q is already recorded'' [AStr (hd_SessionID h)]), dir)
          else (case openErr of
                  Some e \<Rightarrow> (Inl e, dir)
                | None \<Rightarrow>
                    (case WriteHeader E io h (NewWriter [] False must) of
                       (Some e, _) \<Rightarrow> (Inl e, dir)
                     | (None, w) \<Rightarrow> (Inr name, AList.update name (cw_out w) dir))))"

section \<open>State\<close>

record openCassette =
  oc_name :: string
  oc_cw :: Writer
  oc_lastSeen :: time

datatype phase = Running | Draining | Stopped

record 's CassetteSink =
  sk_dir :: corpus_dir
  sk_blobs :: 's
  sk_offload :: bool
  sk_depth :: nat
  sk_idle :: duration
  sk_agent :: string
  sk_behaviorDigest :: string
  sk_contentDigest :: string
  sk_queue :: "Record list"
  sk_open :: "(string \<times> openCassette) list"
  sk_closing :: bool
  sk_phase :: phase
  sk_written :: int
  sk_dropped :: int
  sk_errored :: int

text \<open>What the worker writes with: the encoder, the attribute builder, the redactor and the blob store.\<close>

record ('e, 's) sink_deps =
  sn_enc :: encoder
  sn_span :: span_env
  sn_red :: Redactor
  sn_put :: "'e \<Rightarrow> string \<Rightarrow> 's \<Rightarrow> digest result \<times> 's"

text \<open>What one write meets: the clock when a cassette is opened and after the span, and what fails.\<close>

record 'e write_env =
  we_opened :: time
  we_now :: time
  we_open :: "msg option"
  we_header :: failure
  we_io :: failure
  we_put :: "string \<Rightarrow> 'e"

record config =
  cf_Agent :: string
  cf_BehaviorDigest :: string
  cf_ContentDigest :: string
  cf_QueueDepth :: int
  cf_IdleTimeout :: duration
  cf_Blobs :: bool

definition NewCassetteSink :: "config \<Rightarrow> corpus_dir \<Rightarrow> 's \<Rightarrow> 's CassetteSink" where
  "NewCassetteSink c dir blobs =
     \<lparr> sk_dir = dir, sk_blobs = blobs, sk_offload = cf_Blobs c,
       sk_depth = (if cf_QueueDepth c \<le> 0 then 1024 else nat (cf_QueueDepth c)),
       sk_idle = (if cf_IdleTimeout c \<le> 0 then 2 * minute else cf_IdleTimeout c),
       sk_agent = cf_Agent c, sk_behaviorDigest = cf_BehaviorDigest c, sk_contentDigest = cf_ContentDigest c,
       sk_queue = [], sk_open = [], sk_closing = False, sk_phase = Running,
       sk_written = 0, sk_dropped = 0, sk_errored = 0 \<rparr>"

section \<open>Operations\<close>

definition Sink_Record :: "Record \<Rightarrow> 's CassetteSink \<Rightarrow> 's CassetteSink" where
  "Sink_Record r s =
     (if length (sk_queue s) < sk_depth s then s\<lparr>sk_queue := sk_queue s @ [r]\<rparr>
      else s\<lparr>sk_dropped := sk_dropped s + 1\<rparr>)"

definition sink_header :: "'s CassetteSink \<Rightarrow> string \<Rightarrow> time \<Rightarrow> Header" where
  "sink_header s session now =
     \<lparr> hd_SchemaVersion = [], hd_SessionID = session, hd_TraceID = [], hd_Agent = sk_agent s,
       hd_BehaviorDigest = sk_behaviorDigest s, hd_ContentDigest = sk_contentDigest s, hd_RecordedAt = now,
       hd_Recorder = ''waveoff-recorder'', hd_SourceSession = [], hd_Arm = [] \<rparr>"

definition cassetteFor ::
    "('e, 's) sink_deps \<Rightarrow> 'e write_env \<Rightarrow> Record \<Rightarrow> 's CassetteSink \<Rightarrow> openCassette result \<times> 's CassetteSink" where
  "cassetteFor N we rec s =
     (case map_of (sk_open s) (rc_Session rec) of
        Some oc \<Rightarrow> (Inr oc, s)
      | None \<Rightarrow>
          (case Corpus_Create (sn_enc N) (sn_red N) (we_open we) (we_header we)
                  (sink_header s (rc_Session rec) (we_opened we)) (sk_dir s) of
             (Inl e, dir) \<Rightarrow> (Inl e, s\<lparr>sk_dir := dir\<rparr>)
           | (Inr name, dir) \<Rightarrow>
               (case AdoptHeader (NewWriter (lookup_or [] dir name) (sk_offload s) (sn_red N)) of
                  (Some e, _) \<Rightarrow> (Inl e, s\<lparr>sk_dir := dir\<rparr>)
                | (None, cw) \<Rightarrow>
                    let oc = \<lparr> oc_name = name, oc_cw = cw, oc_lastSeen = we_opened we \<rparr>
                    in (Inr oc, s\<lparr>sk_dir := dir, sk_open := AList.update (rc_Session rec) oc (sk_open s)\<rparr>))))"

text \<open>The span is returned when it was written.  The writer appends to the file it holds open.\<close>

definition put_writer :: "string \<Rightarrow> openCassette \<Rightarrow> Writer \<Rightarrow> 's CassetteSink \<Rightarrow> 's CassetteSink" where
  "put_writer session oc cw s =
     s\<lparr>sk_dir := AList.update (oc_name oc) (cw_out cw) (sk_dir s),
       sk_open := AList.update session (oc\<lparr>oc_cw := cw\<rparr>) (sk_open s)\<rparr>"

definition Sink_write ::
    "('e, 's) sink_deps \<Rightarrow> 'e write_env \<Rightarrow> Record \<Rightarrow> 's CassetteSink \<Rightarrow> Span option \<times> 's CassetteSink" where
  "Sink_write N we rec s =
     (case cassetteFor N we rec s of
        (Inl e, s1) \<Rightarrow> (None, s1\<lparr>sk_errored := sk_errored s1 + 1\<rparr>)
      | (Inr oc, s1) \<Rightarrow>
          (case WriteSpan (sn_enc N) (we_io we) (sn_put N) (we_put we) (span_of (sn_span N) rec) (oc_cw oc) (sk_blobs s1) of
             (Some e, _, cw, blobs) \<Rightarrow>
               (None, (put_writer (rc_Session rec) oc cw s1)\<lparr>sk_blobs := blobs, sk_errored := sk_errored s1 + 1\<rparr>)
           | (None, sp, cw, blobs) \<Rightarrow>
               (Some sp, (put_writer (rc_Session rec) (oc\<lparr>oc_lastSeen := we_now we\<rparr>) cw s1)
                           \<lparr>sk_blobs := blobs, sk_written := sk_written s1 + 1\<rparr>)))"

text \<open>
  \<open>closeIdle\<close>: the number of files whose closing failed is returned.  A session that is closed keeps
  its file.
\<close>

definition closeIdle :: "bool \<Rightarrow> time \<Rightarrow> (string \<Rightarrow> bool) \<Rightarrow> 's CassetteSink \<Rightarrow> nat \<times> 's CassetteSink" where
  "closeIdle all now fails s =
     (let cutoff = now - sk_idle s;
          quiet = (\<lambda>(i, oc). all \<or> oc_lastSeen oc < cutoff);
          n = length (filter (\<lambda>(i, oc). fails i) (filter quiet (sk_open s)))
      in (n, s\<lparr>sk_open := filter (\<lambda>x. \<not> quiet x) (sk_open s), sk_errored := sk_errored s + int n\<rparr>))"

definition Sink_Stats :: "'s CassetteSink \<Rightarrow> int \<times> int \<times> int" where
  "Sink_Stats s = (sk_written s, sk_dropped s, sk_errored s)"

section \<open>Steps\<close>

text \<open>
  \<open>Handed\<close> is a call of \<open>Record\<close>, from any goroutine and at any time; \<open>Closing\<close> is \<open>Close\<close>, which
  only acts once; the others are the worker's.
\<close>

datatype label =
    Handed Record
  | Wrote Record "Span option"
  | Swept nat
  | Closing
  | DrainBegun
  | Finished nat

inductive sink_step :: "('e, 's) sink_deps \<Rightarrow> 's CassetteSink \<Rightarrow> label \<Rightarrow> 's CassetteSink \<Rightarrow> bool" for N where
  handed: "sink_step N s (Handed r) (Sink_Record r s)"
| wrote: "sk_phase s \<noteq> Stopped \<Longrightarrow> sk_queue s = r # q \<Longrightarrow> Sink_write N we r (s\<lparr>sk_queue := q\<rparr>) = (sp, s') \<Longrightarrow>
     sink_step N s (Wrote r sp) s'"
| swept: "sk_phase s = Running \<Longrightarrow> closeIdle False now fails s = (n, s') \<Longrightarrow> sink_step N s (Swept n) s'"
| closing: "sink_step N s Closing (s\<lparr>sk_closing := True\<rparr>)"
| drain: "sk_phase s = Running \<Longrightarrow> sk_closing s \<Longrightarrow> sink_step N s DrainBegun (s\<lparr>sk_phase := Draining\<rparr>)"
| finished: "sk_phase s = Draining \<Longrightarrow> sk_queue s = [] \<Longrightarrow> closeIdle True now fails s = (n, s') \<Longrightarrow>
     sink_step N s (Finished n) (s'\<lparr>sk_phase := Stopped\<rparr>)"

inductive sink_run :: "('e, 's) sink_deps \<Rightarrow> 's CassetteSink \<Rightarrow> label list \<Rightarrow> 's CassetteSink \<Rightarrow> bool" for N s0 where
  start: "sink_run N s0 [] s0"
| step: "sink_run N s0 ls s \<Longrightarrow> sink_step N s l s' \<Longrightarrow> sink_run N s0 (ls @ [l]) s'"

inductive_cases sink_step_Handed: "sink_step N s (Handed r) s'"
inductive_cases sink_step_Wrote: "sink_step N s (Wrote r sp) s'"
inductive_cases sink_step_Swept: "sink_step N s (Swept n) s'"
inductive_cases sink_step_Closing: "sink_step N s Closing s'"
inductive_cases sink_step_DrainBegun: "sink_step N s DrainBegun s'"
inductive_cases sink_step_Finished: "sink_step N s (Finished n) s'"

lemmas sink_step_elims = sink_step_Handed sink_step_Wrote sink_step_Swept sink_step_Closing
  sink_step_DrainBegun sink_step_Finished

section \<open>What each operation changes\<close>

lemma Sink_Record_frame:
  "sk_dir (Sink_Record r s) = sk_dir s" "sk_open (Sink_Record r s) = sk_open s"
  "sk_written (Sink_Record r s) = sk_written s" "sk_errored (Sink_Record r s) = sk_errored s"
  "sk_phase (Sink_Record r s) = sk_phase s" "sk_blobs (Sink_Record r s) = sk_blobs s"
  "sk_agent (Sink_Record r s) = sk_agent s" "sk_behaviorDigest (Sink_Record r s) = sk_behaviorDigest s"
  "sk_contentDigest (Sink_Record r s) = sk_contentDigest s"
  by (simp_all add: Sink_Record_def)

lemma cassetteFor_frame:
  assumes "cassetteFor N we r s = (res, s')"
  shows "sk_queue s' = sk_queue s \<and> sk_written s' = sk_written s \<and> sk_errored s' = sk_errored s \<and>
    sk_dropped s' = sk_dropped s \<and> sk_phase s' = sk_phase s \<and> sk_depth s' = sk_depth s \<and>
    sk_closing s' = sk_closing s \<and> sk_blobs s' = sk_blobs s \<and> sk_agent s' = sk_agent s \<and> sk_behaviorDigest s' = sk_behaviorDigest s \<and> sk_contentDigest s' = sk_contentDigest s"
  using assms
  by (auto simp: cassetteFor_def Let_def split: option.splits prod.splits sum.splits)

lemma Sink_write_frame:
  assumes "Sink_write N we r s = (sp, s')"
  shows "sk_queue s' = sk_queue s \<and> sk_dropped s' = sk_dropped s \<and> sk_phase s' = sk_phase s \<and>
    sk_depth s' = sk_depth s \<and> sk_closing s' = sk_closing s \<and> sk_agent s' = sk_agent s \<and> sk_behaviorDigest s' = sk_behaviorDigest s \<and> sk_contentDigest s' = sk_contentDigest s \<and>
    sk_written s' = sk_written s + (if sp = None then 0 else 1) \<and>
    sk_errored s' = sk_errored s + (if sp = None then 1 else 0)"
proof -
  obtain res s1 where c: "cassetteFor N we r s = (res, s1)" by (cases "cassetteFor N we r s")
  show ?thesis
    using assms c cassetteFor_frame [OF c]
    by (auto simp: Sink_write_def put_writer_def split: sum.splits option.splits prod.splits)
qed

lemma closeIdle_frame:
  assumes "closeIdle all now fails s = (n, s')"
  shows "sk_queue s' = sk_queue s \<and> sk_dir s' = sk_dir s \<and> sk_written s' = sk_written s \<and>
    sk_dropped s' = sk_dropped s \<and> sk_errored s' = sk_errored s + int n \<and> sk_phase s' = sk_phase s \<and>
    sk_blobs s' = sk_blobs s \<and> sk_agent s' = sk_agent s \<and> sk_behaviorDigest s' = sk_behaviorDigest s \<and> sk_contentDigest s' = sk_contentDigest s \<and> (all \<longrightarrow> sk_open s' = []) \<and>
    set (sk_open s') \<subseteq> set (sk_open s)"
  using assms by (auto simp: closeIdle_def Let_def)

section \<open>Conservation\<close>

definition handed :: "label list \<Rightarrow> int" where
  "handed ls = int (length (filter (\<lambda>l. case l of Handed _ \<Rightarrow> True | _ \<Rightarrow> False) ls))"

definition failed_closes :: "label list \<Rightarrow> int" where
  "failed_closes ls = sum_list (map (\<lambda>l. case l of Swept n \<Rightarrow> int n | Finished n \<Rightarrow> int n | _ \<Rightarrow> 0) ls)"

definition spans_written :: "label list \<Rightarrow> (string \<times> Span) list" where
  "spans_written ls =
     concat (map (\<lambda>l. case l of Wrote r (Some sp) \<Rightarrow> [(rc_Session r, sp)] | _ \<Rightarrow> []) ls)"

lemma label_counts_snoc:
  "handed (ls @ [l]) = handed ls + handed [l]"
  "failed_closes (ls @ [l]) = failed_closes ls + failed_closes [l]"
  "spans_written (ls @ [l]) = spans_written ls @ spans_written [l]"
  by (simp_all add: handed_def failed_closes_def spans_written_def)

lemmas label_counts = label_counts_snoc handed_def failed_closes_def spans_written_def

lemma sink_step_counts:
  assumes "sink_step N s l s'"
  shows "int (length (sk_queue s')) + sk_written s' + sk_dropped s' + sk_errored s' =
      int (length (sk_queue s)) + sk_written s + sk_dropped s + sk_errored s + handed [l] + failed_closes [l] \<and>
    sk_written s' = sk_written s + int (length (spans_written [l])) \<and>
    (length (sk_queue s) \<le> sk_depth s \<longrightarrow> length (sk_queue s') \<le> sk_depth s')"
  using assms
proof cases
  case (handed r)
  then show ?thesis by (auto simp: Sink_Record_def label_counts)
next
  case (wrote r q we sp)
  then show ?thesis using Sink_write_frame [OF wrote(4)] by (auto simp: label_counts)
next
  case (swept now fails n)
  then show ?thesis using closeIdle_frame [OF swept(3)] by (auto simp: label_counts closeIdle_def Let_def)
next
  case (finished now fails n s1)
  then show ?thesis using closeIdle_frame [OF finished(5)] by (auto simp: label_counts closeIdle_def Let_def)
qed (auto simp: label_counts)

text \<open>
  C35. No record is lost without being counted.  In every reachable state of a new sink, whatever the
  order of sends, writes, sweeps and shutdown, each record handed in is still queued, or was written,
  dropped or errored, once; the errors beyond those are the files whose closing failed; the spans
  written are as many as are counted; and the queue never exceeds its depth.
\<close>

theorem records_are_conserved:
  assumes "sink_run N (NewCassetteSink c dir blobs) ls s"
  shows "handed ls + failed_closes ls =
      int (length (sk_queue s)) + sk_written s + sk_dropped s + sk_errored s \<and>
    sk_written s = int (length (spans_written ls)) \<and> length (sk_queue s) \<le> sk_depth s"
  using assms
proof (induction rule: sink_run.induct)
  case start
  then show ?case by (simp add: NewCassetteSink_def label_counts)
next
  case (step ls s l s')
  then show ?case using sink_step_counts [OF step(2)] by (simp add: label_counts_snoc)
qed

section \<open>Shutdown\<close>

definition worker_label :: "label \<Rightarrow> bool" where
  "worker_label l = (case l of Wrote _ _ \<Rightarrow> True | Finished _ \<Rightarrow> True | _ \<Rightarrow> False)"

fun sink_path :: "('e, 's) sink_deps \<Rightarrow> 's CassetteSink \<Rightarrow> (label \<times> 's CassetteSink) list \<Rightarrow> bool" where
  "sink_path N s [] = True"
| "sink_path N s ((l, s1) # xs) = (sink_step N s l s1 \<and> sink_path N s1 xs)"

definition final_state :: "'s CassetteSink \<Rightarrow> (label \<times> 's CassetteSink) list \<Rightarrow> 's CassetteSink" where
  "final_state s xs = (if xs = [] then s else snd (last xs))"

lemma final_state_Cons: "final_state s ((l, s1) # xs) = final_state s1 xs"
  by (simp add: final_state_def)

lemma stopped_path:
  "sink_path N s xs \<Longrightarrow> sk_phase s = Stopped \<Longrightarrow> \<forall>(l, _) \<in> set xs. worker_label l \<Longrightarrow> xs = []"
  by (cases xs) (auto simp: worker_label_def split: label.splits elim!: sink_step_elims)

lemma draining_path:
  "sink_path N s xs \<Longrightarrow> sk_phase s = Draining \<Longrightarrow> \<forall>(l, _) \<in> set xs. worker_label l \<Longrightarrow>
     length xs + length (sk_queue (final_state s xs)) =
       length (sk_queue s) + (if sk_phase (final_state s xs) = Stopped then 1 else 0) \<and>
     (sk_phase (final_state s xs) = Stopped \<longrightarrow>
        sk_queue (final_state s xs) = [] \<and> sk_open (final_state s xs) = [] \<and>
        sk_written (final_state s xs) + sk_errored (final_state s xs) \<ge> sk_written s + sk_errored s + int (length (sk_queue s)))"
proof (induction xs arbitrary: s)
  case Nil
  then show ?case by (simp add: final_state_def)
next
  case (Cons x xs)
  obtain l s1 where x: "x = (l, s1)" by (cases x)
  have step: "sink_step N s l s1" "sink_path N s1 xs" and w: "worker_label l" using Cons.prems x by auto
  from step(1) show ?case
  proof cases
    case (wrote r q we sp)
    note f = Sink_write_frame [OF wrote(4)]
    then have "sk_phase s1 = Draining" using Cons.prems(2) by simp
    with Cons.IH [OF step(2)] Cons.prems(3) x f wrote show ?thesis
      by (auto simp: final_state_Cons split: if_splits)
  next
    case (finished now fails n s2)
    then have "xs = []" using stopped_path [OF step(2)] Cons.prems(3) x by auto
    then show ?thesis using finished closeIdle_frame [OF finished(5)] x by (auto simp: final_state_def)
  qed (use w Cons.prems(2) in \<open>auto simp: worker_label_def\<close>)
qed

text \<open>
  C36. A graceful shutdown ends and loses nothing that was queued.  Once the worker drains, it can always
  take a turn until it has stopped; if nothing more is handed in, it takes at most one turn per queued
  record and one to stop; and when it has stopped, the queue is empty, every cassette is closed and each
  record that was queued has been written or counted as an error.
\<close>

theorem shutdown_flushes_the_queue:
  assumes "sk_phase s = Draining"
  shows "(\<exists>l s'. worker_label l \<and> sink_step N s l s') \<and>
    (\<forall>xs. sink_path N s xs \<and> (\<forall>(l, _) \<in> set xs. worker_label l) \<longrightarrow>
       length xs \<le> Suc (length (sk_queue s)) \<and>
       (sk_phase (final_state s xs) = Stopped \<longrightarrow>
          sk_queue (final_state s xs) = [] \<and> sk_open (final_state s xs) = [] \<and>
          sk_written (final_state s xs) + sk_errored (final_state s xs) \<ge>
            sk_written s + sk_errored s + int (length (sk_queue s))))"
proof
  show "\<exists>l s'. worker_label l \<and> sink_step N s l s'"
  proof (cases "sk_queue s")
    case Nil
    obtain n s' where "closeIdle True 0 (\<lambda>_. False) s = (n, s')" by (cases "closeIdle True 0 (\<lambda>_. False) s")
    then have "sink_step N s (Finished n) (s'\<lparr>sk_phase := Stopped\<rparr>)"
      using assms Nil by (rule sink_step.finished [rotated 2])
    then show ?thesis by (intro exI [of _ "Finished n"]) (auto simp: worker_label_def)
  next
    case (Cons r q)
    obtain we sp s' where "Sink_write N we r (s\<lparr>sk_queue := q\<rparr>) = (sp, s')" by (metis prod.exhaust_sel)
    then have "sink_step N s (Wrote r sp) s'" using assms Cons by (intro sink_step.wrote) auto
    then show ?thesis by (intro exI [of _ "Wrote r sp"]) (auto simp: worker_label_def)
  qed
qed (use draining_path [OF _ assms] in \<open>fastforce split: if_splits\<close>)

section \<open>The files\<close>

lemma safeName_Inr: "safeName i = Inr name \<Longrightarrow> name = i @ Extension"
  by (auto simp: safeName_def split: if_splits option.splits)

lemma safeName_inject: "safeName i = Inr name \<Longrightarrow> safeName j = Inr name \<Longrightarrow> i = j"
  by (auto dest!: safeName_Inr)

definition session_spans :: "string \<Rightarrow> label list \<Rightarrow> Span list" where
  "session_spans i ls = map snd (filter (\<lambda>(j, _). j = i) (spans_written ls))"

text \<open>
  A session's file starts with a header that names the session and holds its spans; after them comes
  at most what a failed write left behind.
\<close>

definition file_holds ::
    "('e, 's) sink_deps \<Rightarrow> 's CassetteSink \<Rightarrow> string \<Rightarrow> string \<Rightarrow> Span list \<Rightarrow> string list \<Rightarrow> bool" where
  "file_holds N s i name spans lines \<longleftrightarrow>
     (\<exists>t l encs rest. lines = l # encs @ rest \<and>
        enc_header (sn_enc N) ((sink_header s i t)\<lparr>hd_SchemaVersion := SchemaVersion\<rparr>) = Inr l \<and>
        list_all2 (\<lambda>sp e. enc_span (sn_enc N) sp = Inr e) spans encs \<and>
        (\<forall>oc. map_of (sk_open s) i = Some oc \<longrightarrow>
           oc_name oc = name \<and> cw_out (oc_cw oc) = lines \<and> cw_wroteHeader (oc_cw oc) \<and>
           (cw_encErr (oc_cw oc) = None \<longrightarrow> rest = [])))"

definition session_file :: "'s CassetteSink \<Rightarrow> string \<Rightarrow> (string \<times> string list) option" where
  "session_file s i =
     (case safeName i of Inl _ \<Rightarrow> None | Inr name \<Rightarrow> map_option (Pair name) (map_of (sk_dir s) name))"

definition session_inv :: "('e, 's) sink_deps \<Rightarrow> 's CassetteSink \<Rightarrow> string \<Rightarrow> Span list \<Rightarrow> bool" where
  "session_inv N s i spans \<longleftrightarrow>
     (case session_file s i of
        None \<Rightarrow> map_of (sk_open s) i = None \<and> spans = []
      | Some (name, lines) \<Rightarrow> file_holds N s i name spans lines)"

definition files_inv :: "('e, 's) sink_deps \<Rightarrow> 's CassetteSink \<Rightarrow> label list \<Rightarrow> bool" where
  "files_inv N s ls \<longleftrightarrow> distinct (map fst (sk_open s)) \<and> (\<forall>i. session_inv N s i (session_spans i ls))"

lemma session_spans_snoc:
  "session_spans i (ls @ [l]) = session_spans i ls @ session_spans i [l]"
  by (simp add: session_spans_def label_counts_snoc)

lemma sink_header_cong:
  "sk_agent s' = sk_agent s \<Longrightarrow> sk_behaviorDigest s' = sk_behaviorDigest s \<Longrightarrow>
   sk_contentDigest s' = sk_contentDigest s \<Longrightarrow> sink_header s' = sink_header s"
  by (simp add: sink_header_def fun_eq_iff)

text \<open>A step that leaves the directory alone and opens nothing keeps every session.\<close>

lemma file_holds_mono:
  assumes "file_holds N s i name spans lines" and "sink_header s' = sink_header s"
    and "\<And>oc. map_of (sk_open s') i = Some oc \<Longrightarrow> map_of (sk_open s) i = Some oc"
  shows "file_holds N s' i name spans lines"
proof -
  from assms(1) obtain t l encs rest where h: "lines = l # encs @ rest"
      "enc_header (sn_enc N) ((sink_header s i t)\<lparr>hd_SchemaVersion := SchemaVersion\<rparr>) = Inr l"
      "list_all2 (\<lambda>sp e. enc_span (sn_enc N) sp = Inr e) spans encs"
    and oc: "\<forall>oc. map_of (sk_open s) i = Some oc \<longrightarrow>
           oc_name oc = name \<and> cw_out (oc_cw oc) = lines \<and> cw_wroteHeader (oc_cw oc) \<and>
           (cw_encErr (oc_cw oc) = None \<longrightarrow> rest = [])"
    unfolding file_holds_def by blast
  show ?thesis
    unfolding file_holds_def assms(2)
    by (rule exI [of _ t], rule exI [of _ l], rule exI [of _ encs], rule exI [of _ rest])
      (use h oc assms(3) in blast)
qed

lemma session_inv_mono:
  assumes "session_inv N s i spans" and "session_file s' i = session_file s i" and "sink_header s' = sink_header s"
    and "\<And>oc. map_of (sk_open s') i = Some oc \<Longrightarrow> map_of (sk_open s) i = Some oc"
  shows "session_inv N s' i spans"
proof (cases "session_file s i")
  case None
  then have "map_of (sk_open s) i = None \<and> spans = []" using assms(1) by (simp add: session_inv_def)
  moreover from this have "map_of (sk_open s') i = None" using assms(4) by (cases "map_of (sk_open s') i") auto
  ultimately show ?thesis using None assms(2) by (simp add: session_inv_def)
next
  case (Some nl)
  obtain name lines where nl: "nl = (name, lines)" by (cases nl)
  then have "file_holds N s i name spans lines" using assms(1) Some by (simp add: session_inv_def)
  then have "file_holds N s' i name spans lines" using assms(3,4) by (rule file_holds_mono)
  then show ?thesis using Some nl assms(2) by (simp add: session_inv_def)
qed

lemma session_file_cong: "sk_dir s' = sk_dir s \<Longrightarrow> session_file s' i = session_file s i"
  by (simp add: session_file_def cong: sum.case_cong)

lemma sink_header_update [simp]:
  "sink_header (s\<lparr>sk_queue := x0\<rparr>) = sink_header s"
  "sink_header (s\<lparr>sk_phase := x1\<rparr>) = sink_header s"
  "sink_header (s\<lparr>sk_closing := x2\<rparr>) = sink_header s"
  "sink_header (s\<lparr>sk_errored := x3\<rparr>) = sink_header s"
  "sink_header (s\<lparr>sk_written := x4\<rparr>) = sink_header s"
  "sink_header (s\<lparr>sk_dropped := x5\<rparr>) = sink_header s"
  "sink_header (s\<lparr>sk_blobs := x6\<rparr>) = sink_header s"
  "sink_header (s\<lparr>sk_open := x7\<rparr>) = sink_header s"
  by (simp_all add: sink_header_def fun_eq_iff)

lemma session_file_update [simp]:
  "session_file (s\<lparr>sk_queue := x0\<rparr>) = session_file s"
  "session_file (s\<lparr>sk_phase := x1\<rparr>) = session_file s"
  "session_file (s\<lparr>sk_closing := x2\<rparr>) = session_file s"
  "session_file (s\<lparr>sk_errored := x3\<rparr>) = session_file s"
  "session_file (s\<lparr>sk_written := x4\<rparr>) = session_file s"
  "session_file (s\<lparr>sk_dropped := x5\<rparr>) = session_file s"
  "session_file (s\<lparr>sk_blobs := x6\<rparr>) = session_file s"
  "session_file (s\<lparr>sk_open := x7\<rparr>) = session_file s"
  by (simp_all add: session_file_def fun_eq_iff cong: sum.case_cong)

text \<open>Opening a cassette.\<close>

lemma cassetteFor_inv:
  assumes "\<forall>i. session_inv N s i (f i)" and "distinct (map fst (sk_open s))" and "cassetteFor N we r s = (res, s')"
  shows "(\<forall>i. session_inv N s' i (f i)) \<and> distinct (map fst (sk_open s')) \<and>
    (\<forall>oc. res = Inr oc \<longrightarrow> map_of (sk_open s') (rc_Session r) = Some oc)"
proof (cases "map_of (sk_open s) (rc_Session r)")
  case (Some oc)
  then have "s' = s" "res = Inr oc" using assms(3) by (simp_all add: cassetteFor_def)
  then show ?thesis using assms(1,2) Some by simp
next
  case None
  let ?i = "rc_Session r"
  obtain res1 dir where create: "Corpus_Create (sn_enc N) (sn_red N) (we_open we) (we_header we)
      (sink_header s ?i (we_opened we)) (sk_dir s) = (res1, dir)"
    by (cases "Corpus_Create (sn_enc N) (sn_red N) (we_open we) (we_header we) (sink_header s ?i (we_opened we)) (sk_dir s)")
  show ?thesis
  proof (cases res1)
    case (Inl e)
    then have "dir = sk_dir s"
      using create by (auto simp: Corpus_Create_def split: sum.splits if_splits option.splits prod.splits)
    then have "s' = s" "res = Inl e" using assms(3) None create Inl by (simp_all add: cassetteFor_def)
    then show ?thesis using assms(1,2) by simp
  next
    case (Inr name)
    have hd: "hd_SessionID (sink_header s ?i t) = ?i" for t by (simp add: sink_header_def)
    obtain l where name: "safeName ?i = Inr name" "\<not> has_key (sk_dir s) name" "dir = AList.update name [l] (sk_dir s)"
      and l: "enc_header (sn_enc N) ((sink_header s ?i (we_opened we))\<lparr>hd_SchemaVersion := SchemaVersion\<rparr>) = Inr l"
      using create Inr
      by (auto simp: Corpus_Create_def hd WriteHeader_def NewWriter_def Encode_None
          split: sum.splits if_splits option.splits prod.splits)
    let ?oc = "\<lparr> oc_name = name, oc_cw = (NewWriter [l] (sk_offload s) (sn_red N))\<lparr>cw_wroteHeader := True\<rparr>, oc_lastSeen = we_opened we \<rparr>"
    have s': "s' = s\<lparr>sk_dir := dir, sk_open := AList.update ?i ?oc (sk_open s)\<rparr>" "res = Inr ?oc"
      using assms(3) None create Inr name
      by (simp_all add: cassetteFor_def AdoptHeader_def NewWriter_def Let_def lookup_or_def update_conv')
    have header: "sink_header s' = sink_header s" by (rule sink_header_cong) (simp_all add: s')
    have "session_inv N s' j (f j)" for j
    proof (cases "j = ?i")
      case True
      then have "f j = []" using assms(1) name by (auto simp: session_inv_def session_file_def has_key_def dest: spec [of _ ?i])
      then show ?thesis
        using True name l header
        by (auto simp: session_inv_def session_file_def file_holds_def s' update_conv' NewWriter_def intro!: exI [of _ "we_opened we"])
    next
      case False
      then have "safeName j \<noteq> Inr name" using name(1) safeName_inject by blast
      then have same: "session_file s' j = session_file s j"
        by (auto simp: session_file_def s' name(3) update_conv' split: sum.splits)
      have "map_of (sk_open s') j = map_of (sk_open s) j" using False by (simp add: s' update_conv')
      then show ?thesis using session_inv_mono [OF assms(1)[rule_format] same header] by simp
    qed
    then show ?thesis using assms(2) s' by (simp add: distinct_update update_conv')
  qed
qed

text \<open>Writing a record extends the file of its session, and only that.\<close>

lemma put_writer_other:
  assumes "safeName i = Inr (oc_name oc)" and "j \<noteq> i" and "session_inv N s j spans"
    and "s' = (put_writer i oc cw s)\<lparr>sk_blobs := b, sk_written := w, sk_errored := e\<rparr>"
  shows "session_inv N s' j spans"
proof -
  have "safeName j \<noteq> Inr (oc_name oc)" using assms(1,2) safeName_inject by blast
  then have same: "session_file s' j = session_file s j"
    by (auto simp: session_file_def assms(4) put_writer_def update_conv' split: sum.splits)
  have header: "sink_header s' = sink_header s" by (rule sink_header_cong) (simp_all add: assms(4) put_writer_def)
  have "map_of (sk_open s') j = map_of (sk_open s) j" using assms(2) by (simp add: assms(4) put_writer_def update_conv')
  then show ?thesis using session_inv_mono [OF assms(3) same header] by simp
qed

lemma put_writer_same:
  assumes "session_inv N s i spans" and "map_of (sk_open s) i = Some oc"
    and "WriteSpan (sn_enc N) io put e sp (oc_cw oc) b = (r, sp', cw, b')"
    and "s' = (put_writer i (oc\<lparr>oc_lastSeen := t\<rparr>) cw s)\<lparr>sk_blobs := b', sk_written := w, sk_errored := er\<rparr>"
    and "safeName i = Inr (oc_name oc)"
  shows "session_inv N s' i (spans @ (if r = None then [sp'] else []))"
proof -
  have "session_file s i \<noteq> None" using assms(1,2) by (auto simp: session_inv_def split: option.splits)
  then obtain lines where lines: "session_file s i = Some (oc_name oc, lines)"
    using assms(5) by (auto simp: session_file_def)
  then have "file_holds N s i (oc_name oc) spans lines" using assms(1) by (simp add: session_inv_def)
  then obtain u l encs rest where h: "lines = l # encs @ rest"
      "enc_header (sn_enc N) ((sink_header s i u)\<lparr>hd_SchemaVersion := SchemaVersion\<rparr>) = Inr l"
      "list_all2 (\<lambda>sp e. enc_span (sn_enc N) sp = Inr e) spans encs"
      "cw_out (oc_cw oc) = lines" "cw_wroteHeader (oc_cw oc)" "cw_encErr (oc_cw oc) = None \<longrightarrow> rest = []"
    using assms(2) unfolding file_holds_def by blast
  have header: "sink_header s' = sink_header s" by (rule sink_header_cong) (simp_all add: assms(4) put_writer_def)
  have at: "session_file s' i = Some (oc_name oc, cw_out cw)"
      "map_of (sk_open s') i = Some (oc\<lparr>oc_lastSeen := t, oc_cw := cw\<rparr>)"
    using assms(5) by (simp_all add: session_file_def assms(4) put_writer_def update_conv')
  have wrote: "cw_wroteHeader cw" using WriteSpan_out [OF assms(3)] h(5) by simp
  obtain encs' rest' where new: "cw_out cw = l # encs' @ rest'"
      "list_all2 (\<lambda>sp e. enc_span (sn_enc N) sp = Inr e) (spans @ (if r = None then [sp'] else [])) encs'"
      "cw_encErr cw = None \<longrightarrow> rest' = []"
  proof (cases r)
    case None
    obtain line where "enc_span (sn_enc N) sp' = Inr line" "cw_out cw = cw_out (oc_cw oc) @ [line]" "cw_encErr (oc_cw oc) = None"
      using assms(3) None by (auto elim: WriteSpan_None)
    then show ?thesis
      using None h(1,3,4,6) by (intro that [of "encs @ [line]" "[]"]) (auto intro: list_all2_appendI)
  next
    case (Some err)
    obtain torn where "cw_out cw = cw_out (oc_cw oc) @ torn" using WriteSpan_out [OF assms(3)] by blast
    moreover have "cw_encErr cw = None \<longrightarrow> rest @ torn = []"
      using WriteSpan_err [OF assms(3)] Some h(6) calculation by auto
    ultimately show ?thesis
      using Some h(1,3,4) by (intro that [of encs "rest @ torn"]) auto
  qed
  have "file_holds N s' i (oc_name oc) (spans @ (if r = None then [sp'] else [])) (cw_out cw)"
    unfolding file_holds_def header
    by (rule exI [of _ u], rule exI [of _ l], rule exI [of _ encs'], rule exI [of _ rest'])
      (use new h(2) at(2) wrote in simp)
  then show ?thesis using at(1) by (simp add: session_inv_def)
qed

lemma Sink_write_inv:
  assumes "files_inv N s ls" and "Sink_write N we r s = (res, s')"
  shows "files_inv N s' (ls @ [Wrote r res])"
proof -
  have inv: "\<forall>i. session_inv N s i (session_spans i ls)" "distinct (map fst (sk_open s))"
    using assms(1) by (simp_all add: files_inv_def)
  obtain oc s1 where c: "cassetteFor N we r s = (oc, s1)" by (cases "cassetteFor N we r s")
  note inv1 = cassetteFor_inv [OF inv c]
  show ?thesis
  proof (cases oc)
    case (Inl e)
    then have s': "s' = s1\<lparr>sk_errored := sk_errored s1 + 1\<rparr>" "res = None"
      using assms(2) c by (simp_all add: Sink_write_def)
    have "session_inv N s1 i (session_spans i ls)" for i using inv1 by blast
    then have "session_inv N s' i (session_spans i ls)" for i
      by (rule session_inv_mono) (simp_all add: s')
    then show ?thesis using inv1 s' by (simp add: files_inv_def session_spans_snoc) (simp add: session_spans_def spans_written_def)
  next
    case (Inr oc1)
    let ?i = "rc_Session r"
    obtain rr sp cw b where w: "WriteSpan (sn_enc N) (we_io we) (sn_put N) (we_put we) (span_of (sn_span N) r) (oc_cw oc1) (sk_blobs s1)
        = (rr, sp, cw, b)"
      by (cases "WriteSpan (sn_enc N) (we_io we) (sn_put N) (we_put we) (span_of (sn_span N) r) (oc_cw oc1) (sk_blobs s1)")
    let ?t = "if rr = None then we_now we else oc_lastSeen oc1"
    have s': "s' = (put_writer ?i (oc1\<lparr>oc_lastSeen := ?t\<rparr>) cw s1)\<lparr>sk_blobs := b,
          sk_written := sk_written s1 + (if rr = None then 1 else 0), sk_errored := sk_errored s1 + (if rr = None then 0 else 1)\<rparr>"
        "res = (if rr = None then Some sp else None)"
      using assms(2) c Inr w by (auto simp: Sink_write_def put_writer_def split: option.splits)
    have open1: "map_of (sk_open s1) ?i = Some oc1" using inv1 Inr by simp
    have i1: "session_inv N s1 ?i (session_spans ?i ls)" using inv1 by blast
    have safe: "safeName ?i = Inr (oc_name oc1)"
      using i1 open1 by (auto simp: session_inv_def session_file_def file_holds_def split: option.splits sum.splits)
    have same: "session_inv N s' ?i (session_spans ?i ls @ (if rr = None then [sp] else []))"
      using put_writer_same [OF i1 open1 w s'(1) safe] .
    have other: "session_inv N s' j (session_spans j ls)" if "j \<noteq> ?i" for j
      by (rule put_writer_other [where oc = "oc1\<lparr>oc_lastSeen := ?t\<rparr>", OF _ that _ s'(1)]) (use safe inv1 in simp_all)
    have "session_spans j [Wrote r res] = (if j = ?i \<and> rr = None then [sp] else [])" for j
      by (simp add: session_spans_def spans_written_def s'(2))
    then have "session_inv N s' j (session_spans j (ls @ [Wrote r res]))" for j
      using same other by (cases "j = ?i") (simp_all add: session_spans_snoc)
    moreover have "distinct (map fst (sk_open s'))"
      using inv1 by (simp add: s' put_writer_def distinct_update)
    ultimately show ?thesis by (simp add: files_inv_def)
  qed
qed

lemma files_inv_quiet:
  assumes "files_inv N s ls" and "sk_dir s' = sk_dir s" and "sink_header s' = sink_header s"
    and "set (sk_open s') \<subseteq> set (sk_open s)" and "distinct (map fst (sk_open s'))"
    and "spans_written [l] = []"
  shows "files_inv N s' (ls @ [l])"
proof -
  have inv: "distinct (map fst (sk_open s))" "\<And>i. session_inv N s i (session_spans i ls)"
    using assms(1) by (simp_all add: files_inv_def)
  have "map_of (sk_open s) i = Some oc" if "map_of (sk_open s') i = Some oc" for i oc
    using that assms(4) inv(1) by (metis map_of_SomeD map_of_is_SomeI subsetD)
  then have "session_inv N s' i (session_spans i ls)" for i
    using session_inv_mono [OF inv(2) session_file_cong [OF assms(2)] assms(3)] by blast
  moreover have "session_spans i (ls @ [l]) = session_spans i ls" for i
    using assms(6) by (simp add: session_spans_def label_counts_snoc(3))
  ultimately show ?thesis using assms(5) by (simp add: files_inv_def)
qed

lemma closeIdle_quiet:
  assumes "files_inv N s ls" and "closeIdle all now fails s = (n, s')" and "spans_written [l] = []"
  shows "files_inv N s' (ls @ [l])"
proof (rule files_inv_quiet [OF assms(1)])
  show "sink_header s' = sink_header s" using closeIdle_frame [OF assms(2)] by (intro sink_header_cong) simp_all
  show "distinct (map fst (sk_open s'))"
    using assms(1,2) by (auto simp: closeIdle_def Let_def files_inv_def distinct_map_filter)
qed (use closeIdle_frame [OF assms(2)] assms(3) in simp_all)

lemma sink_step_inv:
  assumes "files_inv N s ls" and "sink_step N s l s'"
  shows "files_inv N s' (ls @ [l])"
proof -
  have distinct: "distinct (map fst (sk_open s))" using assms(1) by (simp add: files_inv_def)
  from assms(2) show ?thesis
  proof cases
    case (handed r)
    have "sink_header s' = sink_header s" unfolding handed by (rule sink_header_cong) (simp_all add: Sink_Record_frame)
    then show ?thesis
      using handed distinct by (intro files_inv_quiet [OF assms(1)]) (simp_all add: Sink_Record_frame spans_written_def)
  next
    case (wrote r q we sp)
    have "session_inv N s i (session_spans i ls)" for i using assms(1) by (simp add: files_inv_def)
    then have "session_inv N (s\<lparr>sk_queue := q\<rparr>) i (session_spans i ls)" for i
      by (rule session_inv_mono) simp_all
    then have "files_inv N (s\<lparr>sk_queue := q\<rparr>) ls" using distinct by (simp add: files_inv_def)
    then show ?thesis using Sink_write_inv wrote by blast
  next
    case (swept now fails n)
    show ?thesis using closeIdle_quiet [OF assms(1) swept(3)] swept(1) by (simp add: spans_written_def)
  next
    case closing
    show ?thesis
      by (rule files_inv_quiet [OF assms(1)]) (use distinct in \<open>simp_all add: closing spans_written_def\<close>)
  next
    case drain
    show ?thesis
      by (rule files_inv_quiet [OF assms(1)]) (use distinct in \<open>simp_all add: drain spans_written_def\<close>)
  next
    case (finished now fails n s1)
    have inv: "files_inv N s1 (ls @ [l])"
      using closeIdle_quiet [OF assms(1) finished(5)] finished(1) by (simp add: spans_written_def)
    then have "session_inv N s1 i (session_spans i (ls @ [l]))" for i by (simp add: files_inv_def)
    then have "session_inv N s' i (session_spans i (ls @ [l]))" for i
      by (rule session_inv_mono) (simp_all add: finished(2))
    then show ?thesis using inv finished(2) by (simp add: files_inv_def)
  qed
qed

lemma sink_run_inv:
  assumes "sink_run N (NewCassetteSink c [] blobs) ls s"
  shows "files_inv N s ls"
  using assms
proof (induction rule: sink_run.induct)
  case start
  show ?case
    by (simp add: files_inv_def session_inv_def session_file_def session_spans_def spans_written_def NewCassetteSink_def
        split: sum.split)
next
  case (step ls s l s')
  then show ?case using sink_step_inv by blast
qed

text \<open>
  C37. What the recorder reports as written can be read.  Starting from an empty corpus, in every
  reachable state and whatever failed on the way, the file of a session opens with a header that names
  the session and yields, in order, exactly the spans reported as written for it, before anything a
  failed write may have left; and all spans written are in some session's file.
\<close>

theorem written_spans_read_back:
  assumes "sink_run N (NewCassetteSink c [] blobs) ls s"
    and "session_spans i ls \<noteq> []"
    and "\<forall>t. header_reads_back (sn_enc N) J ((sink_header s i t)\<lparr>hd_SchemaVersion := SchemaVersion\<rparr>)"
    and "\<forall>sp \<in> set (session_spans i ls). span_reads_back (sn_enc N) J sp"
  shows "\<exists>lines rd. map_of (sk_dir s) (i @ Extension) = Some lines \<and>
    NewReader J \<lparr> sc_lines = lines, sc_err = None \<rparr> = Inr rd \<and> hd_SessionID (rd_header rd) = i \<and>
    take (length (session_spans i ls)) (spans_until_break J (rd_sc rd)) = map wire_span (session_spans i ls)"
proof -
  have "session_inv N s i (session_spans i ls)" using sink_run_inv [OF assms(1)] by (simp add: files_inv_def)
  then obtain name lines where at: "session_file s i = Some (name, lines)" "file_holds N s i name (session_spans i ls) lines"
    using assms(2) by (auto simp: session_inv_def split: option.splits)
  then obtain t l encs rest where h: "lines = l # encs @ rest"
      "enc_header (sn_enc N) ((sink_header s i t)\<lparr>hd_SchemaVersion := SchemaVersion\<rparr>) = Inr l"
      "list_all2 (\<lambda>sp e. enc_span (sn_enc N) sp = Inr e) (session_spans i ls) encs"
    unfolding file_holds_def by blast
  have "safeName i = Inr name" "map_of (sk_dir s) name = Some lines"
    using at(1) by (auto simp: session_file_def split: sum.splits)
  then have dir: "map_of (sk_dir s) (i @ Extension) = Some lines" using safeName_Inr by auto
  have "header_reads_back (sn_enc N) J ((sink_header s i t)\<lparr>hd_SchemaVersion := SchemaVersion\<rparr>)" using assms(3) by blast
  then have "dec_header J l = Inr ((sink_header s i t)\<lparr>hd_SchemaVersion := SchemaVersion\<rparr>)"
    using h(2) by (simp add: header_reads_back_def)
  then show ?thesis
    using dir spans_of_lines [OF h(3) assms(4), of rest None]
    by (auto simp: h(1) NewReader_def sink_header_def)
qed

section \<open>A session that went quiet\<close>

definition closed_session :: "'s CassetteSink \<Rightarrow> string \<Rightarrow> string list \<Rightarrow> bool" where
  "closed_session s i lines \<longleftrightarrow> map_of (sk_open s) i = None \<and> map_of (sk_dir s) (i @ Extension) = Some lines"

lemma cassetteFor_closed:
  assumes "closed_session s i lines" and "files_inv N s ls" and "cassetteFor N we r s = (res, s')"
  shows "if rc_Session r = i then s' = s \<and> (\<exists>e. res = Inl e)
    else closed_session s' i lines \<and> (\<forall>oc. res = Inr oc \<longrightarrow> oc_name oc \<noteq> i @ Extension)"
proof (cases "map_of (sk_open s) (rc_Session r)")
  case None
  let ?j = "rc_Session r"
  obtain res1 dir where create: "Corpus_Create (sn_enc N) (sn_red N) (we_open we) (we_header we)
      (sink_header s ?j (we_opened we)) (sk_dir s) = (res1, dir)"
    by (cases "Corpus_Create (sn_enc N) (sn_red N) (we_open we) (we_header we) (sink_header s ?j (we_opened we)) (sk_dir s)")
  have hd: "hd_SessionID (sink_header s ?j t) = ?j" for t by (simp add: sink_header_def)
  show ?thesis
  proof (cases res1)
    case (Inl e)
    then have "dir = sk_dir s"
      using create by (auto simp: Corpus_Create_def split: sum.splits if_splits option.splits prod.splits)
    then have "s' = s" "res = Inl e" using assms(3) None create Inl by (simp_all add: cassetteFor_def)
    then show ?thesis using assms(1) by simp
  next
    case (Inr name)
    obtain l where name: "safeName ?j = Inr name" "\<not> has_key (sk_dir s) name" "dir = AList.update name [l] (sk_dir s)"
      using create Inr
      by (auto simp: Corpus_Create_def hd WriteHeader_def NewWriter_def Encode_None
          split: sum.splits if_splits option.splits prod.splits)
    then have ne: "name = ?j @ Extension" "name \<noteq> i @ Extension"
      using assms(1) safeName_Inr by (auto simp: closed_session_def has_key_def)
    then have "?j \<noteq> i" by auto
    then show ?thesis
      using assms(1,3) None create Inr name ne(2)
      by (auto simp: cassetteFor_def AdoptHeader_def NewWriter_def Let_def lookup_or_def closed_session_def update_conv')
  qed
next
  case (Some oc)
  then have "rc_Session r \<noteq> i" using assms(1) by (auto simp: closed_session_def)
  moreover have "session_inv N s (rc_Session r) (session_spans (rc_Session r) ls)" using assms(2) by (simp add: files_inv_def)
  then have "safeName (rc_Session r) = Inr (oc_name oc)"
    using Some by (auto simp: session_inv_def session_file_def file_holds_def split: option.splits sum.splits)
  then have "oc_name oc = rc_Session r @ Extension" by (rule safeName_Inr)
  ultimately show ?thesis using assms(1,3) Some by (auto simp: cassetteFor_def)
qed

lemma closed_step:
  assumes "closed_session s i lines" and "files_inv N s ls" and "sink_step N s l s'"
  shows "closed_session s' i lines \<and> (\<forall>r sp. l = Wrote r sp \<and> rc_Session r = i \<longrightarrow> sp = None)"
  using assms(3)
proof cases
  case (wrote r q we sp)
  let ?s = "s\<lparr>sk_queue := q\<rparr>"
  have quiet: "closed_session ?s i lines" using assms(1) by (simp add: closed_session_def)
  have "session_inv N s j (session_spans j ls)" for j using assms(2) by (simp add: files_inv_def)
  then have "session_inv N ?s j (session_spans j ls)" for j by (rule session_inv_mono) simp_all
  then have inv: "files_inv N ?s ls" using assms(2) by (simp add: files_inv_def)
  obtain res s1 where c: "cassetteFor N we r ?s = (res, s1)" by (cases "cassetteFor N we r ?s")
  note closed = cassetteFor_closed [OF quiet inv c]
  show ?thesis
  proof (cases "rc_Session r = i")
    case True
    then show ?thesis
      using closed c wrote quiet by (auto simp: Sink_write_def closed_session_def split: if_splits)
  next
    case False
    then show ?thesis
      using closed c wrote(1,4)
      by (auto simp: Sink_write_def closed_session_def put_writer_def update_conv'
          split: sum.splits option.splits prod.splits)
  qed
next
  case (swept now fails n)
  then show ?thesis
    using assms(1) closeIdle_frame [OF swept(3)] by (auto simp: closed_session_def map_of_eq_None_iff)
next
  case (finished now fails n s1)
  then show ?thesis
    using assms(1) closeIdle_frame [OF finished(5)] by (auto simp: closed_session_def map_of_eq_None_iff)
qed (use assms(1) in \<open>auto simp: closed_session_def Sink_Record_frame\<close>)

text \<open>
  A session that went quiet loses the rest of its calls.  Once a session's cassette has been closed,
  its file never changes again and no further record of the session is ever written: every attempt to
  is an error, because the corpus refuses to create the session a second time.
\<close>

theorem quiet_session_loses_its_records:
  assumes "sink_run N (NewCassetteSink c [] blobs) ls s" and "closed_session s i lines" and "sink_path N s xs"
  shows "\<not> (\<exists>(l, s') \<in> set xs. map_of (sk_dir s') (i @ Extension) \<noteq> Some lines \<or>
    (\<exists>r sp. l = Wrote r (Some sp) \<and> rc_Session r = i))"
proof -
  have "\<forall>(l, s') \<in> set xs. closed_session s' i lines \<and> (\<forall>r sp. l = Wrote r sp \<and> rc_Session r = i \<longrightarrow> sp = None)"
    using sink_run_inv [OF assms(1)] assms(2,3)
  proof (induction xs arbitrary: s ls)
    case (Cons x xs)
    obtain l s1 where x: "x = (l, s1)" by (cases x)
    then have step: "sink_step N s l s1" "sink_path N s1 xs" using Cons.prems(3) by simp_all
    note now = closed_step [OF Cons.prems(2,1) step(1)]
    from Cons.IH [OF sink_step_inv [OF Cons.prems(1) step(1)] _ step(2)] now show ?case using x by auto
  qed simp
  then show ?thesis by (fastforce simp: closed_session_def)
qed

section \<open>An example\<close>

text \<open>One record of one session, written, and its cassette closed by a sweep.\<close>

definition ex_deps :: "(unit, unit) sink_deps" where
  "ex_deps = \<lparr> sn_enc = \<lparr> enc_header = (\<lambda>h. if hd_RecordedAt h = 0 then Inr ''h'' else Inl no_msg), enc_span = (\<lambda>_. Inr ''s'') \<rparr>,
     sn_span = \<lparr> sv_jcs = Inr, sv_model = (\<lambda>_. Inr []), sv_render = (\<lambda>_. []) \<rparr>,
     sn_red = ex_redactor, sn_put = ex_put \<rparr>"

definition ex_config :: config where
  "ex_config = \<lparr> cf_Agent = ''agent'', cf_BehaviorDigest = [], cf_ContentDigest = [], cf_QueueDepth = 4,
     cf_IdleTimeout = 10, cf_Blobs = False \<rparr>"

definition ex_record :: Record where
  "ex_record = zero_Record\<lparr>rc_Session := ''s1''\<rparr>"

definition ex_write_env :: "unit write_env" where
  "ex_write_env = \<lparr> we_opened = 0, we_now = 0, we_open = None, we_header = None, we_io = None, we_put = (\<lambda>_. ()) \<rparr>"

definition ex_sink0 :: "unit CassetteSink" where "ex_sink0 = NewCassetteSink ex_config [] ()"
definition ex_sink1 :: "unit CassetteSink" where "ex_sink1 = Sink_Record ex_record ex_sink0"
definition ex_sink2 :: "Span option \<times> unit CassetteSink" where
  "ex_sink2 = Sink_write ex_deps ex_write_env ex_record (ex_sink1\<lparr>sk_queue := []\<rparr>)"
definition ex_sink3 :: "nat \<times> unit CassetteSink" where
  "ex_sink3 = closeIdle False 100 (\<lambda>_. False) (snd ex_sink2)"

lemma ex_sink_values:
  "sk_queue ex_sink1 = [ex_record]" "sk_phase ex_sink1 = Running" "sk_phase (snd ex_sink2) = Running"
  "map span_Name (case fst ex_sink2 of Some sp \<Rightarrow> [sp] | None \<Rightarrow> []) = [''chat'']"
  "sk_dir (snd ex_sink2) = [(''s1'' @ Extension, [''h'', ''s''])]"
  "sk_open (snd ex_sink3) = []" "sk_dir (snd ex_sink3) = [(''s1'' @ Extension, [''h'', ''s''])]"
  by code_simp+

lemma ex_sink_run:
  obtains sp n where "sink_run ex_deps ex_sink0 [Handed ex_record, Wrote ex_record (Some sp), Swept n] (snd ex_sink3)"
    and "span_Name sp = ''chat''"
proof -
  obtain sp where sp: "fst ex_sink2 = Some sp" "span_Name sp = ''chat''"
    using ex_sink_values(4) by (cases "fst ex_sink2") auto
  have "sink_step ex_deps ex_sink0 (Handed ex_record) ex_sink1" unfolding ex_sink1_def by (rule sink_step.handed)
  moreover have "sink_step ex_deps ex_sink1 (Wrote ex_record (Some sp)) (snd ex_sink2)"
    using sp(1) ex_sink_values(1,2)
    by (intro sink_step.wrote [where we = ex_write_env and q = "[]"]) (auto simp: ex_sink2_def [symmetric] prod_eq_iff)
  moreover have "sink_step ex_deps (snd ex_sink2) (Swept (fst ex_sink3)) (snd ex_sink3)"
    by (rule sink_step.swept [where now = 100 and fails = "\<lambda>_. False"])
      (simp_all add: ex_sink_values ex_sink3_def [symmetric])
  ultimately have "sink_run ex_deps ex_sink0 ((([] @ [Handed ex_record]) @ [Wrote ex_record (Some sp)]) @ [Swept (fst ex_sink3)]) (snd ex_sink3)"
    by (intro sink_run.step [OF sink_run.step [OF sink_run.step [OF sink_run.start]]])
  then show ?thesis using that sp(2) by simp
qed

theorem records_are_conserved_witness:
  "sk_written (snd ex_sink3) = 1 \<and> length (sk_queue (snd ex_sink3)) \<le> sk_depth (snd ex_sink3)"
proof -
  obtain sp n where "sink_run ex_deps ex_sink0 [Handed ex_record, Wrote ex_record (Some sp), Swept n] (snd ex_sink3)"
    by (rule ex_sink_run)
  then show ?thesis
    using records_are_conserved [of ex_deps ex_config "[]" "()"] by (simp add: ex_sink0_def spans_written_def)
qed

theorem shutdown_flushes_the_queue_witness:
  "\<exists>l s'. worker_label l \<and> sink_step ex_deps (ex_sink1\<lparr>sk_phase := Draining\<rparr>) l s'"
  using shutdown_flushes_the_queue [of "ex_sink1\<lparr>sk_phase := Draining\<rparr>" ex_deps] by simp

theorem written_spans_read_back_witness:
  "\<exists>sp rd. NewReader (ex_codec sp) \<lparr> sc_lines = [''h'', ''s''], sc_err = None \<rparr> = Inr rd \<and>
     take 1 (spans_until_break (ex_codec sp) (rd_sc rd)) = [wire_span sp] \<and> span_Name sp = ''chat''"
proof -
  obtain sp n where run: "sink_run ex_deps ex_sink0 [Handed ex_record, Wrote ex_record (Some sp), Swept n] (snd ex_sink3)"
    and name: "span_Name sp = ''chat''" by (rule ex_sink_run)
  let ?ls = "[Handed ex_record, Wrote ex_record (Some sp), Swept n]"
  let ?h = "\<lparr> hd_SchemaVersion = SchemaVersion, hd_SessionID = ''s1'', hd_TraceID = [], hd_Agent = ''agent'',
     hd_BehaviorDigest = [], hd_ContentDigest = [], hd_RecordedAt = 0, hd_Recorder = ''waveoff-recorder'',
     hd_SourceSession = [], hd_Arm = [] \<rparr>"
  have spans: "session_spans ''s1'' ?ls = [sp]"
    by (simp add: session_spans_def spans_written_def ex_record_def zero_Record_def)
  have config: "sk_agent (snd ex_sink3) = ''agent'' \<and> sk_behaviorDigest (snd ex_sink3) = [] \<and> sk_contentDigest (snd ex_sink3) = []"
    by code_simp
  have codec: "dec_header (ex_codec sp) l = Inr ?h" for l by (simp add: ex_codec_def ex_cassette_header_def)
  have "\<forall>t. header_reads_back (sn_enc ex_deps) (ex_codec sp) ((sink_header (snd ex_sink3) ''s1'' t)\<lparr>hd_SchemaVersion := SchemaVersion\<rparr>)"
    using config codec by (simp add: header_reads_back_def sink_header_def ex_deps_def)
  moreover have "\<forall>x \<in> set (session_spans ''s1'' ?ls). span_reads_back (sn_enc ex_deps) (ex_codec sp) x"
    by (simp add: spans span_reads_back_def ex_deps_def ex_codec_def)
  ultimately show ?thesis
    using written_spans_read_back [OF run [unfolded ex_sink0_def], of "''s1''" "ex_codec sp"] name
    by (simp add: spans ex_sink_values) blast
qed

theorem quiet_session_loses_its_records_witness:
  "\<exists>s4 s5 sp. sink_path ex_deps (snd ex_sink3) [(Handed ex_record, s4), (Wrote ex_record sp, s5)] \<and> sp = None \<and>
     map_of (sk_dir s5) (''s1'' @ Extension) = Some [''h'', ''s'']"
proof -
  obtain sp0 n where run: "sink_run ex_deps ex_sink0 [Handed ex_record, Wrote ex_record (Some sp0), Swept n] (snd ex_sink3)"
    by (rule ex_sink_run)
  let ?s4 = "Sink_Record ex_record (snd ex_sink3)"
  obtain sp s5 where w: "Sink_write ex_deps ex_write_env ex_record (?s4\<lparr>sk_queue := []\<rparr>) = (sp, s5)"
    by (cases "Sink_write ex_deps ex_write_env ex_record (?s4\<lparr>sk_queue := []\<rparr>)")
  have s4: "sk_queue ?s4 = [ex_record] \<and> sk_phase ?s4 = Running" by code_simp
  have path: "sink_path ex_deps (snd ex_sink3) [(Handed ex_record, ?s4), (Wrote ex_record sp, s5)]"
    using sink_step.handed [of ex_deps "snd ex_sink3" ex_record] sink_step.wrote [OF _ _ w] s4 by simp
  have closed: "closed_session (snd ex_sink3) ''s1'' [''h'', ''s'']" by (simp add: closed_session_def ex_sink_values)
  have "rc_Session ex_record = ''s1''" by (simp add: ex_record_def zero_Record_def)
  then have "sp = None \<and> map_of (sk_dir s5) (''s1'' @ Extension) = Some [''h'', ''s'']"
    using quiet_session_loses_its_records [OF run [unfolded ex_sink0_def] closed path] by (cases sp) auto
  then show ?thesis using path by blast
qed

end
