(* ===== verification/Jsonrpc.thy ===== *)
theory Jsonrpc
  imports GoLib
begin

text \<open>
  \<open>internal/jsonrpc/jsonrpc.go\<close>: the part of a JSON-RPC request the recorder and the replayer look
  at, and the retargeting of a recorded response at the request it now answers.  What
  \<open>encoding/json\<close> reads from a body is a parameter: \<open>jr\_call\<close> is \<open>Unmarshal\<close> into a call,
  which keeps what it had filled in before an error, so a body that is no JSON object leaves a zero call, and \<open>jr\_object\<close> and \<open>jr\_marshal\<close>
  read and write an object whose members stay raw texts.
\<close>

record Call =
  call_Method :: string
  call_ID :: string
  call_Name :: string
  call_Arguments :: string

definition zero_call :: Call where
  "zero_call = \<lparr> call_Method = [], call_ID = [], call_Name = [], call_Arguments = [] \<rparr>"

record rpc_codec =
  jr_call :: "string \<Rightarrow> Call"
  jr_object :: "string \<Rightarrow> (string \<times> string) list result"
  jr_marshal :: "(string \<times> string) list \<Rightarrow> string result"

definition Parse :: "rpc_codec \<Rightarrow> string \<Rightarrow> Call" where
  "Parse J body = jr_call J body"

definition RequestID :: "rpc_codec \<Rightarrow> string \<Rightarrow> string" where
  "RequestID J body = call_ID (Parse J body)"

text \<open>A message without an id is a notification and is left alone.\<close>

definition retarget :: "rpc_codec \<Rightarrow> string \<Rightarrow> string \<Rightarrow> string \<times> bool" where
  "retarget J payload i =
     (case jr_object J payload of
        Inl _ \<Rightarrow> (payload, False)
      | Inr m \<Rightarrow>
          if \<not> has_key m ''id'' then (payload, False)
          else (case jr_marshal J (AList.update ''id'' i m) of
                  Inl _ \<Rightarrow> (payload, False)
                | Inr out \<Rightarrow> (out, True)))"

definition newline :: char where "newline = char_of (10::nat)"
definition carriage_return :: char where "carriage_return = char_of (13::nat)"

definition isSSE :: "string \<Rightarrow> bool" where
  "isSSE body =
     (let s = take 512 body
      in Contains s ''data:'' \<and> (HasPrefix s ''event:'' \<or> HasPrefix s ''data:'' \<or> HasPrefix s ''id:''))"

definition CutPrefix :: "string \<Rightarrow> string \<Rightarrow> string option" where
  "CutPrefix s p = (if HasPrefix s p then Some (drop (length p) s) else None)"

text \<open>One line of an event stream.\<close>

definition rewrite_line :: "rpc_codec \<Rightarrow> string \<Rightarrow> string \<Rightarrow> string" where
  "rewrite_line J i line =
     (case CutPrefix (TrimRight line [carriage_return]) ''data:'' of
        None \<Rightarrow> line
      | Some rest \<Rightarrow>
          let payload = TrimSpace rest in
          if payload = [] then line
          else (case retarget J payload i of
                  (out, changed) \<Rightarrow>
                    if \<not> changed then line
                    else ''data: '' @ out @
                      (if HasSuffix line [carriage_return] then [carriage_return] else [])))"

definition rewriteSSE :: "rpc_codec \<Rightarrow> string \<Rightarrow> string \<Rightarrow> string" where
  "rewriteSSE J body i =
     strings_Join [newline] (map (rewrite_line J i) (strings_Split newline body))"

definition RewriteID :: "rpc_codec \<Rightarrow> string \<Rightarrow> string \<Rightarrow> string" where
  "RewriteID J body i =
     (if i = [] \<or> body = [] then body
      else if isSSE body then rewriteSSE J body i
      else fst (retarget J body i))"

section \<open>Lemmas\<close>

text \<open>
  The law of the object codec, for one message: it is written in braces, without a line break, and
  reads back.
\<close>

definition message_reads_back :: "rpc_codec \<Rightarrow> (string \<times> string) list \<Rightarrow> bool" where
  "message_reads_back J m =
     (case jr_marshal J m of
        Inl _ \<Rightarrow> False
      | Inr out \<Rightarrow> out \<noteq> [] \<and> hd out = CHR ''{'' \<and> last out = CHR ''}'' \<and> newline \<notin> set out \<and>
          jr_object J out = Inr m)"

text \<open>The message a line of an event stream carries, and the message it should carry.\<close>

definition line_message :: "rpc_codec \<Rightarrow> string \<Rightarrow> (string \<times> string) list option" where
  "line_message J line =
     (case CutPrefix (TrimRight line [carriage_return]) ''data:'' of
        None \<Rightarrow> None
      | Some rest \<Rightarrow>
          if TrimSpace rest = [] then None
          else (case jr_object J (TrimSpace rest) of Inl _ \<Rightarrow> None | Inr m \<Rightarrow> Some m))"

definition retargeted :: "string \<Rightarrow> (string \<times> string) list \<Rightarrow> (string \<times> string) list" where
  "retargeted i m = (if has_key m ''id'' then AList.update ''id'' i m else m)"

lemma newline_simps [simp]: "newline \<noteq> carriage_return" "carriage_return \<noteq> newline" "newline \<notin> set ''data: ''"
  by code_simp+

lemma carriage_return_space: "carriage_return \<in> set space_chars"
  by code_simp

lemma TrimRight_fixed: "s \<noteq> [] \<Longrightarrow> last s \<notin> set cs \<Longrightarrow> TrimRight s cs = s"
  by (cases s rule: rev_cases) (simp_all add: TrimRight_def)

lemma brace_not_space: "CHR ''{'' \<notin> set space_chars" "CHR ''}'' \<notin> set space_chars" "CHR ''}'' \<noteq> carriage_return"
  "CHR '' '' \<in> set space_chars"
  by code_simp+

lemma trim_object:
  assumes "out \<noteq> []" and "hd out = CHR ''{''" and "last out = CHR ''}''"
  shows "TrimSpace out = out" and "TrimSpace (CHR '' '' # out) = out"
    and "TrimRight (a @ out) [carriage_return] = a @ out"
proof -
  have "dropWhile (\<lambda>c. c \<in> set space_chars) out = out"
    using assms brace_not_space by (cases out) auto
  then show "TrimSpace out = out" "TrimSpace (CHR '' '' # out) = out"
    using assms brace_not_space by (simp_all add: TrimSpace_def Trim_def TrimRight_fixed)
  show "TrimRight (a @ out) [carriage_return] = a @ out"
    using assms brace_not_space by (intro TrimRight_fixed) auto
qed

lemma TrimRight_cr: "TrimRight (s @ (if b then [c] else [])) [c] = TrimRight s [c]"
  by (simp add: TrimRight_def)

text \<open>What retargeting does to the message of one line.\<close>

lemma rewrite_line_message:
  assumes "\<And>m. line_message J line = Some m \<Longrightarrow> has_key m ''id'' \<Longrightarrow> message_reads_back J (AList.update ''id'' i m)"
  shows "line_message J (rewrite_line J i line) = map_option (retargeted i) (line_message J line) \<and>
    (newline \<notin> set line \<longrightarrow> newline \<notin> set (rewrite_line J i line)) \<and>
    (line_message J line = None \<longrightarrow> rewrite_line J i line = line)"
proof (cases "\<exists>m. line_message J line = Some m \<and> has_key m ''id''")
  case True
  then obtain m where m: "line_message J line = Some m" "has_key m ''id''" by blast
  then obtain rest where rest: "CutPrefix (TrimRight line [carriage_return]) ''data:'' = Some rest"
      "TrimSpace rest \<noteq> []" "jr_object J (TrimSpace rest) = Inr m"
    by (auto simp: line_message_def split: option.splits if_splits sum.splits)
  obtain out where out: "jr_marshal J (AList.update ''id'' i m) = Inr out" "out \<noteq> []" "hd out = CHR ''{''"
      "last out = CHR ''}''" "newline \<notin> set out" "jr_object J out = Inr (AList.update ''id'' i m)"
    using assms [OF m] by (auto simp: message_reads_back_def split: sum.splits)
  let ?cr = "if HasSuffix line [carriage_return] then [carriage_return] else []"
  have new: "rewrite_line J i line = (''data: '' @ out) @ ?cr"
    using rest out(1) m(2) by (simp add: rewrite_line_def Let_def retarget_def)
  note trim = trim_object [OF out(2-4)]
  have "TrimRight (rewrite_line J i line) [carriage_return] = ''data: '' @ out"
    unfolding new TrimRight_cr by (rule trim(3))
  then have "line_message J (rewrite_line J i line) = Some (AList.update ''id'' i m)"
    using trim(2) out(2,6) by (simp add: line_message_def CutPrefix_def HasPrefix_def)
  moreover have "newline \<notin> set (rewrite_line J i line)" unfolding new using out(5) newline_simps by simp
  ultimately show ?thesis using m by (simp add: retargeted_def)
next
  case False
  then have "rewrite_line J i line = line"
    by (auto simp: line_message_def rewrite_line_def Let_def retarget_def split: option.splits if_splits sum.splits)
  moreover have "map_option (retargeted i) (line_message J line) = line_message J line"
    using False by (cases "line_message J line") (simp_all add: retargeted_def)
  ultimately show ?thesis by simp
qed

text \<open>
  A replayed response answers the request it is given to.  In an event stream the lines stay what
  they are and as many as they are, except that every message that is a response now carries the id
  of the request; notifications and the framing are untouched.  In a plain body the same holds of the
  one message.
\<close>

theorem responses_are_retargeted:
  assumes "i \<noteq> []" and "isSSE body"
    and "\<forall>line \<in> set (strings_Split newline body). \<forall>m. line_message J line = Some m \<longrightarrow> has_key m ''id'' \<longrightarrow>
      message_reads_back J (AList.update ''id'' i m)"
  shows "map (line_message J) (strings_Split newline (RewriteID J body i)) =
      map (\<lambda>line. map_option (retargeted i) (line_message J line)) (strings_Split newline body) \<and>
    (\<forall>k < length (strings_Split newline body). line_message J (strings_Split newline body ! k) = None \<longrightarrow>
       strings_Split newline (RewriteID J body i) ! k = strings_Split newline body ! k)"
proof -
  let ?lines = "strings_Split newline body"
  have body: "body \<noteq> []" using assms(2) by (auto simp: isSSE_def Contains_iff)
  note line = rewrite_line_message [of J _ i]
  have "\<forall>l \<in> set (map (rewrite_line J i) ?lines). newline \<notin> set l"
    using line assms(3) Split_no_sep by fastforce
  then have "strings_Split newline (RewriteID J body i) = map (rewrite_line J i) ?lines"
    using assms(1,2) body by (simp add: RewriteID_def rewriteSSE_def Split_Join)
  moreover have "line_message J (rewrite_line J i l) = map_option (retargeted i) (line_message J l) \<and>
      (line_message J l = None \<longrightarrow> rewrite_line J i l = l)" if "l \<in> set ?lines" for l
    using line [of l] assms(3) that by blast
  ultimately show ?thesis by simp
qed

definition ex_rpc :: rpc_codec where
  "ex_rpc = \<lparr> jr_call = (\<lambda>_. zero_call),
     jr_object = (\<lambda>s. if s = ''{1}'' then Inr [(''id'', ''1'')] else if s = ''{2}'' then Inr [(''id'', ''2'')]
                     else Inl no_msg),
     jr_marshal = (\<lambda>_. Inr ''{2}'') \<rparr>"

definition ex_stream :: string where "ex_stream = ''data: {1}'' @ [newline]"

theorem responses_are_retargeted_witness:
  "map (line_message ex_rpc) (strings_Split newline (RewriteID ex_rpc ex_stream ''2'')) =
     [Some [(''id'', ''2'')], None]"
proof -
  have split: "strings_Split newline ex_stream = [''data: {1}'', []]" by code_simp
  have msgs: "line_message ex_rpc ''data: {1}'' = Some [(''id'', ''1'')]" "line_message ex_rpc [] = None" by code_simp+
  have "message_reads_back ex_rpc (AList.update ''id'' ''2'' [(''id'', ''1'')])" by code_simp
  then have "\<forall>line \<in> set (strings_Split newline ex_stream). \<forall>m. line_message ex_rpc line = Some m \<longrightarrow> has_key m ''id'' \<longrightarrow>
      message_reads_back ex_rpc (AList.update ''id'' ''2'' m)"
    using msgs by (simp add: split)
  moreover have "isSSE ex_stream" by code_simp
  ultimately show ?thesis
    using responses_are_retargeted [of "''2''" ex_stream ex_rpc] msgs
    by (simp add: split retargeted_def has_key_def)
qed

end
