(* ===== verification/ReplayServer.thy ===== *)
theory ReplayServer
  imports Sink Jsonrpc
begin

text \<open>
  \<open>internal/replay/server.go\<close> and \<open>output.go\<close>: the server an agent is pointed at while a recorded
  session is replayed, and the cassette of what it was answered.  The reverse proxy behind it is what it
  comes back with for one target and request (\<open>upstream\<close>, as in the theory Recorder); an answer is its
  status, its header and the writes that make up its body.  A handler that panics gives no answer.
\<close>

section \<open>The output cassette\<close>

record Output =
  ou_writer :: Writer
  ou_step :: int
  ou_name :: string

record Exchange =
  xc_Request :: string
  xc_Response :: string
  xc_Status :: int
  xc_Match :: MatchKind
  xc_Start :: time
  xc_End :: time

fun Action_string :: "Action \<Rightarrow> string" where
  "Action_string ActionServe = ''serve''"
| "Action_string ActionForward = ''forward''"
| "Action_string ActionNoOp = ''no-op''"
| "Action_string ActionRefuse = ''refuse''"

fun MatchKind_string :: "MatchKind \<Rightarrow> string" where
  "MatchKind_string MatchExact = ''exact''"
| "MatchKind_string MatchHash = ''hash''"
| "MatchKind_string MatchTool = ''tool''"
| "MatchKind_string MatchNone = ''none''"

definition output_header :: "time \<Rightarrow> string \<Rightarrow> ArmLabel \<Rightarrow> Header \<Rightarrow> Header" where
  "output_header now source arm h =
     h\<lparr>hd_SessionID := OutputName source arm, hd_SourceSession := source, hd_Arm := ArmLabel_string arm,
       hd_RecordedAt := now, hd_Recorder := ''waveoff-replay''\<rparr>"

definition NewOutput ::
    "encoder \<Rightarrow> Redactor \<Rightarrow> msg option \<Rightarrow> failure \<Rightarrow> bool \<Rightarrow> time \<Rightarrow> Header \<Rightarrow> string \<Rightarrow> ArmLabel \<Rightarrow> corpus_dir
     \<Rightarrow> Output result \<times> corpus_dir" where
  "NewOutput E must openErr io blobs now h source arm dir =
     (case Corpus_Create E must openErr io (output_header now source arm h) dir of
        (Inl e, dir) \<Rightarrow> (Inl (Sprintf ''open replay output: %w'' [AErr e]), dir)
      | (Inr name, dir) \<Rightarrow>
          (case AdoptHeader (NewWriter (lookup_or [] dir name) blobs must) of
             (Some e, _) \<Rightarrow> (Inl e, dir)
           | (None, cw) \<Rightarrow> (Inr \<lparr> ou_writer = cw, ou_step = 0, ou_name = name \<rparr>, dir)))"

definition exchangeStatus :: "Exchange \<Rightarrow> Status" where
  "exchangeStatus x =
     (if 400 \<le> xc_Status x
      then \<lparr> status_Code = ''ERROR'', status_Message = ''replay returned '' @ int_string (xc_Status x) \<rparr>
      else \<lparr> status_Code = [], status_Message = [] \<rparr>)"

definition AttrReplayAction :: string where "AttrReplayAction = ''waveoff.replay.action''"
definition AttrReplayReason :: string where "AttrReplayReason = ''waveoff.replay.reason''"
definition AttrReplayMatch :: string where "AttrReplayMatch = ''waveoff.replay.match''"

definition output_attributes :: "span_env \<Rightarrow> int \<Rightarrow> Asked \<Rightarrow> Decision \<Rightarrow> Exchange \<Rightarrow> attributes" where
  "output_attributes V step req d x =
     set_if (ask_ArgsHash req \<noteq> []) AttrToolArgsHash (JStr (ask_ArgsHash req))
    (set_if (ask_Tool req \<noteq> []) ''gen_ai.tool.name'' (JStr (ask_Tool req))
    (set_if (ask_Tool req \<noteq> []) AttrToolName (JStr (ask_Tool req))
     [(AttrStepIndex, JInt step), (AttrRequestBody, JStr (xc_Request x)), (AttrResponseBody, JStr (xc_Response x)),
      (AttrRequestHash, JStr (ask_Hash req)), (AttrUpstreamStatus, JInt (xc_Status x)),
      (AttrReplayAction, JStr (Action_string (dc_Action d))), (AttrReplayReason, JStr (sv_render V (dc_Reason d))),
      (AttrReplayMatch, JStr (MatchKind_string (xc_Match x)))]))"

definition output_span :: "span_env \<Rightarrow> int \<Rightarrow> Asked \<Rightarrow> Decision \<Rightarrow> Exchange \<Rightarrow> Span" where
  "output_span V step req d x =
     \<lparr> span_TraceID = [], span_SpanID = [], span_ParentID = [],
       span_Name = (if ask_Kind req = KindTool
                    then OpTool @ (if ask_Tool req \<noteq> [] then '' '' @ ask_Tool req else []) else OpChat),
       span_Kind = (if ask_Kind req = KindTool then KindTool else KindModel),
       span_StartTime = xc_Start x, span_EndTime = xc_End x,
       span_Attributes = output_attributes V step req d x, span_Status = exchangeStatus x \<rparr>"

text \<open>The step is counted whether or not the span can be written.\<close>

definition Output_Write ::
    "encoder \<Rightarrow> span_env \<Rightarrow> failure \<Rightarrow> ('e \<Rightarrow> string \<Rightarrow> 's \<Rightarrow> digest result \<times> 's) \<Rightarrow> (string \<Rightarrow> 'e)
     \<Rightarrow> Asked \<Rightarrow> Decision \<Rightarrow> Exchange \<Rightarrow> Output \<Rightarrow> 's \<Rightarrow> Span option \<times> Output \<times> 's" where
  "Output_Write E V io put pe req d x out st =
     (case WriteSpan E io put pe (output_span V (ou_step out) req d x) (ou_writer out) st of
        (err, sp, cw, st1) \<Rightarrow>
          (if err = None then Some sp else None,
           out\<lparr>ou_writer := cw, ou_step := ou_step out + 1\<rparr>, st1))"

section \<open>Capturing an answer\<close>

record capturing =
  ca_limit :: int
  ca_body :: string

definition outputCaptureLimit :: int where "outputCaptureLimit = 8388608"

definition capture_Write :: "string \<Rightarrow> capturing \<Rightarrow> capturing" where
  "capture_Write p c =
     (let remaining = ca_limit c - int (length (ca_body c)) in
      if 0 < remaining
      then (if int (length p) \<le> remaining then c\<lparr>ca_body := ca_body c @ p\<rparr>
            else c\<lparr>ca_body := ca_body c @ take (nat remaining) p\<rparr>)
      else c)"

record reply =
  rl_Status :: int
  rl_Header :: http_header
  rl_Writes :: "string list"

definition reply_body :: "reply \<Rightarrow> string" where
  "reply_body rl = concat (rl_Writes rl)"

definition capture_reply :: "reply \<Rightarrow> string" where
  "capture_reply rl = ca_body (fold capture_Write (rl_Writes rl) \<lparr> ca_limit = outputCaptureLimit, ca_body = [] \<rparr>)"

section \<open>The server\<close>

text \<open>A request with the path it was routed by.\<close>

record path_request = http_request +
  hq_Path :: string

record Server =
  sv_idx :: Index
  sv_policy :: Policy
  sv_tracker :: Tracker
  sv_modelUpstream :: "string option"
  sv_toolUpstreams :: "(string \<times> string) list"
  sv_output :: "Output option"
  sv_served :: "string list"

text \<open>
  What the server works with: the encoder of the output cassette, how attributes are built, the JSON-RPC
  codec, the blob store it puts into and, if one was given, reads payloads from, the encoding of a JSON
  object with a raw id, the reverse proxy.
\<close>

record ('e, 's, 'w) replay_deps =
  rv_enc :: encoder
  rv_span :: span_env
  rv_rpc :: rpc_codec
  rv_put :: "'e \<Rightarrow> string \<Rightarrow> 's \<Rightarrow> digest result \<times> 's"
  rv_get :: "('s \<Rightarrow> digest \<Rightarrow> string result) option"
  rv_json :: "(string \<times> json) list \<Rightarrow> string \<Rightarrow> string"
  rv_proxy :: "string \<Rightarrow> path_request \<Rightarrow> 'w \<Rightarrow> upstream \<times> 'w"

record 'e replay_env =
  ry_start :: time
  ry_end :: time
  ry_io :: failure
  ry_put :: "string \<Rightarrow> 'e"

text \<open>The parsing of the upstream addresses is a parameter.\<close>

record server_config =
  sf_Index :: Index
  sf_Policy :: Policy
  sf_Tracker :: Tracker
  sf_ModelUpstream :: string
  sf_ToolUpstreams :: "(string \<times> string) list"
  sf_Output :: "Output option"

definition NewServer :: "(string \<Rightarrow> string result) \<Rightarrow> server_config \<Rightarrow> Server result" where
  "NewServer parse cfg =
     bindR (if sf_ModelUpstream cfg = [] then Inr None
            else (case parse (sf_ModelUpstream cfg) of
                    Inl e \<Rightarrow> Inl (Sprintf ''model upstream %q: %w'' [AStr (sf_ModelUpstream cfg), AErr e])
                  | Inr u \<Rightarrow> Inr (Some u)))
     (\<lambda>model.
        if po_Mode (sf_Policy cfg) = ModeModelLiveToolsReplayed \<and> model = None
        then Inl (Sprintf ''mode %s runs the model live, so a model upstream is required''
               [AStr (Mode_string (po_Mode (sf_Policy cfg)))])
        else bindR (mapR (\<lambda>(label, endpoint).
               case parse endpoint of
                 Inl e \<Rightarrow> Inl (Sprintf ''tool upstream %q: %w'' [AStr label, AErr e])
               | Inr u \<Rightarrow> Inr (label, u)) (sf_ToolUpstreams cfg))
             (\<lambda>tools. Inr \<lparr> sv_idx = sf_Index cfg, sv_policy = sf_Policy cfg, sv_tracker = sf_Tracker cfg,
                sv_modelUpstream = model, sv_toolUpstreams = tools, sv_output = sf_Output cfg, sv_served = [] \<rparr>))"

section \<open>Answers\<close>

text \<open>The refusals the server makes up itself.\<close>

definition replay_header :: "Action \<Rightarrow> string \<times> string list" where
  "replay_header a = (''X-Waveoff-Replay'', [Action_string a])"

definition fail_reply :: "('e, 's, 'w) replay_deps \<Rightarrow> int \<Rightarrow> string \<Rightarrow> reply" where
  "fail_reply D status reason =
     \<lparr> rl_Status = status, rl_Header = [(''Content-Type'', [''application/json'']), replay_header ActionRefuse],
       rl_Writes = [rv_json D [(''error'', JObj [(''type'', JStr ''waveoff_replay_refused''), (''message'', JStr reason)])] []] \<rparr>"

definition refuse :: "('e, 's, 'w) replay_deps \<Rightarrow> Decision \<Rightarrow> reply" where
  "refuse D d = fail_reply D 409 (sv_render (rv_span D) (dc_Reason d))"

definition noOp :: "('e, 's, 'w) replay_deps \<Rightarrow> Asked \<Rightarrow> Decision \<Rightarrow> string \<Rightarrow> reply" where
  "noOp D req d body =
     \<lparr> rl_Status = 200, rl_Header = [(''Content-Type'', [''application/json'']), replay_header ActionNoOp],
       rl_Writes = [rv_json D
         [(''jsonrpc'', JStr ''2.0''),
          (''result'', JObj
            [(''content'', JArr [JObj
               [(''type'', JStr ''text''),
                (''text'', JStr (''[waveoff] '' @ ask_Tool req @ '' was not executed: '' @ sv_render (rv_span D) (dc_Reason d)))]]),
             (''isError'', JBool False)])]
         (RequestID (rv_rpc D) body)] \<rparr>"

definition contentTypeOf :: "Span \<Rightarrow> string" where
  "contentTypeOf s =
     (case as_obj (jfield AttrResponseHeaders (span_Attributes s)) of
        Some h \<Rightarrow> (case as_str (jfield ''content-type'' h) of
                     Some ct \<Rightarrow> if ct \<noteq> [] then ct else ''application/json''
                   | None \<Rightarrow> ''application/json'')
      | None \<Rightarrow> ''application/json'')"

definition statusOf :: "Span \<Rightarrow> int" where
  "statusOf s =
     (case jfield AttrUpstreamStatus (span_Attributes s) of
        JInt v \<Rightarrow> v | JFloat v \<Rightarrow> to_int64 v | _ \<Rightarrow> 0)"

text \<open>\<open>WriteHeader\<close> panics on a status that is no three-digit number.\<close>

definition with_status :: "int \<Rightarrow> reply \<Rightarrow> reply option" where
  "with_status status rl =
     (if 0 < status
      then (if 100 \<le> status \<and> status \<le> 999 then Some (rl\<lparr>rl_Status := status\<rparr>) else None)
      else Some rl)"

definition read_payload :: "('e, 's, 'w) replay_deps \<Rightarrow> 's \<Rightarrow> Span \<Rightarrow> string result" where
  "read_payload D st sp = Payload (map_option (\<lambda>get. get st) (rv_get D)) sp AttrResponseBody AttrResponseRef"

definition serveRecorded ::
    "('e, 's, 'w) replay_deps \<Rightarrow> 's \<Rightarrow> Match \<Rightarrow> Decision \<Rightarrow> string \<Rightarrow> reply option" where
  "serveRecorded D st m d i =
     (case mt_Span m of
        None \<Rightarrow> None
      | Some sp \<Rightarrow>
          (case read_payload D st sp of
             Inl e \<Rightarrow> Some (fail_reply D 502 (''cassette is incomplete: '' @ sv_render (rv_span D) e))
           | Inr body \<Rightarrow>
               with_status (statusOf sp)
                 \<lparr> rl_Status = 200,
                   rl_Header = [(''Content-Type'', [contentTypeOf sp]), replay_header (dc_Action d),
                                (''X-Waveoff-Match'', [MatchKind_string (mt_Kind m)])],
                   rl_Writes = [RewriteID (rv_rpc D) body i] \<rparr>))"

definition toolLabel :: "string \<Rightarrow> string" where
  "toolLabel path = takeWhile (\<lambda>c. c \<noteq> CHR ''/'') (TrimPrefix path ''/mcp/'')"

text \<open>
  The reverse proxy answers an error with a 502 and no body; a response that breaks off makes it panic.
\<close>

definition proxied :: "upstream \<Rightarrow> reply option" where
  "proxied u =
     (case u of
        UpError e \<Rightarrow> Some \<lparr> rl_Status = 502, rl_Header = [replay_header ActionForward], rl_Writes = [] \<rparr>
      | UpResponse status h chunks \<Rightarrow>
          Some \<lparr> rl_Status = status, rl_Header = replay_header ActionForward # h, rl_Writes = chunks \<rparr>
      | UpBroken status h chunks \<Rightarrow> None)"

definition forward ::
    "('e, 's, 'w) replay_deps \<Rightarrow> Server \<Rightarrow> path_request \<Rightarrow> Kind \<Rightarrow> string \<Rightarrow> 'w \<Rightarrow> reply option \<times> 'w" where
  "forward D s r kind body w =
     (let label = toolLabel (hq_Path r);
          with_body = (\<lambda>r. r\<lparr>hq_Body := Some (body, None), hq_ContentLength := int (length body)\<rparr>)
      in if kind = KindTool
         then (case map_of (sv_toolUpstreams s) label of
                 None \<Rightarrow> (Some (fail_reply D 502
                            (sv_render (rv_span D) (Sprintf ''no live endpoint configured for tool server %q'' [AStr label]))), w)
               | Some u \<Rightarrow>
                   (case rv_proxy D u (with_body (r\<lparr>hq_Path := TrimPrefix (hq_Path r) (''/mcp/'' @ label)\<rparr>)) w of
                      (up, w1) \<Rightarrow> (proxied up, w1)))
         else (case sv_modelUpstream s of
                 None \<Rightarrow> (Some (fail_reply D 502 ''no upstream configured for a request the mode runs live''), w)
               | Some u \<Rightarrow> (case rv_proxy D u (with_body r) w of (up, w1) \<Rightarrow> (proxied up, w1))))"

section \<open>Steps of a replay\<close>

text \<open>The request is looked up, decided and observed under the lock, and then answered and recorded.\<close>

definition decide_request :: "Server \<Rightarrow> Asked \<Rightarrow> Asked \<times> Match \<times> Decision \<times> Server" where
  "decide_request s req =
     (let req = req\<lparr>ask_Step := tk_next (sv_tracker s)\<rparr>;
          (m, idx) = Lookup (sv_idx s) req;
          d = Decide (sv_policy s) req m
      in (req, m, d, s\<lparr>sv_idx := idx, sv_tracker := Observe req m d (sv_tracker s)\<rparr>))"

definition answer ::
    "('e, 's, 'w) replay_deps \<Rightarrow> Server \<Rightarrow> 's \<Rightarrow> path_request \<Rightarrow> Asked \<Rightarrow> Match \<Rightarrow> Decision \<Rightarrow> string \<Rightarrow> 'w
     \<Rightarrow> reply option \<times> 'w" where
  "answer D s st r req m d body w =
     (case dc_Action d of
        ActionServe \<Rightarrow> (serveRecorded D st m d (RequestID (rv_rpc D) body), w)
      | ActionForward \<Rightarrow> forward D s r (ask_Kind req) body w
      | ActionNoOp \<Rightarrow> (Some (noOp D req d body), w)
      | ActionRefuse \<Rightarrow> (Some (refuse D d), w))"

definition record_answer ::
    "('e, 's, 'w) replay_deps \<Rightarrow> 'e replay_env \<Rightarrow> Asked \<Rightarrow> Match \<Rightarrow> Decision \<Rightarrow> string \<Rightarrow> reply \<Rightarrow> Server \<Rightarrow> 's
     \<Rightarrow> Span option \<times> Server \<times> 's" where
  "record_answer D e req m d body rl s st =
     (case sv_output s of
        None \<Rightarrow> (None, s, st)
      | Some out \<Rightarrow>
          (case Output_Write (rv_enc D) (rv_span D) (ry_io e) (rv_put D) (ry_put e) req d
                  \<lparr> xc_Request = body, xc_Response = capture_reply rl, xc_Status = rl_Status rl,
                    xc_Match = mt_Kind m, xc_Start = ry_start e, xc_End = ry_end e \<rparr> out st of
             (sp, out, st1) \<Rightarrow> (sp, s\<lparr>sv_output := Some out\<rparr>, st1)))"

type_synonym ('s, 'w) served = "reply option \<times> Span option \<times> Server \<times> 's \<times> 'w"

definition handle ::
    "('e, 's, 'w) replay_deps \<Rightarrow> 'e replay_env \<Rightarrow> path_request \<Rightarrow> Asked \<Rightarrow> string \<Rightarrow> Server \<Rightarrow> 's \<Rightarrow> 'w
     \<Rightarrow> ('s, 'w) served" where
  "handle D e r req body s st w =
     (case decide_request s req of
        (req, m, d, s1) \<Rightarrow>
          (case answer D s1 st r req m d body w of
             (None, w1) \<Rightarrow> (None, None, s1, st, w1)
           | (Some rl, w1) \<Rightarrow>
               (case record_answer D e req m d body rl s1 st of
                  (sp, s2, st1) \<Rightarrow> (Some rl, sp, s2, st1, w1))))"

definition bad_request :: "('e, 's, 'w) replay_deps \<Rightarrow> msg \<Rightarrow> reply" where
  "bad_request D e =
     \<lparr> rl_Status = 400, rl_Header = [(''Content-Type'', [''text/plain; charset=utf-8''])],
       rl_Writes = [sv_render (rv_span D) e @ [char_of (10::nat)]] \<rparr>"

definition request_body :: "path_request \<Rightarrow> body_reader" where
  "request_body r = (case hq_Body r of Some b \<Rightarrow> b | None \<Rightarrow> ([], None))"

definition serveModel ::
    "('e, 's, 'w) replay_deps \<Rightarrow> 'e replay_env \<Rightarrow> path_request \<Rightarrow> Server \<Rightarrow> 's \<Rightarrow> 'w \<Rightarrow> ('s, 'w) served" where
  "serveModel D e r s st w =
     (case request_body r of
        (_, Some err) \<Rightarrow> (Some (bad_request D err), None, s, st, w)
      | (body, None) \<Rightarrow>
          handle D e r \<lparr> ask_Step = 0, ask_Hash = NormalisedHash (sv_jcs (rv_span D)) body, ask_Kind = KindModel,
                         ask_Tool = [], ask_ArgsHash = [] \<rparr> body s st w)"

section \<open>Protocol traffic\<close>

definition protocol_match :: "string \<Rightarrow> Span \<Rightarrow> bool" where
  "protocol_match meth sp = (span_Kind sp = KindTool \<and> span_String sp ''mcp.method.name'' = meth)"

definition protocolSpan :: "string \<Rightarrow> Server \<Rightarrow> Span option \<times> Server" where
  "protocolSpan meth s =
     (case find (\<lambda>sp. protocol_match meth sp \<and> span_SpanID sp @ meth \<notin> set (sv_served s)) (Spans (sv_idx s)) of
        Some sp \<Rightarrow> (Some sp, s\<lparr>sv_served := (span_SpanID sp @ meth) # sv_served s\<rparr>)
      | None \<Rightarrow> (find (protocol_match meth) (Spans (sv_idx s)), s))"

definition unrecorded_protocol ::
    "('e, 's, 'w) replay_deps \<Rightarrow> path_request \<Rightarrow> string \<Rightarrow> string \<Rightarrow> Server \<Rightarrow> 'w \<Rightarrow> reply option \<times> 'w" where
  "unrecorded_protocol D r meth body s w =
     (if HasPrefix meth ''notifications/''
      then (Some \<lparr> rl_Status = 202, rl_Header = [replay_header ActionServe], rl_Writes = [] \<rparr>, w)
      else if sv_toolUpstreams s \<noteq> [] then forward D s r KindTool body w
      else (Some (fail_reply D 409 (sv_render (rv_span D)
              (Sprintf ''the cassette does not record an MCP %s, so the handshake cannot be replayed'' [AStr meth]))), w))"

text \<open>
  The recorded exchange is picked under the lock; what it is answered with is read after it.
\<close>

definition answer_protocol ::
    "('e, 's, 'w) replay_deps \<Rightarrow> path_request \<Rightarrow> string \<Rightarrow> string \<Rightarrow> Span option \<Rightarrow> Server \<Rightarrow> 's \<Rightarrow> 'w
     \<Rightarrow> reply option \<times> 'w" where
  "answer_protocol D r meth body found s st w =
     (case (case found of None \<Rightarrow> None | Some sp \<Rightarrow> (case read_payload D st sp of Inl _ \<Rightarrow> None | Inr b \<Rightarrow> Some (sp, b))) of
        Some (sp, recorded) \<Rightarrow>
          (with_status (statusOf sp)
             \<lparr> rl_Status = 200,
               rl_Header = [(''Content-Type'', [contentTypeOf sp]), replay_header ActionServe,
                            (''X-Waveoff-Protocol'', [meth]), (''Mcp-Session-Id'', [''waveoff-replay''])],
               rl_Writes = [RewriteID (rv_rpc D) recorded (RequestID (rv_rpc D) body)] \<rparr>, w)
      | None \<Rightarrow> unrecorded_protocol D r meth body s w)"

definition serveProtocol ::
    "('e, 's, 'w) replay_deps \<Rightarrow> path_request \<Rightarrow> string \<Rightarrow> string \<Rightarrow> Server \<Rightarrow> 's \<Rightarrow> 'w \<Rightarrow> ('s, 'w) served" where
  "serveProtocol D r meth body s st w =
     (case protocolSpan meth s of
        (found, s1) \<Rightarrow> (case answer_protocol D r meth body found s1 st w of (rl, w1) \<Rightarrow> (rl, None, s1, st, w1)))"

definition serveTool ::
    "('e, 's, 'w) replay_deps \<Rightarrow> 'e replay_env \<Rightarrow> path_request \<Rightarrow> Server \<Rightarrow> 's \<Rightarrow> 'w \<Rightarrow> ('s, 'w) served" where
  "serveTool D e r s st w =
     (if hq_Method r = ''GET''
      then (Some \<lparr> rl_Status = 405, rl_Header = [replay_header ActionServe, (''Allow'', [''POST, DELETE''])],
                   rl_Writes = [] \<rparr>, None, s, st, w)
      else if hq_Method r = ''DELETE''
      then (Some \<lparr> rl_Status = 204, rl_Header = [replay_header ActionServe], rl_Writes = [] \<rparr>, None, s, st, w)
      else (case request_body r of
              (_, Some err) \<Rightarrow> (Some (bad_request D err), None, s, st, w)
            | (body, None) \<Rightarrow>
                (let call = Parse (rv_rpc D) body in
                 if call_Method call \<noteq> ''tools/call'' then serveProtocol D r (call_Method call) body s st w
                 else handle D e r
                        \<lparr> ask_Step = 0, ask_Hash = NormalisedHash (sv_jcs (rv_span D)) body, ask_Kind = KindTool,
                          ask_Tool = call_Name call,
                          ask_ArgsHash = NormalisedHash (sv_jcs (rv_span D)) (call_Arguments call) \<rparr> body s st w)))"

text \<open>
  The routes of the multiplexer.  A path that is not canonical is redirected to the one that is, and the
  bare \<open>/mcp\<close> to the subtree registered below it, with the status of Go 1.26.
\<close>

definition redirect_status :: int where "redirect_status = 307"

definition mux_redirect :: "path_request \<Rightarrow> string option" where
  "mux_redirect r =
     (let p = (if hq_Method r = ''CONNECT'' then hq_Path r else cleanPath (hq_Path r)) in
      if p = ''/mcp'' then Some ''/mcp/'' else if p \<noteq> hq_Path r then Some p else None)"

definition redirected :: "string \<Rightarrow> reply" where
  "redirected location = \<lparr> rl_Status = redirect_status, rl_Header = [(''Location'', [location])], rl_Writes = [] \<rparr>"

definition Server_ServeHTTP ::
    "('e, 's, 'w) replay_deps \<Rightarrow> 'e replay_env \<Rightarrow> path_request \<Rightarrow> Server \<Rightarrow> 's \<Rightarrow> 'w \<Rightarrow> ('s, 'w) served" where
  "Server_ServeHTTP D e r s st w =
     (case mux_redirect r of
        Some location \<Rightarrow> (Some (redirected location), None, s, st, w)
      | None \<Rightarrow>
      if hq_Path r = ''/healthz'' then (Some \<lparr> rl_Status = 200, rl_Header = [], rl_Writes = [] \<rparr>, None, s, st, w)
      else if HasPrefix (hq_Path r) ''/mcp/'' then serveTool D e r s st w
      else serveModel D e r s st w)"

text \<open>The report is the tracker's own, so closing it changes what later requests add to.\<close>

definition Server_Finish :: "Server \<Rightarrow> Report \<times> Server" where
  "Server_Finish s =
     (let r = Finish (sv_tracker s) in (r, s\<lparr>sv_tracker := (sv_tracker s)\<lparr>tk_report := r\<rparr>\<rparr>))"

section \<open>What a request changes\<close>

lemma fold_capture_Write:
  "0 \<le> ca_limit c \<Longrightarrow> int (length (ca_body c)) \<le> ca_limit c \<Longrightarrow>
     ca_body (fold capture_Write ps c) = take (nat (ca_limit c)) (ca_body c @ concat ps)"
proof (induction ps arbitrary: c)
  case (Cons p ps)
  let ?c = "capture_Write p c"
  have lim: "ca_limit ?c = ca_limit c" by (simp add: capture_Write_def Let_def)
  have body: "ca_body ?c = take (nat (ca_limit c)) (ca_body c @ p)"
    using Cons.prems by (auto simp: capture_Write_def Let_def nat_diff_distrib)
  have "int (length (ca_body ?c)) \<le> ca_limit ?c" using Cons.prems by (simp add: lim body)
  from Cons.IH [OF _ this] Cons.prems
  have "ca_body (fold capture_Write (p # ps) c) = take (nat (ca_limit c)) (take (nat (ca_limit c)) (ca_body c @ p) @ concat ps)"
    by (simp add: lim body)
  then show ?case by (simp add: take_append min_def)
qed simp

lemma capture_reply_prefix: "capture_reply rl = take (nat outputCaptureLimit) (reply_body rl)"
  by (simp add: capture_reply_def reply_body_def fold_capture_Write outputCaptureLimit_def)

lemma decide_request_frame:
  assumes "decide_request s req = (req', m, d, s')"
  shows "sv_policy s' = sv_policy s" "sv_modelUpstream s' = sv_modelUpstream s"
    "sv_toolUpstreams s' = sv_toolUpstreams s" "sv_output s' = sv_output s" "sv_served s' = sv_served s"
    "req' = req\<lparr>ask_Step := tk_next (sv_tracker s)\<rparr>" "d = Decide (sv_policy s) req' m"
    "Lookup (sv_idx s) req' = (m, sv_idx s')" "sv_tracker s' = Observe req' m d (sv_tracker s)"
  using assms by (auto simp: decide_request_def Let_def split: prod.splits)

lemma record_answer_frame:
  assumes "record_answer D e req m d body rl s st = (sp, s', st')"
  shows "sv_policy s' = sv_policy s" "sv_modelUpstream s' = sv_modelUpstream s"
    "sv_toolUpstreams s' = sv_toolUpstreams s" "sv_idx s' = sv_idx s" "sv_tracker s' = sv_tracker s"
    "sv_served s' = sv_served s"
  using assms by (auto simp: record_answer_def split: option.splits prod.splits)

lemma protocolSpan_frame:
  assumes "protocolSpan meth s = (sp, s')"
  shows "sv_policy s' = sv_policy s" "sv_modelUpstream s' = sv_modelUpstream s"
    "sv_toolUpstreams s' = sv_toolUpstreams s" "sv_idx s' = sv_idx s" "sv_tracker s' = sv_tracker s"
    "sv_output s' = sv_output s"
  using assms by (auto simp: protocolSpan_def split: option.splits)

text \<open>Which requests are steps, and what they ask for.\<close>

definition step_request :: "('e, 's, 'w) replay_deps \<Rightarrow> path_request \<Rightarrow> Asked option" where
  "step_request D r =
     (let body = fst (request_body r); hash = NormalisedHash (sv_jcs (rv_span D)); call = Parse (rv_rpc D) body in
      if mux_redirect r \<noteq> None \<or> hq_Path r = ''/healthz'' then None
      else if HasPrefix (hq_Path r) ''/mcp/''
      then if hq_Method r \<in> {''GET'', ''DELETE''} \<or> snd (request_body r) \<noteq> None \<or> call_Method call \<noteq> ''tools/call'' then None
           else Some \<lparr> ask_Step = 0, ask_Hash = hash body, ask_Kind = KindTool, ask_Tool = call_Name call,
                       ask_ArgsHash = hash (call_Arguments call) \<rparr>
      else if snd (request_body r) \<noteq> None then None
      else Some \<lparr> ask_Step = 0, ask_Hash = hash body, ask_Kind = KindModel, ask_Tool = [], ask_ArgsHash = [] \<rparr>)"

lemma serve_step:
  "step_request D r = Some req \<Longrightarrow>
     Server_ServeHTTP D e r s st w = handle D e r req (fst (request_body r)) s st w"
  by (cases "request_body r")
     (auto simp: step_request_def Server_ServeHTTP_def serveTool_def serveModel_def Let_def split: if_splits option.splits)

text \<open>A request that is no step and reaches the protocol handler.\<close>

definition protocol_request :: "('e, 's, 'w) replay_deps \<Rightarrow> path_request \<Rightarrow> string option" where
  "protocol_request D r =
     (let call = Parse (rv_rpc D) (fst (request_body r)) in
      if mux_redirect r = None \<and> hq_Path r \<noteq> ''/healthz'' \<and> HasPrefix (hq_Path r) ''/mcp/'' \<and> hq_Method r \<notin> {''GET'', ''DELETE''} \<and>
         snd (request_body r) = None \<and> call_Method call \<noteq> ''tools/call''
      then Some (call_Method call) else None)"

lemma serve_protocol:
  "protocol_request D r = Some meth \<Longrightarrow>
     Server_ServeHTTP D e r s st w = serveProtocol D r meth (fst (request_body r)) s st w"
  by (cases "request_body r")
     (auto simp: protocol_request_def Server_ServeHTTP_def serveTool_def Let_def split: if_splits option.splits)

lemma serve_other:
  "step_request D r = None \<Longrightarrow> protocol_request D r = None \<Longrightarrow>
     \<exists>rl. Server_ServeHTTP D e r s st w = (Some rl, None, s, st, w)"
  by (cases "request_body r")
     (auto simp: step_request_def protocol_request_def Server_ServeHTTP_def serveTool_def serveModel_def Let_def
      split: if_splits option.splits)

lemma handle_cases:
  assumes "handle D e r req body s st w = (rl, sp, s', st', w')"
  obtains m d s1 where "decide_request s req = (req\<lparr>ask_Step := tk_next (sv_tracker s)\<rparr>, m, d, s1)"
    and "answer D s1 st r (req\<lparr>ask_Step := tk_next (sv_tracker s)\<rparr>) m d body w = (rl, w')"
    and "(case rl of None \<Rightarrow> sp = None \<and> s' = s1 \<and> st' = st
          | Some x \<Rightarrow> record_answer D e (req\<lparr>ask_Step := tk_next (sv_tracker s)\<rparr>) m d body x s1 st = (sp, s', st'))"
proof -
  obtain req' m d s1 where dr: "decide_request s req = (req', m, d, s1)" by (metis prod_cases4)
  show ?thesis
    using assms dr decide_request_frame(6) [OF dr] that [of m d s1]
    by (auto simp: handle_def split: prod.splits option.splits)
qed

lemma forward_world:
  assumes "forward D s r kind body w = (rl, w')" and "w' \<noteq> w"
  shows "if kind = KindTool then map_of (sv_toolUpstreams s) (toolLabel (hq_Path r)) \<noteq> None
         else sv_modelUpstream s \<noteq> None"
  using assms by (auto simp: forward_def Let_def split: if_splits option.splits)

section \<open>What reaches an upstream\<close>

lemma serveProtocol_world:
  assumes "serveProtocol D r meth body s st w = (rl, sp, s', st', w')" and "w' \<noteq> w"
  shows "\<not> HasPrefix meth ''notifications/'' \<and> map_of (sv_toolUpstreams s) (toolLabel (hq_Path r)) \<noteq> None \<and>
    (\<forall>x. fst (protocolSpan meth s) = Some x \<longrightarrow> (\<exists>err. read_payload D st x = Inl err))"
proof -
  obtain found s1 where p: "protocolSpan meth s = (found, s1)" by (cases "protocolSpan meth s")
  let ?c = "case found of None \<Rightarrow> None | Some x \<Rightarrow> (case read_payload D st x of Inl _ \<Rightarrow> None | Inr b \<Rightarrow> Some (x, b))"
  have none: "?c = None" using assms p by (auto simp: serveProtocol_def answer_protocol_def split: option.splits prod.splits)
  then have "\<forall>x. found = Some x \<longrightarrow> (\<exists>err. read_payload D st x = Inl err)" by (auto split: sum.splits)
  moreover have "snd (unrecorded_protocol D r meth body s1 w) = w'"
    using assms(1) p none by (simp add: serveProtocol_def answer_protocol_def split: prod.splits)
  then have "\<not> HasPrefix meth ''notifications/'' \<and> (\<exists>rl. forward D s1 r KindTool body w = (rl, w'))"
    using assms(2) by (auto simp: unrecorded_protocol_def split: if_splits) (metis prod.collapse)
  ultimately show ?thesis
    using forward_world [of D s1 r KindTool body w _ w'] assms(2) protocolSpan_frame(3) [OF p] p by auto
qed

lemma model_forwarded:
  "ask_Kind req = KindModel \<Longrightarrow> dc_Action (Decide p req m) = ActionForward \<longleftrightarrow>
     po_Mode p = ModeModelLiveToolsReplayed \<or> po_Mode p = ModeHybrid \<and> \<not> Found m"
  by (auto simp: Decide_def decideModel_def split: Mode.splits)

lemma step_request_kind:
  "step_request D r = Some req \<Longrightarrow> ask_Kind req = KindTool \<or> ask_Kind req = KindModel"
  by (auto simp: step_request_def Let_def split: if_splits)

text \<open>
  C9. A replay reaches the outside only where its policy says so.  If serving a request reached any
  upstream, then it was a tool call in hybrid mode to a tool the operator forked live and the manifest
  asserts to be a read, or a model call in a mode that runs the model live or in hybrid mode without a
  recording of it, or it was no call at all as far as it could be parsed and the recording has no
  answer for its method; and in each case an endpoint was configured for it.
\<close>

theorem replay_reaches_upstreams_only_by_policy:
  assumes "Server_ServeHTTP D e r s st w = (rl, sp, s', st', w')" and "w' \<noteq> w"
  shows "case step_request D r of
      Some req \<Rightarrow>
        (if ask_Kind req = KindTool
         then po_Mode (sv_policy s) = ModeHybrid \<and> ask_Tool req \<in> set (po_LiveTools (sv_policy s)) \<and>
           map_of (po_Effects (sv_policy s)) (ask_Tool req) = Some EffectRead \<and>
           map_of (sv_toolUpstreams s) (toolLabel (hq_Path r)) \<noteq> None
         else sv_modelUpstream s \<noteq> None \<and>
           (po_Mode (sv_policy s) = ModeModelLiveToolsReplayed \<or> po_Mode (sv_policy s) = ModeHybrid \<and>
              \<not> Found (fst (Lookup (sv_idx s) (req\<lparr>ask_Step := tk_next (sv_tracker s)\<rparr>)))))
    | None \<Rightarrow>
        (\<exists>meth. protocol_request D r = Some meth \<and> \<not> HasPrefix meth ''notifications/'' \<and>
           map_of (sv_toolUpstreams s) (toolLabel (hq_Path r)) \<noteq> None \<and>
           (\<forall>x. fst (protocolSpan meth s) = Some x \<longrightarrow> (\<exists>err. read_payload D st x = Inl err)))"
proof (cases "step_request D r")
  case no_step: None
  show ?thesis
  proof (cases "protocol_request D r")
    case None
    obtain x where "Server_ServeHTTP D e r s st w = (Some x, None, s, st, w)"
      using serve_other [OF no_step None] by blast
    then show ?thesis using assms by simp
  next
    case (Some meth)
    then show ?thesis
      using serveProtocol_world [OF assms(1) [unfolded serve_protocol [OF Some]] assms(2)] no_step by simp
  qed
next
  case (Some req)
  let ?req = "req\<lparr>ask_Step := tk_next (sv_tracker s)\<rparr>"
  from assms(1) have "handle D e r req (fst (request_body r)) s st w = (rl, sp, s', st', w')"
    by (simp add: serve_step [OF Some])
  then obtain m d s1 where dr: "decide_request s req = (?req, m, d, s1)"
    and an: "answer D s1 st r ?req m d (fst (request_body r)) w = (rl, w')"
    by (rule handle_cases)
  have d: "d = Decide (sv_policy s) ?req m" and m: "m = fst (Lookup (sv_idx s) ?req)"
    and tu: "sv_toolUpstreams s1 = sv_toolUpstreams s" and mu: "sv_modelUpstream s1 = sv_modelUpstream s"
    using decide_request_frame [OF dr] by simp_all
  have act: "dc_Action d = ActionForward" and fw: "forward D s1 r (ask_Kind ?req) (fst (request_body r)) w = (rl, w')"
    using an assms(2) by (auto simp: answer_def split: Action.splits)
  have up: "if ask_Kind req = KindTool then map_of (sv_toolUpstreams s) (toolLabel (hq_Path r)) \<noteq> None
      else sv_modelUpstream s \<noteq> None"
    using forward_world [OF fw assms(2)] unfolding tu mu by simp
  show ?thesis
  proof (cases "ask_Kind req = KindTool")
    case True
    then show ?thesis using up act Some replay_never_writes [of ?req "sv_policy s" m] by (simp add: d)
  next
    case False
    then have "ask_Kind ?req = KindModel" using step_request_kind [OF Some] by simp
    then show ?thesis using False up act Some model_forwarded [of ?req "sv_policy s" m] by (simp add: d m)
  qed
qed

end
