(* ===== verification/Digest.thy ===== *)
theory Digest
  imports Sha256
begin

text \<open>
  The two hashes that give a manifest its identity: \<open>internal/digest/classify.go\<close>, the
  classification of every field; \<open>project.go\<close>, the JSON value that is hashed; \<open>digest.go\<close>,
  the digests and the names derived from them.  A Go map is an association list in the order the
  program writes its entries, which is the same for every manifest.  A panic is the error value.
\<close>

section \<open>The classification\<close>

datatype Scope = ScopeBehavior | ScopeContent

fun Scope_String :: "Scope \<Rightarrow> string" where
  "Scope_String ScopeBehavior = ''behavior''"
| "Scope_String ScopeContent = ''content''"

datatype Inclusion = InBoth | ContentOnly

datatype NullSemantics = Required | DistinctZero | EmptyIsAbsent

text \<open>The rationale \<open>Why\<close> of an entry is text for the documentation and is left out.\<close>

record Field =
  fd_Path :: string
  fd_Inclusion :: Inclusion
  fd_Null :: NullSemantics

definition field :: "string \<Rightarrow> Inclusion \<Rightarrow> NullSemantics \<Rightarrow> Field" where
  "field p i n = \<lparr> fd_Path = p, fd_Inclusion = i, fd_Null = n \<rparr>"

definition Registry :: "Field list" where
  "Registry = [
     field ''agent'' InBoth Required,
     field ''code.image'' InBoth Required,
     field ''model.provider'' InBoth Required,
     field ''model.id'' InBoth Required,
     field ''model.pin'' InBoth EmptyIsAbsent,
     field ''model.params.temperature'' InBoth DistinctZero,
     field ''model.params.topP'' InBoth DistinctZero,
     field ''model.params.topK'' InBoth DistinctZero,
     field ''model.params.maxTokens'' InBoth DistinctZero,
     field ''model.params.stopSequences'' InBoth EmptyIsAbsent,
     field ''prompts[].name'' InBoth Required,
     field ''prompts[].source'' ContentOnly EmptyIsAbsent,
     field ''prompts[].digest'' InBoth Required,
     field ''tools[].name'' InBoth Required,
     field ''tools[].server'' InBoth EmptyIsAbsent,
     field ''tools[].contractDigest'' InBoth Required,
     field ''tools[].effect'' InBoth Required,
     field ''tools[].replayPolicy'' InBoth EmptyIsAbsent,
     field ''retrieval.indexSnapshot'' InBoth EmptyIsAbsent,
     field ''retrieval.embeddingModel'' InBoth EmptyIsAbsent,
     field ''policy.bundleDigest'' InBoth Required,
     field ''judges[].name'' InBoth Required,
     field ''judges[].model'' InBoth Required,
     field ''judges[].rubricDigest'' InBoth Required,
     field ''judges[].calibration.kappa'' ContentOnly DistinctZero,
     field ''judges[].calibration.goldSetDigest'' ContentOnly EmptyIsAbsent,
     field ''judges[].calibration.measuredAt'' ContentOnly EmptyIsAbsent ]"

definition Paths :: "string list" where
  "Paths = map fd_Path Registry"

text \<open>The index built when the package is initialised, which panics on a duplicate path.\<close>

definition byPath :: "(string \<times> Field) list result" where
  "byPath = stepsR (map (\<lambda>f m. if has_key m (fd_Path f)
                               then Inl (Sprintf ''digest: duplicate registry path '' [AStr (fd_Path f)])
                               else Inr (AList.update (fd_Path f) f m)) Registry) []"

definition Lookup_field :: "string \<Rightarrow> Field option" where
  "Lookup_field path = (case byPath of Inr m \<Rightarrow> map_of m path | Inl _ \<Rightarrow> None)"

section \<open>The projection\<close>

type_synonym obj = "(string \<times> json) list"

record proj =
  pj_scope :: Scope
  pj_regPfx :: string
  pj_out :: obj

definition proj_elem :: "proj \<Rightarrow> string \<Rightarrow> proj" where
  "proj_elem p kind = \<lparr> pj_scope = pj_scope p, pj_regPfx = kind @ ''.'', pj_out = [] \<rparr>"

definition proj_classify :: "proj \<Rightarrow> string \<Rightarrow> (Field \<times> bool) result" where
  "proj_classify p rel =
     (let full = pj_regPfx p @ rel in
      case Lookup_field full of
        None \<Rightarrow> Inl (Sprintf ''digest: %q is not in the classification map'' [AStr full])
      | Some f \<Rightarrow>
          if pj_scope p = ScopeBehavior \<and> fd_Inclusion f = ContentOnly then Inr (f, False)
          else Inr (f, True))"

definition proj_require :: "string \<Rightarrow> proj \<Rightarrow> proj result" where
  "proj_require rel p = bindR (proj_classify p rel) (\<lambda>_. Inr p)"

text \<open>A write at a dotted path creates the objects on the way, over anything that is not one.\<close>

fun set_at :: "string list \<Rightarrow> json \<Rightarrow> obj \<Rightarrow> obj" where
  "set_at [] v m = m"
| "set_at [k] v m = AList.update k v m"
| "set_at (k # ks) v m =
     AList.update k (JObj (set_at ks v (case as_obj (jfield k m) of Some n \<Rightarrow> n | None \<Rightarrow> []))) m"

definition proj_set :: "string \<Rightarrow> json \<Rightarrow> proj \<Rightarrow> proj" where
  "proj_set path v p = p\<lparr>pj_out := set_at (strings_Split CHR ''.'' path) v (pj_out p)\<rparr>"

definition proj_str :: "string \<Rightarrow> string \<Rightarrow> proj \<Rightarrow> proj result" where
  "proj_str rel v p =
     bindR (proj_classify p rel) (\<lambda>(f, inc).
       if \<not> inc then Inr p
       else if fd_Null f = EmptyIsAbsent \<and> v = [] then Inr p
       else Inr (proj_set rel (JStr v) p))"

definition proj_strs :: "string \<Rightarrow> string list \<Rightarrow> proj \<Rightarrow> proj result" where
  "proj_strs rel v p =
     bindR (proj_classify p rel) (\<lambda>(f, inc).
       if \<not> inc then Inr p
       else if fd_Null f = EmptyIsAbsent \<and> length v = 0 then Inr p
       else Inr (proj_set rel (JArr (map JStr v)) p))"

definition proj_f64 :: "string \<Rightarrow> f64 option \<Rightarrow> proj \<Rightarrow> proj result" where
  "proj_f64 rel v p =
     bindR (proj_classify p rel) (\<lambda>(_, inc).
       case v of
         None \<Rightarrow> Inr p
       | Some x \<Rightarrow> if \<not> inc then Inr p else Inr (proj_set rel (JFloat x) p))"

definition proj_i64 :: "string \<Rightarrow> int option \<Rightarrow> proj \<Rightarrow> proj result" where
  "proj_i64 rel v p =
     bindR (proj_classify p rel) (\<lambda>(_, inc).
       case v of
         None \<Rightarrow> Inr p
       | Some x \<Rightarrow> if \<not> inc then Inr p else Inr (proj_set rel (JInt x) p))"

definition proj_time :: "string \<Rightarrow> time option \<Rightarrow> proj \<Rightarrow> proj result" where
  "proj_time rel v p =
     bindR (proj_classify p rel) (\<lambda>(_, inc).
       case v of
         None \<Rightarrow> Inr p
       | Some t \<Rightarrow> if \<not> inc \<or> t = 0 then Inr p
                   else Inr (proj_set rel (JStr (format_instant t)) p))"

definition imageContentID :: "string \<Rightarrow> string" where
  "imageContentID ref = (case cut_at CHR ''@'' ref of Some (_, i) \<Rightarrow> i | None \<Rightarrow> ref)"

definition sortedByName :: "('a \<Rightarrow> string) \<Rightarrow> 'a list \<Rightarrow> 'a list" where
  "sortedByName name xs = sort_key name xs"

definition project_prompt :: "proj \<Rightarrow> PromptRef \<Rightarrow> json result" where
  "project_prompt p pr =
     bindR (stepsR [proj_str ''name'' (prompt_Name pr), proj_str ''source'' (prompt_Source pr),
                    proj_str ''digest'' (prompt_Digest pr)] (proj_elem p ''prompts[]''))
       (\<lambda>e. Inr (JObj (pj_out e)))"

definition project_tool :: "proj \<Rightarrow> ToolRef \<Rightarrow> json result" where
  "project_tool p t =
     bindR (stepsR [proj_str ''name'' (tool_Name t), proj_str ''server'' (tool_Server t),
                    proj_str ''contractDigest'' (tool_ContractDigest t),
                    proj_str ''effect'' (tool_Effect t),
                    proj_str ''replayPolicy'' (tool_ReplayPolicy t)] (proj_elem p ''tools[]''))
       (\<lambda>e. Inr (JObj (pj_out e)))"

definition project_judge :: "proj \<Rightarrow> JudgeSpec \<Rightarrow> json result" where
  "project_judge p j =
     bindR (stepsR ([proj_str ''name'' (judge_Name j), proj_str ''model'' (judge_Model j),
                     proj_str ''rubricDigest'' (judge_RubricDigest j)] @
                    (case judge_Calibration j of
                       None \<Rightarrow> []
                     | Some c \<Rightarrow> [proj_f64 ''calibration.kappa'' (cal_Kappa c),
                                  proj_str ''calibration.goldSetDigest'' (cal_GoldSetDigest c),
                                  proj_time ''calibration.measuredAt'' (cal_MeasuredAt c)]))
              (proj_elem p ''judges[]''))
       (\<lambda>e. Inr (JObj (pj_out e)))"

text \<open>The three lists: nothing is written for an empty one.\<close>

definition project_list ::
    "string \<Rightarrow> ('a \<Rightarrow> string) \<Rightarrow> (proj \<Rightarrow> 'a \<Rightarrow> json result) \<Rightarrow> 'a list \<Rightarrow> proj \<Rightarrow> proj result" where
  "project_list key name item xs p =
     (if length (sortedByName name xs) = 0 then Inr p
      else bindR (mapR (item p) (sortedByName name xs))
             (\<lambda>items. Inr (p\<lparr>pj_out := AList.update key (JArr items) (pj_out p)\<rparr>)))"

definition Project :: "AgentManifestSpec \<Rightarrow> Scope \<Rightarrow> obj result" where
  "Project spec scope =
     bindR (stepsR (
       [proj_str ''agent'' (Agent spec),
        proj_require ''code.image'',
        (\<lambda>p. Inr (if scope = ScopeBehavior
                   then proj_set ''code.imageDigest'' (JStr (imageContentID (code_Image (Code spec)))) p
                   else proj_set ''code.image'' (JStr (code_Image (Code spec))) p)),
        proj_str ''model.provider'' (model_Provider (Model spec)),
        proj_str ''model.id'' (model_ID (Model spec)),
        proj_str ''model.pin'' (model_Pin (Model spec)),
        proj_f64 ''model.params.temperature'' (mp_Temperature (model_Params (Model spec))),
        proj_f64 ''model.params.topP'' (mp_TopP (model_Params (Model spec))),
        proj_i64 ''model.params.topK'' (mp_TopK (model_Params (Model spec))),
        proj_i64 ''model.params.maxTokens'' (mp_MaxTokens (model_Params (Model spec))),
        proj_strs ''model.params.stopSequences'' (mp_StopSequences (model_Params (Model spec))),
        project_list ''prompts'' prompt_Name project_prompt (Prompts spec),
        project_list ''tools'' tool_Name project_tool (Tools spec)] @
       (case Retrieval spec of
          None \<Rightarrow> []
        | Some r \<Rightarrow> [proj_str ''retrieval.indexSnapshot'' (retrieval_IndexSnapshot r),
                     proj_str ''retrieval.embeddingModel'' (retrieval_EmbeddingModel r)]) @
       (case Policy spec of
          None \<Rightarrow> []
        | Some pl \<Rightarrow> [proj_str ''policy.bundleDigest'' (policy_BundleDigest pl)]) @
       [project_list ''judges'' judge_Name project_judge (Judges spec)])
       \<lparr> pj_scope = scope, pj_regPfx = [], pj_out = [] \<rparr>)
     (\<lambda>p. Inr (pj_out p))"

section \<open>The digests\<close>

text \<open>
  The encoder and the canonicaliser (RFC 8785, a package) are arguments: \<open>json.Marshal\<close> of a
  decoded value and \<open>jcs.Transform\<close> of its bytes.
\<close>

record hasher =
  hs_Marshal :: "obj \<Rightarrow> string result"
  hs_Transform :: "string \<Rightarrow> string result"

definition check_finite :: "msg \<Rightarrow> f64 option \<Rightarrow> unit result" where
  "check_finite path v =
     (case v of
        None \<Rightarrow> Inr ()
      | Some x \<Rightarrow>
          if is_NaN x \<or> (\<exists>n \<in> {True, False}. x = Inf n)
          then Inl (Sprintf ''%s: %v is not a finite number; JSON cannot represent it''
                      [AMsg path, AFloat x])
          else Inr ())"

fun check_judges :: "nat \<Rightarrow> JudgeSpec list \<Rightarrow> unit result" where
  "check_judges i [] = Inr ()"
| "check_judges i (j # js) =
     bindR (case judge_Calibration j of
              None \<Rightarrow> Inr ()
            | Some c \<Rightarrow> check_finite (Sprintf ''spec.judges[%d].calibration.kappa'' [AInt (int i)])
                         (cal_Kappa c))
       (\<lambda>_. check_judges (Suc i) js)"

definition checkFinite :: "AgentManifestSpec \<Rightarrow> unit result" where
  "checkFinite spec =
     bindR (check_finite (Text ''spec.model.params.temperature'')
              (mp_Temperature (model_Params (Model spec))))
       (\<lambda>_. bindR (check_finite (Text ''spec.model.params.topP'') (mp_TopP (model_Params (Model spec))))
       (\<lambda>_. check_judges 0 (Judges spec)))"

definition CanonicalJSON :: "hasher \<Rightarrow> AgentManifestSpec \<Rightarrow> Scope \<Rightarrow> string result" where
  "CanonicalJSON H spec scope =
     bindR (checkFinite spec) (\<lambda>_.
     bindR (Project spec scope) (\<lambda>m.
     case hs_Marshal H m of
       Inl e \<Rightarrow> Inl (Sprintf ''marshal %s projection: %w'' [AStr (Scope_String scope), AErr e])
     | Inr raw \<Rightarrow>
         (case hs_Transform H raw of
            Inl e \<Rightarrow> Inl (Sprintf ''canonicalise %s projection: %w'' [AStr (Scope_String scope), AErr e])
          | Inr canonical \<Rightarrow> Inr canonical)))"

definition Compute :: "hasher \<Rightarrow> AgentManifestSpec \<Rightarrow> Scope \<Rightarrow> string result" where
  "Compute H spec scope =
     bindR (CanonicalJSON H spec scope) (\<lambda>canonical.
       Inr (''sha256:'' @ EncodeToString (Sum256 canonical)))"

definition Both :: "hasher \<Rightarrow> AgentManifestSpec \<Rightarrow> (string \<times> string) result" where
  "Both H spec =
     bindR (Compute H spec ScopeBehavior) (\<lambda>behavior.
     bindR (Compute H spec ScopeContent) (\<lambda>content. Inr (behavior, content)))"

definition Prefix :: nat where "Prefix = 12"
definition ContentPrefix :: nat where "ContentPrefix = 8"

definition Short :: "string \<Rightarrow> nat \<Rightarrow> string" where
  "Short d n =
     (let hexPart = (if length d > 7 \<and> take 7 d = ''sha256:'' then drop 7 d else d)
      in if length hexPart < n then hexPart else take n hexPart)"

definition Name :: "string \<Rightarrow> string \<Rightarrow> string" where
  "Name agent behaviorDigest = agent @ ''-'' @ Short behaviorDigest Prefix"

definition DisambiguatedName :: "string \<Rightarrow> string \<Rightarrow> string \<Rightarrow> string" where
  "DisambiguatedName agent behaviorDigest contentDigest =
     Name agent behaviorDigest @ ''.'' @ Short contentDigest ContentPrefix"

section \<open>The classification is total and free of duplicates\<close>

lemma update_new: "k \<notin> fst ` set m \<Longrightarrow> AList.update k v m = m @ [(k, v)]"
  by (induction m) auto

lemma index_paths:
  assumes "distinct (map fd_Path fs)" and "fd_Path ` set fs \<inter> fst ` set m = {}"
  shows "stepsR (map (\<lambda>f m. if has_key m (fd_Path f)
                            then Inl (Sprintf ''digest: duplicate registry path '' [AStr (fd_Path f)])
                            else Inr (AList.update (fd_Path f) f m)) fs) m
         = Inr (m @ map (\<lambda>f. (fd_Path f, f)) fs)"
  using assms
proof (induction fs arbitrary: m)
  case (Cons f fs)
  then have new: "fd_Path f \<notin> fst ` set m" by auto
  then have "\<not> has_key m (fd_Path f)" by (simp add: has_key_def map_of_eq_None_iff)
  moreover have "fd_Path ` set fs \<inter> fst ` set (m @ [(fd_Path f, f)]) = {}" using Cons.prems by auto
  ultimately show ?case using Cons by (simp add: update_new [OF new])
qed simp

lemma distinct_Paths: "distinct Paths"
  by (simp add: Paths_def Registry_def field_def)

lemma byPath_Registry: "byPath = Inr (map (\<lambda>f. (fd_Path f, f)) Registry)"
  using index_paths [of Registry "[]"] distinct_Paths by (simp add: byPath_def Paths_def)

lemma Lookup_field_iff: "Lookup_field p = map_of (map (\<lambda>f. (fd_Path f, f)) Registry) p"
  by (simp add: Lookup_field_def byPath_Registry)

lemma Lookup_simps [simp]:
  "Lookup_field ''agent'' = Some (field ''agent'' InBoth Required)"
  "Lookup_field ''code.image'' = Some (field ''code.image'' InBoth Required)"
  "Lookup_field ''model.provider'' = Some (field ''model.provider'' InBoth Required)"
  "Lookup_field ''model.id'' = Some (field ''model.id'' InBoth Required)"
  "Lookup_field ''model.pin'' = Some (field ''model.pin'' InBoth EmptyIsAbsent)"
  "Lookup_field ''model.params.temperature'' = Some (field ''model.params.temperature'' InBoth DistinctZero)"
  "Lookup_field ''model.params.topP'' = Some (field ''model.params.topP'' InBoth DistinctZero)"
  "Lookup_field ''model.params.topK'' = Some (field ''model.params.topK'' InBoth DistinctZero)"
  "Lookup_field ''model.params.maxTokens'' = Some (field ''model.params.maxTokens'' InBoth DistinctZero)"
  "Lookup_field ''model.params.stopSequences'' =
     Some (field ''model.params.stopSequences'' InBoth EmptyIsAbsent)"
  "Lookup_field ''prompts[].name'' = Some (field ''prompts[].name'' InBoth Required)"
  "Lookup_field ''prompts[].source'' = Some (field ''prompts[].source'' ContentOnly EmptyIsAbsent)"
  "Lookup_field ''prompts[].digest'' = Some (field ''prompts[].digest'' InBoth Required)"
  "Lookup_field ''tools[].name'' = Some (field ''tools[].name'' InBoth Required)"
  "Lookup_field ''tools[].server'' = Some (field ''tools[].server'' InBoth EmptyIsAbsent)"
  "Lookup_field ''tools[].contractDigest'' = Some (field ''tools[].contractDigest'' InBoth Required)"
  "Lookup_field ''tools[].effect'' = Some (field ''tools[].effect'' InBoth Required)"
  "Lookup_field ''tools[].replayPolicy'' = Some (field ''tools[].replayPolicy'' InBoth EmptyIsAbsent)"
  "Lookup_field ''retrieval.indexSnapshot'' = Some (field ''retrieval.indexSnapshot'' InBoth EmptyIsAbsent)"
  "Lookup_field ''retrieval.embeddingModel'' = Some (field ''retrieval.embeddingModel'' InBoth EmptyIsAbsent)"
  "Lookup_field ''policy.bundleDigest'' = Some (field ''policy.bundleDigest'' InBoth Required)"
  "Lookup_field ''judges[].name'' = Some (field ''judges[].name'' InBoth Required)"
  "Lookup_field ''judges[].model'' = Some (field ''judges[].model'' InBoth Required)"
  "Lookup_field ''judges[].rubricDigest'' = Some (field ''judges[].rubricDigest'' InBoth Required)"
  "Lookup_field ''judges[].calibration.kappa'' =
     Some (field ''judges[].calibration.kappa'' ContentOnly DistinctZero)"
  "Lookup_field ''judges[].calibration.goldSetDigest'' =
     Some (field ''judges[].calibration.goldSetDigest'' ContentOnly EmptyIsAbsent)"
  "Lookup_field ''judges[].calibration.measuredAt'' =
     Some (field ''judges[].calibration.measuredAt'' ContentOnly EmptyIsAbsent)"
  unfolding Lookup_field_iff Registry_def by (simp_all add: field_def)

lemma field_simps [simp]: "fd_Inclusion (field p i n) = i" "fd_Null (field p i n) = n"
  by (simp_all add: field_def)

section \<open>Reading a projection\<close>

fun get_at :: "string list \<Rightarrow> obj \<Rightarrow> json option" where
  "get_at [] m = Some (JObj m)"
| "get_at (k # ks) m =
     (if ks = [] then map_of m k
      else (case as_obj (jfield k m) of Some n \<Rightarrow> get_at ks n | None \<Rightarrow> None))"

text \<open>Neither path leads to the other.\<close>

fun apart :: "string list \<Rightarrow> string list \<Rightarrow> bool" where
  "apart (j # js) (k # ks) = (if j = k then apart js ks else True)"
| "apart _ _ = False"

lemma get_set_same: "p \<noteq> [] \<Longrightarrow> get_at p (set_at p v m) = Some v"
  by (induction p v m rule: set_at.induct) (auto simp: update_conv')

lemma apart_ne: "apart p q \<Longrightarrow> p \<noteq> [] \<and> q \<noteq> []"
  by (cases "(p, q)" rule: apart.cases) auto

lemma get_at_empty [simp]: "p \<noteq> [] \<Longrightarrow> get_at p [] = None"
  by (cases p) (auto simp: jfield_def lookup_or_def)

lemma get_set_apart: "apart p q \<Longrightarrow> get_at p (set_at q v m) = get_at p m"
proof (induction q v m arbitrary: p rule: set_at.induct)
  case (1 v m)
  then show ?case by simp
next
  case (2 k v m)
  then show ?case by (cases p) (auto simp: update_conv' split: if_splits)
next
  case (3 k k' ks v m)
  then obtain j js where p: "p = j # js" by (cases p) auto
  show ?case
  proof (cases "j = k")
    case True
    then have a: "apart js (k' # ks)" using 3(2) p by simp
    then have "js \<noteq> []" using apart_ne by blast
    with 3(1) [OF a] True p show ?thesis
      by (auto split: option.splits)
  next
    case False
    then show ?thesis using p by (auto simp: update_conv' split: option.splits)
  qed
qed

text \<open>A projection is a list of paths with the value written there, or nothing.\<close>

type_synonym entry = "string list \<times> json option"

fun write_entry :: "entry \<Rightarrow> obj \<Rightarrow> obj" where
  "write_entry (p, None) m = m"
| "write_entry (p, Some v) m = set_at p v m"

definition put :: "entry list \<Rightarrow> obj" where
  "put es = fold write_entry es []"

fun all_apart :: "string list list \<Rightarrow> bool" where
  "all_apart [] = True"
| "all_apart (p # ps) = (list_all (\<lambda>q. apart p q \<and> apart q p) ps \<and> all_apart ps)"

lemma get_write: 
  "p \<noteq> [] \<Longrightarrow> get_at p (write_entry (p, v) m) = (case v of None \<Rightarrow> get_at p m | Some _ \<Rightarrow> v)"
  "apart p q \<Longrightarrow> get_at p (write_entry (q, v) m) = get_at p m"
  by (cases v; simp add: get_set_same get_set_apart)+

lemma get_fold_apart:
  "list_all (\<lambda>q. apart p q) (map fst es) \<Longrightarrow> get_at p (fold write_entry es m) = get_at p m"
  by (induction es arbitrary: m) (auto simp: get_write)

lemma get_fold:
  assumes "all_apart (map fst es)" and "(p, v) \<in> set es" and "p \<noteq> []" and "get_at p m = None"
  shows "get_at p (fold write_entry es m) = v"
  using assms
proof (induction es arbitrary: m)
  case (Cons e es)
  obtain q w where e: "e = (q, w)" by (cases e)
  show ?case
  proof (cases "(p, v) = e")
    case True
    then have "list_all (\<lambda>q. apart p q) (map fst es)" using Cons.prems(1) e
      by (auto simp: list_all_iff)
    then show ?thesis using True Cons.prems(3,4) e
      by (simp add: get_fold_apart get_write split: option.splits)
  next
    case False
    then have p: "(p, v) \<in> set es" using Cons.prems by auto
    then have "apart p q" using Cons.prems(1) e by (force simp: list_all_iff)
    with Cons.IH [of "write_entry e m"] p Cons.prems e show ?thesis by (simp add: get_write)
  qed
qed simp

lemma put_eq_iff:
  assumes "map fst es = map fst es'" and "all_apart (map fst es)" and "[] \<notin> set (map fst es)"
  shows "put es = put es' \<longleftrightarrow> es = es'"
proof
  assume eq: "put es = put es'"
  have len: "length es = length es'" using assms(1) by (metis length_map)
  have "es ! i = es' ! i" if i: "i < length es" for i
  proof -
    have p: "fst (es ! i) = fst (es' ! i)" using i len assms(1) by (metis nth_map)
    have m: "es ! i \<in> set es" "es' ! i \<in> set es'" using i len by simp_all
    then have ne: "fst (es ! i) \<noteq> []" using assms(3) by force
    have "get_at (fst (es ! i)) (put es) = snd (es ! i)"
      unfolding put_def using m(1) ne assms(2) by (intro get_fold) simp_all
    moreover have "get_at (fst (es' ! i)) (put es') = snd (es' ! i)"
      unfolding put_def using m(2) ne assms p by (intro get_fold) simp_all
    ultimately show ?thesis using eq p by (simp add: prod_eq_iff)
  qed
  then show "es = es'" using len by (simp add: list_eq_iff_nth_eq)
qed simp

section \<open>What a projection contains\<close>

definition text_json :: "string \<Rightarrow> json option" where
  "text_json s = (if s = [] then None else Some (JStr s))"

definition list_json :: "json list \<Rightarrow> json option" where
  "list_json xs = (if xs = [] then None else Some (JArr xs))"

definition prompt_entries :: "Scope \<Rightarrow> PromptRef \<Rightarrow> entry list" where
  "prompt_entries sc p =
     [([''name''], Some (JStr (prompt_Name p))),
      ([''source''], if sc = ScopeBehavior then None else text_json (prompt_Source p)),
      ([''digest''], Some (JStr (prompt_Digest p)))]"

definition tool_entries :: "ToolRef \<Rightarrow> entry list" where
  "tool_entries t =
     [([''name''], Some (JStr (tool_Name t))),
      ([''server''], text_json (tool_Server t)),
      ([''contractDigest''], Some (JStr (tool_ContractDigest t))),
      ([''effect''], Some (JStr (tool_Effect t))),
      ([''replayPolicy''], text_json (tool_ReplayPolicy t))]"

text \<open>The calibration of a judge as far as a digest sees it.\<close>

definition calibration_view :: "JudgeSpec \<Rightarrow> f64 option \<times> string \<times> string" where
  "calibration_view j =
     (case judge_Calibration j of
        None \<Rightarrow> (None, [], [])
      | Some c \<Rightarrow> (cal_Kappa c, cal_GoldSetDigest c,
          (case cal_MeasuredAt c of
             None \<Rightarrow> []
           | Some t \<Rightarrow> if t = 0 then [] else format_instant t)))"

definition calibration_entries :: "Scope \<Rightarrow> JudgeSpec \<Rightarrow> entry list" where
  "calibration_entries sc j =
     [([''calibration'', ''kappa''],
         if sc = ScopeBehavior then None else map_option JFloat (fst (calibration_view j))),
      ([''calibration'', ''goldSetDigest''],
         if sc = ScopeBehavior then None else text_json (fst (snd (calibration_view j)))),
      ([''calibration'', ''measuredAt''],
         if sc = ScopeBehavior then None else text_json (snd (snd (calibration_view j))))]"

definition judge_entries :: "Scope \<Rightarrow> JudgeSpec \<Rightarrow> entry list" where
  "judge_entries sc j =
     [([''name''], Some (JStr (judge_Name j))),
      ([''model''], Some (JStr (judge_Model j))),
      ([''rubricDigest''], Some (JStr (judge_RubricDigest j)))] @ calibration_entries sc j"

definition retrieval_view :: "AgentManifestSpec \<Rightarrow> string \<times> string" where
  "retrieval_view spec =
     (case Retrieval spec of
        None \<Rightarrow> ([], [])
      | Some r \<Rightarrow> (retrieval_IndexSnapshot r, retrieval_EmbeddingModel r))"

text \<open>The entries of a manifest, in the order of the projection.\<close>

definition identity_entries :: "AgentManifestSpec \<Rightarrow> Scope \<Rightarrow> entry list" where
  "identity_entries spec sc =
     [([''agent''], Some (JStr (Agent spec))),
      (if sc = ScopeBehavior then [''code'', ''imageDigest''] else [''code'', ''image''],
       Some (JStr (if sc = ScopeBehavior then imageContentID (code_Image (Code spec))
                   else code_Image (Code spec))))]"

definition model_entries :: "ModelSpec \<Rightarrow> entry list" where
  "model_entries m =
     [([''model'', ''provider''], Some (JStr (model_Provider m))),
      ([''model'', ''id''], Some (JStr (model_ID m))),
      ([''model'', ''pin''], text_json (model_Pin m)),
      ([''model'', ''params'', ''temperature''], map_option JFloat (mp_Temperature (model_Params m))),
      ([''model'', ''params'', ''topP''], map_option JFloat (mp_TopP (model_Params m))),
      ([''model'', ''params'', ''topK''], map_option JInt (mp_TopK (model_Params m))),
      ([''model'', ''params'', ''maxTokens''], map_option JInt (mp_MaxTokens (model_Params m))),
      ([''model'', ''params'', ''stopSequences''],
         list_json (map JStr (mp_StopSequences (model_Params m))))]"

definition input_entries :: "AgentManifestSpec \<Rightarrow> Scope \<Rightarrow> entry list" where
  "input_entries spec sc =
     [([''prompts''], list_json (map (\<lambda>p. JObj (put (prompt_entries sc p)))
                                  (sortedByName prompt_Name (Prompts spec)))),
      ([''tools''], list_json (map (\<lambda>t. JObj (put (tool_entries t)))
                                (sortedByName tool_Name (Tools spec))))]"

definition retrieval_entries :: "AgentManifestSpec \<Rightarrow> entry list" where
  "retrieval_entries spec =
     [([''retrieval'', ''indexSnapshot''], text_json (fst (retrieval_view spec))),
      ([''retrieval'', ''embeddingModel''], text_json (snd (retrieval_view spec)))]"

definition policy_entries :: "AgentManifestSpec \<Rightarrow> entry list" where
  "policy_entries spec =
     [([''policy'', ''bundleDigest''], map_option (\<lambda>p. JStr (policy_BundleDigest p)) (Policy spec))]"

definition gate_entries :: "AgentManifestSpec \<Rightarrow> Scope \<Rightarrow> entry list" where
  "gate_entries spec sc =
     [([''judges''], list_json (map (\<lambda>j. JObj (put (judge_entries sc j)))
                                 (sortedByName judge_Name (Judges spec))))]"

definition manifest_entries :: "AgentManifestSpec \<Rightarrow> Scope \<Rightarrow> entry list" where
  "manifest_entries spec sc =
     identity_entries spec sc @ model_entries (Model spec) @ input_entries spec sc @
     retrieval_entries spec @ policy_entries spec @ gate_entries spec sc"

lemma format_instant_ne [simp]: "format_instant t \<noteq> []"
  by (simp add: format_instant_def Let_def)

text \<open>
  Each step of the projection writes one entry.  The rules follow the list of steps, so a projected
  object is read off step by step.
\<close>

definition in_scope :: "Scope \<Rightarrow> Field \<Rightarrow> bool" where
  "in_scope sc f = (\<not> (sc = ScopeBehavior \<and> fd_Inclusion f = ContentOnly))"

definition writes1 :: "Scope \<Rightarrow> string \<Rightarrow> (proj \<Rightarrow> proj result) \<Rightarrow> entry \<Rightarrow> bool" where
  "writes1 sc pre f e \<longleftrightarrow>
     (\<forall>out. f \<lparr> pj_scope = sc, pj_regPfx = pre, pj_out = out \<rparr> =
        Inr \<lparr> pj_scope = sc, pj_regPfx = pre, pj_out = write_entry e out \<rparr>)"

definition writes :: "Scope \<Rightarrow> string \<Rightarrow> (proj \<Rightarrow> proj result) list \<Rightarrow> entry list \<Rightarrow> bool" where
  "writes sc pre fs es \<longleftrightarrow>
     (\<forall>out. stepsR fs \<lparr> pj_scope = sc, pj_regPfx = pre, pj_out = out \<rparr> =
        Inr \<lparr> pj_scope = sc, pj_regPfx = pre, pj_out = fold write_entry es out \<rparr>)"

lemma writes_Nil: "writes sc pre [] []"
  by (simp add: writes_def)

lemma writes_Cons: "writes1 sc pre f e \<Longrightarrow> writes sc pre fs es \<Longrightarrow> writes sc pre (f # fs) (e # es)"
  by (simp add: writes_def writes1_def)

lemma writes_skip:
  assumes "\<And>out. f \<lparr> pj_scope = sc, pj_regPfx = pre, pj_out = out \<rparr> =
                  Inr \<lparr> pj_scope = sc, pj_regPfx = pre, pj_out = out \<rparr>"
    and "writes sc pre fs es"
  shows "writes sc pre (f # fs) es"
  using assms by (simp add: writes_def)

lemma classify_ok:
  "Lookup_field (pre @ rel) = Some f \<Longrightarrow>
     proj_classify \<lparr> pj_scope = sc, pj_regPfx = pre, pj_out = out \<rparr> rel = Inr (f, in_scope sc f)"
  by (simp add: proj_classify_def in_scope_def Let_def)

lemma writes_step:
  assumes "Lookup_field (pre @ rel) = Some f" and "strings_Split CHR ''.'' rel = path"
  shows "v = (if in_scope sc f \<and> \<not> (fd_Null f = EmptyIsAbsent \<and> s = []) then Some (JStr s) else None) \<Longrightarrow>
      writes1 sc pre (proj_str rel s) (path, v)"
    and "v = (if in_scope sc f \<and> \<not> (fd_Null f = EmptyIsAbsent \<and> ss = [])
          then Some (JArr (map JStr ss)) else None) \<Longrightarrow> writes1 sc pre (proj_strs rel ss) (path, v)"
    and "v = (if in_scope sc f then map_option JFloat x else None) \<Longrightarrow>
      writes1 sc pre (proj_f64 rel x) (path, v)"
    and "v = (if in_scope sc f then map_option JInt i else None) \<Longrightarrow>
      writes1 sc pre (proj_i64 rel i) (path, v)"
    and "v = (if in_scope sc f
           then text_json (case t of None \<Rightarrow> [] | Some x \<Rightarrow> if x = 0 then [] else format_instant x) else None) \<Longrightarrow>
      writes1 sc pre (proj_time rel t) (path, v)"
  using classify_ok [OF assms(1)] assms(2)
  by (auto simp: writes1_def proj_str_def proj_strs_def proj_f64_def proj_i64_def proj_time_def
      proj_set_def text_json_def split: option.splits)

lemma writes_append: "writes sc pre fs es \<Longrightarrow> writes sc pre gs ds \<Longrightarrow> writes sc pre (fs @ gs) (es @ ds)"
  by (simp add: writes_def stepsR_append)

lemma writes_nothing: "list_all (\<lambda>(p, v). v = None) es \<Longrightarrow> writes sc pre [] es"
  by (induction es) (auto simp: writes_def)

lemmas writes_rules = writes_Nil writes_Cons writes_step

lemma writes_put: "writes sc pre fs es \<Longrightarrow>
    stepsR fs \<lparr> pj_scope = sc, pj_regPfx = pre, pj_out = [] \<rparr> =
      Inr \<lparr> pj_scope = sc, pj_regPfx = pre, pj_out = put es \<rparr>"
  by (simp add: writes_def put_def)

lemma prompt_writes:
  "writes sc ''prompts[].'' [proj_str ''name'' (prompt_Name pr), proj_str ''source'' (prompt_Source pr),
     proj_str ''digest'' (prompt_Digest pr)] (prompt_entries sc pr)"
  unfolding prompt_entries_def
  by (intro writes_rules) (auto simp: in_scope_def text_json_def)


lemma tool_writes:
  "writes sc ''tools[].'' [proj_str ''name'' (tool_Name t), proj_str ''server'' (tool_Server t),
     proj_str ''contractDigest'' (tool_ContractDigest t), proj_str ''effect'' (tool_Effect t),
     proj_str ''replayPolicy'' (tool_ReplayPolicy t)] (tool_entries t)"
  unfolding tool_entries_def
  by (intro writes_rules) (auto simp: in_scope_def text_json_def)

lemma calibration_writes:
  "writes sc ''judges[].''
     (case judge_Calibration j of
        None \<Rightarrow> []
      | Some c \<Rightarrow> [proj_f64 ''calibration.kappa'' (cal_Kappa c),
          proj_str ''calibration.goldSetDigest'' (cal_GoldSetDigest c),
          proj_time ''calibration.measuredAt'' (cal_MeasuredAt c)]) (calibration_entries sc j)"
proof (cases "judge_Calibration j")
  case None
  then show ?thesis
    by (auto simp: calibration_entries_def calibration_view_def text_json_def intro!: writes_nothing)
next
  case (Some c)
  show ?thesis
    unfolding calibration_entries_def Some option.case
    by (intro writes_rules) (auto simp: in_scope_def text_json_def calibration_view_def Some)
qed

lemma judge_writes:
  "writes sc ''judges[].'' ([proj_str ''name'' (judge_Name j), proj_str ''model'' (judge_Model j),
     proj_str ''rubricDigest'' (judge_RubricDigest j)] @
     (case judge_Calibration j of
        None \<Rightarrow> []
      | Some c \<Rightarrow> [proj_f64 ''calibration.kappa'' (cal_Kappa c),
          proj_str ''calibration.goldSetDigest'' (cal_GoldSetDigest c),
          proj_time ''calibration.measuredAt'' (cal_MeasuredAt c)])) (judge_entries sc j)"
  unfolding judge_entries_def
  by (rule writes_append [OF _ calibration_writes], intro writes_rules) (auto simp: in_scope_def)

lemma project_prompt_eq: "project_prompt p pr = Inr (JObj (put (prompt_entries (pj_scope p) pr)))"
  unfolding project_prompt_def proj_elem_def append.simps writes_put [OF prompt_writes] by simp

lemma project_tool_eq: "project_tool p t = Inr (JObj (put (tool_entries t)))"
  unfolding project_tool_def proj_elem_def append.simps writes_put [OF tool_writes] by simp

lemma project_judge_eq: "project_judge p j = Inr (JObj (put (judge_entries (pj_scope p) j)))"
  using writes_put [OF judge_writes [of "pj_scope p" j]]
  unfolding project_judge_def proj_elem_def append.simps by simp

lemma writes_list:
  assumes "\<And>p x. pj_scope p = sc \<Longrightarrow> item p x = Inr (g x)"
  shows "writes1 sc pre (project_list key name item xs) ([key], list_json (map g (sortedByName name xs)))"
proof -
  have "mapR (item \<lparr>pj_scope = sc, pj_regPfx = pre, pj_out = out\<rparr>) (sortedByName name xs) =
      Inr (map g (sortedByName name xs))" for out
    by (rule mapR_total) (simp add: assms)
  then show ?thesis by (simp add: writes1_def project_list_def list_json_def)
qed

lemma input_writes:
  "writes sc [] [project_list ''prompts'' prompt_Name project_prompt (Prompts spec),
     project_list ''tools'' tool_Name project_tool (Tools spec)] (input_entries spec sc)"
  unfolding input_entries_def
  by (intro writes_Cons writes_Nil writes_list) (simp_all add: project_prompt_eq project_tool_eq)

lemma gate_writes:
  "writes sc [] [project_list ''judges'' judge_Name project_judge (Judges spec)] (gate_entries spec sc)"
  unfolding gate_entries_def
  by (intro writes_Cons writes_Nil writes_list) (simp_all add: project_judge_eq)

lemma identity_writes:
  "writes sc [] [proj_str ''agent'' (Agent spec), proj_require ''code.image'',
     (\<lambda>p. Inr (if sc = ScopeBehavior
                then proj_set ''code.imageDigest'' (JStr (imageContentID (code_Image (Code spec)))) p
                else proj_set ''code.image'' (JStr (code_Image (Code spec))) p))]
    (identity_entries spec sc)"
  by (simp add: writes_def identity_entries_def proj_str_def proj_require_def proj_classify_def
      proj_set_def Let_def)

lemma model_writes:
  "writes sc [] [proj_str ''model.provider'' (model_Provider m), proj_str ''model.id'' (model_ID m),
     proj_str ''model.pin'' (model_Pin m),
     proj_f64 ''model.params.temperature'' (mp_Temperature (model_Params m)),
     proj_f64 ''model.params.topP'' (mp_TopP (model_Params m)),
     proj_i64 ''model.params.topK'' (mp_TopK (model_Params m)),
     proj_i64 ''model.params.maxTokens'' (mp_MaxTokens (model_Params m)),
     proj_strs ''model.params.stopSequences'' (mp_StopSequences (model_Params m))] (model_entries m)"
  unfolding model_entries_def
  by (intro writes_rules) (auto simp: in_scope_def text_json_def list_json_def)

lemma retrieval_writes:
  "writes sc [] (case Retrieval spec of
          None \<Rightarrow> []
        | Some r \<Rightarrow> [proj_str ''retrieval.indexSnapshot'' (retrieval_IndexSnapshot r),
                     proj_str ''retrieval.embeddingModel'' (retrieval_EmbeddingModel r)])
     (retrieval_entries spec)"
proof (cases "Retrieval spec")
  case None
  then show ?thesis
    by (auto simp: retrieval_entries_def retrieval_view_def text_json_def intro!: writes_nothing)
next
  case (Some r)
  show ?thesis unfolding Some option.case retrieval_entries_def
    by (intro writes_rules) (auto simp: in_scope_def text_json_def retrieval_view_def Some)
qed

lemma policy_writes:
  "writes sc [] (case Policy spec of
          None \<Rightarrow> []
        | Some pl \<Rightarrow> [proj_str ''policy.bundleDigest'' (policy_BundleDigest pl)])
     (policy_entries spec)"
proof (cases "Policy spec")
  case None
  then show ?thesis by (auto simp: policy_entries_def intro!: writes_nothing)
next
  case (Some r)
  show ?thesis unfolding Some option.case policy_entries_def
    by (intro writes_rules) (auto simp: in_scope_def)
qed

text \<open>The projection never meets an unclassified field, and what it writes are these entries.\<close>

lemma Project_eq: "Project spec sc = Inr (put (manifest_entries spec sc))"
proof -
  note ws = writes_append [OF identity_writes [where spec = spec] writes_append [OF model_writes
    writes_append [OF input_writes [where spec = spec] writes_append [OF retrieval_writes [where spec = spec]
      writes_append [OF policy_writes [where spec = spec] gate_writes [where spec = spec]]]]]]
  show ?thesis
    using writes_put [OF ws [of sc "Model spec"]] by (simp add: Project_def manifest_entries_def)
qed

section \<open>Equal hash inputs\<close>

lemma text_json_inject [simp]: "text_json s = text_json t \<longleftrightarrow> s = t"
  by (simp add: text_json_def)

lemma list_json_inject [simp]: "list_json xs = list_json ys \<longleftrightarrow> xs = ys"
  by (simp add: list_json_def)

lemma map_json_inject [simp]:
  "map_option JFloat x = map_option JFloat y \<longleftrightarrow> x = y"
  "map_option JInt i = map_option JInt j \<longleftrightarrow> i = j"
  by (cases x; cases y; simp) (cases i; cases j; simp)

lemma map_eq_map_iff:
  "(\<And>x y. f x = f y \<longleftrightarrow> g x = g y) \<Longrightarrow> map f xs = map f ys \<longleftrightarrow> map g xs = map g ys"
proof (induction xs arbitrary: ys)
  case (Cons x xs)
  then show ?case by (cases ys) auto
qed simp

lemma apart_paths:
  "all_apart (map fst (prompt_entries sc p)) \<and> [] \<notin> set (map fst (prompt_entries sc p))"
  "all_apart (map fst (tool_entries t)) \<and> [] \<notin> set (map fst (tool_entries t))"
  "all_apart (map fst (judge_entries sc j)) \<and> [] \<notin> set (map fst (judge_entries sc j))"
  "all_apart (map fst (manifest_entries spec sc)) \<and> [] \<notin> set (map fst (manifest_entries spec sc))"
  by (simp_all add: prompt_entries_def tool_entries_def judge_entries_def calibration_entries_def
      manifest_entries_def identity_entries_def model_entries_def input_entries_def
      retrieval_entries_def policy_entries_def gate_entries_def)

lemma put_prompt_eq:
  "put (prompt_entries sc p) = put (prompt_entries sc q) \<longleftrightarrow>
     prompt_Name p = prompt_Name q \<and> prompt_Digest p = prompt_Digest q \<and>
     (sc = ScopeBehavior \<or> prompt_Source p = prompt_Source q)"
  using apart_paths(1) [of sc p] by (subst put_eq_iff) (auto simp: prompt_entries_def)

lemma put_tool_eq: "put (tool_entries t) = put (tool_entries u) \<longleftrightarrow> t = (u :: ToolRef)"
  using apart_paths(2) [of t] by (subst put_eq_iff) (auto simp: tool_entries_def)

lemma put_judge_eq:
  "put (judge_entries sc j) = put (judge_entries sc k) \<longleftrightarrow>
     judge_Name j = judge_Name k \<and> judge_Model j = judge_Model k \<and>
     judge_RubricDigest j = judge_RubricDigest k \<and>
     (sc = ScopeBehavior \<or> calibration_view j = calibration_view k)"
  using apart_paths(3) [of sc j]
  by (subst put_eq_iff) (auto simp: judge_entries_def calibration_entries_def prod_eq_iff)

lemma model_entries_eq: "model_entries m = model_entries n \<longleftrightarrow> m = (n :: ModelSpec)"
  by (auto simp: model_entries_def inj_map_eq_map inj_def intro!: ModelSpec.equality ModelParams.equality)

lemma policy_entries_eq: "policy_entries a = policy_entries b \<longleftrightarrow> Policy a = Policy b"
  by (cases "Policy a"; cases "Policy b") (auto simp: policy_entries_def)

text \<open>What two manifests share when a digest cannot tell them apart.\<close>

definition same_behaviour :: "AgentManifestSpec \<Rightarrow> AgentManifestSpec \<Rightarrow> bool" where
  "same_behaviour a b \<longleftrightarrow>
     Agent a = Agent b \<and>
     imageContentID (code_Image (Code a)) = imageContentID (code_Image (Code b)) \<and>
     Model a = Model b \<and>
     map (\<lambda>p. (prompt_Name p, prompt_Digest p)) (sortedByName prompt_Name (Prompts a)) =
       map (\<lambda>p. (prompt_Name p, prompt_Digest p)) (sortedByName prompt_Name (Prompts b)) \<and>
     sortedByName tool_Name (Tools a) = sortedByName tool_Name (Tools b) \<and>
     retrieval_view a = retrieval_view b \<and>
     Policy a = Policy b \<and>
     map (\<lambda>j. (judge_Name j, judge_Model j, judge_RubricDigest j)) (sortedByName judge_Name (Judges a)) =
       map (\<lambda>j. (judge_Name j, judge_Model j, judge_RubricDigest j)) (sortedByName judge_Name (Judges b))"

definition same_content :: "AgentManifestSpec \<Rightarrow> AgentManifestSpec \<Rightarrow> bool" where
  "same_content a b \<longleftrightarrow>
     Agent a = Agent b \<and> Code a = Code b \<and> Model a = Model b \<and>
     sortedByName prompt_Name (Prompts a) = sortedByName prompt_Name (Prompts b) \<and>
     sortedByName tool_Name (Tools a) = sortedByName tool_Name (Tools b) \<and>
     retrieval_view a = retrieval_view b \<and>
     Policy a = Policy b \<and>
     map (\<lambda>j. (judge_Name j, judge_Model j, judge_RubricDigest j, calibration_view j))
         (sortedByName judge_Name (Judges a)) =
       map (\<lambda>j. (judge_Name j, judge_Model j, judge_RubricDigest j, calibration_view j))
         (sortedByName judge_Name (Judges b))"

lemma put_manifest_eq:
  "put (manifest_entries a sc) = put (manifest_entries b sc) \<longleftrightarrow>
     manifest_entries a sc = manifest_entries b sc"
  using apart_paths(4) [of a sc]
  by (intro put_eq_iff)
    (auto simp: manifest_entries_def identity_entries_def model_entries_def input_entries_def
      retrieval_entries_def policy_entries_def gate_entries_def)

lemma entries_lengths:
  "length (identity_entries a sc) = 2" "length (model_entries m) = 8"
  "length (input_entries a sc) = 2" "length (retrieval_entries a) = 2"
  "length (policy_entries a) = 1" "length (gate_entries a sc) = 1"
  by (simp_all add: identity_entries_def model_entries_def input_entries_def
      retrieval_entries_def policy_entries_def gate_entries_def)

lemma retrieval_entries_eq: "retrieval_entries a = retrieval_entries b \<longleftrightarrow> retrieval_view a = retrieval_view b"
  by (simp add: retrieval_entries_def prod_eq_iff)

lemma manifest_entries_eq:
  "manifest_entries a sc = manifest_entries b sc \<longleftrightarrow>
     identity_entries a sc = identity_entries b sc \<and> Model a = Model b \<and>
     input_entries a sc = input_entries b sc \<and> retrieval_view a = retrieval_view b \<and>
     Policy a = Policy b \<and> gate_entries a sc = gate_entries b sc"
  by (simp add: manifest_entries_def entries_lengths model_entries_eq retrieval_entries_eq policy_entries_eq)

lemma Project_behavior_eq: "Project a ScopeBehavior = Project b ScopeBehavior \<longleftrightarrow> same_behaviour a b"
proof -
  have "map (\<lambda>p. JObj (put (prompt_entries ScopeBehavior p))) xs =
        map (\<lambda>p. JObj (put (prompt_entries ScopeBehavior p))) ys \<longleftrightarrow>
        map (\<lambda>p. (prompt_Name p, prompt_Digest p)) xs = map (\<lambda>p. (prompt_Name p, prompt_Digest p)) ys"
    for xs ys :: "PromptRef list"
    by (rule map_eq_map_iff) (simp add: put_prompt_eq)
  moreover have "map (\<lambda>t. JObj (put (tool_entries t))) xs = map (\<lambda>t. JObj (put (tool_entries t))) ys \<longleftrightarrow> xs = ys"
    for xs ys :: "ToolRef list"
    using map_eq_map_iff [of "\<lambda>t :: ToolRef. JObj (put (tool_entries t))" "\<lambda>t. t"] by (simp add: put_tool_eq)
  moreover have "map (\<lambda>j. JObj (put (judge_entries ScopeBehavior j))) xs =
        map (\<lambda>j. JObj (put (judge_entries ScopeBehavior j))) ys \<longleftrightarrow>
        map (\<lambda>j. (judge_Name j, judge_Model j, judge_RubricDigest j)) xs =
        map (\<lambda>j. (judge_Name j, judge_Model j, judge_RubricDigest j)) ys" for xs ys :: "JudgeSpec list"
    by (rule map_eq_map_iff) (simp add: put_judge_eq)
  ultimately show ?thesis
    unfolding Project_eq sum.inject put_manifest_eq manifest_entries_eq same_behaviour_def
    by (auto simp: identity_entries_def input_entries_def gate_entries_def)
qed

lemma put_prompt_content_eq:
  "put (prompt_entries ScopeContent p) = put (prompt_entries ScopeContent q) \<longleftrightarrow> p = (q :: PromptRef)"
  by (auto simp: put_prompt_eq intro!: PromptRef.equality)

lemma Project_content_eq: "Project a ScopeContent = Project b ScopeContent \<longleftrightarrow> same_content a b"
proof -
  have p: "map (\<lambda>p. JObj (put (prompt_entries ScopeContent p))) xs =
        map (\<lambda>p. JObj (put (prompt_entries ScopeContent p))) ys \<longleftrightarrow> xs = ys"
    for xs ys :: "PromptRef list"
    by (rule inj_map_eq_map) (simp add: inj_def put_prompt_content_eq)
  have t: "map (\<lambda>t. JObj (put (tool_entries t))) xs = map (\<lambda>t. JObj (put (tool_entries t))) ys \<longleftrightarrow> xs = ys"
    for xs ys :: "ToolRef list"
    by (rule inj_map_eq_map) (simp add: inj_def put_tool_eq)
  have j: "map (\<lambda>j. JObj (put (judge_entries ScopeContent j))) xs =
        map (\<lambda>j. JObj (put (judge_entries ScopeContent j))) ys \<longleftrightarrow>
        map (\<lambda>j. (judge_Name j, judge_Model j, judge_RubricDigest j, calibration_view j)) xs =
        map (\<lambda>j. (judge_Name j, judge_Model j, judge_RubricDigest j, calibration_view j)) ys"
    for xs ys :: "JudgeSpec list"
    by (rule map_eq_map_iff) (simp add: put_judge_eq)
  have c: "code_Image (Code a) = code_Image (Code b) \<longleftrightarrow> Code a = Code b"
    by (auto intro: CodeSpec.equality)
  have "identity_entries a ScopeContent = identity_entries b ScopeContent \<longleftrightarrow> Agent a = Agent b \<and> Code a = Code b"
    by (simp add: identity_entries_def c)
  moreover have "input_entries a ScopeContent = input_entries b ScopeContent \<longleftrightarrow>
      sortedByName prompt_Name (Prompts a) = sortedByName prompt_Name (Prompts b) \<and>
      sortedByName tool_Name (Tools a) = sortedByName tool_Name (Tools b)"
    by (simp add: input_entries_def p t)
  moreover have "gate_entries a ScopeContent = gate_entries b ScopeContent \<longleftrightarrow>
      map (\<lambda>j. (judge_Name j, judge_Model j, judge_RubricDigest j, calibration_view j))
         (sortedByName judge_Name (Judges a)) =
       map (\<lambda>j. (judge_Name j, judge_Model j, judge_RubricDigest j, calibration_view j))
         (sortedByName judge_Name (Judges b))"
    unfolding gate_entries_def by (simp only: j list_json_inject list.inject prod.inject simp_thms)
  ultimately show ?thesis
    unfolding Project_eq sum.inject put_manifest_eq manifest_entries_eq same_content_def by blast
qed

lemma same_content_behaviour:
  assumes "same_content a b" shows "same_behaviour a b"
proof -
  let ?view = "\<lambda>j. (judge_Name j, judge_Model j, judge_RubricDigest j, calibration_view j)"
  have "map ?view (sortedByName judge_Name (Judges a)) = map ?view (sortedByName judge_Name (Judges b))"
    using assms unfolding same_content_def by blast
  then have "map (\<lambda>(n, m, r, _). (n, m, r)) (map ?view (sortedByName judge_Name (Judges a))) =
      map (\<lambda>(n, m, r, _). (n, m, r)) (map ?view (sortedByName judge_Name (Judges b)))"
    by (rule arg_cong)
  then show ?thesis using assms by (simp add: same_content_def same_behaviour_def comp_def)
qed

section \<open>The digests computed from them\<close>

lemma Compute_cong:
  assumes "Project a sc = Project b sc" and "checkFinite a = Inr ()" and "checkFinite b = Inr ()"
  shows "Compute H a sc = Compute H b sc"
  using assms by (simp add: Compute_def CanonicalJSON_def)

lemma Both_Inr: "Both H a = Inr (x, y) \<longleftrightarrow> Compute H a ScopeBehavior = Inr x \<and> Compute H a ScopeContent = Inr y"
  by (auto simp: Both_def bindR_Inr_iff)

lemma Compute_Inr_finite: "Compute H a sc = Inr d \<Longrightarrow> checkFinite a = Inr ()"
  by (auto simp: Compute_def CanonicalJSON_def bindR_Inr_iff)

lemma same_behaviour_reorder:
  assumes "distinct (map prompt_Name (Prompts a))" "distinct (map prompt_Name ps)" "set ps = set (Prompts a)"
    and "distinct (map tool_Name (Tools a))" "distinct (map tool_Name ts)" "set ts = set (Tools a)"
    and "distinct (map judge_Name (Judges a))" "distinct (map judge_Name js)" "set js = set (Judges a)"
  shows "same_content a (a\<lparr>Prompts := ps, Tools := ts, Judges := js\<rparr>)"
  using sort_key_perm_eq [OF assms(1,2)] sort_key_perm_eq [OF assms(4,5)]
    sort_key_perm_eq [OF assms(7,8)] assms(3,6,9)
  by (simp add: same_content_def sortedByName_def retrieval_view_def)

lemma length_Short: "length (Short d n) \<le> n"
  by (simp add: Short_def Let_def)

lemma check_finite_Inr: "check_finite path v = Inr () \<longleftrightarrow> (\<forall>x. v = Some x \<longrightarrow> finite64 x)"
  by (cases v; cases "the v") (auto simp: check_finite_def is_NaN_def feq_def finite64_def)

lemma check_judges_Inr:
  "check_judges i js = Inr () \<longleftrightarrow>
     (\<forall>j \<in> set js. \<forall>c. judge_Calibration j = Some c \<longrightarrow> (\<forall>x. cal_Kappa c = Some x \<longrightarrow> finite64 x))"
  by (induction js arbitrary: i) (auto simp: bindR_Inr_iff check_finite_Inr split: option.splits)

lemma checkFinite_Inr:
  "checkFinite a = Inr () \<longleftrightarrow>
     (\<forall>x. mp_Temperature (model_Params (Model a)) = Some x \<longrightarrow> finite64 x) \<and>
     (\<forall>x. mp_TopP (model_Params (Model a)) = Some x \<longrightarrow> finite64 x) \<and>
     (\<forall>j \<in> set (Judges a). \<forall>c. judge_Calibration j = Some c \<longrightarrow>
        (\<forall>x. cal_Kappa c = Some x \<longrightarrow> finite64 x))"
  by (auto simp: checkFinite_def bindR_Inr_iff check_finite_Inr check_judges_Inr)

section \<open>Properties\<close>

text \<open>
  C16. The hash inputs are the identity.  The projection of any manifest exists in both scopes: no
  field it reads is missing from the classification.  Two manifests have the same behaviour
  projection exactly when they agree on everything that determines behaviour, whatever the order of
  their lists, the sources of their prompts, the calibrations of their judges and the registries of
  their images; and the same content projection exactly when nothing but the order of their lists
  (and whether an empty retrieval or calibration is spelled out) differs.
\<close>

theorem projections_determine_identity:
  "(\<exists>m. Project a sc = Inr m) \<and>
   (Project a ScopeBehavior = Project b ScopeBehavior \<longleftrightarrow> same_behaviour a b) \<and>
   (Project a ScopeContent = Project b ScopeContent \<longleftrightarrow> same_content a b)"
  using Project_behavior_eq Project_content_eq by (simp add: Project_eq)

text \<open>
  Order does not matter.  Whatever the encoder and the canonicaliser, reordering the
  prompts, tools and judges of a manifest whose names are distinct leaves both digests unchanged.
\<close>

theorem digests_ignore_list_order:
  assumes "Both H a = Inr (behavior, content)"
    and "distinct (map prompt_Name (Prompts a))" "distinct (map prompt_Name ps)" "set ps = set (Prompts a)"
    and "distinct (map tool_Name (Tools a))" "distinct (map tool_Name ts)" "set ts = set (Tools a)"
    and "distinct (map judge_Name (Judges a))" "distinct (map judge_Name js)" "set js = set (Judges a)"
  shows "Both H (a\<lparr>Prompts := ps, Tools := ts, Judges := js\<rparr>) = Inr (behavior, content)"
proof -
  let ?b = "a\<lparr>Prompts := ps, Tools := ts, Judges := js\<rparr>"
  have content: "same_content a ?b" by (rule same_behaviour_reorder [OF assms(2-)])
  have "checkFinite a = Inr ()" using assms(1) Compute_Inr_finite by (auto simp: Both_Inr)
  moreover from this have "checkFinite ?b = Inr ()" using assms(10) by (simp add: checkFinite_Inr)
  ultimately have "Compute H a sc = Compute H ?b sc" for sc
    using content same_content_behaviour [OF content]
    by (cases sc) (auto intro!: Compute_cong simp: Project_content_eq Project_behavior_eq)
  then show ?thesis using assms(1) by (simp add: Both_Inr)
qed

definition ex_hasher :: hasher where
  "ex_hasher = \<lparr> hs_Marshal = (\<lambda>m. Inr (concat (keys m))), hs_Transform = Inr \<rparr>"

definition ex_agent :: AgentManifestSpec where
  "ex_agent = \<lparr> Agent = ''a'', BehaviorDigest = [], ContentDigest = [],
     Code = \<lparr> code_Image = ''reg/a@sha256:00'' \<rparr>,
     Model = \<lparr> model_Provider = ''p'', model_ID = ''m'', model_Pin = [],
       model_Params = \<lparr> mp_Temperature = Some (Fin 0), mp_TopP = None, mp_TopK = None,
         mp_MaxTokens = None, mp_StopSequences = [] \<rparr> \<rparr>,
     Prompts = [\<lparr> prompt_Name = ''x'', prompt_Source = ''git'', prompt_Digest = ''d1'' \<rparr>,
                \<lparr> prompt_Name = ''y'', prompt_Source = [], prompt_Digest = ''d2'' \<rparr>],
     Tools = [], Retrieval = None, Policy = None, Judges = [] \<rparr>"

lemma ex_agent_lists:
  "distinct (map prompt_Name (Prompts ex_agent))" "Tools ex_agent = []" "Judges ex_agent = []"
  by (simp_all add: ex_agent_def)

lemma Both_exists:
  assumes "checkFinite a = Inr ()" and "\<And>m. \<exists>s. hs_Marshal H m = Inr s" and "\<And>s. \<exists>t. hs_Transform H s = Inr t"
  shows "\<exists>behavior content. Both H a = Inr (behavior, content)"
proof -
  have "\<exists>d. Compute H a sc = Inr d" for sc
  proof -
    obtain s where s: "hs_Marshal H (put (manifest_entries a sc)) = Inr s" using assms(2) by blast
    obtain t where "hs_Transform H s = Inr t" using assms(3) by blast
    with s assms(1) show ?thesis by (simp add: Compute_def CanonicalJSON_def Project_eq)
  qed
  then show ?thesis unfolding Both_Inr by blast
qed

theorem digests_ignore_list_order_witness:
  "Both ex_hasher (ex_agent\<lparr>Prompts := rev (Prompts ex_agent), Tools := [], Judges := []\<rparr>) =
   Both ex_hasher ex_agent"
proof -
  have "checkFinite ex_agent = Inr ()" by (simp add: checkFinite_Inr ex_agent_def finite64_def)
  then obtain b c where "Both ex_hasher ex_agent = Inr (b, c)"
    using Both_exists [of ex_agent ex_hasher] by (auto simp: ex_hasher_def)
  with digests_ignore_list_order [OF this, of "rev (Prompts ex_agent)" "[]" "[]"] show ?thesis
    by (simp add: ex_agent_lists rev_map [symmetric])
qed

end
