(* ===== verification/Diff.thy ===== *)
theory Diff
  imports Digest "HOL-Library.Sublist"
begin

text \<open>
  What changed between two manifests: \<open>internal/diff/model.go\<close>, the change and the verdict,
  \<open>linediff.go\<close>, the line counts of a prompt change, and \<open>compare.go\<close>, the comparison plane by
  plane.  The text of a float under \<open>%g\<close> is an argument (\<open>fmtG\<close>), since two parameters are
  compared by it.
\<close>

section \<open>Planes\<close>

datatype Plane =
    PlaneCode | PlaneModel | PlanePrompts | PlaneTools | PlaneRetrieval | PlanePolicy | PlaneJudges

text \<open>The planes compare as the integers they are in the code.\<close>

fun plane_index :: "Plane \<Rightarrow> nat" where
  "plane_index PlaneCode = 0"
| "plane_index PlaneModel = 1"
| "plane_index PlanePrompts = 2"
| "plane_index PlaneTools = 3"
| "plane_index PlaneRetrieval = 4"
| "plane_index PlanePolicy = 5"
| "plane_index PlaneJudges = 6"

lemma plane_index_inject [simp]: "plane_index p = plane_index q \<longleftrightarrow> p = q"
  by (cases p; cases q) simp_all

instantiation Plane :: linorder
begin

definition less_eq_Plane :: "Plane \<Rightarrow> Plane \<Rightarrow> bool" where
  "less_eq_Plane p q \<longleftrightarrow> plane_index p \<le> plane_index q"

definition less_Plane :: "Plane \<Rightarrow> Plane \<Rightarrow> bool" where
  "less_Plane p q \<longleftrightarrow> plane_index p < plane_index q"

instance
  by standard (auto simp: less_eq_Plane_def less_Plane_def not_le)

end

definition AllPlanes :: "Plane list" where
  "AllPlanes = [PlaneCode, PlaneModel, PlanePrompts, PlaneTools, PlaneRetrieval, PlanePolicy, PlaneJudges]"

fun Plane_String :: "Plane \<Rightarrow> string" where
  "Plane_String PlaneCode = ''code''"
| "Plane_String PlaneModel = ''model''"
| "Plane_String PlanePrompts = ''prompts''"
| "Plane_String PlaneTools = ''tools''"
| "Plane_String PlaneRetrieval = ''retrieval''"
| "Plane_String PlanePolicy = ''policy''"
| "Plane_String PlaneJudges = ''judges''"

definition quote :: char where "quote = CHR 0x22"

definition Plane_MarshalJSON :: "Plane \<Rightarrow> string" where
  "Plane_MarshalJSON p = [quote] @ Plane_String p @ [quote]"

definition Plane_UnmarshalJSON :: "string \<Rightarrow> Plane result" where
  "Plane_UnmarshalJSON b =
     (let name = Trim b [quote] in
      case find (\<lambda>candidate. Plane_String candidate = name) AllPlanes of
        Some candidate \<Rightarrow> Inr candidate
      | None \<Rightarrow> Inl (Sprintf ''unknown plane %q'' [AStr name]))"

section \<open>Changes and verdicts\<close>

datatype Op = OpChanged | OpAdded | OpRemoved

datatype Tag = TagModel | TagInput | TagExec | TagGate | TagSecurity

fun Tag_Explain :: "Tag \<Rightarrow> string" where
  "Tag_Explain TagModel = ''affects model output''"
| "Tag_Explain TagInput = ''affects model input''"
| "Tag_Explain TagExec = ''affects execution''"
| "Tag_Explain TagGate = ''affects how the GATE scores''"
| "Tag_Explain TagSecurity = ''security-relevant''"

record Change =
  ch_Plane :: Plane
  ch_Element :: string
  ch_Field :: string
  ch_Op :: Op
  ch_From :: string
  ch_To :: string
  ch_Tags :: "Tag list"
  ch_Detail :: "msg list"
  ch_Severity :: bool

text \<open>The zero value with a plane, an element and an operation.\<close>

definition new_Change :: "Plane \<Rightarrow> string \<Rightarrow> Op \<Rightarrow> Change" where
  "new_Change p e oper =
     \<lparr> ch_Plane = p, ch_Element = e, ch_Field = [], ch_Op = oper, ch_From = [], ch_To = [],
       ch_Tags = [], ch_Detail = [], ch_Severity = False \<rparr>"

fun has :: "Tag list \<Rightarrow> Tag \<Rightarrow> bool" where
  "has [] t = False"
| "has (x # xs) t = (if x = t then True else has xs t)"

datatype DiffVerdict = VerdictIdentical | VerdictProvenanceOnly | VerdictBehavioural | VerdictCrossAgent

record Digests =
  dg_A :: string
  dg_B :: string

record DiffResult =
  df_SchemaVersion :: string
  df_AgentA :: string
  df_AgentB :: string
  df_NameA :: string
  df_NameB :: string
  df_BehaviorDigest :: Digests
  df_ContentDigest :: Digests
  df_Verdict :: DiffVerdict
  df_Changes :: "Change list"

definition ChangedPlanes :: "DiffResult \<Rightarrow> Plane list" where
  "ChangedPlanes r = filter (\<lambda>p. p \<in> ch_Plane ` set (df_Changes r)) AllPlanes"

definition UnchangedPlanes :: "DiffResult \<Rightarrow> Plane list" where
  "UnchangedPlanes r = filter (\<lambda>p. p \<notin> ch_Plane ` set (df_Changes r)) AllPlanes"

definition ReachModel :: "DiffResult \<Rightarrow> nat" where
  "ReachModel r =
     length (filter (\<lambda>c. has (ch_Tags c) TagInput \<or> has (ch_Tags c) TagModel) (df_Changes r))"

definition ChangeGate :: "DiffResult \<Rightarrow> nat" where
  "ChangeGate r = length (filter (\<lambda>c. has (ch_Tags c) TagGate) (df_Changes r))"

definition ExitUsage :: int where "ExitUsage = 64"

fun ExitCode :: "DiffVerdict \<Rightarrow> int" where
  "ExitCode VerdictIdentical = 0"
| "ExitCode VerdictProvenanceOnly = 1"
| "ExitCode VerdictBehavioural = 2"
| "ExitCode VerdictCrossAgent = ExitUsage"

text \<open>\<open>sort.SliceStable\<close> with the comparison of \<open>sortChanges\<close>: by plane, then by element.\<close>

fun change_le :: "Plane \<times> string \<Rightarrow> Plane \<times> string \<Rightarrow> bool" where
  "change_le (p, e) (q, f) = (if p \<noteq> q then p < q else e \<le> f)"

definition change_key :: "Change \<Rightarrow> Plane \<times> string" where
  "change_key c = (ch_Plane c, ch_Element c)"

fun insert_change :: "Change \<Rightarrow> Change list \<Rightarrow> Change list" where
  "insert_change c [] = [c]"
| "insert_change c (d # ds) =
     (if change_le (change_key c) (change_key d) then c # d # ds else d # insert_change c ds)"

definition sortChanges :: "Change list \<Rightarrow> Change list" where
  "sortChanges cs = foldr insert_change cs []"

section \<open>Display\<close>

definition abbrev :: "string \<Rightarrow> string" where
  "abbrev s =
     (if HasPrefix s ''sha256:'' \<and> length s > 7 + 8 then take 4 (drop 7 s) @ ellipsis else s)"

definition abbrevImage :: "string \<Rightarrow> string" where
  "abbrevImage ref =
     (case cut_at CHR ''@'' ref of
        Some (repo, i) \<Rightarrow> repo @ ''@'' @ abbrev i
      | None \<Rightarrow> ref)"

definition fmtFloat :: "(f64 \<Rightarrow> string) \<Rightarrow> f64 option \<Rightarrow> string" where
  "fmtFloat fmtG v =
     (case v of
        None \<Rightarrow> ''(unset)''
      | Some x \<Rightarrow> TrimSuffix (TrimRight (fmtG x) ''0'') ''.'')"

definition fmtInt :: "int option \<Rightarrow> string" where
  "fmtInt v = (case v of None \<Rightarrow> ''(unset)'' | Some i \<Rightarrow> int_string i)"

definition orNone :: "string \<Rightarrow> string" where
  "orNone s = (if s = [] then ''(none)'' else s)"

text \<open>\<open>fmt.Sprint\<close> of a list of strings.\<close>

definition Sprint_strings :: "string list \<Rightarrow> string" where
  "Sprint_strings ss = ''['' @ strings_Join '' '' ss @ '']''"

text \<open>The punctuation of the details, as its UTF-8 bytes.\<close>

definition utf8 :: "nat list \<Rightarrow> string" where
  "utf8 bs = map char_of bs"

definition dash :: string where "dash = utf8 [226, 128, 148]"
definition minus_sign :: string where "minus_sign = utf8 [226, 136, 146]"
definition middle_dot :: string where "middle_dot = utf8 [194, 183]"
definition kappa :: string where "kappa = utf8 [206, 186]"

section \<open>Line counts\<close>

text \<open>
  \<open>lineDiffCounts\<close> fills the table of common subsequences from its last cell: \<open>lcs_row\<close> one row
  from the row below it, \<open>lcs_table\<close> the first row.
\<close>

fun lcs_row :: "string \<Rightarrow> string list \<Rightarrow> nat list \<Rightarrow> nat list" where
  "lcs_row x [] below = [0]"
| "lcs_row x (y # ys) below =
     (let row = lcs_row x ys (tl below) in
      (if x = y then below ! 1 + 1
       else if hd below \<ge> hd row then hd below
       else hd row) # row)"

fun lcs_table :: "string list \<Rightarrow> string list \<Rightarrow> nat list" where
  "lcs_table [] ys = replicate (length ys + 1) 0"
| "lcs_table (x # xs) ys = lcs_row x ys (lcs_table xs ys)"

fun ReplaceCRLF :: "string \<Rightarrow> string" where
  "ReplaceCRLF (c # d # s) =
     (if c = char_of (13::nat) \<and> d = char_of (10::nat) then d # ReplaceCRLF s
      else c # ReplaceCRLF (d # s))"
| "ReplaceCRLF s = s"

definition newline :: char where "newline = CHR 0x0A"

definition splitLines :: "string \<Rightarrow> string list" where
  "splitLines s =
     (let s = TrimSuffix (ReplaceCRLF s) [newline] in
      if s = [] then [] else strings_Split newline s)"

definition lineDiffCounts :: "string \<Rightarrow> string \<Rightarrow> int \<times> int" where
  "lineDiffCounts a b =
     (let la = splitLines a; lb = splitLines b; common = int (hd (lcs_table la lb))
      in (int (length lb) - common, int (length la) - common))"

section \<open>The comparison\<close>

type_synonym BodyLookup = "(PromptRef \<Rightarrow> string option) option"

record Options =
  op_NameA :: string
  op_NameB :: string
  op_Bodies :: BodyLookup
  op_AllowCrossAgent :: bool

definition severe :: "Tag list \<Rightarrow> bool" where
  "severe tags = (has tags TagSecurity \<or> has tags TagGate)"

definition scalar :: "Plane \<Rightarrow> string \<Rightarrow> string \<Rightarrow> string \<Rightarrow> Tag list \<Rightarrow> Change list" where
  "scalar plane fld old new tags =
     (if old = new then []
      else [(new_Change plane [] OpChanged)
              \<lparr> ch_Field := fld, ch_From := orNone old, ch_To := orNone new, ch_Tags := tags,
                ch_Severity := severe tags \<rparr>])"

definition add_detail :: "msg \<Rightarrow> Change \<Rightarrow> Change" where
  "add_detail d c = c\<lparr>ch_Detail := ch_Detail c @ [d]\<rparr>"

definition imageID :: "string \<Rightarrow> string" where
  "imageID ref = (case cut_at CHR ''@'' ref of Some (_, i) \<Rightarrow> i | None \<Rightarrow> ref)"

definition compareCode :: "AgentManifestSpec \<Rightarrow> AgentManifestSpec \<Rightarrow> Change list" where
  "compareCode a b =
     map (\<lambda>c. if imageID (code_Image (Code a)) = imageID (code_Image (Code b))
              then (add_detail (Text (''same bytes, different registry '' @ dash @ '' provenance only'')) c)
                     \<lparr>ch_Tags := []\<rparr>
              else c)
       (scalar PlaneCode ''image'' (abbrevImage (code_Image (Code a))) (abbrevImage (code_Image (Code b)))
          [TagExec])"

definition compareModel :: "(f64 \<Rightarrow> string) \<Rightarrow> AgentManifestSpec \<Rightarrow> AgentManifestSpec \<Rightarrow> Change list" where
  "compareModel fmtG a b =
     (let ma = Model a; mb = Model b; pa = model_Params ma; pb = model_Params mb in
      scalar PlaneModel ''provider'' (model_Provider ma) (model_Provider mb) [TagModel] @
      scalar PlaneModel ''id'' (model_ID ma) (model_ID mb) [TagModel] @
      scalar PlaneModel ''pin'' (model_Pin ma) (model_Pin mb) [TagModel] @
      scalar PlaneModel ''temperature'' (fmtFloat fmtG (mp_Temperature pa))
        (fmtFloat fmtG (mp_Temperature pb)) [TagModel] @
      scalar PlaneModel ''topP'' (fmtFloat fmtG (mp_TopP pa)) (fmtFloat fmtG (mp_TopP pb)) [TagModel] @
      scalar PlaneModel ''topK'' (fmtInt (mp_TopK pa)) (fmtInt (mp_TopK pb)) [TagModel] @
      scalar PlaneModel ''maxTokens'' (fmtInt (mp_MaxTokens pa)) (fmtInt (mp_MaxTokens pb)) [TagModel] @
      scalar PlaneModel ''stopSequences'' (Sprint_strings (mp_StopSequences pa))
        (Sprint_strings (mp_StopSequences pb)) [TagModel])"

definition names_union :: "(string \<times> 'a) list \<Rightarrow> (string \<times> 'a) list \<Rightarrow> string list" where
  "names_union a b = sort (nub (keys a @ keys b))"

definition lineDelta :: "PromptRef \<Rightarrow> PromptRef \<Rightarrow> BodyLookup \<Rightarrow> msg option" where
  "lineDelta a b bodies =
     (case bodies of
        None \<Rightarrow> None
      | Some body \<Rightarrow>
          (case (body a, body b) of
             (Some ta, Some tb) \<Rightarrow>
               (case lineDiffCounts ta tb of (added, removed) \<Rightarrow>
                  Some (Sprintf (''(+%d '' @ minus_sign @ ''%d)'') [AInt added, AInt removed]))
           | _ \<Rightarrow> None))"

definition prompt_changes :: "BodyLookup \<Rightarrow> string \<Rightarrow> PromptRef option \<Rightarrow> PromptRef option \<Rightarrow> Change list" where
  "prompt_changes bodies name a b =
     (case (a, b) of
        (None, Some pb) \<Rightarrow>
          [(new_Change PlanePrompts name OpAdded)\<lparr>ch_To := abbrev (prompt_Digest pb), ch_Tags := [TagInput]\<rparr>]
      | (Some pa, None) \<Rightarrow>
          [(new_Change PlanePrompts name OpRemoved)\<lparr>ch_From := abbrev (prompt_Digest pa), ch_Tags := [TagInput]\<rparr>]
      | (Some pa, Some pb) \<Rightarrow>
          (if prompt_Digest pa \<noteq> prompt_Digest pb
           then let c = (new_Change PlanePrompts name OpChanged)
                          \<lparr>ch_From := abbrev (prompt_Digest pa), ch_To := abbrev (prompt_Digest pb),
                           ch_Tags := [TagInput]\<rparr>
                in [case lineDelta pa pb bodies of Some d \<Rightarrow> add_detail d c | None \<Rightarrow> c]
           else []) @
          (if prompt_Source pa \<noteq> prompt_Source pb
           then [(new_Change PlanePrompts name OpChanged)
                   \<lparr>ch_Field := ''source'', ch_From := orNone (prompt_Source pa),
                    ch_To := orNone (prompt_Source pb),
                    ch_Detail := [Text (''provenance only '' @ dash @ '' same prompt body'')]\<rparr>]
           else [])
      | (None, None) \<Rightarrow> [])"

definition comparePrompts :: "AgentManifestSpec \<Rightarrow> AgentManifestSpec \<Rightarrow> BodyLookup \<Rightarrow> Change list" where
  "comparePrompts a b bodies =
     (let am = index_by prompt_Name (Prompts a); bm = index_by prompt_Name (Prompts b)
      in concat (map (\<lambda>name. prompt_changes bodies name (map_of am name) (map_of bm name))
                     (names_union am bm)))"

definition effectRank :: "ToolEffect \<Rightarrow> int" where
  "effectRank e =
     lookup_or 0 [(EffectRead, 0), (EffectIdempotentWrite, 1), (EffectWrite, 2)] e"

definition tool_changes :: "string \<Rightarrow> ToolRef option \<Rightarrow> ToolRef option \<Rightarrow> Change list" where
  "tool_changes name a b =
     (case (a, b) of
        (None, Some tb) \<Rightarrow>
          (let c = (new_Change PlaneTools name OpAdded)
                     \<lparr>ch_Tags := [TagInput],
                      ch_Detail := [Sprintf ''effect=%s  replayPolicy=%s''
                        [AStr (orNone (tool_Effect tb)), AStr (orNone (tool_ReplayPolicy tb))]]\<rparr>;
               c = (if effectRank (tool_Effect tb) > 0
                    then add_detail (Text ''new tool can write'') c\<lparr>ch_Tags := [TagInput, TagSecurity]\<rparr>
                    else c)
           in [c\<lparr>ch_Severity := severe (ch_Tags c)\<rparr>])
      | (Some ta, None) \<Rightarrow>
          [(new_Change PlaneTools name OpRemoved)
             \<lparr>ch_Tags := [TagInput], ch_Detail := [Text ''the model can no longer call this'']\<rparr>]
      | (Some ta, Some tb) \<Rightarrow>
          (if tool_ContractDigest ta \<noteq> tool_ContractDigest tb
           then [(new_Change PlaneTools name OpChanged)
                   \<lparr>ch_Field := ''contract'', ch_From := abbrev (tool_ContractDigest ta),
                    ch_To := abbrev (tool_ContractDigest tb), ch_Tags := [TagInput, TagSecurity],
                    ch_Detail := [Sprintf (''description or schema changed '' @ middle_dot @ '' effect=%s'')
                                    [AStr (orNone (tool_Effect tb))]],
                    ch_Severity := True\<rparr>]
           else []) @
          (if tool_Effect ta \<noteq> tool_Effect tb
           then let c = (new_Change PlaneTools name OpChanged)
                          \<lparr>ch_Field := ''effect'', ch_From := orNone (tool_Effect ta),
                           ch_To := orNone (tool_Effect tb), ch_Tags := [TagExec]\<rparr>
                in [if effectRank (tool_Effect tb) > effectRank (tool_Effect ta)
                    then (add_detail (Text (''effect widened '' @ dash @ '' this tool may now do more'')) c)
                           \<lparr>ch_Tags := [TagExec, TagSecurity], ch_Severity := True\<rparr>
                    else c]
           else []) @
          (if tool_Server ta \<noteq> tool_Server tb
           then [(new_Change PlaneTools name OpChanged)
                   \<lparr>ch_Field := ''server'', ch_From := orNone (tool_Server ta),
                    ch_To := orNone (tool_Server tb), ch_Tags := [TagExec, TagSecurity],
                    ch_Detail := [Text (''same contract, different server '' @ dash @
                                        '' it may not return the same data'')],
                    ch_Severity := True\<rparr>]
           else []) @
          (if tool_ReplayPolicy ta \<noteq> tool_ReplayPolicy tb
           then [(new_Change PlaneTools name OpChanged)
                   \<lparr>ch_Field := ''replayPolicy'', ch_From := orNone (tool_ReplayPolicy ta),
                    ch_To := orNone (tool_ReplayPolicy tb), ch_Tags := [TagExec]\<rparr>]
           else [])
      | (None, None) \<Rightarrow> [])"

definition compareTools :: "AgentManifestSpec \<Rightarrow> AgentManifestSpec \<Rightarrow> Change list" where
  "compareTools a b =
     (let am = index_by tool_Name (Tools a); bm = index_by tool_Name (Tools b)
      in concat (map (\<lambda>name. tool_changes name (map_of am name) (map_of bm name)) (names_union am bm)))"

definition retrieval_or_zero :: "AgentManifestSpec \<Rightarrow> RetrievalSpec" where
  "retrieval_or_zero a =
     (case Retrieval a of
        Some r \<Rightarrow> r
      | None \<Rightarrow> \<lparr> retrieval_IndexSnapshot = [], retrieval_EmbeddingModel = [] \<rparr>)"

definition compareRetrieval :: "AgentManifestSpec \<Rightarrow> AgentManifestSpec \<Rightarrow> Change list" where
  "compareRetrieval a b =
     (let ra = retrieval_or_zero a; rb = retrieval_or_zero b in
      map (add_detail (Text ''a different snapshot is a different set of retrievable documents''))
        (scalar PlaneRetrieval ''indexSnapshot'' (retrieval_IndexSnapshot ra)
           (retrieval_IndexSnapshot rb) [TagInput]) @
      scalar PlaneRetrieval ''embeddingModel'' (retrieval_EmbeddingModel ra)
        (retrieval_EmbeddingModel rb) [TagInput])"

definition policy_digest :: "AgentManifestSpec \<Rightarrow> string" where
  "policy_digest a = (case Policy a of Some p \<Rightarrow> policy_BundleDigest p | None \<Rightarrow> [])"

definition comparePolicy :: "AgentManifestSpec \<Rightarrow> AgentManifestSpec \<Rightarrow> Change list" where
  "comparePolicy a b =
     map (add_detail (Text ''what the agent is permitted to do changed''))
       (scalar PlanePolicy ''bundleDigest'' (abbrev (policy_digest a)) (abbrev (policy_digest b))
          [TagExec, TagSecurity])"

definition measured_at :: "JudgeSpec \<Rightarrow> time option" where
  "measured_at j = Option.bind (judge_Calibration j) cal_MeasuredAt"

definition staleCalibration :: "(f64 \<Rightarrow> string) \<Rightarrow> JudgeSpec \<Rightarrow> JudgeSpec \<Rightarrow> msg option" where
  "staleCalibration fmtG a b =
     (case measured_at b of
        None \<Rightarrow> Some (Text (''judge changed and no calibration is recorded '' @ dash @ '' '' @ kappa @
                  '' against the gold set is unknown''))
      | Some tb \<Rightarrow>
          (case measured_at a of
             Some ta \<Rightarrow>
               if \<not> tb > ta
               then Some (Sprintf (kappa @ ''=%s measured %s, against the OLD judge '' @ dash @ '' stale'')
                      [AStr (fmtFloat fmtG (Option.bind (judge_Calibration b) cal_Kappa)),
                       AStr (format_date tb)])
               else None
           | None \<Rightarrow> None))"

definition calibrationChanged :: "(f64 \<Rightarrow> string) \<Rightarrow> JudgeSpec \<Rightarrow> JudgeSpec \<Rightarrow> Change list" where
  "calibrationChanged fmtG a b =
     (let ka = (case judge_Calibration a of Some c \<Rightarrow> fmtFloat fmtG (cal_Kappa c) | None \<Rightarrow> ''(none)'');
          kb = (case judge_Calibration b of Some c \<Rightarrow> fmtFloat fmtG (cal_Kappa c) | None \<Rightarrow> ''(none)'')
      in if ka = kb then []
         else [(new_Change PlaneJudges (judge_Name b) OpChanged)
                 \<lparr>ch_Field := kappa, ch_From := ka, ch_To := kb,
                  ch_Detail := [Text (''re-measured, judge unchanged '' @ dash @ '' provenance only'')]\<rparr>])"

definition judge_changes ::
    "(f64 \<Rightarrow> string) \<Rightarrow> string \<Rightarrow> JudgeSpec option \<Rightarrow> JudgeSpec option \<Rightarrow> Change list" where
  "judge_changes fmtG name a b =
     (case (a, b) of
        (None, Some jb) \<Rightarrow>
          [(new_Change PlaneJudges name OpAdded)
             \<lparr>ch_Tags := [TagGate], ch_Severity := True, ch_Detail := [Text ''a new metric now gates promotion'']\<rparr>]
      | (Some ja, None) \<Rightarrow>
          [(new_Change PlaneJudges name OpRemoved)
             \<lparr>ch_Tags := [TagGate], ch_Severity := True,
              ch_Detail := [Text ''this metric no longer gates promotion'']\<rparr>]
      | (Some ja, Some jb) \<Rightarrow>
          (let judgeMoved = (judge_Model ja \<noteq> judge_Model jb \<or> judge_RubricDigest ja \<noteq> judge_RubricDigest jb)
           in (if judge_Model ja \<noteq> judge_Model jb
               then [(new_Change PlaneJudges name OpChanged)
                       \<lparr>ch_Field := ''model'', ch_From := judge_Model ja, ch_To := judge_Model jb,
                        ch_Tags := [TagGate], ch_Severity := True\<rparr>]
               else []) @
              (if judge_RubricDigest ja \<noteq> judge_RubricDigest jb
               then [(new_Change PlaneJudges name OpChanged)
                       \<lparr>ch_Field := ''rubric'', ch_From := abbrev (judge_RubricDigest ja),
                        ch_To := abbrev (judge_RubricDigest jb), ch_Tags := [TagGate], ch_Severity := True\<rparr>]
               else []) @
              (if judgeMoved
               then (case staleCalibration fmtG ja jb of
                       Some d \<Rightarrow> [(new_Change PlaneJudges name OpChanged)
                                   \<lparr>ch_Field := ''calibration'', ch_Tags := [TagGate],
                                    ch_Severity := True, ch_Detail := [d]\<rparr>]
                     | None \<Rightarrow> [])
               else calibrationChanged fmtG ja jb))
      | (None, None) \<Rightarrow> [])"

definition compareJudges :: "(f64 \<Rightarrow> string) \<Rightarrow> AgentManifestSpec \<Rightarrow> AgentManifestSpec \<Rightarrow> Change list" where
  "compareJudges fmtG a b =
     (let am = index_by judge_Name (Judges a); bm = index_by judge_Name (Judges b)
      in concat (map (\<lambda>name. judge_changes fmtG name (map_of am name) (map_of bm name)) (names_union am bm)))"

definition all_changes ::
    "(f64 \<Rightarrow> string) \<Rightarrow> BodyLookup \<Rightarrow> AgentManifestSpec \<Rightarrow> AgentManifestSpec \<Rightarrow> Change list" where
  "all_changes fmtG bodies a b =
     compareCode a b @ compareModel fmtG a b @ comparePrompts a b bodies @ compareTools a b @
     compareRetrieval a b @ comparePolicy a b @ compareJudges fmtG a b"

definition Compare ::
    "hasher \<Rightarrow> (f64 \<Rightarrow> string) \<Rightarrow> AgentManifestSpec \<Rightarrow> AgentManifestSpec \<Rightarrow> Options \<Rightarrow> DiffResult result" where
  "Compare H fmtG a b opts =
     (case Both H a of
        Inl e \<Rightarrow> Inl (Sprintf ''digest left-hand manifest: %w'' [AErr e])
      | Inr (aB, aC) \<Rightarrow>
     (case Both H b of
        Inl e \<Rightarrow> Inl (Sprintf ''digest right-hand manifest: %w'' [AErr e])
      | Inr (bB, bC) \<Rightarrow>
          (let r = \<lparr> df_SchemaVersion = ''waveoff.ai/diff/v1alpha1'', df_AgentA = Agent a,
                     df_AgentB = Agent b, df_NameA = op_NameA opts, df_NameB = op_NameB opts,
                     df_BehaviorDigest = \<lparr> dg_A = aB, dg_B = bB \<rparr>,
                     df_ContentDigest = \<lparr> dg_A = aC, dg_B = bC \<rparr>,
                     df_Verdict = VerdictCrossAgent, df_Changes = [] \<rparr>
           in if Agent a \<noteq> Agent b \<and> \<not> op_AllowCrossAgent opts then Inr r
              else Inr (r\<lparr>df_Changes := sortChanges (all_changes fmtG (op_Bodies opts) a b),
                          df_Verdict := (if aB = bB \<and> aC = bC then VerdictIdentical
                                         else if aB = bB then VerdictProvenanceOnly
                                         else VerdictBehavioural)\<rparr>))))"

section \<open>Longest common subsequences\<close>

text \<open>The length of a longest common subsequence, by its recursion and as a maximum.\<close>

fun lcs :: "'a list \<Rightarrow> 'a list \<Rightarrow> nat" where
  "lcs [] ys = 0"
| "lcs xs [] = 0"
| "lcs (x # xs) (y # ys) =
     (if x = y then lcs xs ys + 1 else max (lcs xs (y # ys)) (lcs (x # xs) ys))"

lemma lcs_Nil [simp]: "lcs xs [] = 0"
  by (cases xs) auto

lemma lcs_row_correct:
  assumes "length below = length ys + 1" and "\<And>j. j \<le> length ys \<Longrightarrow> below ! j = lcs xs (drop j ys)"
  shows "length (lcs_row x ys below) = length ys + 1 \<and>
    (\<forall>j \<le> length ys. lcs_row x ys below ! j = lcs (x # xs) (drop j ys))"
  using assms
proof (induction ys arbitrary: below)
  case (Cons y ys)
  obtain b0 b where below: "below = b0 # b" using Cons.prems(1) by (cases below) auto
  then have tl: "length b = length ys + 1" "\<And>j. j \<le> length ys \<Longrightarrow> b ! j = lcs xs (drop j ys)"
    using Cons.prems(1) Cons.prems(2) [of "Suc _"] by auto
  have b0: "b0 = lcs xs (y # ys)" using Cons.prems(2) [of 0] below by simp
  note IH = Cons.IH [OF tl]
  then have row: "hd (lcs_row x ys b) = lcs (x # xs) ys"
    by (metis drop0 hd_conv_nth le0 length_0_conv add_is_0 zero_neq_one)
  have "b ! 0 = lcs xs ys" using tl(2) [of 0] by simp
  then have "lcs_row x (y # ys) below = lcs (x # xs) (y # ys) # lcs_row x ys b"
    using row b0 by (simp add: below Let_def max_def)
  then show ?case using IH by (auto simp: nth_Cons split: nat.splits)
qed simp

lemma lcs_table_correct:
  "length (lcs_table xs ys) = length ys + 1 \<and> (\<forall>j \<le> length ys. lcs_table xs ys ! j = lcs xs (drop j ys))"
proof (induction xs)
  case Nil
  then show ?case by (auto simp del: replicate_Suc)
next
  case (Cons x xs)
  then show ?case using lcs_row_correct [of "lcs_table xs ys" ys xs x] by simp
qed

lemma lcs_table_hd: "hd (lcs_table xs ys) = lcs xs ys"
  using lcs_table_correct [of xs ys]
  by (metis drop0 hd_conv_nth le0 length_0_conv add_is_0 zero_neq_one)

lemma lcs_attained: "\<exists>zs. subseq zs xs \<and> subseq zs ys \<and> length zs = lcs xs ys"
proof (induction xs ys rule: lcs.induct)
  case (3 x xs y ys)
  show ?case
  proof (cases "x = y")
    case True
    then obtain zs where "subseq zs xs" "subseq zs ys" "length zs = lcs xs ys" using 3(1) by blast
    then show ?thesis using True by (intro exI [of _ "x # zs"]) simp
  next
    case False
    then show ?thesis using 3(2,3) by (auto simp: max_def intro: list_emb_Cons)
  qed
qed auto

lemma lcs_max: "subseq zs xs \<Longrightarrow> subseq zs ys \<Longrightarrow> length zs \<le> lcs xs ys"
proof (induction xs ys arbitrary: zs rule: lcs.induct)
  case (3 x xs y ys)
  show ?case
  proof (cases zs)
    case (Cons z zs')
    show ?thesis
    proof (cases "x = y")
      case True
      then have "subseq zs' xs" "subseq zs' ys" using 3(4,5) Cons
        by (auto simp: subseq_Cons2_iff split: if_splits dest: subseq_Cons')
      then show ?thesis using 3(1) [OF True] True Cons by simp
    next
      case False
      then have "subseq zs xs \<or> subseq zs ys" using 3(4,5) Cons
        by (auto simp: subseq_Cons2_iff split: if_splits)
      then show ?thesis using 3 False by fastforce
    qed
  qed simp
qed (auto dest: list_emb_length)

lemma lcs_le: "lcs xs ys \<le> length xs" "lcs xs ys \<le> length ys"
  using lcs_attained [of xs ys] by (auto dest: list_emb_length)

text \<open>
  C28. The line counts are exact.  The lines reported added and removed are those outside a common
  subsequence of the two bodies of which none is longer; the table the code fills from its last cell
  computes the length of such a subsequence.
\<close>

theorem line_counts_are_exact:
  "\<exists>common. subseq common (splitLines a) \<and> subseq common (splitLines b) \<and>
     \<not> (\<exists>other. subseq other (splitLines a) \<and> subseq other (splitLines b) \<and> length common < length other) \<and>
     lineDiffCounts a b =
       (int (length (splitLines b) - length common), int (length (splitLines a) - length common))"
proof -
  obtain zs where zs: "subseq zs (splitLines a)" "subseq zs (splitLines b)"
    "length zs = lcs (splitLines a) (splitLines b)" using lcs_attained by blast
  then have "lineDiffCounts a b =
      (int (length (splitLines b) - length zs), int (length (splitLines a) - length zs))"
    using lcs_le [of "splitLines a" "splitLines b"]
    by (simp add: lineDiffCounts_def Let_def lcs_table_hd of_nat_diff)
  then show ?thesis using zs lcs_max [of _ "splitLines a" "splitLines b"] by (metis not_le)
qed

section \<open>Order\<close>

lemma change_le_total: "change_le k l \<or> change_le l k"
  by (cases k; cases l) auto

lemma change_le_trans: "change_le j k \<Longrightarrow> change_le k l \<Longrightarrow> change_le j l"
  by (cases j; cases k; cases l) (auto split: if_splits)

lemma change_le_antisym: "change_le k l \<Longrightarrow> change_le l k \<Longrightarrow> k = l"
  by (cases k; cases l) (auto split: if_splits)

lemma set_insert_change: "set (insert_change c ds) = insert c (set ds)"
  by (induction ds) auto

lemma set_sortChanges [simp]: "set (sortChanges cs) = set cs"
  by (induction cs) (simp_all add: sortChanges_def set_insert_change)

lemma sorted_insert_change:
  "sorted_wrt (\<lambda>c d. change_le (change_key c) (change_key d)) ds \<Longrightarrow>
   sorted_wrt (\<lambda>c d. change_le (change_key c) (change_key d)) (insert_change c ds)"
  by (induction ds) (auto simp: set_insert_change dest: change_le_trans, metis change_le_total)

lemma sorted_sortChanges: "sorted_wrt (\<lambda>c d. change_le (change_key c) (change_key d)) (sortChanges cs)"
  by (induction cs) (simp_all add: sortChanges_def sorted_insert_change)

lemma filter_insert_change:
  "filter (\<lambda>d. change_key d = k) (insert_change c ds) = filter (\<lambda>d. change_key d = k) (c # ds)"
proof (induction ds)
  case (Cons d ds)
  have "\<not> change_le (change_key c) (change_key d) \<Longrightarrow> change_key c \<noteq> change_key d"
    using change_le_total by metis
  with Cons show ?case by auto
qed simp

lemma filter_sortChanges:
  "filter (\<lambda>d. change_key d = k) (sortChanges cs) = filter (\<lambda>d. change_key d = k) cs"
  by (induction cs) (simp_all add: sortChanges_def filter_insert_change)


section \<open>What a comparison shows\<close>

lemma has_iff [simp]: "has tags t \<longleftrightarrow> t \<in> set tags"
  by (induction tags) auto

lemma scalar_simps [simp]:
  "scalar p f x y tags = [] \<longleftrightarrow> x = y"
  "ch_Plane ` set (scalar p f x y tags) \<subseteq> {p}"
  by (auto simp: scalar_def new_Change_def)

lemma add_detail_simps [simp]:
  "ch_Plane (add_detail d c) = ch_Plane c" "ch_Tags (add_detail d c) = ch_Tags c"
  "ch_Element (add_detail d c) = ch_Element c"
  by (simp_all add: add_detail_def)

lemma new_Change_simps [simp]:
  "ch_Plane (new_Change p e oper) = p" "ch_Element (new_Change p e oper) = e"
  by (simp_all add: new_Change_def)

lemma scalar_plane: "c \<in> set (scalar p f x y tags) \<Longrightarrow> ch_Plane c = p"
  by (auto simp: scalar_def split: if_splits)

text \<open>Every change is on the plane, and of the element, it was made for.\<close>

lemma prompt_changes_all: "list_all (\<lambda>c. ch_Plane c = PlanePrompts) (prompt_changes bs n x y)"
  by (cases x; cases y) (simp_all add: prompt_changes_def Let_def split: option.split)

lemma tool_changes_all:
  "list_all (\<lambda>c. ch_Plane c = PlaneTools \<and> ch_Element c = n) (tool_changes n x y)"
  by (cases x; cases y) (simp_all add: tool_changes_def Let_def)

lemma judge_changes_all: "list_all (\<lambda>c. ch_Plane c = PlaneJudges) (judge_changes g n x y)"
  by (cases x; cases y)
    (simp_all add: judge_changes_def calibrationChanged_def Let_def split: option.split)

lemmas changes_plane = prompt_changes_all [unfolded list_all_iff, THEN bspec]
  tool_changes_all [unfolded list_all_iff, THEN bspec, THEN conjunct1]
  judge_changes_all [unfolded list_all_iff, THEN bspec]

lemma compare_planes:
  "c \<in> set (compareCode a b) \<Longrightarrow> ch_Plane c = PlaneCode"
  "c \<in> set (comparePrompts a b bodies) \<Longrightarrow> ch_Plane c = PlanePrompts"
  "c \<in> set (compareTools a b) \<Longrightarrow> ch_Plane c = PlaneTools"
  "c \<in> set (compareRetrieval a b) \<Longrightarrow> ch_Plane c = PlaneRetrieval"
  "c \<in> set (comparePolicy a b) \<Longrightarrow> ch_Plane c = PlanePolicy"
  "c \<in> set (compareJudges g a b) \<Longrightarrow> ch_Plane c = PlaneJudges"
  by (auto simp: compareCode_def comparePrompts_def compareTools_def compareRetrieval_def
      comparePolicy_def compareJudges_def Let_def dest: scalar_plane changes_plane)

lemma compareModel_plane: "c \<in> set (compareModel g a b) \<Longrightarrow> ch_Plane c = PlaneModel"
  unfolding compareModel_def Let_def set_append by (auto dest: scalar_plane)

lemma names_union_set: "set (names_union a b) = set (keys a) \<union> set (keys b)"
  by (simp add: names_union_def)

lemma prompt_changes_empty:
  "prompt_changes bodies n x y = [] \<longleftrightarrow>
     map_option (\<lambda>p. (prompt_Digest p, prompt_Source p)) x = map_option (\<lambda>p. (prompt_Digest p, prompt_Source p)) y"
  by (cases x; cases y) (auto simp: prompt_changes_def Let_def)

lemma tool_changes_empty:
  "tool_changes n x y = [] \<longleftrightarrow>
     map_option (\<lambda>t. (tool_ContractDigest t, tool_Effect t, tool_Server t, tool_ReplayPolicy t)) x =
     map_option (\<lambda>t. (tool_ContractDigest t, tool_Effect t, tool_Server t, tool_ReplayPolicy t)) y"
  by (cases x; cases y) (simp_all add: tool_changes_def Let_def)

lemma concat_names_empty:
  assumes "\<And>n. f n = [] \<longleftrightarrow> A n = B n" and "\<And>n. n \<notin> set ns \<Longrightarrow> A n = B n"
  shows "concat (map f ns) = [] \<longleftrightarrow> A = B"
  using assms by (auto simp: fun_eq_iff)

lemma outside_names_union: "n \<notin> set (names_union a b) \<Longrightarrow> map_of a n = map_of b n"
  by (simp add: names_union_set keys_def map_of_eq_None_iff [THEN iffD2])

lemma prompt_changes_named:
  "(\<And>p. x = Some p \<Longrightarrow> prompt_Name p = n) \<Longrightarrow> (\<And>p. y = Some p \<Longrightarrow> prompt_Name p = n) \<Longrightarrow>
   prompt_changes bodies n x y = [] \<longleftrightarrow> x = y"
  by (cases x; cases y) (auto simp: prompt_changes_empty intro!: PromptRef.equality)

lemma tool_changes_named:
  "(\<And>t. x = Some t \<Longrightarrow> tool_Name t = n) \<Longrightarrow> (\<And>t. y = Some t \<Longrightarrow> tool_Name t = n) \<Longrightarrow>
   tool_changes n x y = [] \<longleftrightarrow> x = y"
  by (cases x; cases y) (auto simp: tool_changes_empty intro!: ToolRef.equality)

lemma indexed_name:
  "map_of (index_by prompt_Name ps) n = Some p \<Longrightarrow> prompt_Name p = n"
  "map_of (index_by tool_Name ts) n = Some t \<Longrightarrow> tool_Name t = n"
  using map_of_index_by_Some by fastforce+

lemma comparePrompts_empty:
  "comparePrompts a b bodies = [] \<longleftrightarrow>
     map_of (index_by prompt_Name (Prompts a)) = map_of (index_by prompt_Name (Prompts b))"
  unfolding comparePrompts_def Let_def
  by (intro concat_names_empty outside_names_union prompt_changes_named) (erule indexed_name)+

lemma compareTools_empty:
  "compareTools a b = [] \<longleftrightarrow>
     map_of (index_by tool_Name (Tools a)) = map_of (index_by tool_Name (Tools b))"
  unfolding compareTools_def Let_def
  by (intro concat_names_empty outside_names_union tool_changes_named) (erule indexed_name)+

lemma compareRetrieval_empty: "compareRetrieval a b = [] \<longleftrightarrow> retrieval_view a = retrieval_view b"
  by (auto simp: compareRetrieval_def Let_def retrieval_or_zero_def retrieval_view_def split: option.splits)

lemma compareCode_empty:
  "compareCode a b = [] \<longleftrightarrow> abbrevImage (code_Image (Code a)) = abbrevImage (code_Image (Code b))"
  by (simp add: compareCode_def)

lemma comparePolicy_empty: "comparePolicy a b = [] \<longleftrightarrow> abbrev (policy_digest a) = abbrev (policy_digest b)"
  by (simp add: comparePolicy_def)

lemma changed_plane:
  assumes "Compare H g a b opts = Inr r" and "df_Verdict r \<noteq> VerdictCrossAgent"
  shows "df_Changes r = sortChanges (all_changes g (op_Bodies opts) a b)"
  using assms by (auto simp: Compare_def Let_def split: sum.splits prod.splits if_splits)

lemma all_changes_plane:
  "(\<exists>c \<in> set (all_changes g bodies a b). ch_Plane c = p) \<longleftrightarrow>
     (case p of
        PlaneCode \<Rightarrow> compareCode a b \<noteq> []
      | PlaneModel \<Rightarrow> compareModel g a b \<noteq> []
      | PlanePrompts \<Rightarrow> comparePrompts a b bodies \<noteq> []
      | PlaneTools \<Rightarrow> compareTools a b \<noteq> []
      | PlaneRetrieval \<Rightarrow> compareRetrieval a b \<noteq> []
      | PlanePolicy \<Rightarrow> comparePolicy a b \<noteq> []
      | PlaneJudges \<Rightarrow> compareJudges g a b \<noteq> [])"
proof -
  have *: "(\<exists>c \<in> set xs. ch_Plane c = p) \<longleftrightarrow> p = q \<and> xs \<noteq> []"
    if "\<And>c. c \<in> set xs \<Longrightarrow> ch_Plane c = q" for xs :: "Change list" and q
    using that by (cases xs) auto
  have "(\<exists>c \<in> set (compareCode a b). ch_Plane c = p) \<longleftrightarrow> p = PlaneCode \<and> compareCode a b \<noteq> []"
    "(\<exists>c \<in> set (compareModel g a b). ch_Plane c = p) \<longleftrightarrow> p = PlaneModel \<and> compareModel g a b \<noteq> []"
    "(\<exists>c \<in> set (comparePrompts a b bodies). ch_Plane c = p) \<longleftrightarrow>
       p = PlanePrompts \<and> comparePrompts a b bodies \<noteq> []"
    "(\<exists>c \<in> set (compareTools a b). ch_Plane c = p) \<longleftrightarrow> p = PlaneTools \<and> compareTools a b \<noteq> []"
    "(\<exists>c \<in> set (compareRetrieval a b). ch_Plane c = p) \<longleftrightarrow>
       p = PlaneRetrieval \<and> compareRetrieval a b \<noteq> []"
    "(\<exists>c \<in> set (comparePolicy a b). ch_Plane c = p) \<longleftrightarrow> p = PlanePolicy \<and> comparePolicy a b \<noteq> []"
    "(\<exists>c \<in> set (compareJudges g a b). ch_Plane c = p) \<longleftrightarrow> p = PlaneJudges \<and> compareJudges g a b \<noteq> []"
    by (rule *, erule compare_planes compareModel_plane)+
  then show ?thesis
    unfolding all_changes_def set_append bex_Un by (cases p) simp_all
qed

lemma set_AllPlanes [simp]: "set AllPlanes = UNIV"
  using plane_index.cases by (auto simp: AllPlanes_def)

lemma unchanged_plane:
  assumes "Compare H g a b opts = Inr r" and "df_Verdict r \<noteq> VerdictCrossAgent"
  shows "p \<in> set (UnchangedPlanes r) \<longleftrightarrow>
    \<not> (\<exists>c \<in> set (all_changes g (op_Bodies opts) a b). ch_Plane c = p)"
  using changed_plane [OF assms] by (auto simp: UnchangedPlanes_def)


text \<open>
  A plane reported unchanged.  In a comparison that was not refused, the prompts, the tools and
  the retrieval are reported unchanged exactly when they are equal (by name, so that order and
  duplicates do not matter), the code and the policy exactly when their abbreviated references are
  equal; and every plane is reported either changed or unchanged.
\<close>

theorem unchanged_means_equal:
  assumes "Compare H g a b opts = Inr r" and "df_Verdict r \<noteq> VerdictCrossAgent"
  shows "(PlanePrompts \<in> set (UnchangedPlanes r) \<longleftrightarrow>
           map_of (index_by prompt_Name (Prompts a)) = map_of (index_by prompt_Name (Prompts b))) \<and>
    (PlaneTools \<in> set (UnchangedPlanes r) \<longleftrightarrow>
           map_of (index_by tool_Name (Tools a)) = map_of (index_by tool_Name (Tools b))) \<and>
    (PlaneRetrieval \<in> set (UnchangedPlanes r) \<longleftrightarrow> retrieval_view a = retrieval_view b) \<and>
    (PlaneCode \<in> set (UnchangedPlanes r) \<longleftrightarrow>
           abbrevImage (code_Image (Code a)) = abbrevImage (code_Image (Code b))) \<and>
    (PlanePolicy \<in> set (UnchangedPlanes r) \<longleftrightarrow> abbrev (policy_digest a) = abbrev (policy_digest b)) \<and>
    set (ChangedPlanes r) = - set (UnchangedPlanes r)"
  unfolding unchanged_plane [OF assms] all_changes_plane Plane.case not_not
    comparePrompts_empty compareTools_empty compareRetrieval_empty compareCode_empty comparePolicy_empty
  by (auto simp: ChangedPlanes_def UnchangedPlanes_def)

lemma Compare_verdict:
  assumes "Compare H g a b opts = Inr r"
  shows "df_Verdict r = (if Agent a \<noteq> Agent b \<and> \<not> op_AllowCrossAgent opts then VerdictCrossAgent
      else if Both H a = Both H b then VerdictIdentical
      else if Compute H a ScopeBehavior = Compute H b ScopeBehavior then VerdictProvenanceOnly
      else VerdictBehavioural)"
  using assms by (auto simp: Compare_def Both_Inr Let_def split: sum.splits prod.splits if_splits)

lemma Compare_finite:
  assumes "Compare H g a b opts = Inr r" shows "checkFinite a = Inr ()" and "checkFinite b = Inr ()"
proof -
  obtain x y where "Both H a = Inr x" "Both H b = Inr y"
    using assms by (auto simp: Compare_def split: sum.splits)
  then show "checkFinite a = Inr ()" "checkFinite b = Inr ()"
    by (cases x; cases y; auto simp: Both_Inr dest: Compute_Inr_finite)+
qed

text \<open>Two manifests whose digests are equal only where what is hashed is equal.\<close>

definition no_collision :: "hasher \<Rightarrow> AgentManifestSpec \<Rightarrow> AgentManifestSpec \<Rightarrow> bool" where
  "no_collision H a b \<longleftrightarrow> (\<forall>sc \<in> {ScopeBehavior, ScopeContent}. Compute H a sc = Compute H b sc \<longrightarrow> Project a sc = Project b sc)"

lemma same_digests:
  assumes "Compare H g a b opts = Inr r"
  shows "same_behaviour a b \<longrightarrow> Compute H a ScopeBehavior = Compute H b ScopeBehavior"
    and "same_content a b \<longrightarrow> Both H a = Both H b"
proof -
  note fin = Compare_finite [OF assms]
  show "same_behaviour a b \<longrightarrow> Compute H a ScopeBehavior = Compute H b ScopeBehavior"
    using fin by (auto intro!: Compute_cong simp: Project_behavior_eq)
  have "Compute H a sc = Compute H b sc" if "same_content a b" for sc
    using that same_content_behaviour [OF that] fin
    by (cases sc) (auto intro!: Compute_cong simp: Project_behavior_eq Project_content_eq)
  then show "same_content a b \<longrightarrow> Both H a = Both H b" by (simp add: Both_def)
qed

lemma different_digests:
  assumes "Compare H g a b opts = Inr r" and "no_collision H a b"
  shows "Compute H a ScopeBehavior = Compute H b ScopeBehavior \<longleftrightarrow> same_behaviour a b"
    and "Both H a = Both H b \<longleftrightarrow> same_content a b"
proof -
  obtain x y x' y' where d: "Both H a = Inr (x, y)" "Both H b = Inr (x', y')"
    using assms(1) by (auto simp: Compare_def split: sum.splits)
  then have "Compute H a ScopeBehavior = Inr x" "Compute H a ScopeContent = Inr y"
    "Compute H b ScopeBehavior = Inr x'" "Compute H b ScopeContent = Inr y'" by (simp_all add: Both_Inr)
  then have both: "Both H a = Both H b \<longleftrightarrow> Compute H a ScopeBehavior = Compute H b ScopeBehavior \<and>
      Compute H a ScopeContent = Compute H b ScopeContent" using d by simp
  show "Compute H a ScopeBehavior = Compute H b ScopeBehavior \<longleftrightarrow> same_behaviour a b"
    using same_digests(1) [OF assms(1)] assms(2) by (auto simp: no_collision_def Project_behavior_eq)
  show "Both H a = Both H b \<longleftrightarrow> same_content a b"
    using same_digests(2) [OF assms(1)] assms(2) both by (simp add: no_collision_def Project_content_eq) blast
qed

text \<open>
  C27. The verdict.  A comparison is refused, with no change listed, exactly when the agents differ and
  comparing them was not asked for.  Manifests with the same content are called identical, and manifests
  with the same behaviour are never called behavioural, so they promote without a canary.  The verdict
  is behavioural exactly when the comparison was not refused and the behaviour digests differ; and as
  long as the digests of the two do not collide, the exit code is 64 for a refusal, 0 for the same
  content, 1 for the same behaviour with another content, and 2 whenever something that determines
  behaviour differs.
\<close>

theorem verdict_follows_behaviour:
  assumes "Compare H g a b opts = Inr r"
  shows "(df_Verdict r = VerdictCrossAgent \<longleftrightarrow> Agent a \<noteq> Agent b \<and> \<not> op_AllowCrossAgent opts) \<and>
    (df_Verdict r = VerdictCrossAgent \<longrightarrow> df_Changes r = []) \<and>
    (same_content a b \<longrightarrow> df_Verdict r = VerdictIdentical) \<and>
    (same_behaviour a b \<longrightarrow> df_Verdict r \<in> {VerdictIdentical, VerdictProvenanceOnly}) \<and>
    (df_Verdict r = VerdictBehavioural \<longleftrightarrow> \<not> (Agent a \<noteq> Agent b \<and> \<not> op_AllowCrossAgent opts) \<and>
       Compute H a ScopeBehavior \<noteq> Compute H b ScopeBehavior) \<and>
    (no_collision H a b \<longrightarrow> ExitCode (df_Verdict r) =
       (if Agent a \<noteq> Agent b \<and> \<not> op_AllowCrossAgent opts then 64
        else if same_content a b then 0 else if same_behaviour a b then 1 else 2))"
proof -
  note v = Compare_verdict [OF assms] and same = same_digests [OF assms] and diff = different_digests [OF assms]
  have "df_Changes r = []" if "df_Verdict r = VerdictCrossAgent"
  proof -
    have "Agent a \<noteq> Agent b \<and> \<not> op_AllowCrossAgent opts" using that unfolding v by (auto split: if_splits)
    then show ?thesis using assms by (auto simp: Compare_def Let_def split: sum.splits)
  qed
  moreover have "Both H a = Both H b \<Longrightarrow> Compute H a ScopeBehavior = Compute H b ScopeBehavior"
    using assms by (auto simp: Compare_def Both_Inr split: sum.splits)
  moreover have "same_content a b \<Longrightarrow> Agent a = Agent b" "same_behaviour a b \<Longrightarrow> Agent a = Agent b"
    by (simp_all add: same_content_def same_behaviour_def)
  ultimately show ?thesis using same diff unfolding v by (auto simp: ExitUsage_def)
qed

lemma Plane_JSON_roundtrip: "Plane_UnmarshalJSON (Plane_MarshalJSON p) = Inr p"
  by (cases p) (simp_all add: Plane_MarshalJSON_def Plane_UnmarshalJSON_def Trim_def TrimRight_def
      quote_def AllPlanes_def Let_def)

lemma tool_changes_element: "c \<in> set (tool_changes n x y) \<Longrightarrow> ch_Element c = n"
  using tool_changes_all [of n x y] by (auto simp: list_all_iff)

lemma severe_security: "TagSecurity \<in> set tags \<Longrightarrow> severe tags"
  by (simp add: severe_def)

definition tool_risk :: "ToolRef option \<Rightarrow> ToolRef \<Rightarrow> bool" where
  "tool_risk before after =
     (case before of
        None \<Rightarrow> 0 < effectRank (tool_Effect after)
      | Some t \<Rightarrow> tool_ContractDigest t \<noteq> tool_ContractDigest after \<or> tool_Server t \<noteq> tool_Server after \<or>
                 effectRank (tool_Effect t) < effectRank (tool_Effect after))"

lemma tool_changes_security:
  "(\<exists>c \<in> set (tool_changes n x (Some tb)). ch_Severity c \<and> TagSecurity \<in> set (ch_Tags c)) \<longleftrightarrow> tool_risk x tb"
proof (cases x)
  case None
  then show ?thesis by (auto simp: tool_changes_def tool_risk_def Let_def severe_def new_Change_def)
next
  case (Some ta)
  have "effectRank (tool_Effect ta) < effectRank (tool_Effect tb) \<Longrightarrow> tool_Effect ta \<noteq> tool_Effect tb" by auto
  with Some show ?thesis
    by (simp add: tool_changes_def tool_risk_def Let_def new_Change_def bex_Un) blast
qed

lemma tool_changes_set:
  assumes "map_of (index_by tool_Name (Tools b)) n = Some tb"
  shows "c \<in> set (compareTools a b) \<and> ch_Element c = n \<longleftrightarrow>
    c \<in> set (tool_changes n (map_of (index_by tool_Name (Tools a)) n) (Some tb))"
proof -
  let ?change = "\<lambda>m. tool_changes m (map_of (index_by tool_Name (Tools a)) m)
    (map_of (index_by tool_Name (Tools b)) m)"
  have n: "n \<in> set (names_union (index_by tool_Name (Tools a)) (index_by tool_Name (Tools b)))"
    using map_of_SomeD [OF assms] by (force simp: names_union_set keys_def)
  have "c \<in> set (compareTools a b) \<longleftrightarrow>
      (\<exists>m \<in> set (names_union (index_by tool_Name (Tools a)) (index_by tool_Name (Tools b))). c \<in> set (?change m))"
    by (simp add: compareTools_def Let_def)
  moreover have "c \<in> set (?change m) \<Longrightarrow> ch_Element c = m" for m by (rule tool_changes_element)
  ultimately have "c \<in> set (compareTools a b) \<and> ch_Element c = n \<longleftrightarrow> c \<in> set (?change n)"
    using n by blast
  then show ?thesis using assms by simp
qed

text \<open>
  A dangerous tool change cannot be skimmed past.  In a comparison that was not refused, a tool of
  the right-hand manifest carries a change that is both severe and tagged as security-relevant exactly
  when it is a new tool that can write, or its contract or its server changed, or its effect widened.
\<close>

theorem tool_risk_is_flagged:
  assumes "Compare H g a b opts = Inr r" and "df_Verdict r \<noteq> VerdictCrossAgent"
    and "map_of (index_by tool_Name (Tools b)) name = Some tb"
  shows "(\<exists>c \<in> set (df_Changes r). ch_Plane c = PlaneTools \<and> ch_Element c = name \<and> ch_Severity c \<and>
            TagSecurity \<in> set (ch_Tags c)) \<longleftrightarrow>
         tool_risk (map_of (index_by tool_Name (Tools a)) name) tb"
proof -
  have "c \<in> set (df_Changes r) \<and> ch_Plane c = PlaneTools \<longleftrightarrow> c \<in> set (compareTools a b)" for c
    using changed_plane [OF assms(1,2)]
    by (auto simp: all_changes_def dest: compare_planes compareModel_plane)
  then show ?thesis
    using tool_changes_set [OF assms(3), of _ a] tool_changes_security [of name _ tb] by metis
qed

lemma judge_changes_same: "judge_changes g n x x = []"
  by (cases x) (simp_all add: judge_changes_def calibrationChanged_def Let_def)

lemma compareModel_same: "Model a = Model b \<Longrightarrow> compareModel g a b = []"
  by (simp add: compareModel_def Let_def)

lemma compareJudges_same: "Judges a = Judges b \<Longrightarrow> compareJudges g a b = []"
  by (simp add: compareJudges_def Let_def judge_changes_same)

lemma abbrev_hides:
  assumes "length p = 4" and "4 < length x"
  shows "abbrev (''sha256:'' @ p @ x) = p @ ellipsis"
  using assms by (simp add: abbrev_def HasPrefix_def)

text \<open>
  A behavioural change that the comparison does not list.  Two manifests that differ only in the
  digest of their image behave differently, but when the two digests begin with the same four
  characters the comparison lists no change at all and reports every plane as unchanged.
\<close>

theorem abbreviated_image_change_is_not_listed:
  assumes "code_Image (Code a) = repo @ ''@sha256:'' @ p @ x" and "CHR ''@'' \<notin> set repo"
    and "length p = 4" and "4 < length x" and "4 < length y" and "x \<noteq> y"
    and "Compare H g a (a\<lparr>Code := \<lparr>code_Image = repo @ ''@sha256:'' @ p @ y\<rparr>\<rparr>) opts = Inr r"
  shows "df_Changes r = [] \<and> UnchangedPlanes r = AllPlanes \<and>
    \<not> same_behaviour a (a\<lparr>Code := \<lparr>code_Image = repo @ ''@sha256:'' @ p @ y\<rparr>\<rparr>)"
proof -
  let ?b = "a\<lparr>Code := \<lparr>code_Image = repo @ ''@sha256:'' @ p @ y\<rparr>\<rparr>"
  have cut: "cut_at CHR ''@'' (repo @ ''@sha256:'' @ p @ z) = Some (repo, ''sha256:'' @ p @ z)" for z
    using cut_at_append [OF assms(2), of "''sha256:'' @ p @ z"] by simp
  have "compareCode a ?b = []"
    unfolding compareCode_empty abbrevImage_def
    using assms(1) cut abbrev_hides [OF assms(3,4)] abbrev_hides [OF assms(3,5)] by simp
  then have "all_changes g bodies a ?b = []" for bodies
    by (simp add: all_changes_def compareModel_same comparePrompts_empty compareTools_empty
        compareRetrieval_empty comparePolicy_empty compareJudges_same retrieval_view_def policy_digest_def)
  moreover have "df_Verdict r \<noteq> VerdictCrossAgent" using Compare_verdict [OF assms(7)] by simp
  ultimately have "df_Changes r = []" using changed_plane [OF assms(7)] by (simp add: sortChanges_def)
  moreover have "\<not> same_behaviour a ?b"
    using assms(1,6) cut by (simp add: same_behaviour_def imageContentID_def)
  ultimately show ?thesis by (simp add: UnchangedPlanes_def)
qed


text \<open>Comparisons of the example manifest with a variant of it.\<close>

definition ex_options :: Options where
  "ex_options = \<lparr> op_NameA = [], op_NameB = [], op_Bodies = None, op_AllowCrossAgent = False \<rparr>"

lemma ex_compare:
  obtains r where "Compare ex_hasher g (ex_agent\<lparr>Code := c\<rparr>) (ex_agent\<lparr>Code := d, Tools := ts\<rparr>) ex_options = Inr r"
    and "df_Verdict r \<noteq> VerdictCrossAgent"
proof -
  have "checkFinite (ex_agent\<lparr>Code := c\<rparr>) = Inr ()" "checkFinite (ex_agent\<lparr>Code := d, Tools := ts\<rparr>) = Inr ()"
    by (simp_all add: checkFinite_Inr ex_agent_def finite64_def)
  moreover have "checkFinite m = Inr () \<Longrightarrow> \<exists>x y. Both ex_hasher m = Inr (x, y)" for m
    by (rule Both_exists) (simp_all add: ex_hasher_def)
  ultimately obtain x y z w where
    "Both ex_hasher (ex_agent\<lparr>Code := c\<rparr>) = Inr (x, y)"
    "Both ex_hasher (ex_agent\<lparr>Code := d, Tools := ts\<rparr>) = Inr (z, w)" by blast
  then show ?thesis using that by (simp add: Compare_def Let_def)
qed

definition ex_tool :: "ToolEffect \<Rightarrow> ToolRef" where
  "ex_tool e = \<lparr> tool_Name = ''pay'', tool_Server = ''s'', tool_ContractDigest = ''c'', tool_Effect = e,
     tool_ReplayPolicy = [] \<rparr>"

lemma ex_agent_update:
  "ex_agent\<lparr>Code := d, Tools := []\<rparr> = ex_agent\<lparr>Code := d\<rparr>"
  by (simp add: ex_agent_def)

theorem unchanged_means_equal_witness:
  "\<exists>r. Compare ex_hasher (\<lambda>_. []) (ex_agent\<lparr>Code := \<lparr>code_Image = ''r1/a@sha256:00''\<rparr>\<rparr>)
          (ex_agent\<lparr>Code := \<lparr>code_Image = ''r2/a@sha256:00''\<rparr>, Tools := [ex_tool EffectRead]\<rparr>) ex_options = Inr r \<and>
     PlanePrompts \<in> set (UnchangedPlanes r) \<and> PlaneTools \<notin> set (UnchangedPlanes r) \<and>
     PlaneCode \<notin> set (UnchangedPlanes r)"
proof -
  obtain r where r: "Compare ex_hasher (\<lambda>_. []) (ex_agent\<lparr>Code := \<lparr>code_Image = ''r1/a@sha256:00''\<rparr>\<rparr>)
      (ex_agent\<lparr>Code := \<lparr>code_Image = ''r2/a@sha256:00''\<rparr>, Tools := [ex_tool EffectRead]\<rparr>) ex_options = Inr r"
    "df_Verdict r \<noteq> VerdictCrossAgent" using ex_compare .
  have "map_of (index_by tool_Name []) \<noteq> map_of (index_by tool_Name [ex_tool EffectRead])"
    by (simp add: index_by_def ex_tool_def fun_eq_iff)
  moreover have "abbrevImage ''r1/a@sha256:00'' \<noteq> abbrevImage ''r2/a@sha256:00''"
    by (simp add: abbrevImage_def abbrev_def)
  ultimately show ?thesis
    using r(1) unchanged_means_equal [OF r] by (simp add: ex_agent_lists)
qed

theorem verdict_follows_behaviour_witness:
  "\<exists>r r'. Compare ex_hasher (\<lambda>_. []) (ex_agent\<lparr>Code := \<lparr>code_Image = ''r1/a@sha256:00''\<rparr>\<rparr>)
          (ex_agent\<lparr>Code := \<lparr>code_Image = ''r2/a@sha256:00''\<rparr>, Tools := []\<rparr>) ex_options = Inr r \<and>
     df_Verdict r \<in> {VerdictIdentical, VerdictProvenanceOnly} \<and>
     Compare ex_hasher (\<lambda>_. []) (ex_agent\<lparr>Code := \<lparr>code_Image = ''i''\<rparr>\<rparr>)
          (ex_agent\<lparr>Code := \<lparr>code_Image = ''i''\<rparr>, Tools := []\<rparr>) ex_options = Inr r' \<and>
     ExitCode (df_Verdict r') = 0"
proof -
  let ?a = "ex_agent\<lparr>Code := \<lparr>code_Image = ''r1/a@sha256:00''\<rparr>\<rparr>"
  let ?b = "ex_agent\<lparr>Code := \<lparr>code_Image = ''r2/a@sha256:00''\<rparr>, Tools := []\<rparr>"
  let ?c = "ex_agent\<lparr>Code := \<lparr>code_Image = ''i''\<rparr>\<rparr>"
  obtain r where r: "Compare ex_hasher (\<lambda>_. []) ?a ?b ex_options = Inr r" using ex_compare by metis
  obtain r' where r': "Compare ex_hasher (\<lambda>_. []) ?c ?c ex_options = Inr r'" using ex_compare ex_agent_update by metis
  have "same_behaviour ?a ?b"
    by (simp add: same_behaviour_def imageContentID_def retrieval_view_def ex_agent_lists)
  moreover have "no_collision ex_hasher ?c ?c" "same_content ?c ?c" by (simp_all add: no_collision_def same_content_def)
  ultimately show ?thesis
    using r r' verdict_follows_behaviour [OF r] verdict_follows_behaviour [OF r'] unfolding ex_agent_update by auto
qed

theorem tool_risk_is_flagged_witness:
  "\<exists>r c. Compare ex_hasher (\<lambda>_. []) (ex_agent\<lparr>Code := \<lparr>code_Image = ''i''\<rparr>\<rparr>)
          (ex_agent\<lparr>Code := \<lparr>code_Image = ''i''\<rparr>, Tools := [ex_tool EffectWrite]\<rparr>) ex_options = Inr r \<and>
     c \<in> set (df_Changes r) \<and> ch_Element c = ''pay'' \<and> ch_Severity c \<and> TagSecurity \<in> set (ch_Tags c)"
proof -
  obtain r where r: "Compare ex_hasher (\<lambda>_. []) (ex_agent\<lparr>Code := \<lparr>code_Image = ''i''\<rparr>\<rparr>)
      (ex_agent\<lparr>Code := \<lparr>code_Image = ''i''\<rparr>, Tools := [ex_tool EffectWrite]\<rparr>) ex_options = Inr r"
    "df_Verdict r \<noteq> VerdictCrossAgent" using ex_compare .
  have t: "map_of (index_by tool_Name [ex_tool EffectWrite]) ''pay'' = Some (ex_tool EffectWrite)"
    by (simp add: index_by_def ex_tool_def)
  have risk: "tool_risk (map_of (index_by tool_Name []) ''pay'') (ex_tool EffectWrite)"
    by (simp add: tool_risk_def index_by_def ex_tool_def effectRank_def lookup_or_def EffectRead_def
        EffectIdempotentWrite_def EffectWrite_def)
  show ?thesis
    using tool_risk_is_flagged [OF r, of "''pay''" "ex_tool EffectWrite"] r(1) t risk
    by (simp add: ex_agent_lists) blast
qed

theorem abbreviated_image_change_is_not_listed_witness:
  "\<exists>r. Compare ex_hasher (\<lambda>_. []) (ex_agent\<lparr>Code := \<lparr>code_Image = ''r@sha256:abcd11111''\<rparr>\<rparr>)
          (ex_agent\<lparr>Code := \<lparr>code_Image = ''r@sha256:abcd22222''\<rparr>\<rparr>) ex_options = Inr r \<and>
     df_Changes r = [] \<and>
     \<not> same_behaviour (ex_agent\<lparr>Code := \<lparr>code_Image = ''r@sha256:abcd11111''\<rparr>\<rparr>)
         (ex_agent\<lparr>Code := \<lparr>code_Image = ''r@sha256:abcd22222''\<rparr>\<rparr>)"
proof -
  let ?a = "ex_agent\<lparr>Code := \<lparr>code_Image = ''r@sha256:abcd11111''\<rparr>\<rparr>"
  obtain r where r: "Compare ex_hasher (\<lambda>_. []) ?a (ex_agent\<lparr>Code := \<lparr>code_Image = ''r@sha256:abcd22222''\<rparr>\<rparr>)
      ex_options = Inr r" using ex_compare [where ts = "[]", unfolded ex_agent_update] .
  have image: "code_Image (Code ?a) = ''r'' @ ''@sha256:'' @ ''abcd'' @ ''11111''" by simp
  show ?thesis
    using abbreviated_image_change_is_not_listed [OF image, of "''22222''"] r by simp
qed

end
