(* ===== verification/ReplayRun.thy ===== *)
theory ReplayRun
  imports ReplayServer Diff
begin

text \<open>
  Whole replays: the requests an agent sends, whose handling interleaves, the driver that sets a replay
  up and finishes it (\<open>internal/replay/driver.go\<close>), and the summary and exit status of a run
  (\<open>render.go\<close>).  What the agent does is the list of its requests; the processes and listeners around
  it are not modelled.
\<close>

section \<open>Requests in flight\<close>

text \<open>
  The handlers of a server run concurrently.  Each passes through the server's mutex once, when its
  request is looked up, decided and observed or its recorded protocol exchange is picked; it then answers,
  reading the blob store and reaching the upstreams; and a call is last written to the output cassette,
  under the mutex of the output.  These are the atomic steps of a run, and the handlers take them in any
  order: requests are numbered as they arrive, and \<open>Answer\<close> and \<open>Write\<close> name the one that moves on.
\<close>

datatype 'e server_event = Arrive "'e replay_env" path_request | Answer nat | Write nat

datatype 'e flight =
    Decided "'e replay_env" path_request Asked Match Decision
  | Replied "'e replay_env" path_request Asked Match Decision reply
  | Chatting path_request string "Span option"

text \<open>
  The state of a run: the server, the blob store and the world around it, the handlers under way, what
  each request was answered with (\<open>None\<close> inside for a handler that panicked), and for each call written
  to the output, in the order of the writes, its step and the span if it could be written.
\<close>

record ('e, 's, 'w) run_state =
  ru_server :: Server
  ru_store :: 's
  ru_world :: 'w
  ru_arrived :: nat
  ru_flights :: "nat \<Rightarrow> 'e flight option"
  ru_replies :: "nat \<Rightarrow> reply option option"
  ru_written :: "(nat \<times> Span option) list"

definition start_run :: "Server \<Rightarrow> 's \<Rightarrow> 'w \<Rightarrow> ('e, 's, 'w) run_state" where
  "start_run s st w =
     \<lparr> ru_server = s, ru_store = st, ru_world = w, ru_arrived = 0, ru_flights = Map.empty, ru_replies = Map.empty,
       ru_written = [] \<rparr>"

definition arrive ::
    "('e, 's, 'w) replay_deps \<Rightarrow> 'e replay_env \<Rightarrow> path_request \<Rightarrow> ('e, 's, 'w) run_state \<Rightarrow> ('e, 's, 'w) run_state" where
  "arrive D e r S =
     (let n = ru_arrived S; S = S\<lparr>ru_arrived := Suc n\<rparr> in
      case step_request D r of
        Some q \<Rightarrow>
          (case decide_request (ru_server S) q of
             (q, m, d, s1) \<Rightarrow> S\<lparr>ru_server := s1, ru_flights := (ru_flights S)(n \<mapsto> Decided e r q m d)\<rparr>)
      | None \<Rightarrow>
          (case protocol_request D r of
             Some meth \<Rightarrow>
               (case protocolSpan meth (ru_server S) of
                  (found, s1) \<Rightarrow> S\<lparr>ru_server := s1, ru_flights := (ru_flights S)(n \<mapsto> Chatting r meth found)\<rparr>)
           | None \<Rightarrow> S\<lparr>ru_replies := (ru_replies S)(n \<mapsto>
                 fst (Server_ServeHTTP D e r (ru_server S) (ru_store S) (ru_world S)))\<rparr>))"

definition answer_flight ::
    "('e, 's, 'w) replay_deps \<Rightarrow> nat \<Rightarrow> ('e, 's, 'w) run_state \<Rightarrow> ('e, 's, 'w) run_state" where
  "answer_flight D i S =
     (case ru_flights S i of
        Some (Decided e r q m d) \<Rightarrow>
          (case answer D (ru_server S) (ru_store S) r q m d (fst (request_body r)) (ru_world S) of
             (rl, w1) \<Rightarrow> S\<lparr>ru_world := w1, ru_replies := (ru_replies S)(i \<mapsto> rl),
               ru_flights := (ru_flights S)(i := map_option (Replied e r q m d) rl)\<rparr>)
      | Some (Chatting r meth found) \<Rightarrow>
          (case answer_protocol D r meth (fst (request_body r)) found (ru_server S) (ru_store S) (ru_world S) of
             (rl, w1) \<Rightarrow> S\<lparr>ru_world := w1, ru_replies := (ru_replies S)(i \<mapsto> rl),
               ru_flights := (ru_flights S)(i := None)\<rparr>)
      | _ \<Rightarrow> S)"

definition write_flight ::
    "('e, 's, 'w) replay_deps \<Rightarrow> nat \<Rightarrow> ('e, 's, 'w) run_state \<Rightarrow> ('e, 's, 'w) run_state" where
  "write_flight D i S =
     (case ru_flights S i of
        Some (Replied e r q m d rl) \<Rightarrow>
          (case record_answer D e q m d (fst (request_body r)) rl (ru_server S) (ru_store S) of
             (sp, s1, st1) \<Rightarrow> S\<lparr>ru_server := s1, ru_store := st1, ru_written := ru_written S @ [(nat (ask_Step q), sp)],
               ru_flights := (ru_flights S)(i := None)\<rparr>)
      | _ \<Rightarrow> S)"

fun run_event ::
    "('e, 's, 'w) replay_deps \<Rightarrow> 'e server_event \<Rightarrow> ('e, 's, 'w) run_state \<Rightarrow> ('e, 's, 'w) run_state" where
  "run_event D (Arrive e r) S = arrive D e r S"
| "run_event D (Answer i) S = answer_flight D i S"
| "run_event D (Write i) S = write_flight D i S"

definition run_events ::
    "('e, 's, 'w) replay_deps \<Rightarrow> 'e server_event list \<Rightarrow> ('e, 's, 'w) run_state \<Rightarrow> ('e, 's, 'w) run_state" where
  "run_events D evs S = fold (run_event D) evs S"

text \<open>The calls among the requests of a run, in the order they arrived.\<close>

definition arrived_calls :: "('e, 's, 'w) replay_deps \<Rightarrow> 'e server_event list \<Rightarrow> Asked list" where
  "arrived_calls D evs =
     List.map_filter (\<lambda>ev. case ev of Arrive e r \<Rightarrow> step_request D r | _ \<Rightarrow> None) evs"

text \<open>An agent that waits for each answer before it sends the next request.\<close>

fun one_at_a_time :: "nat \<Rightarrow> ('e replay_env \<times> path_request) list \<Rightarrow> 'e server_event list" where
  "one_at_a_time n [] = []"
| "one_at_a_time n ((e, r) # rs) = [Arrive e r, Answer n, Write n] @ one_at_a_time (Suc n) rs"

text \<open>One request whose handler runs alone is served as the handler of the server serves it.\<close>

lemma run_events_simps [simp]:
  "run_events D [] S = S" "run_events D (ev # evs) S = run_events D evs (run_event D ev S)"
  "run_events D (xs @ ys) S = run_events D ys (run_events D xs S)"
  by (simp_all add: run_events_def)

lemma one_request_alone:
  assumes "Server_ServeHTTP D e r (ru_server S) (ru_store S) (ru_world S) = (rl, sp, s', st', w')"
    and "ru_flights S (ru_arrived S) = None"
  shows "run_events D [Arrive e r, Answer (ru_arrived S), Write (ru_arrived S)] S =
    S\<lparr>ru_server := s', ru_store := st', ru_world := w', ru_arrived := Suc (ru_arrived S),
      ru_replies := (ru_replies S)(ru_arrived S \<mapsto> rl),
      ru_written := ru_written S @
        (if step_request D r \<noteq> None \<and> rl \<noteq> None then [(nat (tk_next (sv_tracker (ru_server S))), sp)] else [])\<rparr>"
proof (cases "step_request D r")
  case (Some q)
  let ?q = "q\<lparr>ask_Step := tk_next (sv_tracker (ru_server S))\<rparr>"
  from assms(1) have "handle D e r q (fst (request_body r)) (ru_server S) (ru_store S) (ru_world S) = (rl, sp, s', st', w')"
    by (simp add: serve_step [OF Some])
  then obtain m d s1 where dr: "decide_request (ru_server S) q = (?q, m, d, s1)"
    and an: "answer D s1 (ru_store S) r ?q m d (fst (request_body r)) (ru_world S) = (rl, w')"
    and rec: "case rl of None \<Rightarrow> sp = None \<and> s' = s1 \<and> st' = ru_store S
      | Some x \<Rightarrow> record_answer D e ?q m d (fst (request_body r)) x s1 (ru_store S) = (sp, s', st')"
    by (rule handle_cases)
  then show ?thesis
    using assms(2) Some
    by (cases rl) (auto simp: arrive_def answer_flight_def write_flight_def Let_def fun_upd_idem)
next
  case no_step: None
  show ?thesis
  proof (cases "protocol_request D r")
    case None
    then obtain x where x: "Server_ServeHTTP D e r (ru_server S) (ru_store S) (ru_world S)
        = (Some x, None, ru_server S, ru_store S, ru_world S)"
      using serve_other [OF no_step None] by blast
    then show ?thesis
      using assms no_step None by (auto simp: arrive_def answer_flight_def write_flight_def Let_def)
  next
    case (Some meth)
    then show ?thesis
      using assms no_step
      by (auto simp: arrive_def answer_flight_def write_flight_def Let_def serve_protocol serveProtocol_def fun_upd_idem
          split: prod.splits)
  qed
qed

section \<open>The driver\<close>

text \<open>
  \<open>dx\_lister\<close> is the lister that was given or else the live one; \<open>dx\_parse\<close> is the parsing of an
  upstream address.
\<close>

record driver =
  dx_Mode :: Mode
  dx_ModelUpstream :: string
  dx_LiveTools :: "string list"
  dx_Listen :: string
  dx_SkipDrift :: bool
  dx_lister :: lister
  dx_Outputs :: bool
  dx_Blobs :: bool
  dx_parse :: "string \<Rightarrow> string result"
  dx_redactor :: Redactor

text \<open>What one replay meets: the two openings of the recording, the clock and what fails.\<close>

record replay_setup =
  rx_Opened :: "scanner result"
  rx_Reopened :: "scanner result"
  rx_now :: time
  rx_OutputOpen :: "msg option"
  rx_OutputHeader :: failure
  rx_SplitHost :: "string \<Rightarrow> string result"
  rx_Bind :: "string \<Rightarrow> msg option"
  rx_Close :: "msg option"

definition driver_load :: "codec \<Rightarrow> replay_setup \<Rightarrow> string \<Rightarrow> (Header \<times> Index) result" where
  "driver_load J X session =
     bindR (rx_Opened X) (\<lambda>sc.
       case NewReader J sc of
         Inl e \<Rightarrow> Inl (Sprintf ''session %s: %w'' [AStr session, AErr e])
       | Inr rd \<Rightarrow>
           bindR (All J (rd_sc rd)) (\<lambda>spans.
           bindR (rx_Reopened X) (\<lambda>sc2.
           bindR (NewReader J sc2) (\<lambda>_. Inr (rd_header rd, NewIndex (rd_header rd) spans)))))"

definition listenLoopback :: "replay_setup \<Rightarrow> string \<Rightarrow> msg option" where
  "listenLoopback X addr =
     (case rx_SplitHost X addr of
        Inl e \<Rightarrow> Some (Sprintf ''listen address %q: %w'' [AStr addr, AErr e])
      | Inr host \<Rightarrow>
          if host \<in> {''127.0.0.1'', ''localhost'', ''::1'', []} then rx_Bind X addr
          else Some (Sprintf ''refusing to listen on %q: a replayer serves recorded production traffic, so it must stay on loopback'' [AStr addr]))"

definition driver_serve :: "driver \<Rightarrow> replay_setup \<Rightarrow> msg option" where
  "driver_serve v X = listenLoopback X (if dx_Listen v = [] then ''127.0.0.1:0'' else dx_Listen v)"

definition driver_config :: "driver \<Rightarrow> AgentManifestSpec \<Rightarrow> Index \<Rightarrow> Tracker \<Rightarrow> Output option \<Rightarrow> server_config" where
  "driver_config v spec idx tracker out =
     \<lparr> sf_Index = idx, sf_Policy = NewPolicy (dx_Mode v) (Some spec) (dx_LiveTools v), sf_Tracker = tracker,
       sf_ModelUpstream = dx_ModelUpstream v, sf_ToolUpstreams = [], sf_Output = out \<rparr>"

definition driver_tracker :: "driver \<Rightarrow> string \<Rightarrow> AgentManifestSpec \<Rightarrow> Index \<Rightarrow> Tracker result" where
  "driver_tracker v session spec idx =
     (let tracker = NewTracker idx (dx_Mode v) (BehaviorDigest spec) in
      if dx_SkipDrift v then Inr tracker
      else (case CheckDrift idx (dx_lister v) of
              Inl e \<Rightarrow> Inl (Sprintf ''checking contract drift for %s: %w'' [AStr session, AErr e])
            | Inr drift \<Rightarrow> Inr (AttachDrift (Some drift) tracker)))"

definition driver_output ::
    "('e, 's, 'w) replay_deps \<Rightarrow> driver \<Rightarrow> replay_setup \<Rightarrow> Header \<Rightarrow> string \<Rightarrow> ArmLabel \<Rightarrow> corpus_dir
     \<Rightarrow> Output option result \<times> corpus_dir" where
  "driver_output D v X h session arm dir =
     (if \<not> dx_Outputs v then (Inr None, dir)
      else (case NewOutput (rv_enc D) (dx_redactor v) (rx_OutputOpen X) (rx_OutputHeader X) (dx_Blobs v) (rx_now X)
                   h session arm dir of
              (Inl e, dir) \<Rightarrow> (Inl e, dir)
            | (Inr out, dir) \<Rightarrow> (Inr (Some out), dir)))"

text \<open>What the output cassette holds when the agent is done.\<close>

definition close_output :: "Server \<Rightarrow> corpus_dir \<Rightarrow> corpus_dir" where
  "close_output s dir =
     (case sv_output s of
        None \<Rightarrow> dir | Some out \<Rightarrow> AList.update (ou_name out) (cw_out (ou_writer out)) dir)"

text \<open>
  \<open>evs\<close> is what happens until the agent is done and the report is closed, \<open>late\<close> what the handlers still
  under way do until the output is: a call they observe still goes into the report that is returned.
\<close>

definition finish_run :: "('e, 's, 'w) run_state \<Rightarrow> ('e, 's, 'w) run_state" where
  "finish_run S = S\<lparr>ru_server := snd (Server_Finish (ru_server S))\<rparr>"

definition Driver_Replay ::
    "('e, 's, 'w) replay_deps \<Rightarrow> codec \<Rightarrow> driver \<Rightarrow> replay_setup \<Rightarrow> 'e server_event list \<Rightarrow> 'e server_event list
     \<Rightarrow> string \<Rightarrow> AgentManifestSpec \<Rightarrow> ArmLabel \<Rightarrow> corpus_dir \<Rightarrow> 's \<Rightarrow> 'w
     \<Rightarrow> Report result \<times> corpus_dir \<times> 's \<times> 'w" where
  "Driver_Replay D J v X evs late session spec arm dir st w =
     (case driver_load J X session of
        Inl e \<Rightarrow> (Inl e, dir, st, w)
      | Inr (h, idx) \<Rightarrow>
          (case driver_tracker v session spec idx of
             Inl e \<Rightarrow> (Inl e, dir, st, w)
           | Inr tracker \<Rightarrow>
               (case driver_output D v X h session arm dir of
                  (Inl e, dir) \<Rightarrow> (Inl e, dir, st, w)
                | (Inr out, dir) \<Rightarrow>
                    (case NewServer (dx_parse v) (driver_config v spec idx tracker out) of
                       Inl e \<Rightarrow> (Inl e, dir, st, w)
                     | Inr s \<Rightarrow>
                         (case driver_serve v X of
                            Some e \<Rightarrow> (Inl e, dir, st, w)
                          | None \<Rightarrow>
                              (let S = run_events D late (finish_run (run_events D evs (start_run s st w)));
                                   dir = close_output (ru_server S) dir
                               in case (if out = None then None else rx_Close X) of
                                    Some e \<Rightarrow>
                                      (Inl (Sprintf ''closing the replay output for %s: %w'' [AStr session, AErr e]),
                                       dir, ru_store S, ru_world S)
                                  | None \<Rightarrow> (Inr (tk_report (sv_tracker (ru_server S))), dir, ru_store S, ru_world S)))))))"

section \<open>Summaries\<close>

record Summary =
  sm_Sessions :: int
  sm_Diverged :: int
  sm_Stale :: int
  sm_Unusable :: int
  sm_Refused :: int
  sm_NoOps :: int

definition summarise_one :: "Report \<Rightarrow> Summary \<Rightarrow> Summary" where
  "summarise_one r s =
     s\<lparr>sm_Diverged := sm_Diverged s + (if Diverged r then 1 else 0),
       sm_Stale := sm_Stale s + (if (case rp_Drift r of Some d \<Rightarrow> Stale d | None \<Rightarrow> False) then 1 else 0),
       sm_Unusable := sm_Unusable s + (if fst (Usable r) then 0 else 1),
       sm_Refused := sm_Refused s + rp_Refused r, sm_NoOps := sm_NoOps s + rp_NoOps r\<rparr>"

definition summarise :: "Report list \<Rightarrow> Summary" where
  "summarise rs =
     fold summarise_one rs
       \<lparr> sm_Sessions = int (length rs), sm_Diverged = 0, sm_Stale = 0, sm_Unusable = 0, sm_Refused = 0, sm_NoOps = 0 \<rparr>"

definition Replay_ExitCode :: "Report list \<Rightarrow> int" where
  "Replay_ExitCode rs =
     (let s = summarise rs in
      if sm_Sessions s = 0 then ExitUsage
      else if sm_Unusable s = sm_Sessions s then 3
      else if 0 < sm_Diverged s then 2
      else 0)"

section \<open>What an event changes\<close>

fun flight_call :: "'e flight \<Rightarrow> (Asked \<times> Match \<times> Decision) option" where
  "flight_call (Decided e r q m d) = Some (q, m, d)"
| "flight_call (Replied e r q m d rl) = Some (q, m, d)"
| "flight_call (Chatting r meth found) = None"

text \<open>The calls under way: decided and not yet written.\<close>

definition call_at :: "('e, 's, 'w) run_state \<Rightarrow> nat \<Rightarrow> (Asked \<times> Match \<times> Decision) option" where
  "call_at S i = Option.bind (ru_flights S i) flight_call"

lemma bind_Replied [simp]:
  "Option.bind (map_option (Replied e r q m d) rl) flight_call = (if rl = None then None else Some (q, m, d))"
  by (cases rl) simp_all

definition steps_after :: "Server \<Rightarrow> Step list" where
  "steps_after s = rp_Steps (tk_report (sv_tracker s))"

definition step_of :: "Asked \<Rightarrow> Match \<Rightarrow> Decision \<Rightarrow> Step" where
  "step_of q m d =
     \<lparr> sp_Index = ask_Step q, sp_Kind = ask_Kind q, sp_Tool = ask_Tool q, sp_Hash = ask_Hash q,
       sp_ArgsHash = ask_ArgsHash q, sp_Match = mt_Kind m, sp_Decision = d \<rparr>"

text \<open>
  An event observes a new call, changes nothing but replies and flights, or writes a call that is under way.
\<close>

definition calls_of :: "('e, 's, 'w) replay_deps \<Rightarrow> 'e server_event \<Rightarrow> Asked option" where
  "calls_of D ev = (case ev of Arrive e r \<Rightarrow> step_request D r | _ \<Rightarrow> None)"

lemma run_event_cases:
  fixes D :: "('e, 's, 'w) replay_deps"
  obtains (observed) q m d where "calls_of D ev = Some q"
      "sv_tracker (ru_server (run_event D ev S)) = Observe (q\<lparr>ask_Step := tk_next (sv_tracker (ru_server S))\<rparr>) m d (sv_tracker (ru_server S))"
      "sv_output (ru_server (run_event D ev S)) = sv_output (ru_server S)"
      "call_at (run_event D ev S) =
        (call_at S)(ru_arrived S \<mapsto> (q\<lparr>ask_Step := tk_next (sv_tracker (ru_server S))\<rparr>, m, d))"
      "ru_arrived (run_event D ev S) = Suc (ru_arrived S)" "ru_written (run_event D ev S) = ru_written S"
      "ask_Kind q = KindTool \<or> ask_Kind q = KindModel"
  | (quiet) "calls_of D ev = None" "sv_tracker (ru_server (run_event D ev S)) = sv_tracker (ru_server S)"
      "sv_output (ru_server (run_event D ev S)) = sv_output (ru_server S)"
      "call_at (run_event D ev S) \<subseteq>\<^sub>m call_at S" "ru_arrived S \<le> ru_arrived (run_event D ev S)"
      "ru_written (run_event D ev S) = ru_written S"
  | (written) i q m d sp where "calls_of D ev = None" "call_at S i = Some (q, m, d)"
      "sv_tracker (ru_server (run_event D ev S)) = sv_tracker (ru_server S)"
      "call_at (run_event D ev S) = (call_at S)(i := None)" "ru_arrived (run_event D ev S) = ru_arrived S"
      "ru_written (run_event D ev S) = ru_written S @ [(nat (ask_Step q), sp)]"
      "\<And>out. sv_output (ru_server S) = Some out \<Longrightarrow>
        (\<exists>out' x (e :: 'e replay_env) st'. sv_output (ru_server (run_event D ev S)) = Some out' \<and> xc_Match x = mt_Kind m \<and>
           Output_Write (rv_enc D) (rv_span D) (ry_io e) (rv_put D) (ry_put e) q d x out (ru_store S) = (sp, out', st'))"
proof (cases ev)
  case (Arrive e r)
  show ?thesis
  proof (cases "step_request D r")
    case (Some q)
    obtain q' m d s1 where dr: "decide_request (ru_server S) q = (q', m, d, s1)" by (metis prod_cases4)
    note fr = decide_request_frame [OF dr]
    show ?thesis
      by (rule observed [of q m d])
        (use Some dr fr step_request_kind [OF Some] in
          \<open>auto simp: Arrive arrive_def Let_def calls_of_def call_at_def fun_eq_iff\<close>)
  next
    case no_step: None
    show ?thesis
    proof (cases "protocol_request D r")
      case None
      show ?thesis
        by (rule quiet) (auto simp: Arrive arrive_def Let_def calls_of_def no_step None call_at_def map_le_def)
    next
      case (Some meth)
      obtain found s1 where p: "protocolSpan meth (ru_server S) = (found, s1)" by (metis prod.collapse)
      note fr = protocolSpan_frame [OF p]
      show ?thesis
        by (rule quiet) (use fr in \<open>auto simp: Arrive arrive_def Let_def calls_of_def no_step Some p call_at_def map_le_def\<close>)
    qed
  qed
next
  case (Answer i)
  show ?thesis
    by (rule quiet)
      (auto simp: Answer answer_flight_def calls_of_def call_at_def map_le_def dom_def split: option.splits flight.splits prod.splits if_splits)
next
  case (Write i)
  show ?thesis
  proof (cases "\<exists>e r q m d rl. ru_flights S i = Some (Replied e r q m d rl)")
    case True
    then obtain e r q m d rl where f: "ru_flights S i = Some (Replied e r q m d rl)" by blast
    obtain sp s1 st1 where w: "record_answer D e q m d (fst (request_body r)) rl (ru_server S) (ru_store S) = (sp, s1, st1)"
      by (metis prod_cases3)
    note fr = record_answer_frame [OF w]
    have out: "\<exists>out' x (e :: 'e replay_env) st'. sv_output s1 = Some out' \<and> xc_Match x = mt_Kind m \<and>
        Output_Write (rv_enc D) (rv_span D) (ry_io e) (rv_put D) (ry_put e) q d x out (ru_store S) = (sp, out', st')"
      if "sv_output (ru_server S) = Some out" for out
    proof -
      let ?x = "\<lparr> xc_Request = fst (request_body r), xc_Response = capture_reply rl, xc_Status = rl_Status rl,
          xc_Match = mt_Kind m, xc_Start = ry_start e, xc_End = ry_end e \<rparr>"
      note some = that
      obtain out' where "sv_output s1 = Some out'"
        "Output_Write (rv_enc D) (rv_span D) (ry_io e) (rv_put D) (ry_put e) q d ?x out (ru_store S) = (sp, out', st1)"
        using w some by (auto simp: record_answer_def split: prod.splits)
      moreover have "xc_Match ?x = mt_Kind m" by simp
      ultimately show ?thesis by blast
    qed
    show ?thesis
      by (rule written [of i q m d sp])
        (use f w fr out in \<open>auto simp: Write write_flight_def calls_of_def call_at_def fun_eq_iff\<close>)
  next
    case False
    then have "run_event D ev S = S" by (auto simp: Write write_flight_def split: option.splits flight.splits)
    then show ?thesis by (intro quiet) (auto simp: Write calls_of_def)
  qed
qed

lemma run_event_frame:
  "sv_policy (ru_server (run_event D ev S)) = sv_policy (ru_server S) \<and>
   sv_toolUpstreams (ru_server (run_event D ev S)) = sv_toolUpstreams (ru_server S)"
proof (cases ev)
  case (Arrive e r)
  obtain q' m d s1 where dr: "decide_request (ru_server S) (the (step_request D r)) = (q', m, d, s1)" by (metis prod_cases4)
  obtain found s2 where p: "protocolSpan (the (protocol_request D r)) (ru_server S) = (found, s2)" by (metis prod.collapse)
  show ?thesis
    using decide_request_frame [OF dr] protocolSpan_frame [OF p] dr p
    by (auto simp: Arrive arrive_def Let_def split: option.splits)
next
  case (Answer i)
  then show ?thesis by (simp add: answer_flight_def split: option.splits flight.splits prod.splits)
next
  case (Write i)
  then show ?thesis
    by (auto simp: write_flight_def record_answer_frame split: option.splits flight.splits prod.splits)
qed

lemma run_events_frame:
  "sv_policy (ru_server (run_events D evs S)) = sv_policy (ru_server S) \<and>
   sv_toolUpstreams (ru_server (run_events D evs S)) = sv_toolUpstreams (ru_server S)"
  by (induction evs arbitrary: S) (simp_all add: run_event_frame)

lemma arrived_calls_simps [simp]:
  "arrived_calls D [] = []"
  "arrived_calls D (ev # evs) = (case calls_of D ev of None \<Rightarrow> [] | Some q \<Rightarrow> [q]) @ arrived_calls D evs"
  by (simp_all add: arrived_calls_def calls_of_def List.map_filter_def split: option.split server_event.split)

definition asked_of :: "Asked \<times> Match \<times> Decision \<Rightarrow> Asked" where
  "asked_of x = (fst x)\<lparr>ask_Step := 0\<rparr>"

lemma asked_of_call [simp]: "asked_of (q, m, d) = q\<lparr>ask_Step := 0\<rparr>"
  by (simp add: asked_of_def)

lemma step_request_fresh: "calls_of D ev = Some q \<Longrightarrow> q\<lparr>ask_Step := 0\<rparr> = q"
  by (auto simp: calls_of_def step_request_def Let_def split: if_splits server_event.splits)

text \<open>The tracker sees exactly the calls that arrive, in that order.\<close>

lemma run_events_tracker:
  "\<exists>xs. sv_tracker (ru_server (run_events D evs S)) = observe_all xs (sv_tracker (ru_server S)) \<and>
     map asked_of xs = arrived_calls D evs"
proof (induction evs arbitrary: S)
  case (Cons ev evs)
  obtain xs where xs: "sv_tracker (ru_server (run_events D evs (run_event D ev S)))
      = observe_all xs (sv_tracker (ru_server (run_event D ev S)))"
    "map asked_of xs = arrived_calls D evs" using Cons.IH by blast
  show ?case
  proof (cases rule: run_event_cases [where D = D and ev = ev and S = S])
    case (observed q m d)
    show ?thesis
      using xs observed(1,2) step_request_fresh [OF observed(1)]
      by (intro exI [of _ "(q\<lparr>ask_Step := tk_next (sv_tracker (ru_server S))\<rparr>, m, d) # xs"])
        (simp add: observe_all_def)
  next
    case quiet
    then show ?thesis using xs by (intro exI [of _ xs]) simp
  next
    case (written i q m d sp)
    then show ?thesis using xs by (intro exI [of _ xs]) simp
  qed
qed (auto simp: observe_all_def)

section \<open>What a written span keeps\<close>

lemma WriteSpan_attr:
  assumes "WriteSpan E io pt e s w st = (None, s', w', st')" and "StepIndex s \<noteq> None"
    and "k \<notin> {AttrRequestBody, AttrRequestRef, AttrRequestBytes, AttrResponseBody, AttrResponseRef,
      AttrResponseBytes, AttrRedacted, AttrKind, AttrSchemaVersion}"
  shows "map_of (span_Attributes s') k = map_of (span_Attributes s) k \<and> span_Kind s' = span_Kind s"
  using assms(1)
proof (rule WriteSpan_None)
  fix s1 w1 a st1 a' line
  assume n: "number_span (label_span s) w = (s1, w1)"
    and req: "handlePayload w1 (pt (e AttrRequestBody)) AttrRequestBody AttrRequestRef AttrRequestBytes
           (span_Attributes s1) st = (None, a, st1)"
    and resp: "handlePayload w1 (pt (e AttrResponseBody)) AttrResponseBody AttrResponseRef AttrResponseBytes a st1
           = (None, a', st')"
    and s': "s' = s1\<lparr>span_Attributes := a'\<rparr>"
  have "StepIndex (label_span s) = StepIndex s" by (simp add: StepIndex_def label_span_def attribute_updates)
  then have s1: "s1 = label_span s" using n assms(2) by (auto simp: number_span_def)
  have "map_of a' k = map_of (span_Attributes (label_span s)) k"
    using handlePayload_frame [OF req] handlePayload_frame [OF resp] assms(3) s1 by simp
  then show ?thesis using s' s1 assms(3) by (simp add: label_span_def attribute_updates)
qed

section \<open>The output cassette and the report\<close>

definition recorded_as :: "Step \<Rightarrow> Span \<Rightarrow> bool" where
  "recorded_as x sp =
     (StepIndex sp = Some (sp_Index x) \<and> span_Kind sp = sp_Kind x \<and> span_String sp AttrToolName = sp_Tool x \<and>
      RequestHash sp = sp_Hash x \<and> span_String sp AttrReplayAction = Action_string (dc_Action (sp_Decision x)) \<and>
      span_String sp AttrReplayMatch = MatchKind_string (sp_Match x))"

lemmas output_attr_defs = attr_defs AttrReplayAction_def AttrReplayReason_def AttrReplayMatch_def

lemma output_attributes_values:
  "map_of (output_attributes V n req d x) AttrStepIndex = Some (JInt n)"
  "map_of (output_attributes V n req d x) AttrRequestHash = Some (JStr (ask_Hash req))"
  "map_of (output_attributes V n req d x) AttrReplayAction = Some (JStr (Action_string (dc_Action d)))"
  "map_of (output_attributes V n req d x) AttrReplayMatch = Some (JStr (MatchKind_string (xc_Match x)))"
  by (simp_all add: output_attributes_def map_of_set_if output_attr_defs)

lemma output_attributes_tool:
  "map_of (output_attributes V n req d x) AttrToolName =
     (if ask_Tool req = [] then None else Some (JStr (ask_Tool req)))"
proof (cases "ask_Tool req = []")
  case True
  then show ?thesis by (simp add: output_attributes_def map_of_set_if output_attr_defs) (simp add: set_if_def)
next
  case False
  then have "map_of (output_attributes V n req d x) AttrToolName =
      map_of (set_if True AttrToolName (JStr (ask_Tool req)) a) AttrToolName" for a
    by (simp add: output_attributes_def map_of_set_if output_attr_defs) (simp add: set_if_def update_conv')
  then show ?thesis using False by (simp add: set_if_def update_conv')
qed

text \<open>The keys the writer leaves as they are.\<close>

lemma report_keys:
  "k \<in> {AttrStepIndex, AttrRequestHash, AttrReplayAction, AttrReplayMatch, AttrToolName} \<Longrightarrow>
     k \<notin> {AttrRequestBody, AttrRequestRef, AttrRequestBytes, AttrResponseBody, AttrResponseRef,
       AttrResponseBytes, AttrRedacted, AttrKind, AttrSchemaVersion}"
  by (auto simp: AttrRequestBody_def AttrRequestRef_def AttrRequestBytes_def AttrResponseBody_def AttrResponseRef_def
      AttrResponseBytes_def AttrRedacted_def AttrKind_def AttrSchemaVersion_def AttrStepIndex_def AttrRequestHash_def
      AttrReplayAction_def AttrReplayMatch_def AttrToolName_def)

lemma Output_Write_recorded:
  assumes "Output_Write E V io pt pe req d x out st = (Some sp, out', st')"
    and "ask_Kind req = KindTool \<or> ask_Kind req = KindModel"
  shows "recorded_as \<lparr> sp_Index = ou_step out, sp_Kind = ask_Kind req, sp_Tool = ask_Tool req, sp_Hash = ask_Hash req,
      sp_ArgsHash = a, sp_Match = xc_Match x, sp_Decision = d \<rparr> sp"
proof -
  let ?s = "output_span V (ou_step out) req d x"
  obtain cw where w: "WriteSpan E io pt pe ?s (ou_writer out) st = (None, sp, cw, st')"
    using assms(1) by (auto simp: Output_Write_def split: prod.splits if_splits)
  have at: "span_Attributes ?s = output_attributes V (ou_step out) req d x"
    and k: "span_Kind ?s = ask_Kind req" using assms(2) by (auto simp: output_span_def)
  have "StepIndex ?s \<noteq> None" by (simp add: StepIndex_def at output_attributes_values)
  from WriteSpan_attr [OF w this report_keys]
  have keep: "map_of (span_Attributes sp) k = map_of (output_attributes V (ou_step out) req d x) k \<and> span_Kind sp = ask_Kind req"
    if "k \<in> {AttrStepIndex, AttrRequestHash, AttrReplayAction, AttrReplayMatch, AttrToolName}" for k
    using that at k by simp
  show ?thesis
    using keep [of AttrStepIndex] keep [of AttrRequestHash] keep [of AttrReplayAction] keep [of AttrReplayMatch]
      keep [of AttrToolName]
    by (simp add: recorded_as_def StepIndex_def span_String_def RequestHash_def jfield_def lookup_or_def
        output_attributes_values output_attributes_tool)
qed

lemma ou_step_Write: "Output_Write E V io pt pe req d x out st = (sp, out', st') \<Longrightarrow> ou_step out' = ou_step out + 1"
  by (auto simp: Output_Write_def split: prod.splits)

text \<open>
  What holds of a run that began fresh: the tracker has numbered its steps, the output has counted its
  writes, every call under way is one step of the report that is not written yet, no step is written
  twice, and a span that could be written tells of its step, under the number of its write.
\<close>

definition calls_ok ::
    "Step list \<Rightarrow> nat \<Rightarrow> (nat \<Rightarrow> (Asked \<times> Match \<times> Decision) option) \<Rightarrow> nat list \<Rightarrow> bool" where
  "calls_ok steps n calls written \<longleftrightarrow>
     (\<forall>i \<ge> n. calls i = None) \<and>
     (\<forall>i q m d. calls i = Some (q, m, d) \<longrightarrow>
        0 \<le> ask_Step q \<and> nat (ask_Step q) < length steps \<and> nat (ask_Step q) \<notin> set written \<and>
        steps ! nat (ask_Step q) = step_of q m d \<and> (ask_Kind q = KindTool \<or> ask_Kind q = KindModel)) \<and>
     (\<forall>i j q m d q' m' d'. calls i = Some (q, m, d) \<longrightarrow> calls j = Some (q', m', d') \<longrightarrow>
        ask_Step q = ask_Step q' \<longrightarrow> i = j)"

definition written_ok :: "Step list \<Rightarrow> (nat \<times> Span option) list \<Rightarrow> bool" where
  "written_ok steps ws \<longleftrightarrow>
     distinct (map fst ws) \<and> fst ` set ws \<subseteq> {..<length steps} \<and>
     (\<forall>k n sp. k < length ws \<longrightarrow> ws ! k = (n, Some sp) \<longrightarrow> recorded_as ((steps ! n)\<lparr>sp_Index := int k\<rparr>) sp)"

definition consistent :: "('e, 's, 'w) run_state \<Rightarrow> bool" where
  "consistent S \<longleftrightarrow>
     tk_next (sv_tracker (ru_server S)) = int (length (steps_after (ru_server S))) \<and>
     (\<exists>out. sv_output (ru_server S) = Some out \<and> ou_step out = int (length (ru_written S))) \<and>
     calls_ok (steps_after (ru_server S)) (ru_arrived S) (call_at S) (map fst (ru_written S)) \<and>
     written_ok (steps_after (ru_server S)) (ru_written S)"

lemma calls_okD:
  assumes "calls_ok steps n calls written" and "calls i = Some (q, m, d)"
  shows "0 \<le> ask_Step q" "nat (ask_Step q) < length steps" "nat (ask_Step q) \<notin> set written"
    "steps ! nat (ask_Step q) = step_of q m d" "ask_Kind q = KindTool \<or> ask_Kind q = KindModel"
    "calls j = Some (q', m', d') \<Longrightarrow> ask_Step q = ask_Step q' \<Longrightarrow> i = j"
  using assms unfolding calls_ok_def by blast+

lemma calls_ok_observe:
  assumes ok: "calls_ok steps n calls written" and step: "ask_Step q = int (length steps)"
    and "set written \<subseteq> {..<length steps}" and "ask_Kind q = KindTool \<or> ask_Kind q = KindModel"
  shows "calls_ok (steps @ [step_of q m d]) (Suc n) (calls(n \<mapsto> (q, m, d))) written"
  unfolding calls_ok_def
proof (intro conjI allI impI)
  fix i q' m' d'
  assume c: "(calls(n \<mapsto> (q, m, d))) i = Some (q', m', d')"
  have "0 \<le> ask_Step q' \<and> nat (ask_Step q') < length (steps @ [step_of q m d]) \<and> nat (ask_Step q') \<notin> set written \<and>
      (steps @ [step_of q m d]) ! nat (ask_Step q') = step_of q' m' d' \<and> (ask_Kind q' = KindTool \<or> ask_Kind q' = KindModel)"
  proof (cases "i = n")
    case True
    then show ?thesis using c assms by auto
  next
    case False
    then have "calls i = Some (q', m', d')" using c by simp
    from calls_okD [OF ok this] show ?thesis by (simp add: nth_append)
  qed
  then show "0 \<le> ask_Step q'" "nat (ask_Step q') < length (steps @ [step_of q m d])" "nat (ask_Step q') \<notin> set written"
      "(steps @ [step_of q m d]) ! nat (ask_Step q') = step_of q' m' d'" "ask_Kind q' = KindTool \<or> ask_Kind q' = KindModel"
    by simp_all
  fix j q'' m'' d''
  assume c': "(calls(n \<mapsto> (q, m, d))) j = Some (q'', m'', d'')" and eq: "ask_Step q' = ask_Step q''"
  have old: "ask_Step x \<noteq> int (length steps)" if "calls l = Some (x, y, z)" for l x y z
    using calls_okD(1,2) [OF ok that] by linarith
  show "i = j"
    using c c' eq step old calls_okD(6) [OF ok] by (auto split: if_splits)
qed (use ok in \<open>simp add: calls_ok_def\<close>)

lemma calls_ok_quiet:
  assumes ok: "calls_ok steps n calls written" and "calls' \<subseteq>\<^sub>m calls" and "n \<le> n'"
  shows "calls_ok steps n' calls' written"
  unfolding calls_ok_def
proof (intro conjI allI impI)
  have sub: "calls i = Some x" if "calls' i = Some x" for i x
    using assms(2) that unfolding map_le_def by (metis domI)
  show "calls' i = None" if "n' \<le> i" for i
  proof (rule ccontr)
    assume "calls' i \<noteq> None"
    then obtain x where "calls i = Some x" using sub by blast
    moreover have "calls i = None" using ok assms(3) that unfolding calls_ok_def by simp
    ultimately show False by simp
  qed
  fix i q m d
  assume c: "calls' i = Some (q, m, d)"
  note old = calls_okD [OF ok sub [OF c]]
  show "0 \<le> ask_Step q" "nat (ask_Step q) < length steps" "nat (ask_Step q) \<notin> set written"
    "steps ! nat (ask_Step q) = step_of q m d" "ask_Kind q = KindTool \<or> ask_Kind q = KindModel"
    by (rule old)+
  show "i = j" if "calls' j = Some (q', m', d')" "ask_Step q = ask_Step q'" for j q' m' d'
    by (rule old(6) [OF sub [OF that(1)] that(2)])
qed

lemma calls_ok_written:
  assumes "calls_ok steps n calls written" and "calls i = Some (q, m, d)"
  shows "calls_ok steps n (calls(i := None)) (written @ [nat (ask_Step q)])"
proof -
  have other: "nat (ask_Step q') \<noteq> nat (ask_Step q)" if "calls j = Some (q', m', d')" "j \<noteq> i" for j q' m' d'
  proof
    assume "nat (ask_Step q') = nat (ask_Step q)"
    moreover have "0 \<le> ask_Step q'" "0 \<le> ask_Step q" using assms that(1) unfolding calls_ok_def by blast+
    ultimately have "ask_Step q' = ask_Step q" by simp
    then show False using assms that unfolding calls_ok_def by blast
  qed
  show ?thesis
    unfolding calls_ok_def
  proof (intro conjI allI impI)
    fix j q' m' d'
    assume "(calls(i := None)) j = Some (q', m', d')"
    then have j: "calls j = Some (q', m', d')" "j \<noteq> i" by (auto split: if_splits)
    have old: "0 \<le> ask_Step q' \<and> nat (ask_Step q') < length steps \<and> nat (ask_Step q') \<notin> set written \<and>
        steps ! nat (ask_Step q') = step_of q' m' d' \<and> (ask_Kind q' = KindTool \<or> ask_Kind q' = KindModel)"
      using assms(1) j(1) unfolding calls_ok_def by blast
    show "0 \<le> ask_Step q'" "nat (ask_Step q') < length steps" "steps ! nat (ask_Step q') = step_of q' m' d'"
      "ask_Kind q' = KindTool \<or> ask_Kind q' = KindModel" using old by simp_all
    show "nat (ask_Step q') \<notin> set (written @ [nat (ask_Step q)])" using old other [OF j] by simp
  qed (use assms(1) in \<open>auto simp: calls_ok_def split: if_splits\<close>)
qed

lemma written_ok_observe: "written_ok steps ws \<Longrightarrow> written_ok (steps @ [x]) ws"
proof -
  assume w: "written_ok steps ws"
  have "n < length steps" if "k < length ws" "ws ! k = (n, sp)" for k n sp
    using w that unfolding written_ok_def by (metis fst_conv image_subset_iff lessThan_iff nth_mem)
  then show ?thesis using w unfolding written_ok_def by (auto simp: nth_append)
qed

lemma written_ok_snoc:
  assumes "written_ok steps ws" and "n < length steps" and "n \<notin> fst ` set ws"
    and "\<And>y. sp = Some y \<Longrightarrow> recorded_as ((steps ! n)\<lparr>sp_Index := int (length ws)\<rparr>) y"
  shows "written_ok steps (ws @ [(n, sp)])"
proof -
  have "recorded_as ((steps ! n')\<lparr>sp_Index := int k\<rparr>) y"
    if "k < length (ws @ [(n, sp)])" "(ws @ [(n, sp)]) ! k = (n', Some y)" for k n' y
  proof (cases "k < length ws")
    case True
    then show ?thesis using assms(1) that by (simp add: written_ok_def nth_append)
  next
    case False
    then have "k = length ws" using that(1) by simp
    then show ?thesis using assms(4) that(2) by simp
  qed
  then show ?thesis using assms(1-3) unfolding written_ok_def by (intro conjI allI impI) auto
qed

lemma steps_after_Observe:
  "sv_tracker s' = Observe q m d (sv_tracker s) \<Longrightarrow> ask_Step q = tk_next (sv_tracker s) \<Longrightarrow>
     steps_after s' = steps_after s @ [step_of q m d] \<and> tk_next (sv_tracker s') = tk_next (sv_tracker s) + 1"
  by (simp add: steps_after_def Observe_def step_of_def Let_def split: Action.splits)

lemma run_event_consistent:
  fixes D :: "('e, 's, 'w) replay_deps"
  assumes "consistent S"
  shows "consistent (run_event D ev S)"
proof (cases rule: run_event_cases [where D = D and ev = ev and S = S])
  case (observed q m d)
  let ?q = "q\<lparr>ask_Step := tk_next (sv_tracker (ru_server S))\<rparr>"
  have st: "steps_after (ru_server (run_event D ev S)) = steps_after (ru_server S) @ [step_of ?q m d]"
    "tk_next (sv_tracker (ru_server (run_event D ev S))) = tk_next (sv_tracker (ru_server S)) + 1"
    using steps_after_Observe [OF observed(2)] by simp_all
  show ?thesis
    using assms calls_ok_observe [of "steps_after (ru_server S)" "ru_arrived S" "call_at S" "map fst (ru_written S)" ?q m d]
      written_ok_observe [of "steps_after (ru_server S)" "ru_written S" "step_of ?q m d"] observed(7)
    unfolding consistent_def st observed(3-6) by (simp add: written_ok_def)
next
  case quiet
  then have "steps_after (ru_server (run_event D ev S)) = steps_after (ru_server S)" by (simp add: steps_after_def)
  then show ?thesis using assms quiet calls_ok_quiet unfolding consistent_def by metis
next
  case (written i q m d sp)
  then have st: "steps_after (ru_server (run_event D ev S)) = steps_after (ru_server S)" by (simp add: steps_after_def)
  from assms have c: "calls_ok (steps_after (ru_server S)) (ru_arrived S) (call_at S) (map fst (ru_written S))"
    and w: "written_ok (steps_after (ru_server S)) (ru_written S)" by (simp_all add: consistent_def)
  from assms obtain out where out: "sv_output (ru_server S) = Some out" "ou_step out = int (length (ru_written S))"
    by (auto simp: consistent_def)
  obtain out' x and e :: "'e replay_env" and st' where out': "sv_output (ru_server (run_event D ev S)) = Some out'" "xc_Match x = mt_Kind m"
    and run: "Output_Write (rv_enc D) (rv_span D) (ry_io e) (rv_put D) (ry_put e) q d x out (ru_store S) = (sp, out', st')"
    using written(7) [OF out(1)] by blast
  have q: "nat (ask_Step q) < length (steps_after (ru_server S))" "nat (ask_Step q) \<notin> fst ` set (ru_written S)"
    "steps_after (ru_server S) ! nat (ask_Step q) = step_of q m d" "ask_Kind q = KindTool \<or> ask_Kind q = KindModel"
    using c written(2) unfolding calls_ok_def by auto
  have rec: "recorded_as ((steps_after (ru_server S) ! nat (ask_Step q))\<lparr>sp_Index := int (length (ru_written S))\<rparr>) y"
    if "sp = Some y" for y
    using Output_Write_recorded [OF run [unfolded that] q(4), of "ask_ArgsHash q"] out(2) out'(2)
    by (simp add: q(3) step_of_def)
  have "calls_ok (steps_after (ru_server S)) (ru_arrived S) ((call_at S)(i := None))
      (map fst (ru_written S) @ [nat (ask_Step q)])" by (rule calls_ok_written [OF c written(2)])
  moreover have "written_ok (steps_after (ru_server S)) (ru_written S @ [(nat (ask_Step q), sp)])"
    by (rule written_ok_snoc [OF w q(1,2) rec])
  moreover have "ou_step out' = int (length (ru_written S)) + 1" using ou_step_Write [OF run] out(2) by simp
  ultimately show ?thesis using assms out'(1) unfolding consistent_def st written(3-6) by simp
qed

lemma run_events_consistent: "consistent S \<Longrightarrow> consistent (run_events D evs S)"
  by (induction evs arbitrary: S) (simp_all add: run_event_consistent)

definition asks :: "Step \<Rightarrow> Asked \<Rightarrow> bool" where
  "asks x q = (sp_Kind x = ask_Kind q \<and> sp_Tool x = ask_Tool q \<and> sp_Hash x = ask_Hash q \<and> sp_ArgsHash x = ask_ArgsHash q)"

lemma asks_step_of [simp]: "asks (step_of q m d) q' \<longleftrightarrow>
    ask_Kind q = ask_Kind q' \<and> ask_Tool q = ask_Tool q' \<and> ask_Hash q = ask_Hash q' \<and> ask_ArgsHash q = ask_ArgsHash q'"
  by (simp add: asks_def step_of_def)

lemma run_events_asks:
  "tk_next (sv_tracker (ru_server S)) = int (length (steps_after (ru_server S))) \<Longrightarrow>
   \<exists>new. steps_after (ru_server (run_events D evs S)) = steps_after (ru_server S) @ new \<and>
     list_all2 asks new (arrived_calls D evs) \<and>
     map sp_Index new = map (\<lambda>i. int (length (steps_after (ru_server S)) + i)) [0..<length new]"
proof (induction evs arbitrary: S)
  case (Cons ev evs)
  let ?S = "run_event D ev S"
  have same: ?case if "steps_after (ru_server ?S) = steps_after (ru_server S)" "calls_of D ev = None"
    "tk_next (sv_tracker (ru_server ?S)) = tk_next (sv_tracker (ru_server S))"
    using Cons.IH [of ?S] Cons.prems that by simp
  show ?case
  proof (cases rule: run_event_cases [where D = D and ev = ev and S = S])
    case (observed q m d)
    let ?q = "q\<lparr>ask_Step := tk_next (sv_tracker (ru_server S))\<rparr>"
    have st: "steps_after (ru_server ?S) = steps_after (ru_server S) @ [step_of ?q m d]"
      "tk_next (sv_tracker (ru_server ?S)) = tk_next (sv_tracker (ru_server S)) + 1"
      using steps_after_Observe [OF observed(2)] by simp_all
    obtain new where new: "steps_after (ru_server (run_events D evs ?S)) = steps_after (ru_server ?S) @ new"
      "list_all2 asks new (arrived_calls D evs)"
      "map sp_Index new = map (\<lambda>i. int (length (steps_after (ru_server ?S)) + i)) [0..<length new]"
      using Cons.IH [of ?S] Cons.prems st by auto
    have "map sp_Index (step_of ?q m d # new) =
        map (\<lambda>i. int (length (steps_after (ru_server S)) + i)) [0..<length (step_of ?q m d # new)]"
      using new(3) Cons.prems st(1)
      by (simp add: upt_conv_Cons map_Suc_upt [symmetric] comp_def step_of_def del: upt_Suc)
    then show ?thesis
      using new st(1) observed(1)
      by (intro exI [of _ "step_of ?q m d # new"]) simp
  next
    case quiet
    then show ?thesis by (intro same) (simp_all add: steps_after_def)
  next
    case (written i q m d sp)
    then show ?thesis by (intro same) (simp_all add: steps_after_def)
  qed
qed simp

text \<open>No call is lost: its step is written, or its handler is under way, or a handler panicked.\<close>

definition settled :: "('e, 's, 'w) run_state \<Rightarrow> bool" where
  "settled S \<longleftrightarrow>
     (\<forall>i \<ge> ru_arrived S. ru_flights S i = None \<and> ru_replies S i = None) \<and>
     (\<forall>i. ru_replies S i = Some None \<longrightarrow> ru_flights S i = None)"

definition panicked :: "('e, 's, 'w) run_state \<Rightarrow> bool" where
  "panicked S \<longleftrightarrow> (\<exists>i. ru_replies S i = Some None)"

definition accounted :: "('e, 's, 'w) run_state \<Rightarrow> bool" where
  "accounted S \<longleftrightarrow>
     panicked S \<or>
     (\<forall>n < length (steps_after (ru_server S)). n \<in> fst ` set (ru_written S) \<or>
        (\<exists>i q m d. call_at S i = Some (q, m, d) \<and> nat (ask_Step q) = n))"

lemma run_event_settled:
  assumes "settled S"
  shows "settled (run_event D ev S)" "panicked S \<Longrightarrow> panicked (run_event D ev S)"
    "panicked (run_event D ev S) \<or> (\<forall>i x. call_at S i = Some x \<longrightarrow> call_at (run_event D ev S) i = Some x \<or>
       nat (ask_Step (fst x)) \<in> fst ` set (ru_written (run_event D ev S)))"
    "fst ` set (ru_written S) \<subseteq> fst ` set (ru_written (run_event D ev S))"
proof -
  show "settled (run_event D ev S)"
    using assms
    by (cases ev)
      (auto simp: settled_def arrive_def answer_flight_def write_flight_def Let_def
        split: option.splits flight.splits prod.splits if_splits)
  show "panicked (run_event D ev S)" if "panicked S"
  proof -
    from that obtain i where i: "ru_replies S i = Some None" by (auto simp: panicked_def)
    then have "ru_flights S i = None" "i \<noteq> ru_arrived S" using assms by (auto simp: settled_def)
    then have "ru_replies (run_event D ev S) i = Some None"
      using i by (cases ev) (auto simp: arrive_def answer_flight_def write_flight_def Let_def
        split: option.splits flight.splits prod.splits)
    then show ?thesis by (auto simp: panicked_def)
  qed
  show "panicked (run_event D ev S) \<or> (\<forall>i x. call_at S i = Some x \<longrightarrow> call_at (run_event D ev S) i = Some x \<or>
       nat (ask_Step (fst x)) \<in> fst ` set (ru_written (run_event D ev S)))"
    using assms
    by (cases ev)
      (auto simp: settled_def panicked_def call_at_def arrive_def answer_flight_def write_flight_def Let_def
        split: option.splits flight.splits prod.splits if_splits)
  show "fst ` set (ru_written S) \<subseteq> fst ` set (ru_written (run_event D ev S))"
    by (cases ev) (auto simp: arrive_def answer_flight_def write_flight_def Let_def
        split: option.splits flight.splits prod.splits)
qed

lemma run_event_accounted:
  assumes "settled S" and "consistent S" and "accounted S"
  shows "accounted (run_event D ev S)"
proof (cases "panicked (run_event D ev S)")
  case False
  then have kept: "\<forall>i x. call_at S i = Some x \<longrightarrow> call_at (run_event D ev S) i = Some x \<or>
      nat (ask_Step (fst x)) \<in> fst ` set (ru_written (run_event D ev S))"
    and "\<not> panicked S" using run_event_settled [OF assms(1)] by blast+
  have old: "n \<in> fst ` set (ru_written (run_event D ev S)) \<or>
      (\<exists>i q m d. call_at (run_event D ev S) i = Some (q, m, d) \<and> nat (ask_Step q) = n)"
    if n: "n < length (steps_after (ru_server S))" for n
  proof -
    consider "n \<in> fst ` set (ru_written S)" | i q m d where "call_at S i = Some (q, m, d)" "nat (ask_Step q) = n"
      using assms(3) \<open>\<not> panicked S\<close> n unfolding accounted_def by blast
    then show ?thesis
    proof cases
      case 1
      then show ?thesis using run_event_settled(4) [OF assms(1)] by blast
    next
      case 2
      then show ?thesis using kept by fastforce
    qed
  qed
  show ?thesis
  proof (cases rule: run_event_cases [where D = D and ev = ev and S = S])
    case (observed q m d)
    have len: "length (steps_after (ru_server (run_event D ev S))) = Suc (length (steps_after (ru_server S)))"
      using steps_after_Observe [OF observed(2)] by simp
    have "nat (tk_next (sv_tracker (ru_server S))) = length (steps_after (ru_server S))"
      using assms(2) by (simp add: consistent_def)
    then have "\<exists>i q m d. call_at (run_event D ev S) i = Some (q, m, d) \<and> nat (ask_Step q) = length (steps_after (ru_server S))"
      unfolding observed(4) by (intro exI [of _ "ru_arrived S"]) simp
    then show ?thesis using old len unfolding accounted_def by (metis less_Suc_eq)
  next
    case quiet
    then show ?thesis using old unfolding accounted_def by (simp add: steps_after_def)
  next
    case (written i q m d sp)
    then show ?thesis using old unfolding accounted_def steps_after_def by simp
  qed
qed (simp add: accounted_def)

lemma run_events_accounted:
  "settled S \<Longrightarrow> consistent S \<Longrightarrow> accounted S \<Longrightarrow> accounted (run_events D evs S)"
  by (induction evs arbitrary: S) (simp_all add: run_event_settled(1) run_event_consistent run_event_accounted)

lemma run_events_settled: "settled S \<Longrightarrow> settled (run_events D evs S)"
  by (induction evs arbitrary: S) (simp_all add: run_event_settled(1))

text \<open>With one request at a time the writes follow the steps.\<close>

lemma one_at_a_time_written:
  assumes "settled S" and "tk_next (sv_tracker (ru_server S)) = int (length (steps_after (ru_server S)))"
    and "map fst (ru_written S) = [0..<length (steps_after (ru_server S))]"
    and "\<not> panicked (run_events D (one_at_a_time (ru_arrived S) rs) S)"
  shows "map fst (ru_written (run_events D (one_at_a_time (ru_arrived S) rs) S)) =
    [0..<length (steps_after (ru_server (run_events D (one_at_a_time (ru_arrived S) rs) S)))]"
  using assms
proof (induction rs arbitrary: S)
  case (Cons x rs)
  obtain e r where x: "x = (e, r)" by (cases x)
  let ?evs = "[Arrive e r, Answer (ru_arrived S), Write (ru_arrived S)]"
  define S1 where "S1 = run_events D ?evs S"
  have rest: "run_events D (one_at_a_time (ru_arrived S) (x # rs)) S = run_events D (one_at_a_time (Suc (ru_arrived S)) rs) S1"
    by (simp add: x S1_def)
  obtain rl sp s' st' w' where one: "Server_ServeHTTP D e r (ru_server S) (ru_store S) (ru_world S) = (rl, sp, s', st', w')"
    by (metis prod_cases5)
  have S1: "S1 = S\<lparr>ru_server := s', ru_store := st', ru_world := w', ru_arrived := Suc (ru_arrived S),
      ru_replies := (ru_replies S)(ru_arrived S \<mapsto> rl),
      ru_written := ru_written S @
        (if step_request D r \<noteq> None \<and> rl \<noteq> None then [(nat (tk_next (sv_tracker (ru_server S))), sp)] else [])\<rparr>"
    unfolding S1_def by (rule one_request_alone [OF one]) (use Cons.prems(1) in \<open>simp add: settled_def\<close>)
  have set1: "settled S1" unfolding S1_def by (rule run_events_settled [OF Cons.prems(1)])
  have "\<not> panicked S1"
    using Cons.prems(4) unfolding rest
  proof (rule contrapos_nn)
    show "panicked (run_events D evs S1)" if "panicked S1" for evs
      using that set1 by (induction evs arbitrary: S1) (simp_all add: run_event_settled(1,2))
  qed
  then have "ru_replies S1 (ru_arrived S) \<noteq> Some None" unfolding panicked_def by blast
  then have rl: "rl \<noteq> None" by (simp add: S1)
  obtain new where new: "steps_after (ru_server S1) = steps_after (ru_server S) @ new"
      "list_all2 asks new (arrived_calls D ?evs)"
    using run_events_asks [OF Cons.prems(2), of D ?evs] unfolding S1_def by blast
  obtain xs where xs: "sv_tracker (ru_server S1) = observe_all xs (sv_tracker (ru_server S))"
    using run_events_tracker [of D ?evs S] unfolding S1_def by blast
  have next1: "tk_next (sv_tracker (ru_server S1)) = int (length (steps_after (ru_server S1)))"
    using Cons.prems(2) by (simp add: xs observe_all_simps steps_after_def)
  have "length new = (if step_request D r = None then 0 else 1)"
    using list_all2_lengthD [OF new(2)] by (simp add: calls_of_def split: option.splits)
  then have "map fst (ru_written S1) = [0..<length (steps_after (ru_server S1))]"
    using Cons.prems(2,3) rl unfolding new(1) by (simp add: S1)
  from Cons.IH [OF set1 next1 this] Cons.prems(4) show ?case unfolding rest by (simp add: S1)
qed simp

text \<open>
  C11. What the output cassette tells of the report, however the handlers of a replay interleave.  For a
  replay that begins fresh with an output, the steps reported are exactly the calls that arrived, in
  that order and numbered from zero, whatever protocol traffic lies between them.  Every write to the
  output is of one of those steps, no step is written twice, and once no handler is under way and none
  panicked every step has been written.  The span of the \<open>k\<close>-th write carries the kind, tool, request,
  action and match of its step, but the number \<open>k\<close>: calls that overlap can be numbered differently in
  the output and in the report.  If the agent waits for each answer before it sends the next request,
  the \<open>k\<close>-th write is that of step \<open>k\<close>, and the numbers agree.
\<close>

theorem output_is_the_report:
  assumes "run_events D evs (start_run s st w) = S"
    and "sv_output s = Some out" and "ou_step out = 0"
    and "tk_next (sv_tracker s) = 0" and "rp_Steps (tk_report (sv_tracker s)) = []"
  shows "list_all2 asks (steps_after (ru_server S)) (arrived_calls D evs) \<and>
    map sp_Index (steps_after (ru_server S)) = map int [0..<length (steps_after (ru_server S))] \<and>
    distinct (map fst (ru_written S)) \<and> fst ` set (ru_written S) \<subseteq> {..<length (steps_after (ru_server S))} \<and>
    ((\<forall>i. ru_flights S i = None \<and> ru_replies S i \<noteq> Some None) \<longrightarrow>
       fst ` set (ru_written S) = {..<length (steps_after (ru_server S))}) \<and>
    (\<forall>k n sp. k < length (ru_written S) \<longrightarrow> ru_written S ! k = (n, Some sp) \<longrightarrow>
       recorded_as ((steps_after (ru_server S) ! n)\<lparr>sp_Index := int k\<rparr>) sp) \<and>
    ((\<exists>rs. evs = one_at_a_time 0 rs) \<and> (\<forall>i. ru_replies S i \<noteq> Some None) \<longrightarrow>
       map fst (ru_written S) = [0..<length (steps_after (ru_server S))])"
proof -
  let ?S = "start_run s st w :: ('a, 'b, 'c) run_state"
  have start: "consistent ?S" "settled ?S" "accounted ?S" "steps_after (ru_server ?S) = []" "tk_next (sv_tracker (ru_server ?S)) = 0"
    "ru_arrived ?S = 0" "ru_written ?S = []"
    using assms(2-5)
    by (simp_all add: consistent_def calls_ok_def written_ok_def settled_def accounted_def start_run_def call_at_def steps_after_def)
  have S: "consistent S" "accounted S"
    using run_events_consistent [OF start(1)] run_events_accounted [OF start(2,1,3)] assms(1) by blast+
  have story: "list_all2 asks (steps_after (ru_server S)) (arrived_calls D evs)"
    "map sp_Index (steps_after (ru_server S)) = map int [0..<length (steps_after (ru_server S))]"
    using run_events_asks [of ?S D evs] start assms(1) by auto
  have w: "distinct (map fst (ru_written S))" "fst ` set (ru_written S) \<subseteq> {..<length (steps_after (ru_server S))}"
    "\<forall>k n sp. k < length (ru_written S) \<longrightarrow> ru_written S ! k = (n, Some sp) \<longrightarrow>
       recorded_as ((steps_after (ru_server S) ! n)\<lparr>sp_Index := int k\<rparr>) sp"
    using S(1) by (simp_all add: consistent_def written_ok_def)
  have "fst ` set (ru_written S) = {..<length (steps_after (ru_server S))}"
    if "\<forall>i. ru_flights S i = None \<and> ru_replies S i \<noteq> Some None"
    using S(2) w(2) that by (auto simp: accounted_def panicked_def call_at_def)
  moreover have "map fst (ru_written S) = [0..<length (steps_after (ru_server S))]"
    if "\<exists>rs. evs = one_at_a_time 0 rs" "\<forall>i. ru_replies S i \<noteq> Some None"
    using one_at_a_time_written [OF start(2), of D] start assms(1) that by (auto simp: panicked_def)
  ultimately show ?thesis using story w by blast
qed

section \<open>A recorded handshake\<close>

text \<open>A span of the tool plane that names no tool, as the recorder writes protocol traffic.\<close>

definition protocol_span :: "Span \<Rightarrow> bool" where
  "protocol_span sp = (span_Kind sp = KindTool \<and> span_String sp AttrToolName = [])"

lemma set_if_False: "set_if False k v a = a" by (simp add: set_if_def)

lemma recorded_chatter_is_protocol:
  "rc_Plane r = PlaneTool \<Longrightarrow> rc_ToolName r = [] \<Longrightarrow> protocol_span (span_of V r)"
proof -
  assume r: "rc_Plane r = PlaneTool" "rc_ToolName r = []"
  have "map_of (SpanAttributes V r) AttrToolName = None"
    using r by (simp add: SpanAttributes_def mcpAttributes_def Let_def map_of_set_if set_if_False attr_defs)
  then show ?thesis
    using r by (simp add: protocol_span_def span_of_def SpanNameAndKind_def span_String_def jfield_def lookup_or_def)
qed

lemma NewServer_Inr:
  "NewServer parse cfg = Inr s \<Longrightarrow> sv_tracker s = sf_Tracker cfg \<and> sv_idx s = sf_Index cfg \<and>
     sv_policy s = sf_Policy cfg \<and> sv_output s = sf_Output cfg \<and> length (sv_toolUpstreams s) = length (sf_ToolUpstreams cfg)"
  by (auto simp: NewServer_def bindR_Inr_iff Let_def dest: mapR_Inr_length split: if_splits sum.splits)

lemma driver_tracker_fresh:
  "driver_tracker v session spec idx = Inr t \<Longrightarrow>
   tk_idx t = idx \<and> tk_next t = 0 \<and> rp_Divergences (tk_report t) = [] \<and> rp_Steps (tk_report t) = []"
  by (auto simp: driver_tracker_def Let_def NewTracker_def AttachDrift_def split: if_splits sum.splits)

lemma Driver_Replay_Inr:
  assumes "Driver_Replay D J v X evs late session spec arm dir st w = (Inr report, dir', st', w')"
  obtains h idx t out dir1 s S where "driver_load J X session = Inr (h, idx)"
    and "driver_tracker v session spec idx = Inr t"
    and "driver_output D v X h session arm dir = (Inr out, dir1)"
    and "NewServer (dx_parse v) (driver_config v spec idx t out) = Inr s"
    and "S = run_events D evs (start_run s st w)"
    and "report = tk_report (sv_tracker (ru_server (run_events D late (finish_run S))))"
  using assms
  by (auto simp: Driver_Replay_def Let_def split: sum.splits prod.splits option.splits if_splits)

lemma arrived_calls_kind: "q \<in> set (arrived_calls D evs) \<Longrightarrow> ask_Kind q = KindTool \<or> ask_Kind q = KindModel"
  by (induction evs) (auto simp: calls_of_def dest: step_request_kind [OF sym] split: option.splits server_event.splits)

text \<open>What is in the report stays in it.\<close>

lemma observe_all_extends:
  "\<exists>ds. rp_Divergences (tk_report (observe_all xs t)) = rp_Divergences (tk_report t) @ ds"
proof (induction xs rule: rev_induct)
  case (snoc x xs)
  obtain q m d where x: "x = (q, m, d)" by (cases x) auto
  have "observe_all (xs @ [x]) t = Observe q m d (observe_all xs t)" by (simp add: observe_all_def x)
  then show ?case using snoc.IH by (auto simp: Observe_divergences split: option.splits)
qed (simp add: observe_all_def)

lemma late_events_keep_divergences:
  assumes "rp_Divergences (Finish (sv_tracker (ru_server S))) \<noteq> []"
  shows "Diverged (tk_report (sv_tracker (ru_server (run_events D late (finish_run S)))))"
proof -
  obtain xs where "sv_tracker (ru_server (run_events D late (finish_run S)))
      = observe_all xs (sv_tracker (ru_server (finish_run S)))"
    using run_events_tracker [of D late "finish_run S"] by blast
  then show ?thesis
    using observe_all_extends [of xs "sv_tracker (ru_server (finish_run S))"] assms
    by (auto simp: Diverged_def finish_run_def Server_Finish_def Let_def)
qed

lemma first_step_diverges:
  assumes "Spans (tk_idx t) = sp # rest" and "protocol_span sp" and "tk_next t = 0"
    and "ask_Kind req = KindTool \<and> ask_Tool req \<noteq> [] \<or> ask_Kind req = KindModel"
  shows "compare_step t req \<noteq> None"
  using assms by (auto simp: compare_step_def recordedAt_def protocol_span_def Let_def)

text \<open>
  C12. A session recorded with its handshake can never be followed.  The recorder writes protocol traffic
  as spans of the tool plane that name no tool, while the replay counts only calls as steps; so if the
  first recorded step is such a span, every replay of the session is reported as diverged, however
  exactly the agent repeats what was recorded and however its requests overlap.
\<close>

theorem recorded_handshake_always_diverges:
  assumes "Driver_Replay D J v X evs late session spec arm dir st w = (Inr report, dir', st', w')"
    and "driver_load J X session = Inr (h, idx)" and "Spans idx = sp # rest" and "protocol_span sp"
    and "\<forall>q \<in> set (arrived_calls D evs). ask_Kind q = KindTool \<longrightarrow> ask_Tool q \<noteq> []"
  shows "Diverged report"
  using assms(1)
proof (rule Driver_Replay_Inr)
  fix h' idx' t out dir1 s S
  assume load: "driver_load J X session = Inr (h', idx')"
    and tracker: "driver_tracker v session spec idx' = Inr t"
    and new: "NewServer (dx_parse v) (driver_config v spec idx' t out) = Inr s"
    and run: "S = run_events D evs (start_run s st w)"
    and report: "report = tk_report (sv_tracker (ru_server (run_events D late (finish_run S))))"
  note fresh = driver_tracker_fresh [OF tracker]
  have idx: "tk_idx t = idx" using fresh load assms(2) by simp
  have "sv_tracker (ru_server (start_run s st w)) = t"
    using NewServer_Inr [OF new] by (simp add: driver_config_def start_run_def)
  with run_events_tracker [of D evs "start_run s st w"] obtain xs where xs: "sv_tracker (ru_server S) = observe_all xs t"
    "map asked_of xs = arrived_calls D evs" by (auto simp: run)
  have "rp_Divergences (Finish (observe_all xs t)) \<noteq> []"
  proof
    assume "rp_Divergences (Finish (observe_all xs t)) = []"
    then have none: "rp_Divergences (tk_report (observe_all xs t)) = []" and "length (Spans idx) \<le> length xs"
      using fresh idx by (auto simp: Finish_def Let_def observe_all_simps)
    then obtain q m d ys where y: "xs = (q, m, d) # ys" using assms(3) by (cases xs) auto
    then have "q\<lparr>ask_Step := 0\<rparr> \<in> set (arrived_calls D evs)" unfolding xs(2) [symmetric] by simp
    then have "ask_Kind q = KindTool \<and> ask_Tool q \<noteq> [] \<or> ask_Kind q = KindModel"
      using assms(5) arrived_calls_kind by fastforce
    with first_step_diverges [of t sp rest q] assms(3,4) fresh idx
    have "compare_step t q \<noteq> None" by simp
    moreover have "compare_step t q = None"
      using observe_all_divergences [OF none] y by (auto simp: observe_all_def)
    ultimately show False by contradiction
  qed
  then show ?thesis unfolding report by (intro late_events_keep_divergences) (simp add: xs(1))
qed

section \<open>Live reads\<close>

lemma forward_no_endpoint:
  "sv_toolUpstreams s = [] \<Longrightarrow> \<exists>x. forward D s r KindTool body w = (Some x, w) \<and> rl_Status x = 502"
  by (simp add: forward_def Let_def fail_reply_def)

text \<open>
  C13. A read the operator forked live never runs.  The driver gives its server no tool endpoints, so
  wherever a replay it drives has got to, a request on the tool plane reaches nothing; a call the policy forwards to the
  live server is answered with a 502 instead, and still does not count as refused.
\<close>

theorem forked_reads_never_run:
  assumes "NewServer (dx_parse v) (driver_config v spec idx tracker out) = Inr s0"
    and "s = ru_server (run_events D evs (start_run s0 st0 w0))"
    and "HasPrefix (hq_Path r) ''/mcp/''" and "Server_ServeHTTP D e r s st w = (rl, sp, s', st', w')"
  shows "w' = w \<and>
    (\<forall>q. step_request D r = Some q \<and> dx_Mode v = ModeHybrid \<and> ask_Tool q \<in> set (dx_LiveTools v) \<and>
       map_of (po_Effects (sv_policy s)) (ask_Tool q) = Some EffectRead \<longrightarrow>
       (\<exists>x. rl = Some x \<and> rl_Status x = 502) \<and>
       rp_Refused (tk_report (sv_tracker s')) = rp_Refused (tk_report (sv_tracker s)))"
proof (cases "step_request D r")
  case no_step: None
  have none: "sv_toolUpstreams s = []"
    using NewServer_Inr [OF assms(1)] by (simp add: driver_config_def assms(2) run_events_frame start_run_def)
  have "w' = w"
  proof (cases "protocol_request D r")
    case None
    then show ?thesis using serve_other [OF no_step None, of e s st w] assms(4) by auto
  next
    case (Some meth)
    then show ?thesis using serveProtocol_world [OF assms(4) [unfolded serve_protocol [OF Some]]] none by auto
  qed
  then show ?thesis using no_step by simp
next
  case (Some q)
  have none: "sv_toolUpstreams s = []"
    and pol: "po_Mode (sv_policy s) = dx_Mode v" "po_LiveTools (sv_policy s) = dx_LiveTools v"
    using NewServer_Inr [OF assms(1)]
    by (simp_all add: driver_config_def NewPolicy_def assms(2) run_events_frame start_run_def)
  have kind: "ask_Kind q = KindTool"
    using Some assms(3) by (auto simp: step_request_def Let_def split: if_splits)
  let ?q = "q\<lparr>ask_Step := tk_next (sv_tracker s)\<rparr>"
  from assms(4) have "handle D e r q (fst (request_body r)) s st w = (rl, sp, s', st', w')"
    by (simp add: serve_step [OF Some])
  then obtain m d s1 where dr: "decide_request s q = (?q, m, d, s1)"
    and an: "answer D s1 st r ?q m d (fst (request_body r)) w = (rl, w')"
    and rec: "case rl of None \<Rightarrow> sp = None \<and> s' = s1 \<and> st' = st
      | Some x \<Rightarrow> record_answer D e ?q m d (fst (request_body r)) x s1 st = (sp, s', st')"
    by (rule handle_cases)
  note fr = decide_request_frame [OF dr]
  obtain x where fw: "forward D s1 r KindTool (fst (request_body r)) w = (Some x, w)" "rl_Status x = 502"
    using forward_no_endpoint [of s1 D r "fst (request_body r)" w] fr(3) none by auto
  have "w' = w" using an fw kind by (auto simp: answer_def split: Action.splits)
  moreover have "(\<exists>x. rl = Some x \<and> rl_Status x = 502) \<and>
      rp_Refused (tk_report (sv_tracker s')) = rp_Refused (tk_report (sv_tracker s))"
    if "dx_Mode v = ModeHybrid" "ask_Tool q \<in> set (dx_LiveTools v)"
      "map_of (po_Effects (sv_policy s)) (ask_Tool q) = Some EffectRead"
  proof -
    have act: "dc_Action d = ActionForward"
      using that kind pol replay_never_writes [of ?q "sv_policy s" m] unfolding fr(7) by simp
    then have rl: "rl = Some x" using an fw kind by (simp add: answer_def)
    have "sv_tracker s' = Observe ?q m d (sv_tracker s)"
      using rec fr(9) unfolding rl by (auto dest: record_answer_frame(5))
    then show ?thesis using rl fw(2) act by simp
  qed
  ultimately show ?thesis using Some by auto
qed

section \<open>An example\<close>

text \<open>An agent that only sends empty bodies, each a call of one tool on the tool plane.\<close>

definition ex_replay :: "(unit, unit, nat) replay_deps" where
  "ex_replay = \<lparr> rv_enc = ex_encoder, rv_span = sn_span ex_deps,
     rv_rpc = ex_rpc\<lparr>jr_call := \<lambda>_. \<lparr> call_Method = ''tools/call'', call_ID = [], call_Name = ''look'', call_Arguments = [] \<rparr>\<rparr>,
     rv_put = ex_put, rv_get = None, rv_json = (\<lambda>_ _. []), rv_proxy = (\<lambda>u r w. (UpResponse 200 [] [''ok''], Suc w)) \<rparr>"

definition ex_replay_env :: "unit replay_env" where
  "ex_replay_env = \<lparr> ry_start = 0, ry_end = 0, ry_io = None, ry_put = (\<lambda>_. ()) \<rparr>"

definition ex_path_request :: "string \<Rightarrow> path_request" where
  "ex_path_request path = \<lparr> hq_Method = ''POST'', hq_URL = path, hq_Header = [], hq_Body = Some ([], None),
     hq_ContentLength = 0, hq_Path = path \<rparr>"

definition ex_server :: "Mode \<Rightarrow> Server" where
  "ex_server mode = \<lparr> sv_idx = NewIndex Replay.ex_header [],
     sv_policy = \<lparr> po_Mode = mode, po_Effects = [(''look'', EffectRead)], po_LiveTools = [''look''] \<rparr>,
     sv_tracker = NewTracker (NewIndex Replay.ex_header []) mode [], sv_modelUpstream = Some ''m'', sv_toolUpstreams = [],
     sv_output = Some \<lparr> ou_writer = ex_writer, ou_step = 0, ou_name = ''o'' \<rparr>, sv_served = [] \<rparr>"

theorem replay_reaches_upstreams_only_by_policy_witness:
  "\<exists>rl sp s' st'. Server_ServeHTTP ex_replay ex_replay_env (ex_path_request ''/v1'') (ex_server ModeModelLiveToolsReplayed) () 0
       = (rl, sp, s', st', 1) \<and>
     sv_modelUpstream (ex_server ModeModelLiveToolsReplayed) \<noteq> None"
proof -
  let ?serve = "Server_ServeHTTP ex_replay ex_replay_env (ex_path_request ''/v1'') (ex_server ModeModelLiveToolsReplayed) () 0"
  obtain rl sp s' st' w' where run: "?serve = (rl, sp, s', st', w')" by (metis prod_cases5)
  moreover have "snd (snd (snd (snd ?serve))) = 1" by code_simp
  ultimately have run: "?serve = (rl, sp, s', st', 1)" by simp
  have "step_request ex_replay (ex_path_request ''/v1'') =
      Some \<lparr> ask_Step = 0, ask_Hash = [], ask_Kind = KindModel, ask_Tool = [], ask_ArgsHash = [] \<rparr>" by code_simp
  then show ?thesis using replay_reaches_upstreams_only_by_policy [OF run] run by simp
qed

text \<open>
  Two calls that overlap: the second is answered and written first.  The output numbers it 0, the report 1.
\<close>

definition ex_overlap :: "unit server_event list" where
  "ex_overlap = [Arrive ex_replay_env (ex_path_request ''/mcp/a''), Arrive ex_replay_env (ex_path_request ''/v1''),
     Answer 1, Write 1, Answer 0, Write 0]"

definition ex_replayed :: "(unit, unit, nat) run_state" where
  "ex_replayed = run_events ex_replay ex_overlap (start_run (ex_server ModeFail) () 0)"

theorem output_is_the_report_witness:
  "map (\<lambda>x. (sp_Index x, sp_Kind x)) (steps_after (ru_server ex_replayed)) = [(0, KindTool), (1, KindModel)] \<and>
   (\<exists>sp rest. ru_written ex_replayed = (1, Some sp) # rest \<and> span_Kind sp = KindModel \<and> StepIndex sp = Some 0)"
proof -
  have v: "map (\<lambda>x. (sp_Index x, sp_Kind x)) (steps_after (ru_server ex_replayed)) = [(0, KindTool), (1, KindModel)]"
    "map (\<lambda>(n, sp). (n, sp \<noteq> None)) (ru_written ex_replayed) = [(1, True), (0, True)]" by code_simp+
  obtain sp rest where w: "ru_written ex_replayed = (1, Some sp) # rest"
    using v(2) by (cases "ru_written ex_replayed") auto
  have kind: "sp_Kind (steps_after (ru_server ex_replayed) ! 1) = KindModel"
    using arg_cong [OF v(1), of "\<lambda>xs. snd (xs ! 1)"] arg_cong [OF v(1), of length] by simp
  have start: "sv_output (ex_server ModeFail) = Some \<lparr> ou_writer = ex_writer, ou_step = 0, ou_name = ''o'' \<rparr>"
    "ou_step \<lparr> ou_writer = ex_writer, ou_step = 0, ou_name = ''o'' \<rparr> = 0"
    "tk_next (sv_tracker (ex_server ModeFail)) = 0" "rp_Steps (tk_report (sv_tracker (ex_server ModeFail))) = []"
    by (simp_all add: ex_server_def NewTracker_def)
  note story = output_is_the_report [OF ex_replayed_def [symmetric] start]
  have "recorded_as ((steps_after (ru_server ex_replayed) ! 1)\<lparr>sp_Index := int 0\<rparr>) sp"
    using story w by (metis length_greater_0_conv list.distinct(1) nth_Cons_0)
  then show ?thesis using v(1) w kind by (auto simp: recorded_as_def)
qed

text \<open>A recording that is one protocol exchange, and an agent that makes one call.\<close>

definition ex_driver :: driver where
  "ex_driver = \<lparr> dx_Mode = ModeHybrid, dx_ModelUpstream = [], dx_LiveTools = [''look''], dx_Listen = [],
     dx_SkipDrift = True, dx_lister = (\<lambda>_. Inl no_msg), dx_Outputs = False, dx_Blobs = False, dx_parse = Inr,
     dx_redactor = ex_redactor \<rparr>"

definition ex_setup :: replay_setup where
  "ex_setup = (let file = Inr \<lparr> sc_lines = [''h'', ''s''], sc_err = None \<rparr> in
     \<lparr> rx_Opened = file, rx_Reopened = file, rx_now = 0, rx_OutputOpen = None, rx_OutputHeader = None,
       rx_SplitHost = (\<lambda>_. Inr ''127.0.0.1''), rx_Bind = (\<lambda>_. None), rx_Close = None \<rparr>)"

definition ex_handshake_codec :: codec where
  "ex_handshake_codec = \<lparr> dec_header = (\<lambda>_. Inr Replay.ex_header), dec_span = (\<lambda>_. Inr (ex_tool_span [])) \<rparr>"

definition ex_spec :: AgentManifestSpec where
  "ex_spec = ex_agent\<lparr>Tools := [(ex_tool EffectRead)\<lparr>tool_Name := ''look''\<rparr>]\<rparr>"

definition ex_driven :: "Report result \<times> corpus_dir \<times> unit \<times> nat" where
  "ex_driven = Driver_Replay ex_replay ex_handshake_codec ex_driver ex_setup
     (one_at_a_time 0 [(ex_replay_env, ex_path_request ''/mcp/a'')]) [Arrive ex_replay_env (ex_path_request ''/v1'')]
     ''s1'' ex_spec ArmCandidate [] () 0"

theorem recorded_handshake_always_diverges_witness:
  "\<exists>report rest. ex_driven = (Inr report, rest) \<and> Diverged report"
proof -
  have load: "driver_load ex_handshake_codec ex_setup ''s1'' = Inr (Replay.ex_header, NewIndex Replay.ex_header [ex_tool_span []])"
    by code_simp
  have cfg: "rx_Close ex_setup = None" "rx_Bind ex_setup a = None" "rx_SplitHost ex_setup a = Inr ''127.0.0.1''"
    "dx_SkipDrift ex_driver" "\<not> dx_Outputs ex_driver" "dx_Mode ex_driver = ModeHybrid" "dx_ModelUpstream ex_driver = []" for a
    by (simp_all add: ex_setup_def ex_driver_def Let_def)
  obtain report dir' st' w' where run: "ex_driven = (Inr report, dir', st', w')"
    by (simp add: ex_driven_def Driver_Replay_def load driver_tracker_def driver_output_def NewServer_def driver_config_def
        NewPolicy_def driver_serve_def listenLoopback_def cfg Let_def)
  have spans: "Spans (NewIndex Replay.ex_header [ex_tool_span []]) = [ex_tool_span []]"
    by (simp add: Spans_def NewIndex_simps)
  have "step_request ex_replay (ex_path_request ''/mcp/a'') =
      Some \<lparr> ask_Step = 0, ask_Hash = [], ask_Kind = KindTool, ask_Tool = ''look'', ask_ArgsHash = [] \<rparr>" by code_simp
  then have "Diverged report"
    using recorded_handshake_always_diverges [OF run [unfolded ex_driven_def] load spans]
    by (simp add: protocol_span_def calls_of_def)
  then show ?thesis unfolding run by blast
qed

definition ex_hybrid :: Server where
  "ex_hybrid = (case NewServer (dx_parse ex_driver) (driver_config ex_driver ex_spec (NewIndex Replay.ex_header [])
      (NewTracker (NewIndex Replay.ex_header []) ModeHybrid []) None) of Inr s \<Rightarrow> s | Inl _ \<Rightarrow> ex_server ModeHybrid)"

theorem forked_reads_never_run_witness:
  "\<exists>x sp s' st'. Server_ServeHTTP ex_replay ex_replay_env (ex_path_request ''/mcp/a'') ex_hybrid () 0
      = (Some x, sp, s', st', 0) \<and> rl_Status x = 502"
proof -
  have new: "NewServer (dx_parse ex_driver) (driver_config ex_driver ex_spec (NewIndex Replay.ex_header [])
      (NewTracker (NewIndex Replay.ex_header []) ModeHybrid []) None) = Inr ex_hybrid"
    by (simp add: ex_hybrid_def NewServer_def driver_config_def ex_driver_def NewPolicy_def)
  have none: "ex_hybrid = ru_server (run_events ex_replay [] (start_run ex_hybrid () 0))" by (simp add: start_run_def)
  obtain rl sp s' st' w' where run: "Server_ServeHTTP ex_replay ex_replay_env (ex_path_request ''/mcp/a'') ex_hybrid () 0
      = (rl, sp, s', st', w')" by (metis prod_cases5)
  have mcp: "HasPrefix (hq_Path (ex_path_request ''/mcp/a'')) ''/mcp/''" by code_simp
  have q: "step_request ex_replay (ex_path_request ''/mcp/a'') =
      Some \<lparr> ask_Step = 0, ask_Hash = [], ask_Kind = KindTool, ask_Tool = ''look'', ask_ArgsHash = [] \<rparr>" by code_simp
  have pol: "dx_Mode ex_driver = ModeHybrid" "''look'' \<in> set (dx_LiveTools ex_driver)"
    "map_of (po_Effects (sv_policy ex_hybrid)) ''look'' = Some EffectRead" by code_simp+
  show ?thesis using forked_reads_never_run [OF new none mcp run] q pol run by auto
qed

end
