(* ===== verification/Suppress.thy ===== *)
theory Suppress
  imports Recorder Jsonrpc
begin

text \<open>
  \<open>internal/recorder/suppress.go\<close> and \<open>registry.go\<close>: the layer that keeps a candidate on mirrored
  traffic from writing, and the registry of the objects its suppressed writes pretended to create.  The
  result of a write is a Go map that the registry keeps a reference to while the handler still fills it
  in, so results live in a store of cells and the registry holds their addresses.
\<close>

section \<open>The registry\<close>

record syntheticSession =
  sy_objects :: "(string \<times> nat) list"
  sy_seen :: time

record syntheticRegistry =
  sr_sessions :: "(string \<times> syntheticSession) list"
  sr_ttl :: duration

definition newSyntheticRegistry :: "duration \<Rightarrow> syntheticRegistry" where
  "newSyntheticRegistry ttl = \<lparr> sr_sessions = [], sr_ttl = (if ttl \<le> 0 then 30 * minute else ttl) \<rparr>"

definition NUL :: char where "NUL = char_of (0::nat)"

definition synthetic_id :: "string \<Rightarrow> string \<Rightarrow> string \<Rightarrow> string" where
  "synthetic_id session tool args =
     ''waveoff-synthetic-'' @ take 16 (EncodeToString (Sum256 (session @ [NUL] @ tool @ [NUL] @ args)))"

definition evict_quiet :: "time \<Rightarrow> syntheticRegistry \<Rightarrow> syntheticRegistry" where
  "evict_quiet now r = r\<lparr>sr_sessions := filter (\<lambda>(_, s). \<not> sy_seen s < now - sr_ttl r) (sr_sessions r)\<rparr>"

text \<open>The clock is read once for the eviction and once for the entry.\<close>

definition mint ::
    "time \<times> time \<Rightarrow> string \<Rightarrow> string \<Rightarrow> string \<Rightarrow> nat \<Rightarrow> syntheticRegistry \<Rightarrow> string \<times> syntheticRegistry" where
  "mint clock session tool args addr r =
     (let i = synthetic_id session tool args;
          r1 = evict_quiet (fst clock) r;
          s = lookup_or \<lparr> sy_objects = [], sy_seen = 0 \<rparr> (sr_sessions r1) session;
          s1 = \<lparr> sy_objects = (if has_key (sy_objects s) i then sy_objects s
                               else AList.update i addr (sy_objects s)),
                 sy_seen = snd clock \<rparr>
      in (i, r1\<lparr>sr_sessions := AList.update session s1 (sr_sessions r1)\<rparr>))"

text \<open>
  A map with several matches may yield any of them; the model takes the first in the order of the list.
\<close>

definition lookup_synthetic :: "string \<Rightarrow> string \<Rightarrow> syntheticRegistry \<Rightarrow> (nat \<times> string) option" where
  "lookup_synthetic session args r =
     (if args = [] then None
      else (case map_of (sr_sessions r) session of
              None \<Rightarrow> None
            | Some s \<Rightarrow>
                map_option (\<lambda>(i, addr). (addr, i)) (find (\<lambda>(i, _). Contains args i) (sy_objects s))))"

section \<open>The suppressor\<close>

type_synonym tool_result = "(string \<times> json) list"

record Suppressor =
  sp_Effects :: "(string \<times> string) list"
  sp_synthetic :: syntheticRegistry
  sp_results :: "tool_result list"
  sp_Sink :: bool
  sp_suppressed :: int
  sp_refused :: int
  sp_allowed :: int
  sp_replayed :: int
  sp_attempts :: "(string \<times> int) list"
  sp_steps :: "(string \<times> int) list"

definition NewSuppressor :: "(string \<times> string) list \<Rightarrow> Suppressor" where
  "NewSuppressor effects =
     \<lparr> sp_Effects = effects, sp_synthetic = newSyntheticRegistry 0, sp_results = [], sp_Sink = True,
       sp_suppressed = 0, sp_refused = 0, sp_allowed = 0, sp_replayed = 0, sp_attempts = [], sp_steps = [] \<rparr>"

text \<open>
  What becomes of a request: it is handed to the next handler, answered with a result or an error under
  the id it came with, or rejected because its body could not be read.
\<close>

datatype outcome =
    Forwarded http_request
  | Answered string "tool_result + (int \<times> msg)"
  | BadRequest msg

record sup_env =
  su_first :: "time \<times> time"
  su_second :: "time \<times> time"
  su_now :: time
  su_marshal :: "json \<Rightarrow> string result"

definition explanation :: "string \<Rightarrow> string \<Rightarrow> string" where
  "explanation tool effect =
     ''[waveoff] '' @ tool @ '' was not executed: this is shadow traffic and the tool is classified effect='' @ effect"

definition text_content :: "string \<Rightarrow> json" where
  "text_content t = JArr [JObj [(''type'', JStr ''text''), (''text'', JStr t)]]"

definition refusal :: "string \<Rightarrow> tool_result" where
  "refusal tool =
     [(''isError'', JBool True),
      (''content'', text_content (''[waveoff] '' @ tool @ '' has no asserted effect in the manifest and was refused''))]"

definition bump :: "'k \<Rightarrow> ('k \<times> int) list \<Rightarrow> ('k \<times> int) list" where
  "bump k m = AList.update k (lookup_or 0 m k + 1) m"

text \<open>\<open>emit\<close>: the record for the sink, numbered by the suppressor's own counter of the session.\<close>

definition suppression_record ::
    "sup_env \<Rightarrow> string \<Rightarrow> string \<Rightarrow> string \<Rightarrow> string \<Rightarrow> string \<Rightarrow> bool \<Rightarrow> int \<Rightarrow> Record" where
  "suppression_record e session tool effect req resp refused step =
     zero_Record\<lparr>rc_Session := session, rc_Plane := PlaneTool, rc_Step := step, rc_Method := ''POST'',
       rc_ReqBody := req, rc_Status := 200, rc_RespBody := resp, rc_ToolName := tool, rc_ToolEffect := effect,
       rc_Suppressed := \<not> refused, rc_Refused := refused, rc_Start := su_now e, rc_End := su_now e\<rparr>"

definition emit ::
    "sup_env \<Rightarrow> string \<Rightarrow> Call \<Rightarrow> string \<Rightarrow> string \<Rightarrow> tool_result \<Rightarrow> bool \<Rightarrow> Suppressor \<Rightarrow> Record list \<times> Suppressor" where
  "emit e session call effect req result refused s =
     (if \<not> sp_Sink s then ([], s)
      else (case su_marshal e (JObj [(''jsonrpc'', JStr ''2.0''), (''result'', JObj result)]) of
              Inl _ \<Rightarrow> ([], s)
            | Inr resp \<Rightarrow>
                ([suppression_record e session (call_Name call) effect req resp refused
                    (lookup_or 0 (sp_steps s) session)],
                 s\<lparr>sp_steps := bump session (sp_steps s)\<rparr>)))"

text \<open>
  \<open>suppress\<close>: the result is a new cell, recorded before it carries its id and completed afterwards; the
  second recording finds the id already there.
\<close>

definition suppress ::
    "sup_env \<Rightarrow> string \<Rightarrow> Call \<Rightarrow> string \<Rightarrow> string \<Rightarrow> Suppressor \<Rightarrow> outcome \<times> Record list \<times> Suppressor" where
  "suppress e session call effect body s =
     (let text = explanation (call_Name call) effect;
          addr = length (sp_results s);
          result0 = [(''content'', text_content text), (''isError'', JBool False)];
          (i, reg1) = mint (su_first e) session (call_Name call) (call_Arguments call) addr (sp_synthetic s);
          result = AList.update ''content''
                     (text_content (text @ '' (a placeholder object '' @ i @ '' has been recorded for this session)''))
                     (AList.update ''id'' (JStr i) result0);
          (_, reg2) = mint (su_second e) session (call_Name call) (call_Arguments call) addr reg1;
          (recs, s1) = emit e session call effect body result False
                         (s\<lparr>sp_synthetic := reg2, sp_results := sp_results s @ [result]\<rparr>)
      in (Answered (call_ID call) (Inl result), recs, s1))"

definition record_attempt :: "Call \<Rightarrow> Suppressor \<Rightarrow> Suppressor" where
  "record_attempt call s = s\<lparr>sp_attempts := bump (call_Name call) (sp_attempts s)\<rparr>"

definition session_of :: "http_request \<Rightarrow> string" where
  "session_of r = (let session = fst (sessionID (hq_Header r)) in if session = [] then ''unattributed'' else session)"

definition Suppressor_ServeHTTP ::
    "rpc_codec \<Rightarrow> sup_env \<Rightarrow> http_request \<Rightarrow> Suppressor \<Rightarrow> outcome \<times> Record list \<times> Suppressor" where
  "Suppressor_ServeHTTP J e r s =
     (if hq_Method r \<noteq> ''POST'' then (Forwarded r, [], s)
      else (case (case hq_Body r of Some b \<Rightarrow> b | None \<Rightarrow> ([], None)) of
        (_, Some err) \<Rightarrow> (BadRequest err, [], s)
      | (body, None) \<Rightarrow>
      (let r = r\<lparr>hq_Body := Some (body, None), hq_ContentLength := int (length body)\<rparr>;
           call = Parse J body;
           session = session_of r
       in if call_Method call \<noteq> ''tools/call''
          then (Forwarded r, [], s\<lparr>sp_allowed := sp_allowed s + 1\<rparr>)
          else (case lookup_synthetic session (call_Arguments call) (sp_synthetic s) of
            Some (addr, _) \<Rightarrow>
              (Answered (call_ID call) (Inl (sp_results s ! addr)), [], s\<lparr>sp_replayed := sp_replayed s + 1\<rparr>)
          | None \<Rightarrow>
              (let effect = lookup_or [] (sp_Effects s) (call_Name call) in
               if effect = []
               then (case emit e session call [] body (refusal (call_Name call)) True
                            (s\<lparr>sp_refused := sp_refused s + 1\<rparr>) of
                       (recs, s1) \<Rightarrow>
                         (Answered (call_ID call) (Inr (-32000, Sprintf ''tool %q has no asserted effect in the manifest, so it cannot run against mirrored traffic''
                            [AStr (call_Name call)])), recs, s1))
               else if effect \<noteq> EffectRead
               then suppress e session call effect body
                      (record_attempt call (s\<lparr>sp_suppressed := sp_suppressed s + 1\<rparr>))
               else (Forwarded r, [], s\<lparr>sp_allowed := sp_allowed s + 1\<rparr>))))))"

definition Attempts :: "Suppressor \<Rightarrow> (string \<times> int) list" where
  "Attempts s = sp_attempts s"

definition Suppressor_Stats :: "Suppressor \<Rightarrow> int \<times> int \<times> int \<times> int" where
  "Suppressor_Stats s = (sp_suppressed s, sp_refused s, sp_allowed s, sp_replayed s)"

section \<open>What is forwarded\<close>

definition read_body :: "http_request \<Rightarrow> body_reader" where
  "read_body r = (case hq_Body r of Some b \<Rightarrow> b | None \<Rightarrow> ([], None))"

definition with_body :: "string \<Rightarrow> http_request \<Rightarrow> http_request" where
  "with_body body r = r\<lparr>hq_Body := Some (body, None), hq_ContentLength := int (length body)\<rparr>"

definition call_of :: "rpc_codec \<Rightarrow> http_request \<Rightarrow> Call" where
  "call_of J r = Parse J (fst (read_body r))"

lemma session_of_with_body [simp]: "session_of (with_body b r) = session_of r"
  by (simp add: session_of_def with_body_def)

text \<open>The handler, branch by branch.\<close>

definition tool_call :: "rpc_codec \<Rightarrow> http_request \<Rightarrow> bool" where
  "tool_call J r \<longleftrightarrow> hq_Method r = ''POST'' \<and> snd (read_body r) = None \<and> call_Method (call_of J r) = ''tools/call''"

definition mentions :: "rpc_codec \<Rightarrow> http_request \<Rightarrow> Suppressor \<Rightarrow> (nat \<times> string) option" where
  "mentions J r s = lookup_synthetic (session_of r) (call_Arguments (call_of J r)) (sp_synthetic s)"

definition effect_of :: "rpc_codec \<Rightarrow> http_request \<Rightarrow> Suppressor \<Rightarrow> string" where
  "effect_of J r s = lookup_or [] (sp_Effects s) (call_Name (call_of J r))"

lemma serve_transport:
  "hq_Method r \<noteq> ''POST'' \<Longrightarrow> Suppressor_ServeHTTP J e r s = (Forwarded r, [], s)"
  by (simp add: Suppressor_ServeHTTP_def)

lemma serve_unread:
  "hq_Method r = ''POST'' \<Longrightarrow> snd (read_body r) = Some err \<Longrightarrow> Suppressor_ServeHTTP J e r s = (BadRequest err, [], s)"
  by (cases "read_body r") (simp add: Suppressor_ServeHTTP_def read_body_def [symmetric])

lemma serve_chatter:
  "hq_Method r = ''POST'' \<Longrightarrow> snd (read_body r) = None \<Longrightarrow> call_Method (call_of J r) \<noteq> ''tools/call'' \<Longrightarrow>
     Suppressor_ServeHTTP J e r s = (Forwarded (with_body (fst (read_body r)) r), [], s\<lparr>sp_allowed := sp_allowed s + 1\<rparr>)"
  by (cases "read_body r")
    (simp add: Suppressor_ServeHTTP_def read_body_def [symmetric] call_of_def with_body_def Let_def)

lemma serve_tool_call:
  assumes "tool_call J r"
  shows "Suppressor_ServeHTTP J e r s =
    (case mentions J r s of
       Some (addr, _) \<Rightarrow>
         (Answered (call_ID (call_of J r)) (Inl (sp_results s ! addr)), [], s\<lparr>sp_replayed := sp_replayed s + 1\<rparr>)
     | None \<Rightarrow>
         if effect_of J r s = []
         then (case emit e (session_of r) (call_of J r) [] (fst (read_body r)) (refusal (call_Name (call_of J r))) True
                       (s\<lparr>sp_refused := sp_refused s + 1\<rparr>) of
                 (recs, s1) \<Rightarrow>
                   (Answered (call_ID (call_of J r)) (Inr (-32000, Sprintf ''tool %q has no asserted effect in the manifest, so it cannot run against mirrored traffic''
                      [AStr (call_Name (call_of J r))])), recs, s1))
         else if effect_of J r s \<noteq> EffectRead
         then suppress e (session_of r) (call_of J r) (effect_of J r s) (fst (read_body r))
                (record_attempt (call_of J r) (s\<lparr>sp_suppressed := sp_suppressed s + 1\<rparr>))
         else (Forwarded (with_body (fst (read_body r)) r), [], s\<lparr>sp_allowed := sp_allowed s + 1\<rparr>))"
proof -
  obtain b where rb: "read_body r = (b, None)" using assms by (cases "read_body r") (auto simp: tool_call_def)
  have call: "call_of J r = Parse J b" by (simp add: call_of_def rb)
  have "session_of (r\<lparr>hq_Body := Some (b, None), hq_ContentLength := n\<rparr>) = session_of r" for b n
    by (simp add: session_of_def)
  then show ?thesis
    using assms rb
    by (simp add: Suppressor_ServeHTTP_def read_body_def [symmetric] tool_call_def mentions_def effect_of_def
        with_body_def call Let_def split: option.split)
qed

text \<open>
  C32. What suppression lets through.  A request reaches the tool server exactly when it is not a
  POST, or its body could be read and either does not parse as a tool call, or calls a tool the manifest
  asserts to be a read with arguments that mention no placeholder of its session.  It then arrives with
  the body it had.  In particular a batch of calls, which parses as no call at all, is let through
  whatever it calls.
\<close>

theorem only_reads_pass_suppression:
  "fst (Suppressor_ServeHTTP J e r s) = Forwarded r' \<longleftrightarrow>
    (if hq_Method r = ''POST''
     then snd (read_body r) = None \<and> r' = with_body (fst (read_body r)) r \<and>
       (call_Method (call_of J r) = ''tools/call'' \<longrightarrow> effect_of J r s = EffectRead \<and> mentions J r s = None)
     else r' = r)"
proof (cases "tool_call J r")
  case True
  then have "hq_Method r = ''POST''" "snd (read_body r) = None" "call_Method (call_of J r) = ''tools/call''"
    by (simp_all add: tool_call_def)
  moreover have "fst (suppress e i c f b s1) \<noteq> Forwarded r'" for i c f b s1
    by (simp add: suppress_def Let_def split: prod.split)
  moreover have "EffectRead \<noteq> []" by (simp add: EffectRead_def)
  ultimately show ?thesis
    using serve_tool_call [OF True, of e s] by (auto split: option.splits prod.splits)
next
  case False
  then consider "hq_Method r \<noteq> ''POST''" | err where "hq_Method r = ''POST''" "snd (read_body r) = Some err"
    | "hq_Method r = ''POST''" "snd (read_body r) = None" "call_Method (call_of J r) \<noteq> ''tools/call''"
    by (auto simp: tool_call_def)
  then show ?thesis
    by cases (auto simp: serve_transport serve_unread serve_chatter)
qed

section \<open>A write is visible to its session\<close>




definition ex_placeholder :: string where
  "ex_placeholder = synthetic_id ''unattributed'' ''pay'' ''{}''"

definition ex_tools :: rpc_codec where
  "ex_tools = ex_rpc\<lparr>jr_call := (\<lambda>b.
     if b = ''write'' then \<lparr> call_Method = ''tools/call'', call_ID = ''1'', call_Name = ''pay'', call_Arguments = ''{}'' \<rparr>
     else \<lparr> call_Method = ''tools/call'', call_ID = ''2'', call_Name = ''pay'', call_Arguments = ex_placeholder \<rparr>)\<rparr>"

definition ex_post :: "string \<Rightarrow> http_request" where
  "ex_post body = \<lparr> hq_Method = ''POST'', hq_URL = ''/'', hq_Header = [], hq_Body = Some (body, None), hq_ContentLength = 0 \<rparr>"

definition ex_sup_env :: sup_env where
  "ex_sup_env = \<lparr> su_first = (0, 0), su_second = (0, 0), su_now = 0, su_marshal = (\<lambda>_. Inr ''{}'') \<rparr>"

definition ex_suppressor :: Suppressor where
  "ex_suppressor = NewSuppressor [(''pay'', EffectWrite)]"

lemma ex_post_simps:
  "session_of (ex_post b) = ''unattributed''" "read_body (ex_post b) = (b, None)" "hq_Method (ex_post b) = ''POST''"
  by (simp_all add: session_of_def ex_post_def sessionID_def Header_Get_def TrimSpace_def Trim_def TrimRight_def read_body_def)

lemma ex_calls:
  "call_of ex_tools (ex_post ''write'') = \<lparr> call_Method = ''tools/call'', call_ID = ''1'', call_Name = ''pay'', call_Arguments = ''{}'' \<rparr>"
  "call_of ex_tools (ex_post ''read'') = \<lparr> call_Method = ''tools/call'', call_ID = ''2'', call_Name = ''pay'', call_Arguments = ex_placeholder \<rparr>"
  by (simp_all add: call_of_def ex_post_simps Parse_def ex_tools_def)


section \<open>The counters\<close>

fun serve_all ::
    "rpc_codec \<Rightarrow> (sup_env \<times> http_request) list \<Rightarrow> Suppressor \<Rightarrow> Record list \<times> Suppressor" where
  "serve_all J [] s = ([], s)"
| "serve_all J ((e, r) # rs) s =
     (case Suppressor_ServeHTTP J e r s of
        (_, recs, s1) \<Rightarrow> (case serve_all J rs s1 of (recs', s2) \<Rightarrow> (recs @ recs', s2)))"

definition counted :: "Suppressor \<Rightarrow> int" where
  "counted s = sp_suppressed s + sp_refused s + sp_allowed s + sp_replayed s"

definition readable_post :: "http_request \<Rightarrow> bool" where
  "readable_post r \<longleftrightarrow> hq_Method r = ''POST'' \<and> snd (read_body r) = None"

definition suppressed_of :: "string \<Rightarrow> Record list \<Rightarrow> int" where
  "suppressed_of t recs = int (length (filter (\<lambda>rec. rc_Suppressed rec \<and> rc_ToolName rec = t) recs))"

definition session_steps :: "string \<Rightarrow> Record list \<Rightarrow> int list" where
  "session_steps i recs = map rc_Step (filter (\<lambda>rec. rc_Session rec = i) recs)"

text \<open>What one request adds to the counters and to the records.\<close>

definition accounted :: "Suppressor \<Rightarrow> Record list \<Rightarrow> Suppressor \<Rightarrow> int \<Rightarrow> bool" where
  "accounted s recs s' n \<longleftrightarrow>
     sp_Sink s' = sp_Sink s \<and> counted s' = counted s + n \<and>
     int (length recs) = sp_suppressed s' - sp_suppressed s + (sp_refused s' - sp_refused s) \<and>
     (\<forall>t. lookup_or 0 (sp_attempts s') t = lookup_or 0 (sp_attempts s) t + suppressed_of t recs) \<and>
     (\<forall>i. lookup_or 0 (sp_steps s') i = lookup_or 0 (sp_steps s) i + int (length (session_steps i recs)) \<and>
          session_steps i recs = map (\<lambda>k. lookup_or 0 (sp_steps s) i + int k) [0..<length (session_steps i recs)])"

lemma lookup_bump [simp]: "lookup_or 0 (bump k m) k' = lookup_or 0 m k' + (if k' = k then 1 else 0)"
  by (simp add: bump_def lookup_or_def update_conv')

lemma serve_accounted:
  assumes "sp_Sink s" and "\<And>v. \<exists>b. su_marshal e v = Inr b"
    and "Suppressor_ServeHTTP J e r s = (out, recs, s')"
  shows "accounted s recs s' (if readable_post r then 1 else 0)"
proof (cases "tool_call J r")
  case False
  then consider "hq_Method r \<noteq> ''POST''" | err where "hq_Method r = ''POST''" "snd (read_body r) = Some err"
    | "hq_Method r = ''POST''" "snd (read_body r) = None" "call_Method (call_of J r) \<noteq> ''tools/call''"
    by (auto simp: tool_call_def)
  then show ?thesis
    by cases (use assms(3) in \<open>auto simp: serve_transport serve_unread serve_chatter accounted_def counted_def
        readable_post_def suppressed_of_def session_steps_def\<close>)
next
  case True
  then have rp: "readable_post r" by (simp add: tool_call_def readable_post_def)
  have emit: "\<exists>resp. emit e i c f b res refd s1 =
      ([suppression_record e i (call_Name c) f b resp refd (lookup_or 0 (sp_steps s1) i)],
       s1\<lparr>sp_steps := bump i (sp_steps s1)\<rparr>)" if "sp_Sink s1" for i c f b res refd s1
    using assms(2) [of "JObj [(''jsonrpc'', JStr ''2.0''), (''result'', JObj res)]"] that by (auto simp: emit_def)
  have one: "accounted s [suppression_record e i n f b resp refd (lookup_or 0 (sp_steps s) i)] s2 1"
    if "sp_Sink s2 = sp_Sink s" "sp_steps s2 = bump i (sp_steps s)" "counted s2 = counted s + 1"
      "sp_suppressed s2 - sp_suppressed s + (sp_refused s2 - sp_refused s) = 1"
      "sp_attempts s2 = (if refd then sp_attempts s else bump n (sp_attempts s))" for i b resp n f refd s2
    using that by (auto simp: accounted_def suppressed_of_def session_steps_def suppression_record_def)
  consider addr i where "mentions J r s = Some (addr, i)" | "mentions J r s = None" "effect_of J r s = []"
    | "mentions J r s = None" "effect_of J r s \<notin> {[], EffectRead}" | "mentions J r s = None" "effect_of J r s = EffectRead"
    by (cases "mentions J r s") auto
  then show ?thesis
  proof cases
    case 1
    then show ?thesis
      using assms(3) serve_tool_call [OF True, of e s] rp
      by (auto simp: accounted_def counted_def suppressed_of_def session_steps_def)
  next
    case 2
    let ?s1 = "s\<lparr>sp_refused := sp_refused s + 1\<rparr>"
    obtain resp where "emit e (session_of r) (call_of J r) [] (fst (read_body r)) (refusal (call_Name (call_of J r))) True ?s1 =
      ([suppression_record e (session_of r) (call_Name (call_of J r)) [] (fst (read_body r)) resp True
          (lookup_or 0 (sp_steps s) (session_of r))], ?s1\<lparr>sp_steps := bump (session_of r) (sp_steps s)\<rparr>)"
      using emit [of ?s1] assms(1) by fastforce
    then have run: "recs = [suppression_record e (session_of r) (call_Name (call_of J r)) [] (fst (read_body r)) resp True
          (lookup_or 0 (sp_steps s) (session_of r))]" "s' = ?s1\<lparr>sp_steps := bump (session_of r) (sp_steps s)\<rparr>"
      using assms(3) serve_tool_call [OF True, of e s] 2 by simp_all
    show ?thesis unfolding run(1) using rp by (simp only: if_True) (rule one, simp_all add: run(2) counted_def)
  next
    case 3
    let ?s1 = "record_attempt (call_of J r) (s\<lparr>sp_suppressed := sp_suppressed s + 1\<rparr>)"
    let ?c = "call_of J r"
    have run: "suppress e (session_of r) ?c (effect_of J r s) (fst (read_body r)) ?s1 = (out, recs, s')"
      using assms(3) serve_tool_call [OF True, of e s] 3 by simp
    obtain result reg where em: "emit e (session_of r) ?c (effect_of J r s) (fst (read_body r)) result False
        (?s1\<lparr>sp_synthetic := reg, sp_results := sp_results ?s1 @ [result]\<rparr>) = (recs, s')"
      using run by (auto simp: suppress_def Let_def split: prod.splits)
    obtain resp where res: "recs = [suppression_record e (session_of r) (call_Name ?c) (effect_of J r s) (fst (read_body r)) resp False
          (lookup_or 0 (sp_steps s) (session_of r))]"
      "s' = ?s1\<lparr>sp_synthetic := reg, sp_results := sp_results ?s1 @ [result], sp_steps := bump (session_of r) (sp_steps s)\<rparr>"
      using emit [of "?s1\<lparr>sp_synthetic := reg, sp_results := sp_results ?s1 @ [result]\<rparr>" "session_of r" ?c
          "effect_of J r s" "fst (read_body r)" result False] em assms(1)
      by (auto simp: record_attempt_def)
    show ?thesis unfolding res(1) using rp
      by (simp only: if_True) (rule one, simp_all add: res(2) counted_def record_attempt_def)
  next
    case 4
    then show ?thesis
      using assms(3) serve_tool_call [OF True, of e s] rp
      by (auto simp: accounted_def counted_def suppressed_of_def session_steps_def EffectRead_def)
  qed
qed

lemma accounted_trans:
  assumes "accounted s recs s1 m" and "accounted s1 recs' s2 n"
  shows "accounted s (recs @ recs') s2 (m + n)"
proof -
  have "session_steps i (recs @ recs') =
      map (\<lambda>k. lookup_or 0 (sp_steps s) i + int k) [0..<length (session_steps i (recs @ recs'))]" for i
  proof -
    let ?a = "length (session_steps i recs)" and ?b = "length (session_steps i recs')"
    have "[0..<?a + ?b] = [0..<?a] @ map (\<lambda>k. ?a + k) [0..<?b]"
      by (simp add: upt_add_eq_append [of 0] map_add_upt add.commute)
    then have "map f [0..<?a + ?b] = map f [0..<?a] @ map (\<lambda>k. f (?a + k)) [0..<?b]" for f :: "nat \<Rightarrow> int"
      by (simp add: comp_def)
    moreover have 1: "session_steps i recs = map (\<lambda>k. lookup_or 0 (sp_steps s) i + int k) [0..<?a]"
      using assms(1) unfolding accounted_def by blast
    have 2: "session_steps i recs' = map (\<lambda>k. lookup_or 0 (sp_steps s) i + int (?a + k)) [0..<?b]"
      using assms unfolding accounted_def by (simp add: add.assoc)
    have "session_steps i (recs @ recs') = session_steps i recs @ session_steps i recs'"
      by (simp add: session_steps_def)
    ultimately show ?thesis using arg_cong2 [OF 1 2, of append] by (simp only: length_append length_map length_upt diff_zero)
  qed
  then show ?thesis
    using assms by (simp add: accounted_def suppressed_of_def) (simp add: session_steps_def)
qed

lemma serve_all_accounted:
  "sp_Sink s \<Longrightarrow> \<forall>(e, r) \<in> set rs. \<forall>v. \<exists>b. su_marshal e v = Inr b \<Longrightarrow> serve_all J rs s = (recs, s') \<Longrightarrow>
     accounted s recs s' (int (length (filter (\<lambda>(e, r). readable_post r) rs)))"
proof (induction rs arbitrary: s recs)
  case Nil
  then show ?case by (simp add: accounted_def suppressed_of_def session_steps_def)
next
  case (Cons er rs)
  obtain e r where er: "er = (e, r)" by (cases er)
  obtain out recs1 s1 where 1: "Suppressor_ServeHTTP J e r s = (out, recs1, s1)" by (cases "Suppressor_ServeHTTP J e r s")
  obtain recs2 where 2: "serve_all J rs s1 = (recs2, s')" "recs = recs1 @ recs2"
    using Cons.prems(3) er 1 by (auto split: prod.splits)
  have a: "accounted s recs1 s1 (if readable_post r then 1 else 0)"
    using serve_accounted [OF Cons.prems(1) _ 1] Cons.prems(2) er by simp
  then have "sp_Sink s1" using Cons.prems(1) by (simp add: accounted_def)
  from accounted_trans [OF a Cons.IH [OF this _ 2(1)]] Cons.prems(2) show ?case
    using er 2(2) by (auto split: if_splits)
qed

text \<open>
  C34. The live counters agree with the durable record.  From a new suppressor, over any requests, every
  POST that could be read is counted exactly once, as suppressed, refused, allowed or replayed; there is
  one record per suppressed or refused call; the attempts reported for a tool are the suppressed calls of
  that tool in the record; and the records of each session are numbered from zero without gaps, by a
  counter of the suppressor's own.
\<close>

theorem suppression_is_accounted_for:
  assumes "serve_all J rs (NewSuppressor effects) = (recs, s')"
    and "\<forall>(e, r) \<in> set rs. \<forall>v. \<exists>b. su_marshal e v = Inr b"
  shows "sp_suppressed s' + sp_refused s' + sp_allowed s' + sp_replayed s' =
      int (length (filter (\<lambda>(e, r). readable_post r) rs)) \<and>
    int (length recs) = sp_suppressed s' + sp_refused s' \<and>
    (\<forall>t. lookup_or 0 (Attempts s') t = suppressed_of t recs) \<and>
    (\<forall>i. session_steps i recs = map int [0..<length (session_steps i recs)])"
proof -
  have "accounted (NewSuppressor effects) recs s' (int (length (filter (\<lambda>(e, r). readable_post r) rs)))"
    using serve_all_accounted [OF _ assms(2,1)] by (simp add: NewSuppressor_def)
  then show ?thesis
    by (simp add: accounted_def counted_def NewSuppressor_def Attempts_def lookup_or_def)
qed

theorem suppression_is_accounted_for_witness:
  "lookup_or 0 (Attempts (snd (serve_all ex_tools [(ex_sup_env, ex_post ''write'')] ex_suppressor))) ''pay'' =
     suppressed_of ''pay'' (fst (serve_all ex_tools [(ex_sup_env, ex_post ''write'')] ex_suppressor))"
proof -
  obtain recs s' where run: "serve_all ex_tools [(ex_sup_env, ex_post ''write'')] ex_suppressor = (recs, s')"
    by (metis prod.collapse)
  then show ?thesis
    using suppression_is_accounted_for [of ex_tools "[(ex_sup_env, ex_post ''write'')]"]
    by (simp add: ex_suppressor_def ex_sup_env_def)
qed

theorem only_reads_pass_suppression_witness:
  "fst (Suppressor_ServeHTTP ex_tools ex_sup_env (ex_post ''write'') ex_suppressor) \<noteq>
     Forwarded (with_body ''write'' (ex_post ''write''))"
proof -
  have "effect_of ex_tools (ex_post ''write'') ex_suppressor \<noteq> EffectRead"
    by (simp add: effect_of_def ex_calls ex_suppressor_def NewSuppressor_def lookup_or_def EffectRead_def EffectWrite_def)
  then show ?thesis
    unfolding only_reads_pass_suppression by (simp add: ex_post_simps ex_calls)
qed

end
