(* ===== verification/RecordReplay.thy ===== *)
theory RecordReplay
  imports ReplayRun Suppress
begin

text \<open>
  The recorder and the replayer together: what becomes of a recorded call when the same session is
  replayed, and which recordings cannot be replayed as they were made.
\<close>

section \<open>A recorded span in the index\<close>

lemma byStep_fold:
  assumes "x \<in> set ss \<or> map_of (ix_byStep idx) n = Some x" and "span_Kind x \<noteq> KindSession" and "StepIndex x = Some n"
    and "\<forall>y \<in> set ss. StepIndex y = Some n \<longrightarrow> y = x"
  shows "map_of (ix_byStep (fold index_span ss idx)) n = Some x"
  using assms(1,4)
proof (induction ss arbitrary: idx)
  case (Cons y ss)
  have "x \<in> set ss \<or> map_of (ix_byStep (index_span y idx)) n = Some x"
  proof (cases "y = x")
    case True
    then show ?thesis using assms(2,3) by (simp add: index_span_def update_conv')
  next
    case False
    then have "StepIndex y \<noteq> Some n" using Cons.prems(2) by auto
    then show ?thesis
      using False Cons.prems(1) by (auto simp: index_span_def update_conv' split: option.splits)
  qed
  then show ?case using Cons by simp
qed simp

lemma byStep_NewIndex:
  assumes "x \<in> set ss" and "span_Kind x \<noteq> KindSession" and "StepIndex x = Some n"
    and "\<forall>y \<in> set ss. StepIndex y = Some n \<longrightarrow> y = x"
  shows "map_of (ix_byStep (NewIndex h ss)) n = Some x"
  unfolding NewIndex_def by (rule byStep_fold [OF disjI1 [OF assms(1)] assms(2-4)])

lemma WriteSpan_id:
  assumes "WriteSpan E io pt e s w st = (None, s', w', st')"
  shows "span_SpanID s' = span_SpanID s"
  using assms
proof (rule WriteSpan_None)
  fix s1 w1 a st1 a' line
  assume "number_span (label_span s) w = (s1, w1)" and "s' = s1\<lparr>span_Attributes := a'\<rparr>"
  then show ?thesis by (auto simp: number_span_def label_span_def split: if_split_asm)
qed

lemma to_int64_of_int64: "\<bar>n\<bar> < 2 ^ 53 \<Longrightarrow> to_int64 (of_int64 n) = n"
  by (auto simp: of_int64_exact)

lemma NormalisedHash_is_digest:
  "NormalisedHash jcs body \<in> insert [] (range cas_Compute)"
  by (auto simp: NormalisedHash_def cas_Compute_def Let_def)

lemma ascii_NormalisedHash [simp]: "ascii (NormalisedHash jcs body)"
  using NormalisedHash_is_digest [of jcs body] by (auto simp: ascii_def [of "[]"])

lemma ascii_AttrUpstreamStatus [simp]: "ascii AttrUpstreamStatus"
  by code_simp

text \<open>What the replay reads of a recorded call.\<close>

lemma recorded_span:
  assumes "WriteSpan E io pt pe (span_of V rec) wr st = (None, sp, wr', st')"
    and "\<bar>rc_Step rec\<bar> < 2 ^ 53" and "\<bar>rc_Status rec\<bar> < 2 ^ 53"
  shows "StepIndex (wire_span sp) = Some (rc_Step rec)"
    and "RequestHash (wire_span sp) = NormalisedHash (sv_jcs V) (rc_ReqBody rec)"
    and "statusOf (wire_span sp) = rc_Status rec"
    and "spanKey (wire_span sp) = ([], rc_Step rec)"
    and "span_Kind (wire_span sp) = (if rc_Plane rec = Recorder.PlaneModel then KindModel else KindTool)"
proof -
  have at: "span_Attributes (span_of V rec) = SpanAttributes V rec"
    by (simp add: span_of_def split: prod.splits)
  have dist: "distinct (map fst (span_Attributes sp))"
    by (rule WriteSpan_distinct [OF assms(1)]) (simp add: at distinct_SpanAttributes)
  have "StepIndex (span_of V rec) \<noteq> None" by (simp add: StepIndex_def at SpanAttributes_values)
  note keep = WriteSpan_attr [OF assms(1) this]
  have status: "map_of (SpanAttributes V rec) AttrUpstreamStatus = Some (JInt (rc_Status rec))"
    by (simp add: SpanAttributes_def mcpAttributes_def Let_def map_of_set_if update_conv' attr_defs)
  have read: "map_of (span_Attributes (wire_span sp)) k = map_option wire (map_of (SpanAttributes V rec) k)"
    if "k \<in> {AttrStepIndex, AttrRequestHash, AttrUpstreamStatus}" for k
  proof -
    have "k \<notin> {AttrRequestBody, AttrRequestRef, AttrRequestBytes, AttrResponseBody, AttrResponseRef,
        AttrResponseBytes, AttrRedacted, AttrKind, AttrSchemaVersion}" using that by (auto simp: attr_defs)
    then have "map_of (span_Attributes sp) k = map_of (SpanAttributes V rec) k" using keep at by simp
    moreover have "ascii k" using that by auto
    ultimately show ?thesis using map_of_wire [OF dist, of k] by simp
  qed
  show step: "StepIndex (wire_span sp) = Some (rc_Step rec)"
    using read [of AttrStepIndex] assms(2) by (simp add: StepIndex_def SpanAttributes_values to_int64_of_int64)
  show "RequestHash (wire_span sp) = NormalisedHash (sv_jcs V) (rc_ReqBody rec)"
    using read [of AttrRequestHash] by (simp add: RequestHash_def span_String_def jfield_def lookup_or_def SpanAttributes_values)
  show "statusOf (wire_span sp) = rc_Status rec"
    using read [of AttrUpstreamStatus] assms(3) by (simp add: statusOf_def jfield_def lookup_or_def status to_int64_of_int64)
  show "spanKey (wire_span sp) = ([], rc_Step rec)"
    using step WriteSpan_id [OF assms(1)] by (simp add: spanKey_def step_or_0_def wire_span_def span_of_def split: prod.splits)
  show "span_Kind (wire_span sp) = (if rc_Plane rec = Recorder.PlaneModel then KindModel else KindTool)"
    using keep [of AttrStepIndex]
    by (cases "rc_Plane rec")
      (auto simp: attr_defs wire_span_def span_of_def SpanNameAndKind_def Let_def split: prod.splits if_splits)
qed

section \<open>Replaying a recorded call\<close>

lemma NormalisedHash_nonempty: "body \<noteq> [] \<Longrightarrow> NormalisedHash jcs body \<noteq> []"
  by (simp add: NormalisedHash_def Let_def)

lemma served_exactly:
  assumes "lookup_exact (sv_idx s) (q\<lparr>ask_Step := tk_next (sv_tracker s)\<rparr>) = Some x"
    and "ask_Kind q = KindModel" and "po_Mode (sv_policy s) \<noteq> ModeModelLiveToolsReplayed"
    and "read_payload D st x = Inr c" and "100 \<le> statusOf x" and "statusOf x \<le> 999"
  shows "\<exists>rl sp s' st'. handle D e r q body s st w = (Some rl, sp, s', st', w) \<and> rl_Status rl = statusOf x \<and>
    map_of (rl_Header rl) ''X-Waveoff-Match'' = Some [''exact''] \<and>
    reply_body rl = RewriteID (rv_rpc D) c (RequestID (rv_rpc D) body)"
proof -
  let ?q = "q\<lparr>ask_Step := tk_next (sv_tracker s)\<rparr>"
  let ?m = "\<lparr> mt_Span = Some x, mt_Kind = MatchExact, mt_Step = ask_Step ?q \<rparr>"
  let ?d = "Decide (sv_policy s) ?q ?m"
  have "Lookup (sv_idx s) ?q = (?m, consume x (sv_idx s))" using assms(1) by (simp add: Lookup_def)
  then obtain s1 where dr: "decide_request s q = (?q, ?m, ?d, s1)" by (simp add: decide_request_def Let_def)
  have act: "dc_Action ?d = ActionServe"
    using assms(2,3) by (cases "po_Mode (sv_policy s)") (simp_all add: Decide_def decideModel_def Found_def)
  obtain rl where "serveRecorded D st ?m ?d (RequestID (rv_rpc D) body) = Some rl"
    and rl: "rl_Status rl = statusOf x" "map_of (rl_Header rl) ''X-Waveoff-Match'' = Some [''exact'']"
      "reply_body rl = RewriteID (rv_rpc D) c (RequestID (rv_rpc D) body)"
    using assms(4-6) by (simp add: serveRecorded_def with_status_def replay_header_def reply_body_def)
  then have "answer D s1 st r ?q ?m ?d body w = (Some rl, w)" using act by (simp add: answer_def)
  then show ?thesis using dr rl by (simp add: handle_def split: prod.split)
qed

text \<open>
  C10. What was recorded is what is replayed, if it was text.  Take a model call the proxy recorded and
  the sink wrote, read back into the index of a replay in which its step comes up and has not been
  served.  If the agent sends the recorded request, to a path that is routed as it is, in a mode that
  replays the model, it is answered from the recording, as an exact match, with the recorded status and
  the recorded response without its credentials, under the id of the new request; no upstream is
  reached.  A response longer than the threshold was offloaded and comes back as a content with the same
  digest, whatever was put in the store since.  One that stayed in the span went through JSON: it comes
  back with every byte that is not UTF-8 replaced, so exactly if it was valid UTF-8, and a compressed
  response is served corrupted.
\<close>

theorem recorded_call_is_replayed:
  assumes "WriteSpan E io (FS_Put f) pe (span_of V rec) wr files = (None, sp, wr', files')" and "well_stored f files"
    and "rc_Plane rec = Recorder.PlaneModel" and "rc_ReqBody rec \<noteq> []"
    and "0 \<le> rc_Step rec" and "rc_Step rec < 2 ^ 53" and "100 \<le> rc_Status rec" and "rc_Status rec \<le> 999"
    and "wire_span sp \<in> set spans" and "\<forall>y \<in> set spans. StepIndex y = Some (rc_Step rec) \<longrightarrow> y = wire_span sp"
    and "sv_idx s = (NewIndex h spans)\<lparr>ix_consumed := used\<rparr>" and "([], rc_Step rec) \<notin> set used"
    and "tk_next (sv_tracker s) = rc_Step rec" and "po_Mode (sv_policy s) \<noteq> ModeModelLiveToolsReplayed"
    and "rv_span D = V" and "rv_get D = Some (\<lambda>st d. FS_Get f e' d st)" and "fe_Ctx e' = None" and "fe_Open e' = None"
    and "mux_redirect r = None" and "hq_Path r \<noteq> ''/healthz''" and "\<not> HasPrefix (hq_Path r) ''/mcp/''" and "request_body r = (rc_ReqBody rec, None)"
    and "clean = fst (Redactor_Body (cw_redactor wr) (rc_RespBody rec))"
  shows "\<exists>rl x s' st' body. Server_ServeHTTP D e r s (puts (FS_Put f) history files') w = (Some rl, x, s', st', w) \<and>
    rl_Status rl = rc_Status rec \<and> map_of (rl_Header rl) ''X-Waveoff-Match'' = Some [''exact''] \<and>
    reply_body rl = RewriteID (rv_rpc D) body (RequestID (rv_rpc D) (rc_ReqBody rec)) \<and>
    (if cw_offload wr \<and> 0 < cw_threshold wr \<and> cw_threshold wr < int (length clean)
     then cas_Compute body = cas_Compute clean
     else body = coerce_utf8 clean \<and> (body = clean \<longleftrightarrow> valid_utf8 clean))"
proof -
  have bound: "\<bar>rc_Step rec\<bar> < 2 ^ 53" "\<bar>rc_Status rec\<bar> < 2 ^ 53" using assms(5-8) by auto
  note x = recorded_span [OF assms(1) bound]
  let ?st = "puts (FS_Put f) history files'"
  have at: "span_Attributes (span_of V rec) = SpanAttributes V rec"
    by (simp add: span_of_def split: prod.splits)
  have raw: "payloadBytes (jfield AttrResponseBody (span_Attributes (span_of V rec))) = Some (rc_RespBody rec)"
    by (simp add: at jfield_def lookup_or_def SpanAttributes_values)
  have kept: "payload_kept wr (fs_blobs f files') (span_Attributes sp) AttrResponseBody AttrResponseRef clean \<and> well_stored f files'"
    using fs_store.WriteSpan_kept [OF assms(2,1) _ raw] assms(23) by simp
  have "distinct (map fst (span_Attributes sp))"
    by (rule WriteSpan_distinct [OF assms(1)]) (simp add: at distinct_SpanAttributes)
  from FS_Payload_kept [OF fs_store.puts_ok [OF kept [THEN conjunct2]] this
      fs_store.kept_puts [OF kept [THEN conjunct2] kept [THEN conjunct1]] assms(17,18)]
    ascii_keys
  obtain body where body: "read_payload D ?st (wire_span sp) = Inr body" "given_back wr clean body"
    unfolding read_payload_def assms(16) option.map by blast
  let ?q = "\<lparr> ask_Step = 0, ask_Hash = NormalisedHash (sv_jcs V) (rc_ReqBody rec), ask_Kind = KindModel, ask_Tool = [], ask_ArgsHash = [] \<rparr>"
  have q: "step_request D r = Some ?q" using assms(15,19-22) by (simp add: step_request_def)
  have "map_of (ix_byStep (NewIndex h spans)) (rc_Step rec) = Some (wire_span sp)"
    by (rule byStep_NewIndex [OF assms(9) _ x(1) assms(10)]) (simp add: x(5) assms(3))
  then have exact: "lookup_exact (sv_idx s) (?q\<lparr>ask_Step := tk_next (sv_tracker s)\<rparr>) = Some (wire_span sp)"
    by (simp add: lookup_exact_def assms(4,11-13) isConsumed_def NormalisedHash_nonempty x(2,4))
  have "\<exists>rl x s' st'. Server_ServeHTTP D e r s ?st w = (Some rl, x, s', st', w) \<and>
      rl_Status rl = rc_Status rec \<and> map_of (rl_Header rl) ''X-Waveoff-Match'' = Some [''exact''] \<and>
      reply_body rl = RewriteID (rv_rpc D) body (RequestID (rv_rpc D) (rc_ReqBody rec))"
    using served_exactly [OF exact _ assms(14) body(1), of e r "rc_ReqBody rec" w]
    unfolding serve_step [OF q] assms(22) fst_conv x(3) by (simp add: assms(7,8))
  then show ?thesis using body(2) unfolding given_back_def offloaded_def by blast
qed

section \<open>Recordings that cannot be replayed as they were made\<close>

text \<open>
  Two recorded calls with the same step share their identity in the index, because the recorder gives
  its spans no id; so at most one of them is ever served.
\<close>

lemma same_step_served_once:
  assumes "WriteSpan E1 io1 pt1 pe1 (span_of V r1) w1 st1 = (None, sp1, w1', st1')"
    and "WriteSpan E2 io2 pt2 pe2 (span_of V r2) w2 st2 = (None, sp2, w2', st2')"
    and "rc_Step r1 = rc_Step r2" and "\<bar>rc_Step r1\<bar> < 2 ^ 53" and "\<bar>rc_Status r1\<bar> < 2 ^ 53" and "\<bar>rc_Status r2\<bar> < 2 ^ 53"
    and "wire_span sp1 \<noteq> wire_span sp2"
  shows "\<not> {wire_span sp1, wire_span sp2} \<subseteq> set (served (lookups (NewIndex h spans) asked))"
proof
  let ?served = "served (lookups (NewIndex h spans) asked)"
  assume "{wire_span sp1, wire_span sp2} \<subseteq> set ?served"
  moreover have "inj_on spanKey (set ?served)"
    using served_fresh [of "NewIndex h spans" asked] by (simp add: distinct_map)
  moreover have "spanKey (wire_span sp1) = spanKey (wire_span sp2)"
    using recorded_span(4) [OF assms(1,4,5)] recorded_span(4) [OF assms(2) _ assms(6)] assms(3,4) by simp
  ultimately show False using assms(7) by (auto dest: inj_onD)
qed

text \<open>The first call of a session gets step 0 from the proxy, and its first suppressed one from the suppressor.\<close>

lemma first_step_of_a_session: "Identify e h (NewSessions ttl) = ((i, origin, step), s') \<Longrightarrow> step = 0"
  by (auto simp: Identify_def NewSessions_def evict_def Let_def newSyntheticID_def lookup_or_def
      split: prod.splits list.splits option.splits)

lemma first_suppressed_step:
  "Suppressor_ServeHTTP J e r (NewSuppressor effects) = (out, recs, s') \<Longrightarrow> rec \<in> set recs \<Longrightarrow> rc_Step rec = 0 \<and> rc_Status rec = 200"
  by (auto simp: Suppressor_ServeHTTP_def suppress_def emit_def NewSuppressor_def record_attempt_def Let_def lookup_or_def
      suppression_record_def split: if_splits prod.splits option.splits sum.splits)

text \<open>
  C14. A suppressed write hides a call.  The suppressor numbers the calls it answers itself by a counter
  of its own, beside the proxy's, and recorded spans carry no id; so when a session's first call through
  the proxy and its first suppressed call are both in a cassette, no replay ever serves both.
\<close>

theorem suppressed_write_hides_a_call:
  assumes "Suppressor_ServeHTTP J e r (NewSuppressor effects) = (out, recs, s')" and "r1 \<in> set recs"
    and "Identify ie hdr (NewSessions ttl) = ((i, origin, rc_Step r2), se')"
    and "WriteSpan E1 io1 pt1 pe1 (span_of V r1) w1 st1 = (None, sp1, w1', st1')"
    and "WriteSpan E2 io2 pt2 pe2 (span_of V r2) w2 st2 = (None, sp2, w2', st2')"
    and "\<bar>rc_Status r2\<bar> < 2 ^ 53" and "wire_span sp1 \<noteq> wire_span sp2"
  shows "\<not> {wire_span sp1, wire_span sp2} \<subseteq> set (served (lookups (NewIndex h spans) asked))"
  using same_step_served_once [OF assms(4,5) _ _ _ assms(6,7)] first_suppressed_step [OF assms(1,2)]
    first_step_of_a_session [OF assms(3)] by simp

text \<open>
  A repeated handshake gets the first recording again.  Exchanges are told apart by the ids of their
  spans, and the spans of a recorder have none; so in every state of the server each request of a method
  is answered with the first recorded exchange of it, and the later ones are never replayed.
\<close>

theorem repeated_handshake_gets_the_first:
  assumes "\<forall>x \<in> set (Spans (sv_idx s)). span_SpanID x = span_SpanID (span_of V rec)"
  shows "fst (protocolSpan meth s) = find (protocol_match meth) (Spans (sv_idx s))"
proof -
  let ?spans = "Spans (sv_idx s)"
  have id: "span_SpanID x = []" if "x \<in> set ?spans" for x
    using assms that by (simp add: span_of_def split: prod.splits)
  have "find (\<lambda>x. protocol_match meth x \<and> span_SpanID x @ meth \<notin> set (sv_served s)) ?spans =
      (if meth \<in> set (sv_served s) then None else find (protocol_match meth) ?spans)"
    using id by (auto simp: find_None_iff intro: find_cong)
  then show ?thesis by (simp add: protocolSpan_def split: option.split)
qed

text \<open>
  A long session can be recorded but not scored.  The corpus takes a session name of up to 128
  characters, and the output of its replay is named after it with the arm appended, ten characters more;
  so a session over 118 characters long is never replayed with an output, whatever the agent does.
\<close>

theorem long_session_cannot_be_scored:
  assumes "118 < length session" and "dx_Outputs v"
  shows "\<exists>err. Driver_Replay D J v X evs late session spec arm dir st w = (Inl err, dir, st, w)"
proof -
  have "128 < length (OutputName session arm)" using assms(1) by (cases arm) (simp_all add: OutputName_def)
  then have "\<exists>err. safeName (OutputName session arm) = Inl err" by (auto simp: safeName_def)
  then have "\<exists>err. NewOutput E red oe io blobs now hd session arm dir = (Inl err, dir)" for E red oe io blobs now hd
    by (auto simp: NewOutput_def Corpus_Create_def output_header_def)
  note short = this
  have out: "\<exists>err. driver_output D v X hd session arm dir = (Inl err, dir)" for hd
  proof -
    obtain err where "NewOutput (rv_enc D) (dx_redactor v) (rx_OutputOpen X) (rx_OutputHeader X) (dx_Blobs v) (rx_now X)
        hd session arm dir = (Inl err, dir)" using short by blast
    then show ?thesis using assms(2) by (simp add: driver_output_def)
  qed
  show ?thesis
  proof (cases "driver_load J X session")
    case (Inl e)
    then show ?thesis by (simp add: Driver_Replay_def)
  next
    case (Inr loaded)
    obtain err where "driver_output D v X (fst loaded) session arm dir = (Inl err, dir)" using out by blast
    then show ?thesis using Inr by (cases loaded) (simp add: Driver_Replay_def split: sum.split)
  qed
qed

section \<open>Examples\<close>

lemma handlePayload_inline: "\<not> cw_offload w \<Longrightarrow> \<exists>a'. handlePayload w pt bk rk sk a st = (None, a', st)"
  by (auto simp: handlePayload_def Let_def split: option.split prod.split)

lemma WriteSpan_inline:
  assumes "cw_wroteHeader w" and "\<not> cw_offload w" and "cw_encErr w = None" and "\<And>s. enc_span E s = Inr l"
  shows "\<exists>s' w'. WriteSpan E None pt pe s w st = (None, s', w', st)"
proof -
  obtain s1 w1 where n: "number_span (label_span s) w = (s1, w1)" by (cases "number_span (label_span s) w")
  have w1: "\<not> cw_offload w1" "cw_encErr w1 = None" using assms number_span_frame [OF n] by auto
  obtain a where a: "handlePayload w1 (pt (pe AttrRequestBody)) AttrRequestBody AttrRequestRef AttrRequestBytes
      (span_Attributes s1) st = (None, a, st)" by (meson handlePayload_inline [OF w1(1)])
  obtain a' where "handlePayload w1 (pt (pe AttrResponseBody)) AttrResponseBody AttrResponseRef AttrResponseBytes a st
      = (None, a', st)" by (meson handlePayload_inline [OF w1(1)])
  then show ?thesis using assms(1,4) n a w1(2) by (simp add: WriteSpan_def Encode_def)
qed

lemma ex_writer_simps:
  "cw_wroteHeader ex_writer" "\<not> cw_offload ex_writer" "cw_encErr ex_writer = None" "enc_span ex_encoder s = Inr ''s''"
  by (simp_all add: ex_writer_def WriteHeader_def Encode_def NewWriter_def ex_encoder_def)

definition ex_recorded :: Record where
  "ex_recorded = ex_record\<lparr>rc_ReqBody := ''hi'', rc_RespBody := ''ok'', rc_Status := 200\<rparr>"

definition ex_fs_replay :: "(fs_env, (string \<times> string) list, nat) replay_deps" where
  "ex_fs_replay = \<lparr> rv_enc = ex_encoder, rv_span = sn_span ex_deps, rv_rpc = ex_rpc, rv_put = FS_Put ex_fs,
     rv_get = Some (\<lambda>st d. FS_Get ex_fs ex_env d st), rv_json = (\<lambda>_ _. []), rv_proxy = (\<lambda>u r w. (UpError no_msg, Suc w)) \<rparr>"

definition ex_fs_env :: "fs_env replay_env" where
  "ex_fs_env = \<lparr> ry_start = 0, ry_end = 0, ry_io = None, ry_put = (\<lambda>_. ex_env) \<rparr>"

theorem recorded_call_is_replayed_witness:
  "\<exists>s rl x s' st'. Server_ServeHTTP ex_fs_replay ex_fs_env ((ex_path_request ''/v1'')\<lparr>hq_Body := Some (''hi'', None)\<rparr>) s [] 0
      = (Some rl, x, s', st', 0) \<and> rl_Status rl = 200"
proof -
  obtain sp wr' where w: "WriteSpan ex_encoder None (FS_Put ex_fs) (\<lambda>_. ex_env) (span_of (sn_span ex_deps) ex_recorded) ex_writer []
      = (None, sp, wr', [])"
    by (meson WriteSpan_inline [OF ex_writer_simps])
  let ?s = "(ex_server ModeFail)\<lparr>sv_idx := (NewIndex Replay.ex_header [wire_span sp])\<lparr>ix_consumed := []\<rparr>\<rparr>"
  let ?r = "(ex_path_request ''/v1'')\<lparr>hq_Body := Some (''hi'', None)\<rparr>"
  have rec: "rc_Plane ex_recorded = Recorder.PlaneModel" "rc_ReqBody ex_recorded = ''hi''" "rc_Step ex_recorded = 0"
    "rc_Status ex_recorded = 200" by (simp_all add: ex_recorded_def ex_record_def zero_Record_def)
  have r: "hq_Path ?r = ''/v1''" "request_body ?r = (''hi'', None)" "\<not> HasPrefix ''/v1'' ''/mcp/''"
    by (simp_all add: ex_path_request_def request_body_def HasPrefix_def)
  have s: "sv_idx ?s = (NewIndex Replay.ex_header [wire_span sp])\<lparr>ix_consumed := []\<rparr>" "tk_next (sv_tracker ?s) = 0"
    "po_Mode (sv_policy ?s) \<noteq> ModeModelLiveToolsReplayed" by (simp_all add: ex_server_def NewTracker_def)
  have D: "rv_span ex_fs_replay = sn_span ex_deps" "rv_get ex_fs_replay = Some (\<lambda>st d. FS_Get ex_fs ex_env d st)"
    "fe_Ctx ex_env = None" "fe_Open ex_env = None" by (simp_all add: ex_fs_replay_def ex_env_def)
  have mux: "mux_redirect ?r = None" by code_simp
  have "\<exists>rl x s' st' body. Server_ServeHTTP ex_fs_replay ex_fs_env ?r ?s (puts (FS_Put ex_fs) [] []) 0 = (Some rl, x, s', st', 0) \<and>
      rl_Status rl = rc_Status ex_recorded \<and> map_of (rl_Header rl) ''X-Waveoff-Match'' = Some [''exact''] \<and>
      reply_body rl = RewriteID (rv_rpc ex_fs_replay) body (RequestID (rv_rpc ex_fs_replay) (rc_ReqBody ex_recorded)) \<and>
      (let clean = fst (Redactor_Body (cw_redactor ex_writer) (rc_RespBody ex_recorded)) in
       if cw_offload ex_writer \<and> 0 < cw_threshold ex_writer \<and> cw_threshold ex_writer < int (length clean)
       then cas_Compute body = cas_Compute clean
       else body = coerce_utf8 clean \<and> (body = clean \<longleftrightarrow> valid_utf8 clean))"
    unfolding Let_def
    by (rule recorded_call_is_replayed [OF w well_stored_empty rec(1) _ _ _ _ _ _ _ s(1) _ _ s(3) D mux])
      (simp_all add: rec r s(2) [simplified])
  then show ?thesis unfolding rec(4) puts.simps by blast
qed

text \<open>A session whose first call was suppressed and whose next one went through the proxy.\<close>

lemma ex_suppressed:
  obtains out r1 s' where "Suppressor_ServeHTTP ex_tools ex_sup_env (ex_post ''write'') ex_suppressor = (out, [r1], s')"
    and "rc_Plane r1 = Recorder.PlaneTool"
proof -
  have call: "tool_call ex_tools (ex_post ''write'')" by (simp add: tool_call_def ex_post_simps ex_calls)
  have start: "mentions ex_tools (ex_post ''write'') ex_suppressor = None" "effect_of ex_tools (ex_post ''write'') ex_suppressor = EffectWrite"
    by (simp_all add: mentions_def lookup_synthetic_def effect_of_def ex_calls ex_suppressor_def NewSuppressor_def
        newSyntheticRegistry_def lookup_or_def)
  have eff: "EffectWrite \<notin> {[], EffectRead}" by (simp add: EffectWrite_def EffectRead_def)
  have "\<exists>out r1 s'. Suppressor_ServeHTTP ex_tools ex_sup_env (ex_post ''write'') ex_suppressor = (out, [r1], s') \<and>
      rc_Plane r1 = Recorder.PlaneTool"
    using serve_tool_call [OF call, of ex_sup_env ex_suppressor] start eff
    by (simp add: suppress_def Let_def mint_def emit_def record_attempt_def ex_sup_env_def ex_suppressor_def
        NewSuppressor_def suppression_record_def)
  then show ?thesis using that by blast
qed

theorem suppressed_write_hides_a_call_witness:
  "\<exists>out r1 s' sp1 sp2 w1 w2.
     Suppressor_ServeHTTP ex_tools ex_sup_env (ex_post ''write'') ex_suppressor = (out, [r1], s') \<and>
     WriteSpan ex_encoder None ex_put (\<lambda>_. ()) (span_of (sn_span ex_deps) r1) ex_writer () = (None, sp1, w1, ()) \<and>
     WriteSpan ex_encoder None ex_put (\<lambda>_. ()) (span_of (sn_span ex_deps) ex_recorded) ex_writer () = (None, sp2, w2, ()) \<and>
     (\<forall>asked. \<not> {wire_span sp1, wire_span sp2} \<subseteq> set (served (lookups (NewIndex Replay.ex_header [wire_span sp1, wire_span sp2]) asked)))"
proof -
  obtain out r1 s' where run: "Suppressor_ServeHTTP ex_tools ex_sup_env (ex_post ''write'') ex_suppressor = (out, [r1], s')"
    and tool: "rc_Plane r1 = Recorder.PlaneTool" by (rule ex_suppressed)
  obtain sp1 w1 where sp1: "WriteSpan ex_encoder None ex_put (\<lambda>_. ()) (span_of (sn_span ex_deps) r1) ex_writer () = (None, sp1, w1, ())"
    by (meson WriteSpan_inline [OF ex_writer_simps])
  obtain sp2 w2 where sp2: "WriteSpan ex_encoder None ex_put (\<lambda>_. ()) (span_of (sn_span ex_deps) ex_recorded) ex_writer () = (None, sp2, w2, ())"
    by (meson WriteSpan_inline [OF ex_writer_simps])
  have rec: "rc_Plane ex_recorded = Recorder.PlaneModel" "rc_Step ex_recorded = 0" "rc_Status ex_recorded = 200"
    by (simp_all add: ex_recorded_def ex_record_def zero_Record_def)
  note r1 = first_suppressed_step [OF run [unfolded ex_suppressor_def], of r1]
  have "span_Kind (wire_span sp1) = KindTool" "span_Kind (wire_span sp2) = KindModel"
    using recorded_span(5) [OF sp1] recorded_span(5) [OF sp2] tool rec r1 by simp_all
  then have "wire_span sp1 \<noteq> wire_span sp2" by auto
  moreover obtain i origin step se' where "Identify (pe_id ex_proxy_env) [] (NewSessions 0) = ((i, origin, step), se')"
    by (metis prod.collapse)
  then have "Identify (pe_id ex_proxy_env) [] (NewSessions 0) = ((i, origin, rc_Step ex_recorded), se')"
    using first_step_of_a_session rec(2) by metis
  ultimately show ?thesis
    using suppressed_write_hides_a_call [OF run [unfolded ex_suppressor_def] _ _ sp1 sp2] rec(3) run sp1 sp2 by fastforce
qed

theorem repeated_handshake_gets_the_first_witness:
  "fst (protocolSpan [] ((ex_server ModeFail)\<lparr>sv_idx := NewIndex Replay.ex_header []\<rparr>)) = None"
proof -
  have "Spans (NewIndex Replay.ex_header []) = []" by (simp add: Spans_def NewIndex_simps)
  then show ?thesis
    using repeated_handshake_gets_the_first [of "(ex_server ModeFail)\<lparr>sv_idx := NewIndex Replay.ex_header []\<rparr>"] by simp
qed

theorem long_session_cannot_be_scored_witness:
  "\<exists>err. Driver_Replay ex_replay ex_handshake_codec (ex_driver\<lparr>dx_Outputs := True\<rparr>) ex_setup [] [] (replicate 120 CHR ''a'')
      ex_spec ArmCandidate [] () 0 = (Inl err, [], (), 0) \<and> safeName (replicate 120 CHR ''a'') = Inr (replicate 120 CHR ''a'' @ Extension)"
proof -
  have "safeName (replicate 120 CHR ''a'') = Inr (replicate 120 CHR ''a'' @ Extension)" by code_simp
  moreover have "118 < length (replicate 120 CHR ''a'')" "dx_Outputs (ex_driver\<lparr>dx_Outputs := True\<rparr>)" by simp_all
  ultimately show ?thesis by (meson long_session_cannot_be_scored)
qed

end
