(* ===== verification/RecordServer.thy ===== *)
theory RecordServer
  imports Suppress Sink
begin

text \<open>
  \<open>internal/recorder/server.go\<close>: the recorder's server, which fronts the model plane and every tool
  server on one listener.  It wires the proxies, the annotator and the suppressors together: a request
  is routed by its path, and what it leaves behind are the records that reach the configured sink.
  All proxies of a server count steps in one registry of sessions, which is therefore kept in the
  server's state and lent to the proxy that serves a request.
\<close>

section \<open>The configuration\<close>

record RecorderConfig =
  rg_ModelUpstream :: string
  rg_ToolUpstreams :: "(string \<times> string) list"
  rg_Listen :: string
  rg_Sessions :: "Sessions option"
  rg_CaptureLimit :: int
  rg_SuppressWrites :: bool
  rg_ToolEffects :: "(string \<times> string) list"

text \<open>What of the network and of URLs the server uses, and the redactor of its proxies.\<close>

record server_env =
  nv_SplitHost :: "string \<Rightarrow> string result"
  nv_ParseURL :: "string \<Rightarrow> string result"
  nv_Redactor :: Redactor

definition checkListen :: "server_env \<Rightarrow> string \<Rightarrow> msg option" where
  "checkListen N addr =
     (case nv_SplitHost N addr of
        Inl e \<Rightarrow> Some (Sprintf ''listen address %q: %w'' [AStr addr, AErr e])
      | Inr host \<Rightarrow>
          if host \<in> {''127.0.0.1'', ''localhost'', ''::1'', []} then None
          else if HasPrefix host ''0.0.0.0'' \<or> host = ''::''
          then Some (Sprintf ''refusing to listen on %q'' [AStr addr])
          else None)"

section \<open>Routes\<close>

text \<open>
  The patterns of \<open>http.ServeMux\<close> as far as the server uses them: a literal path, which matches itself,
  or one that ends in a slash, which matches everything below it; the longest match wins.  Registering
  a pattern twice panics, and so does a label with a space, which would make the first part of the
  pattern a method that begins with a slash; a label with a brace, which starts a wildcard, is not
  modelled and counts as a panic here.
\<close>

datatype rec_handler = HandleHealth | HandleModel | HandleTool string

definition literal_pattern :: "string \<Rightarrow> bool" where
  "literal_pattern p \<longleftrightarrow> list_all (\<lambda>c. c \<notin> {CHR '' '', char_of (9::nat), CHR ''{'', CHR ''}''}) p"

definition mux_registers :: "(string \<times> rec_handler) list \<Rightarrow> bool" where
  "mux_registers rs \<longleftrightarrow> distinct (map fst rs) \<and> list_all (\<lambda>(p, _). literal_pattern p) rs"

definition mux_match :: "string \<Rightarrow> string \<Rightarrow> bool" where
  "mux_match path p \<longleftrightarrow> p = path \<or> (p \<noteq> [] \<and> last p = CHR ''/'' \<and> HasPrefix path p)"

definition mux_longer :: "string \<times> rec_handler \<Rightarrow> (string \<times> rec_handler) option \<Rightarrow> (string \<times> rec_handler) option" where
  "mux_longer r best =
     (case best of
        None \<Rightarrow> Some r
      | Some b \<Rightarrow> if length (fst b) < length (fst r) then Some r else Some b)"

definition mux_handler :: "(string \<times> rec_handler) list \<Rightarrow> string \<Rightarrow> rec_handler option" where
  "mux_handler rs path = map_option snd (fold mux_longer (filter (\<lambda>(p, _). mux_match path p) rs) None)"

definition tool_prefix :: "string \<Rightarrow> string" where
  "tool_prefix label = ''/mcp/'' @ label"

definition recorder_routes :: "string list \<Rightarrow> bool \<Rightarrow> (string \<times> rec_handler) list" where
  "recorder_routes labels has_model =
     (''/healthz'', HandleHealth) #
     concat (map (\<lambda>label. [(tool_prefix label @ ''/'', HandleTool label), (tool_prefix label, HandleTool label)]) labels) @
     (if has_model then [(''/'', HandleModel)] else [])"

section \<open>The server\<close>

record RecorderServer =
  re_cfg :: RecorderConfig
  re_model :: "Proxy option"
  re_tools :: "(string \<times> Proxy) list"
  re_suppressors :: "(string \<times> Suppressor) list"
  re_Sessions :: Sessions
  re_contracts :: contracts
  re_routes :: "(string \<times> rec_handler) list"

definition parse_model :: "server_env \<Rightarrow> RecorderConfig \<Rightarrow> Proxy option result" where
  "parse_model N cfg =
     (if rg_ModelUpstream cfg = [] then Inr None
      else (case nv_ParseURL N (rg_ModelUpstream cfg) of
              Inl e \<Rightarrow> Inl (Sprintf ''model upstream %q: %w'' [AStr (rg_ModelUpstream cfg), AErr e])
            | Inr u \<Rightarrow> Inr (Some (NewProxy (nv_Redactor N) u PlaneModel (rg_Sessions cfg) (rg_CaptureLimit cfg) None))))"

definition parse_tool :: "server_env \<Rightarrow> RecorderConfig \<Rightarrow> string \<times> string \<Rightarrow> (string \<times> Proxy) result" where
  "parse_tool N cfg le =
     (case le of (label, endpoint) \<Rightarrow>
        (case nv_ParseURL N endpoint of
          Inl e \<Rightarrow> Inl (Sprintf ''tool upstream %q (%s): %w'' [AStr label, AStr endpoint, AErr e])
        | Inr u \<Rightarrow> Inr (label, NewProxy (nv_Redactor N) u PlaneTool (rg_Sessions cfg) (rg_CaptureLimit cfg) None)))"

definition default_config :: "RecorderConfig \<Rightarrow> RecorderConfig" where
  "default_config cfg =
     cfg\<lparr>rg_Listen := (if rg_Listen cfg = [] then ''127.0.0.1:8080'' else rg_Listen cfg),
         rg_Sessions := Some (case rg_Sessions cfg of None \<Rightarrow> NewSessions 0 | Some s \<Rightarrow> s)\<rparr>"

text \<open>\<open>None\<close> is a panic while the routes are registered.\<close>

definition NewRecorderServer :: "server_env \<Rightarrow> RecorderConfig \<Rightarrow> RecorderServer result option" where
  "NewRecorderServer N cfg0 =
     (let cfg = default_config cfg0 in
      case checkListen N (rg_Listen cfg) of
        Some e \<Rightarrow> Some (Inl e)
      | None \<Rightarrow>
          if rg_SuppressWrites cfg \<and> length (rg_ToolEffects cfg) = 0
          then Some (Inl (Text ''write suppression is on but no tool effects were given, so every tool call would be refused and nothing would be observed''))
          else
          (case parse_model N cfg of
             Inl e \<Rightarrow> Some (Inl e)
           | Inr model \<Rightarrow>
          (case mapR (parse_tool N cfg) (rg_ToolUpstreams cfg) of
             Inl e \<Rightarrow> Some (Inl e)
           | Inr tools \<Rightarrow>
               let routes = recorder_routes (keys tools) (model \<noteq> None) in
               if \<not> mux_registers routes then None
               else Some (Inr \<lparr> re_cfg = cfg, re_model = model, re_tools = tools,
                      re_suppressors = (if rg_SuppressWrites cfg
                        then map (\<lambda>(label, _). (label, NewSuppressor (rg_ToolEffects cfg))) tools else []),
                      re_Sessions = the (rg_Sessions cfg), re_contracts = [], re_routes = routes \<rparr>))))"

section \<open>Serving a request\<close>

text \<open>A request with the path it is routed by.\<close>

record inbound = http_request +
  ib_Path :: string

text \<open>
  The codecs of the suppressor and the annotator, the URL a request has once a prefix is taken from its
  path, and the reverse proxy.
\<close>

record 'w recorder_deps =
  rd_rpc :: rpc_codec
  rd_annotator :: annotator_env
  rd_url :: "inbound \<Rightarrow> string \<Rightarrow> string"
  rd_proxy :: "string \<Rightarrow> http_request \<Rightarrow> 'w \<Rightarrow> upstream \<times> 'w"

datatype rec_reply =
    RepHealthy
  | RepNotFound
  | RepRedirect
  | RepProxied delivered
  | RepAnswered string "tool_result + (int \<times> msg)"
  | RepBadRequest msg

definition StripPrefix :: "'w recorder_deps \<Rightarrow> string \<Rightarrow> inbound \<Rightarrow> http_request" where
  "StripPrefix D prefix r = (http_request.truncate r)\<lparr>hq_URL := rd_url D r (TrimPrefix (ib_Path r) prefix)\<rparr>"

text \<open>A proxy serves with the server's sessions and leaves them behind.\<close>

definition serve_proxy ::
    "'w recorder_deps \<Rightarrow> proxy_env \<Rightarrow> http_request \<Rightarrow> Proxy \<Rightarrow> RecorderServer \<Rightarrow> 'w
     \<Rightarrow> (delivered \<times> Record list) \<times> Proxy \<times> RecorderServer \<times> 'w" where
  "serve_proxy D e r p s w =
     (case Proxy_ServeHTTP e (rd_proxy D (px_Upstream p)) r (p\<lparr>px_Sessions := re_Sessions s\<rparr>) w of
        ((_, rec, dl), p1, w1) \<Rightarrow>
          ((dl, case rec of None \<Rightarrow> [] | Some x \<Rightarrow> [x]), p1, s\<lparr>re_Sessions := px_Sessions p1\<rparr>, w1))"

fun annotate_all :: "annotator_env \<Rightarrow> Record list \<Rightarrow> contracts \<Rightarrow> Record list \<times> contracts" where
  "annotate_all A [] cs = ([], cs)"
| "annotate_all A (x # xs) cs =
     (case Annotator_Record A x cs of (x1, cs1) \<Rightarrow>
        (case annotate_all A xs cs1 of (xs1, cs2) \<Rightarrow> (x1 # xs1, cs2)))"

text \<open>Records of the tool plane pass the annotator on their way to the sink.\<close>

definition through_annotator ::
    "'w recorder_deps \<Rightarrow> rec_reply \<Rightarrow> Record list \<Rightarrow> RecorderServer \<Rightarrow> 'w \<Rightarrow> (rec_reply \<times> Record list) \<times> RecorderServer \<times> 'w" where
  "through_annotator D rep recs s w =
     (case annotate_all (rd_annotator D) recs (re_contracts s) of
        (recs1, cs) \<Rightarrow> ((rep, recs1), s\<lparr>re_contracts := cs\<rparr>, w))"

definition serve_tool_proxy ::
    "'w recorder_deps \<Rightarrow> proxy_env \<Rightarrow> string \<Rightarrow> http_request \<Rightarrow> RecorderServer \<Rightarrow> 'w
     \<Rightarrow> (rec_reply \<times> Record list) \<times> RecorderServer \<times> 'w" where
  "serve_tool_proxy D e label r s w =
     (case map_of (re_tools s) label of
        None \<Rightarrow> ((RepNotFound, []), s, w)
      | Some p \<Rightarrow>
          (case serve_proxy D e r p s w of
             ((dl, recs), p1, s1, w1) \<Rightarrow>
               through_annotator D (RepProxied dl) recs (s1\<lparr>re_tools := AList.update label p1 (re_tools s1)\<rparr>) w1))"

definition serve_suppressed ::
    "'w recorder_deps \<Rightarrow> sup_env \<Rightarrow> proxy_env \<Rightarrow> string \<Rightarrow> http_request \<Rightarrow> RecorderServer \<Rightarrow> 'w
     \<Rightarrow> (rec_reply \<times> Record list) \<times> RecorderServer \<times> 'w" where
  "serve_suppressed D se e label r s w =
     (case map_of (re_suppressors s) label of
        None \<Rightarrow> serve_tool_proxy D e label r s w
      | Some sx \<Rightarrow>
          (case Suppressor_ServeHTTP (rd_rpc D) se r sx of
             (out, recs, sx1) \<Rightarrow>
               let s1 = s\<lparr>re_suppressors := AList.update label sx1 (re_suppressors s)\<rparr> in
               (case out of
                  Forwarded r1 \<Rightarrow>
                    (case through_annotator D RepHealthy recs s1 w of
                       ((_, recs1), s2, w1) \<Rightarrow>
                         (case serve_tool_proxy D e label r1 s2 w1 of
                            ((rep, recs2), s3, w2) \<Rightarrow> ((rep, recs1 @ recs2), s3, w2)))
                | Answered i a \<Rightarrow> through_annotator D (RepAnswered i a) recs s1 w
                | BadRequest err \<Rightarrow> through_annotator D (RepBadRequest err) recs s1 w)))"

definition recorder_route :: "RecorderServer \<Rightarrow> inbound \<Rightarrow> rec_handler option" where
  "recorder_route s r = (if clean_path (ib_Path r) then mux_handler (re_routes s) (ib_Path r) else None)"

definition Recorder_ServeHTTP ::
    "'w recorder_deps \<Rightarrow> sup_env \<Rightarrow> proxy_env \<Rightarrow> inbound \<Rightarrow> RecorderServer \<Rightarrow> 'w
     \<Rightarrow> (rec_reply \<times> Record list) \<times> RecorderServer \<times> 'w" where
  "Recorder_ServeHTTP D se e r s w =
     (case recorder_route s r of
        None \<Rightarrow> ((if clean_path (ib_Path r) then RepNotFound else RepRedirect, []), s, w)
      | Some HandleHealth \<Rightarrow> ((RepHealthy, []), s, w)
      | Some HandleModel \<Rightarrow>
          (case re_model s of
             None \<Rightarrow> ((RepNotFound, []), s, w)
           | Some p \<Rightarrow>
               (case serve_proxy D e (http_request.truncate r) p s w of
                  ((dl, recs), p1, s1, w1) \<Rightarrow> ((RepProxied dl, recs), s1\<lparr>re_model := Some p1\<rparr>, w1)))
      | Some (HandleTool label) \<Rightarrow>
          serve_suppressed D se e label (StripPrefix D (tool_prefix label) r) s w)"

fun recorder_serves ::
    "'w recorder_deps \<Rightarrow> (sup_env \<times> proxy_env \<times> inbound) list \<Rightarrow> RecorderServer \<Rightarrow> 'w
     \<Rightarrow> (rec_reply \<times> Record list) list \<times> RecorderServer \<times> 'w" where
  "recorder_serves D [] s w = ([], s, w)"
| "recorder_serves D ((se, e, r) # rs) s w =
     (case Recorder_ServeHTTP D se e r s w of (o1, s1, w1) \<Rightarrow>
        (case recorder_serves D rs s1 w1 of (os, s2, w2) \<Rightarrow> (o1 # os, s2, w2)))"

section \<open>What reaches a tool server\<close>

text \<open>Every tool server is fronted by a suppressor with the classification \<open>effects\<close>.\<close>

definition suppresses :: "(string \<times> string) list \<Rightarrow> RecorderServer \<Rightarrow> bool" where
  "suppresses effects s \<longleftrightarrow>
     (\<forall>label. map_of (re_tools s) label \<noteq> None \<longrightarrow>
        (\<exists>sx. map_of (re_suppressors s) label = Some sx \<and> sp_Effects sx = effects))"

lemma through_annotator_frame:
  assumes "through_annotator D rep recs s w = (o', s', w')"
  obtains cs where "s' = s\<lparr>re_contracts := cs\<rparr>" and "w' = w"
  using assms by (auto simp: through_annotator_def split: prod.splits)

lemma serve_proxy_frame:
  assumes "serve_proxy D e r p s w = (o1, p1, s1, w1)"
  shows "\<exists>ss. s1 = s\<lparr>re_Sessions := ss\<rparr>"
  using assms by (auto simp: serve_proxy_def split: prod.splits)

lemma serve_tool_proxy_frame:
  assumes "serve_tool_proxy D e label r s w = (o1, s1, w1)"
  shows "re_suppressors s1 = re_suppressors s \<and> re_routes s1 = re_routes s \<and>
    dom (map_of (re_tools s1)) = dom (map_of (re_tools s)) \<and> (map_of (re_tools s) label = None \<longrightarrow> w1 = w)"
proof (cases "map_of (re_tools s) label")
  case None
  then show ?thesis using assms by (auto simp: serve_tool_proxy_def)
next
  case (Some p)
  obtain dl recs p1 s2 w2 where p: "serve_proxy D e r p s w = ((dl, recs), p1, s2, w2)" by (metis prod.collapse)
  obtain ss where s2: "s2 = s\<lparr>re_Sessions := ss\<rparr>" using serve_proxy_frame [OF p] by blast
  obtain rep recs' where o1: "o1 = (rep, recs')" by (cases o1)
  have "through_annotator D (RepProxied dl) recs (s2\<lparr>re_tools := AList.update label p1 (re_tools s2)\<rparr>) w2 = ((rep, recs'), s1, w1)"
    using assms by (simp add: serve_tool_proxy_def Some p o1)
  then obtain cs where "s1 = s\<lparr>re_Sessions := ss, re_tools := AList.update label p1 (re_tools s), re_contracts := cs\<rparr>"
    unfolding s2 by (rule through_annotator_frame) simp
  then show ?thesis using Some by (auto simp: update_conv')
qed

lemma suppresses_cong:
  "re_suppressors s1 = re_suppressors s \<Longrightarrow> dom (map_of (re_tools s1)) = dom (map_of (re_tools s)) \<Longrightarrow>
     suppresses effects s1 = suppresses effects s"
  by (auto simp: suppresses_def dom_def set_eq_iff)

lemma suppress_answers: "suppress e i c f b s = (Forwarded r', x) \<Longrightarrow> False"
  by (simp add: suppress_def Let_def split: prod.split_asm)

lemma only_reads_forwarded:
  assumes "Suppressor_ServeHTTP J e r s = (Forwarded r', recs, s')"
    and "hq_Method r = ''POST''" and "call_Method (call_of J r) = ''tools/call''"
  shows "effect_of J r s = EffectRead"
proof (cases "tool_call J r")
  case True
  then show ?thesis
    using serve_tool_call [OF True, of e s] assms(1)
    by (cases "mentions J r s"; cases "effect_of J r s = []"; cases "effect_of J r s = EffectRead")
      (auto split: prod.split_asm dest: suppress_answers [OF sym])
next
  case False
  then show ?thesis using assms by (auto simp: tool_call_def serve_unread)
qed

lemma emit_keeps_effects: "emit e i c f b res x s = (recs, s') \<Longrightarrow> sp_Effects s' = sp_Effects s"
  by (auto simp: emit_def split: if_split_asm sum.split_asm)

lemma suppress_keeps_effects: "suppress e i c f b s = (out, recs, s') \<Longrightarrow> sp_Effects s' = sp_Effects s"
  by (auto simp: suppress_def Let_def dest!: emit_keeps_effects split: prod.split_asm)

lemma record_attempt_keeps_effects [simp]: "sp_Effects (record_attempt c s) = sp_Effects s"
  by (simp add: record_attempt_def)

lemma Suppressor_keeps_effects:
  assumes "Suppressor_ServeHTTP J e r s = (out, recs, s')"
  shows "sp_Effects s' = sp_Effects s"
proof (cases "tool_call J r")
  case True
  then show ?thesis
    using assms serve_tool_call [OF True, of e s]
    by (cases "mentions J r s"; cases "effect_of J r s = []"; cases "effect_of J r s = EffectRead")
      (auto split: prod.split_asm dest: emit_keeps_effects suppress_keeps_effects)
next
  case False
  then show ?thesis
    using assms by (cases "hq_Method r = ''POST''"; cases "snd (read_body r)")
      (auto simp: tool_call_def serve_transport serve_unread serve_chatter)
qed

lemma serve_suppressed_effect:
  assumes "serve_suppressed D se e label r s w = (o1, s1, w1)" and "suppresses effects s"
  shows "suppresses effects s1 \<and> re_routes s1 = re_routes s \<and>
    (w1 \<noteq> w \<longrightarrow> hq_Method r = ''POST'' \<longrightarrow>
       call_Method (call_of (rd_rpc D) r) = ''tools/call'' \<longrightarrow>
       lookup_or [] effects (call_Name (call_of (rd_rpc D) r)) = EffectRead)"
proof (cases "map_of (re_suppressors s) label")
  case None
  then have "map_of (re_tools s) label = None" using assms(2) by (auto simp: suppresses_def)
  then show ?thesis
    using assms None serve_tool_proxy_frame [of D e label r s w o1 s1 w1] suppresses_cong [of s1 s effects]
    by (auto simp: serve_suppressed_def)
next
  case (Some sx)
  obtain out recs sx1 where sx: "Suppressor_ServeHTTP (rd_rpc D) se r sx = (out, recs, sx1)" by (metis prod.collapse)
  then have same: "sp_Effects sx1 = sp_Effects sx" by (rule Suppressor_keeps_effects)
  let ?s = "s\<lparr>re_suppressors := AList.update label sx1 (re_suppressors s)\<rparr>"
  have kept: "suppresses effects ?s"
    using assms(2) Some same by (fastforce simp: suppresses_def update_conv')
  show ?thesis
  proof (cases "\<exists>r1. out = Forwarded r1")
    case False
    then obtain rep where "through_annotator D rep recs ?s w = (o1, s1, w1)"
      using assms(1) Some sx by (cases out) (auto simp: serve_suppressed_def)
    then obtain cs where "s1 = ?s\<lparr>re_contracts := cs\<rparr>" "w1 = w" by (rule through_annotator_frame)
    then show ?thesis using kept by (simp add: suppresses_def)
  next
    case True
    then obtain r1 where out: "out = Forwarded r1" by blast
    obtain o2 s2 w2 where t: "through_annotator D RepHealthy recs ?s w = (o2, s2, w2)" by (metis prod.collapse)
    then obtain cs where s2: "s2 = ?s\<lparr>re_contracts := cs\<rparr>" "w2 = w" by (rule through_annotator_frame)
    obtain o3 s3 w3 where p: "serve_tool_proxy D e label r1 s2 w2 = (o3, s3, w3)" by (metis prod.collapse)
    have "s1 = s3" using assms(1) Some sx out t p by (auto simp: serve_suppressed_def split: prod.splits)
    moreover have "suppresses effects s3 \<and> re_routes s3 = re_routes s"
      using serve_tool_proxy_frame [OF p] kept s2 suppresses_cong [of s3 ?s effects] by simp
    moreover have "effect_of (rd_rpc D) r sx = EffectRead"
      if "hq_Method r = ''POST''" "call_Method (call_of (rd_rpc D) r) = ''tools/call''"
      using only_reads_forwarded [of "rd_rpc D" se r sx r1] sx out that by simp
    moreover have "sp_Effects sx = effects" if "map_of (re_tools s) label \<noteq> None"
      using assms(2) Some that by (auto simp: suppresses_def)
    moreover have "w1 = w" if "map_of (re_tools s) label = None"
      using serve_tool_proxy_frame [OF p] s2 that assms(1) Some sx out t p
      by (auto simp: serve_suppressed_def split: prod.splits)
    ultimately show ?thesis unfolding effect_of_def by metis
  qed
qed

lemma Recorder_ServeHTTP_effect:
  assumes "Recorder_ServeHTTP D se e r s w = (o1, s1, w1)" and "suppresses effects s"
  shows "suppresses effects s1 \<and> re_routes s1 = re_routes s"
proof -
  have model: ?thesis if "recorder_route s r = Some HandleModel"
  proof (cases "re_model s")
    case (Some p)
    obtain o2 p1 s2 w2 where p: "serve_proxy D e (http_request.truncate r) p s w = (o2, p1, s2, w2)" by (metis prod.collapse)
    then show ?thesis
      using assms that Some serve_proxy_frame [OF p] by (auto simp: Recorder_ServeHTTP_def suppresses_def split: prod.splits)
  qed (use assms that in \<open>auto simp: Recorder_ServeHTTP_def\<close>)
  show ?thesis
  proof (cases "recorder_route s r")
    case None
    then show ?thesis using assms by (auto simp: Recorder_ServeHTTP_def)
  next
    case (Some h)
    show ?thesis
    proof (cases h)
      case HandleModel
      then show ?thesis using model Some by simp
    next
      case (HandleTool label)
      then show ?thesis
        using assms Some serve_suppressed_effect [of D se e label _ s w o1 s1 w1 effects]
        by (simp add: Recorder_ServeHTTP_def)
    qed (use assms Some in \<open>auto simp: Recorder_ServeHTTP_def\<close>)
  qed
qed

lemma recorder_serves_effect:
  "recorder_serves D rs s w = (os, s', w') \<Longrightarrow> suppresses effects s \<Longrightarrow>
     suppresses effects s' \<and> re_routes s' = re_routes s"
proof (induction rs arbitrary: s w os)
  case (Cons x rs)
  obtain se e r where x: "x = (se, e, r)" by (metis prod_cases3)
  obtain o1 s1 w1 where one: "Recorder_ServeHTTP D se e r s w = (o1, s1, w1)" by (metis prod.collapse)
  then obtain os2 where "recorder_serves D rs s1 w1 = (os2, s', w')"
    using Cons.prems(1) by (auto simp: x split: prod.splits)
  then show ?case using Cons.IH Recorder_ServeHTTP_effect [OF one Cons.prems(2)] by metis
qed simp

text \<open>A server that was built with suppression on suppresses with the classification it was given.\<close>

lemma mapR_keys: "mapR f xs = Inr ys \<Longrightarrow> (\<And>x y. f x = Inr y \<Longrightarrow> fst y = fst x) \<Longrightarrow> map fst ys = map fst xs"
  by (induction xs arbitrary: ys) (auto simp: bindR_Inr_iff)

lemma NewRecorderServer_suppresses:
  assumes "NewRecorderServer N cfg = Some (Inr s)" and "rg_SuppressWrites cfg"
  shows "suppresses (rg_ToolEffects cfg) s"
proof -
  have "map_of (map (\<lambda>(label, _). (label, v)) tools) label = (if map_of tools label = None then None else Some v)"
    for v :: Suppressor and tools :: "(string \<times> Proxy) list" and label
    by (induction tools) auto
  then show ?thesis
    using assms
    by (auto simp: NewRecorderServer_def Let_def default_config_def suppresses_def NewSuppressor_def
        split: option.split_asm if_split_asm sum.split_asm)
qed

section \<open>Routing\<close>

lemma fold_mux_longer:
  assumes "\<forall>x \<in> set xs. length (fst x) < length p \<or> x = (p, h)"
    and "case b of None \<Rightarrow> True | Some x \<Rightarrow> length (fst x) < length p \<or> x = (p, h)"
    and "(p, h) \<in> set xs \<or> b = Some (p, h)"
  shows "fold mux_longer xs b = Some (p, h)"
  using assms
proof (induction xs arbitrary: b)
  case (Cons x xs)
  have "fold mux_longer xs (mux_longer x b) = Some (p, h)"
  proof (rule Cons.IH)
    show "\<forall>x \<in> set xs. length (fst x) < length p \<or> x = (p, h)" using Cons.prems(1) by simp
    show "case mux_longer x b of None \<Rightarrow> True | Some x \<Rightarrow> length (fst x) < length p \<or> x = (p, h)"
      using Cons.prems(1,2) by (cases b) (auto simp: mux_longer_def)
    show "(p, h) \<in> set xs \<or> mux_longer x b = Some (p, h)"
      using Cons.prems by (cases b) (auto simp: mux_longer_def)
  qed
  then show ?case by simp
qed simp

text \<open>A path that is a pattern itself goes to that pattern's handler.\<close>

lemma mux_exact:
  assumes "mux_registers rs" and "(p, h) \<in> set rs"
  shows "mux_handler rs p = Some h"
proof -
  have "length q < length p \<or> (q, g) = (p, h)" if q: "(q, g) \<in> set rs" "mux_match p q" for q g
  proof (cases "q = p")
    case True
    then show ?thesis using assms q(1) by (auto simp: mux_registers_def dest: eq_key_imp_eq_value)
  next
    case False
    then have "q = take (length q) p" using q(2) by (simp add: mux_match_def HasPrefix_def)
    then show ?thesis using False by (metis linorder_not_less take_all)
  qed
  then have "fold mux_longer (filter (\<lambda>(q, _). mux_match p q) rs) None = Some (p, h)"
    using assms(2) by (intro fold_mux_longer) (auto simp: mux_match_def)
  then show ?thesis by (simp add: mux_handler_def)
qed

lemma recorder_routes_tool: "label \<in> set labels \<Longrightarrow> (tool_prefix label, HandleTool label) \<in> set (recorder_routes labels b)"
  by (auto simp: recorder_routes_def)

lemma parse_tools_upstream:
  "mapR (parse_tool N cfg) xs = Inr ys \<Longrightarrow> map_of xs label = Some e \<Longrightarrow>
     \<exists>p. map_of ys label = Some p \<and> nv_ParseURL N e = Inr (px_Upstream p)"
  by (induction xs arbitrary: ys)
    (auto simp: bindR_Inr_iff parse_tool_def NewProxy_def split: sum.split_asm)

lemma NewRecorderServer_tool:
  assumes "NewRecorderServer N cfg = Some (Inr s)" and "map_of (rg_ToolUpstreams cfg) label = Some e"
  shows "\<exists>p. map_of (re_tools s) label = Some p \<and> nv_ParseURL N e = Inr (px_Upstream p)"
    and "clean_path (tool_prefix label) \<Longrightarrow> ib_Path r = tool_prefix label \<Longrightarrow> recorder_route s r = Some (HandleTool label)"
    and "rg_Listen cfg \<noteq> [] \<Longrightarrow> rg_Listen (re_cfg s) = rg_Listen cfg"
proof -
  obtain routes tools b where tools: "mapR (parse_tool N (default_config cfg)) (rg_ToolUpstreams cfg) = Inr tools"
    and s: "re_tools s = tools" "re_routes s = routes" "routes = recorder_routes (keys tools) b" "mux_registers routes"
      "re_cfg s = default_config cfg"
    using assms(1) by (auto simp: NewRecorderServer_def Let_def default_config_def
        split: option.split_asm if_split_asm sum.split_asm)
  show tool: "\<exists>p. map_of (re_tools s) label = Some p \<and> nv_ParseURL N e = Inr (px_Upstream p)"
    using parse_tools_upstream [OF tools assms(2)] s(1) by simp
  then have "label \<in> set (keys tools)" using s(1) map_of_SomeD by (force simp: keys_def)
  then have "mux_handler routes (tool_prefix label) = Some (HandleTool label)"
    using mux_exact [OF s(4)] recorder_routes_tool s(3) by blast
  then show "clean_path (tool_prefix label) \<Longrightarrow> ib_Path r = tool_prefix label \<Longrightarrow> recorder_route s r = Some (HandleTool label)"
    by (simp add: recorder_route_def s(2))
  show "rg_Listen cfg \<noteq> [] \<Longrightarrow> rg_Listen (re_cfg s) = rg_Listen cfg" by (simp add: s(5) default_config_def)
qed

end
