(* ===== verification/Admission.thy ===== *)
theory Admission
  imports Digest
begin

text \<open>
  \<open>internal/webhook/v1alpha1/agentmanifest\_webhook.go\<close>: the admission webhook of an AgentManifest.
  It recomputes both digests, ties the object's name to them, refuses a tool nobody classified and
  freezes the annotations that are evidence.  The errors are those of a \<open>field.ErrorList\<close>: their
  kind, their path, the value at fault and the detail.
\<close>

section \<open>Field errors\<close>

datatype segment = Child string | Index nat | Key string

type_synonym path = "segment list"

datatype ErrorType = ErrRequired | ErrInvalid | ErrNotSupported | ErrDuplicate | ErrForbidden

record field_error =
  fl_Type :: ErrorType
  fl_Path :: path
  fl_Value :: msg
  fl_Detail :: msg

text \<open>The object and its metadata; \<open>runtime.Object\<close> may be any other type.\<close>

record AgentManifest =
  am_Name :: string
  am_Annotations :: "(string \<times> string) list"
  am_Spec :: AgentManifestSpec

datatype runtime_object = OManifest AgentManifest | OOther string

datatype admission_error = NotAManifest string | NewInvalid string "field_error list"

definition EvidencePrefix :: string where "EvidencePrefix = ''waveoff.ai/evidence.''"

section \<open>The checks\<close>

definition mismatch :: "string \<Rightarrow> string \<Rightarrow> string \<Rightarrow> msg" where
  "mismatch which stated computed =
     (if stated = []
      then Sprintf ''%s is required and is not computed for you'' [AStr which, AStr computed]
      else Sprintf ''%s does not match the spec it claims to cover'' [AStr which, AStr stated, AStr computed])"

definition validateImage :: "path \<Rightarrow> string \<Rightarrow> field_error list" where
  "validateImage p img =
     (if img = []
      then [\<lparr> fl_Type = ErrRequired, fl_Path = p, fl_Value = no_msg,
              fl_Detail = Text ''an agent manifest must pin the image that runs it'' \<rparr>]
      else if \<not> Contains img ''@sha256:''
      then [\<lparr> fl_Type = ErrInvalid, fl_Path = p, fl_Value = Text img,
              fl_Detail = Text ''image must be digest-pinned (repository@sha256:...), not tagged'' \<rparr>]
      else [])"

definition valid_effects :: "ToolEffect list" where
  "valid_effects = [EffectRead, EffectIdempotentWrite, EffectWrite]"

fun validateEffects :: "path \<Rightarrow> nat \<Rightarrow> ToolRef list \<Rightarrow> field_error list" where
  "validateEffects p i [] = []"
| "validateEffects p i (t # ts) =
     (let fp = p @ [Index i, Child ''effect'']
      in (if tool_Effect t = []
          then [\<lparr> fl_Type = ErrRequired, fl_Path = fp, fl_Value = no_msg,
                  fl_Detail = Sprintf ''tool %q has no effect'' [AStr (tool_Name t)] \<rparr>]
          else if tool_Effect t \<notin> set valid_effects
          then [\<lparr> fl_Type = ErrNotSupported, fl_Path = fp, fl_Value = Text (tool_Effect t),
                  fl_Detail = Sprintf ''supported values'' [AStrs valid_effects] \<rparr>]
          else [])) @ validateEffects p (Suc i) ts"

text \<open>The closure \<open>check\<close> of \<open>validateUniqueNames\<close>, with the names seen so far and where.\<close>

fun check_names :: "path \<Rightarrow> nat \<Rightarrow> (string \<times> nat) list \<Rightarrow> string list \<Rightarrow> field_error list" where
  "check_names p i seen [] = []"
| "check_names p i seen (n # ns) =
     (case map_of seen n of
        Some first \<Rightarrow>
          \<lparr> fl_Type = ErrDuplicate, fl_Path = p @ [Index i, Child ''name''],
             fl_Value = Sprintf ''%q also appears at index %d; these are sets keyed by name'' [AStr n, AInt (int first)],
             fl_Detail = no_msg \<rparr> # check_names p (Suc i) seen ns
      | None \<Rightarrow> check_names p (Suc i) (AList.update n i seen) ns)"

definition validateUniqueNames :: "path \<Rightarrow> AgentManifestSpec \<Rightarrow> field_error list" where
  "validateUniqueNames p spec =
     check_names (p @ [Child ''tools'']) 0 [] (map tool_Name (Tools spec)) @
     check_names (p @ [Child ''prompts'']) 0 [] (map prompt_Name (Prompts spec)) @
     check_names (p @ [Child ''judges'']) 0 [] (map judge_Name (Judges spec))"

definition validateName :: "AgentManifest \<Rightarrow> string \<Rightarrow> string \<Rightarrow> field_error list" where
  "validateName m behavior content =
     (let canonical = Name (Agent (am_Spec m)) behavior;
          disambiguated = DisambiguatedName (Agent (am_Spec m)) behavior content
      in if am_Name m = canonical then []
         else if am_Name m = disambiguated then []
         else [\<lparr> fl_Type = ErrInvalid, fl_Path = [Child ''metadata'', Child ''name''], fl_Value = Text (am_Name m),
                 fl_Detail = Sprintf ''name must be derived from spec.agent and behaviorDigest''
                   [AStr canonical, AStr disambiguated, AStr canonical] \<rparr>])"

definition digest_error :: "path \<Rightarrow> string \<Rightarrow> string \<Rightarrow> string \<Rightarrow> field_error list" where
  "digest_error spec which stated computed =
     (if stated = computed then []
      else [\<lparr> fl_Type = ErrInvalid, fl_Path = spec @ [Child which], fl_Value = Text stated,
              fl_Detail = mismatch which stated computed \<rparr>])"

definition Validate_manifest :: "hasher \<Rightarrow> AgentManifest \<Rightarrow> field_error list" where
  "Validate_manifest H m =
     (let spec = [Child ''spec''];
          errs = validateImage (spec @ [Child ''code'', Child ''image'']) (code_Image (Code (am_Spec m))) @
            validateEffects (spec @ [Child ''tools'']) 0 (Tools (am_Spec m)) @
            validateUniqueNames spec (am_Spec m)
      in case Both H (am_Spec m) of
           Inl err \<Rightarrow> errs @ [\<lparr> fl_Type = ErrInvalid, fl_Path = spec, fl_Value = no_msg, fl_Detail = err \<rparr>]
         | Inr (wantB, wantC) \<Rightarrow>
             errs @
             digest_error spec ''behaviorDigest'' (BehaviorDigest (am_Spec m)) wantB @
             digest_error spec ''contentDigest'' (ContentDigest (am_Spec m)) wantC @
             validateName m wantB wantC)"

definition evidence_error :: "(string \<times> string) list \<Rightarrow> string \<times> string \<Rightarrow> field_error list" where
  "evidence_error new kv =
     (let (k, oldVal) = kv; p = [Child ''metadata'', Child ''annotations'', Key k]
      in if \<not> HasPrefix k EvidencePrefix then []
         else (case map_of new k of
                 None \<Rightarrow> [\<lparr> fl_Type = ErrForbidden, fl_Path = p, fl_Value = no_msg,
                   fl_Detail = Text ''evidence annotations are part of the release record and cannot be removed'' \<rparr>]
               | Some newVal \<Rightarrow>
                   if newVal \<noteq> oldVal
                   then [\<lparr> fl_Type = ErrForbidden, fl_Path = p, fl_Value = no_msg,
                     fl_Detail = Sprintf ''evidence annotations are part of the release record and cannot be changed ''
                       [AStr oldVal, AStr newVal] \<rparr>]
                   else []))"

definition validateEvidenceAnnotations :: "AgentManifest \<Rightarrow> AgentManifest \<Rightarrow> field_error list" where
  "validateEvidenceAnnotations old new =
     concat (map (evidence_error (am_Annotations new)) (am_Annotations old))"

section \<open>The three admission calls\<close>

text \<open>\<open>None\<close> is admission; the webhook never warns.\<close>

definition invalid_if :: "AgentManifest \<Rightarrow> field_error list \<Rightarrow> admission_error option" where
  "invalid_if m errs = (if errs \<noteq> [] then Some (NewInvalid (am_Name m) errs) else None)"

fun ValidateCreate :: "hasher \<Rightarrow> runtime_object \<Rightarrow> admission_error option" where
  "ValidateCreate H (OManifest m) = invalid_if m (Validate_manifest H m)"
| "ValidateCreate H (OOther t) = Some (NotAManifest t)"

fun ValidateUpdate :: "hasher \<Rightarrow> runtime_object \<Rightarrow> runtime_object \<Rightarrow> admission_error option" where
  "ValidateUpdate H (OManifest old) (OManifest m) =
     invalid_if m (Validate_manifest H m @ validateEvidenceAnnotations old m)"
| "ValidateUpdate H (OManifest old) (OOther t) = Some (NotAManifest t)"
| "ValidateUpdate H (OOther t) new = Some (NotAManifest t)"

definition ValidateDelete :: "runtime_object \<Rightarrow> admission_error option" where
  "ValidateDelete obj = None"

section \<open>What each check refuses\<close>

lemma validateImage_Nil: "validateImage p img = [] \<longleftrightarrow> Contains img ''@sha256:''"
proof -
  have "\<not> Contains [] ''@sha256:''" by (simp add: Contains_iff)
  then show ?thesis by (auto simp: validateImage_def)
qed

lemma empty_is_no_effect: "[] \<notin> set valid_effects"
  by (simp add: valid_effects_def EffectRead_def EffectIdempotentWrite_def EffectWrite_def)

lemma validateEffects_Nil: "validateEffects p i ts = [] \<longleftrightarrow> (\<forall>t \<in> set ts. tool_Effect t \<in> set valid_effects)"
  using empty_is_no_effect by (induction ts arbitrary: i) (auto simp: Let_def)

lemma check_names_Nil:
  "check_names p i seen ns = [] \<longleftrightarrow> distinct ns \<and> set ns \<inter> dom (map_of seen) = {}"
  by (induction ns arbitrary: i seen) (auto simp: update_conv' dom_if split: option.split)

lemma validateUniqueNames_Nil:
  "validateUniqueNames p spec = [] \<longleftrightarrow>
     distinct (map tool_Name (Tools spec)) \<and> distinct (map prompt_Name (Prompts spec)) \<and>
     distinct (map judge_Name (Judges spec))"
  by (simp add: validateUniqueNames_def check_names_Nil)

lemma validateName_Nil:
  "validateName m b c = [] \<longleftrightarrow>
     am_Name m \<in> {Name (Agent (am_Spec m)) b, DisambiguatedName (Agent (am_Spec m)) b c}"
  by (simp add: validateName_def Let_def)


text \<open>What the webhook promises of every manifest in the cluster.\<close>

definition well_formed_manifest :: "hasher \<Rightarrow> AgentManifest \<Rightarrow> bool" where
  "well_formed_manifest H m =
     (let spec = am_Spec m
      in Contains (code_Image (Code spec)) ''@sha256:'' \<and>
         list_all (\<lambda>t. tool_Effect t \<in> set valid_effects) (Tools spec) \<and>
         distinct (map tool_Name (Tools spec)) \<and> distinct (map prompt_Name (Prompts spec)) \<and>
         distinct (map judge_Name (Judges spec)) \<and>
         Both H spec = Inr (BehaviorDigest spec, ContentDigest spec) \<and>
         am_Name m \<in> {Name (Agent spec) (BehaviorDigest spec),
           DisambiguatedName (Agent spec) (BehaviorDigest spec) (ContentDigest spec)})"

lemma Validate_manifest_Nil: "Validate_manifest H m = [] \<longleftrightarrow> well_formed_manifest H m"
  by (auto simp: Validate_manifest_def well_formed_manifest_def Let_def validateImage_Nil validateEffects_Nil
      validateUniqueNames_Nil validateName_Nil digest_error_def list_all_iff split: sum.splits prod.splits if_splits)

lemma ValidateCreate_None: "ValidateCreate H obj = None \<longleftrightarrow> (\<exists>m. obj = OManifest m \<and> well_formed_manifest H m)"
  by (cases obj) (auto simp: invalid_if_def Validate_manifest_Nil)

lemma ValidateUpdate_None:
  "ValidateUpdate H old new = None \<longleftrightarrow>
     (\<exists>a m. old = OManifest a \<and> new = OManifest m \<and> well_formed_manifest H m \<and> validateEvidenceAnnotations a m = [])"
  by (cases old; cases new) (auto simp: invalid_if_def Validate_manifest_Nil)

declare ValidateCreate.simps [simp del] ValidateUpdate.simps [simp del]

section \<open>A manifest's name\<close>

lemma Short_digest: "n \<le> length h \<Longrightarrow> 0 < n \<Longrightarrow> Short (''sha256:'' @ h) n = take n h"
  by (cases h) (simp_all add: Short_def)

lemma Compute_is_digest: "Compute H spec sc = Inr d \<Longrightarrow> \<exists>s. d = ''sha256:'' @ EncodeToString (Sum256 s)"
  by (auto simp: Compute_def bindR_Inr_iff)

lemma lower_hex_dot: "\<not> lower_hex CHR ''.''"
  by code_simp

lemma Short_Compute:
  assumes "Compute H spec sc = Inr d" and "0 < n" and "n \<le> 64"
  shows "length (Short d n) = n" and "CHR ''.'' \<notin> set (Short d n)"
proof -
  obtain s where d: "d = ''sha256:'' @ EncodeToString (Sum256 s)" using Compute_is_digest [OF assms(1)] by blast
  have short: "Short d n = take n (EncodeToString (Sum256 s))"
    unfolding d by (rule Short_digest) (simp_all add: assms)
  show "length (Short d n) = n" by (simp add: short assms(3))
  show "CHR ''.'' \<notin> set (Short d n)" using short hex_digits lower_hex_dot by (metis in_set_takeD)
qed

text \<open>The two legal forms of a name cannot be confused, and each determines the agent and the prefix.\<close>

lemma canonical_is_not_disambiguated:
  assumes "length p = 12" and "CHR ''.'' \<notin> set p" and "length c = 8"
  shows "a @ ''-'' @ p \<noteq> a' @ ''-'' @ p' @ ''.'' @ c"
proof
  assume "a @ ''-'' @ p = a' @ ''-'' @ p' @ ''.'' @ c"
  then have "(a @ ''-'' @ take 3 p) @ drop 3 p = (a' @ ''-'' @ p') @ (''.'' @ c)" by simp
  then have "drop 3 p = ''.'' @ c" by (subst (asm) append_eq_append_conv) (simp_all add: assms)
  then show False using assms(2) by (metis append_Cons in_set_dropD list.set_intros(1))
qed

lemma name_parts: "length p = length p' \<Longrightarrow> a @ ''-'' @ p = a' @ ''-'' @ p' \<Longrightarrow> a = a' \<and> p = p'"
  by (simp add: append_eq_append_conv)

definition prefix_of :: "AgentManifest \<Rightarrow> string" where
  "prefix_of m = Short (BehaviorDigest (am_Spec m)) Prefix"

lemma well_formed_name:
  assumes "well_formed_manifest H m"
  obtains c where "length c = 8" and "length (prefix_of m) = 12" and "CHR ''.'' \<notin> set (prefix_of m)"
    and "am_Name m \<in> {Agent (am_Spec m) @ ''-'' @ prefix_of m, Agent (am_Spec m) @ ''-'' @ prefix_of m @ ''.'' @ c}"
proof
  let ?s = "am_Spec m"
  have b: "Compute H ?s ScopeBehavior = Inr (BehaviorDigest ?s)" and c: "Compute H ?s ScopeContent = Inr (ContentDigest ?s)"
    using assms by (simp_all add: well_formed_manifest_def Both_Inr Let_def)
  show "length (Short (ContentDigest ?s) ContentPrefix) = 8"
    using Short_Compute(1) [OF c] by (simp add: ContentPrefix_def)
  show "length (prefix_of m) = 12" "CHR ''.'' \<notin> set (prefix_of m)"
    using Short_Compute [OF b] by (simp_all add: prefix_of_def Prefix_def)
  show "am_Name m \<in> {Agent ?s @ ''-'' @ prefix_of m, Agent ?s @ ''-'' @ prefix_of m @ ''.'' @ Short (ContentDigest ?s) ContentPrefix}"
    using assms by (simp add: well_formed_manifest_def Let_def Name_def DisambiguatedName_def prefix_of_def)
qed

lemma name_identifies:
  assumes "well_formed_manifest H m" and "well_formed_manifest H' m'" and "am_Name m = am_Name m'"
  shows "Agent (am_Spec m) = Agent (am_Spec m') \<and> prefix_of m = prefix_of m'"
proof -
  obtain c where m: "length c = 8" "length (prefix_of m) = 12" "CHR ''.'' \<notin> set (prefix_of m)"
    "am_Name m \<in> {Agent (am_Spec m) @ ''-'' @ prefix_of m, Agent (am_Spec m) @ ''-'' @ prefix_of m @ ''.'' @ c}"
    by (rule well_formed_name [OF assms(1)])
  obtain c' where m': "length c' = 8" "length (prefix_of m') = 12" "CHR ''.'' \<notin> set (prefix_of m')"
    "am_Name m' \<in> {Agent (am_Spec m') @ ''-'' @ prefix_of m', Agent (am_Spec m') @ ''-'' @ prefix_of m' @ ''.'' @ c'}"
    by (rule well_formed_name [OF assms(2)])
  note apart = canonical_is_not_disambiguated [OF m(2,3) m'(1)] canonical_is_not_disambiguated [OF m'(2,3) m(1)]
  consider "Agent (am_Spec m) @ ''-'' @ prefix_of m = Agent (am_Spec m') @ ''-'' @ prefix_of m'" |
    "Agent (am_Spec m) @ ''-'' @ prefix_of m @ ''.'' @ c = Agent (am_Spec m') @ ''-'' @ prefix_of m' @ ''.'' @ c'"
    using m(4) m'(4) apart unfolding assms(3) by (metis insert_iff singletonD)
  then show ?thesis
  proof cases
    case 1
    then show ?thesis by (intro name_parts) (simp_all add: m(2) m'(2))
  next
    case 2
    then have "(Agent (am_Spec m) @ ''-'' @ prefix_of m) @ ''.'' @ c = (Agent (am_Spec m') @ ''-'' @ prefix_of m') @ ''.'' @ c'"
      by simp
    then have "Agent (am_Spec m) @ ''-'' @ prefix_of m = Agent (am_Spec m') @ ''-'' @ prefix_of m'"
      by (subst (asm) append_eq_append_conv) (simp_all add: m(1) m'(1))
    then show ?thesis by (intro name_parts) (simp_all add: m(2) m'(2))
  qed
qed

section \<open>The manifests of a namespace\<close>

text \<open>
  The API server asks the webhook before it creates, updates or deletes an object, and an object keeps
  its name.
\<close>

inductive manifest_step ::
    "hasher \<Rightarrow> (string \<rightharpoonup> AgentManifest) \<Rightarrow> (string \<rightharpoonup> AgentManifest) \<Rightarrow> bool" for H where
  create: "ms (am_Name m) = None \<Longrightarrow> ValidateCreate H (OManifest m) = None \<Longrightarrow>
    manifest_step H ms (ms(am_Name m \<mapsto> m))"
| update: "ms (am_Name m) = Some old \<Longrightarrow> ValidateUpdate H (OManifest old) (OManifest m) = None \<Longrightarrow>
    manifest_step H ms (ms(am_Name m \<mapsto> m))"
| delete: "ms n = Some old \<Longrightarrow> ValidateDelete (OManifest old) = None \<Longrightarrow> manifest_step H ms (ms(n := None))"

abbreviation manifest_history :: "hasher \<Rightarrow> (string \<rightharpoonup> AgentManifest) \<Rightarrow> (string \<rightharpoonup> AgentManifest) \<Rightarrow> bool" where
  "manifest_history H \<equiv> (manifest_step H)\<^sup>*\<^sup>*"

lemma manifest_step_stores:
  assumes "manifest_step H ms ms'" and "ms' n = Some m"
  shows "ms n = Some m \<or> (am_Name m = n \<and> well_formed_manifest H m)"
  using assms by (cases rule: manifest_step.cases) (auto simp: ValidateCreate_None ValidateUpdate_None split: if_split_asm)

lemma history_well_formed:
  "manifest_history H Map.empty ms \<Longrightarrow> ms n = Some m \<Longrightarrow> well_formed_manifest H m \<and> am_Name m = n"
proof (induction arbitrary: n m rule: rtranclp_induct)
  case (step ms ms')
  then show ?case using manifest_step_stores by blast
qed simp

text \<open>
  C17. Every manifest in the cluster is what it says it is.  In any history of creations, updates and
  deletions that the webhook admitted, each stored manifest pins its image by digest, classifies every
  tool as a read, an idempotent write or a write, names no tool, prompt or judge twice, states the two
  digests its own spec has, and is stored under a name derived from its agent and behaviour digest.
\<close>

theorem stored_manifests_are_well_formed:
  assumes "manifest_history H Map.empty ms" and "ms n = Some m"
  shows "Contains (code_Image (Code (am_Spec m))) ''@sha256:'' \<and>
    (\<forall>t \<in> set (Tools (am_Spec m)). tool_Effect t \<in> {EffectRead, EffectIdempotentWrite, EffectWrite}) \<and>
    distinct (map tool_Name (Tools (am_Spec m))) \<and> distinct (map prompt_Name (Prompts (am_Spec m))) \<and>
    distinct (map judge_Name (Judges (am_Spec m))) \<and>
    Both H (am_Spec m) = Inr (BehaviorDigest (am_Spec m), ContentDigest (am_Spec m)) \<and>
    n \<in> {Name (Agent (am_Spec m)) (BehaviorDigest (am_Spec m)),
      DisambiguatedName (Agent (am_Spec m)) (BehaviorDigest (am_Spec m)) (ContentDigest (am_Spec m))}"
  using history_well_formed [OF assms]
  by (auto simp: well_formed_manifest_def Let_def list_all_iff valid_effects_def)

text \<open>
  C18. A name is an identity.  Whatever was admitted, in one cluster or in two, now or at different times:
  two manifests stored under one name belong to the same agent and their behaviour digests agree in the
  forty-eight bits the name carries; so no update can turn an object into another agent.
\<close>

theorem stored_name_identifies_the_agent:
  assumes "manifest_history H Map.empty ms" and "manifest_history H Map.empty ms'"
    and "ms n = Some m" and "ms' n = Some m'"
  shows "Agent (am_Spec m) = Agent (am_Spec m') \<and>
    Short (BehaviorDigest (am_Spec m)) Prefix = Short (BehaviorDigest (am_Spec m')) Prefix"
  using name_identifies [of H m H m'] history_well_formed [OF assms(1,3)] history_well_formed [OF assms(2,4)]
  by (simp add: prefix_of_def)


text \<open>Deleting the object is always allowed, and its successor carries whatever evidence it likes.\<close>

lemma deletion_unfreezes_evidence:
  assumes "ms n = Some m" and "am_Name m = n" and "well_formed_manifest H m"
  shows "manifest_history H ms (ms(n \<mapsto> m\<lparr>am_Annotations := ann\<rparr>))"
proof -
  let ?m = "m\<lparr>am_Annotations := ann\<rparr>"
  have "well_formed_manifest H ?m" using assms(3) by (simp add: well_formed_manifest_def)
  then have "manifest_step H (ms(n := None)) ((ms(n := None))(am_Name ?m \<mapsto> ?m))"
    by (intro manifest_step.create) (simp_all add: assms(2) ValidateCreate_None)
  moreover have "manifest_step H ms (ms(n := None))"
    using manifest_step.delete [of ms n m H] assms(1) by (simp add: ValidateDelete_def)
  ultimately show ?thesis using assms(2) by (simp add: converse_rtranclp_into_rtranclp r_into_rtranclp)
qed

section \<open>Examples\<close>

definition ex_digests :: "string \<times> string" where
  "ex_digests = (case Both ex_hasher ex_agent of Inr d \<Rightarrow> d | Inl _ \<Rightarrow> ([], []))"

definition ex_stated_manifest :: "(string \<times> string) list \<Rightarrow> AgentManifest" where
  "ex_stated_manifest ann = \<lparr> am_Name = Name ''a'' (fst ex_digests), am_Annotations = ann,
     am_Spec = ex_agent\<lparr>BehaviorDigest := fst ex_digests, ContentDigest := snd ex_digests\<rparr> \<rparr>"

lemma ex_well_formed: "well_formed_manifest ex_hasher (ex_stated_manifest ann)"
proof -
  have "checkFinite ex_agent = Inr ()" by (simp add: checkFinite_Inr ex_agent_def finite64_def)
  then obtain b c where both: "Both ex_hasher ex_agent = Inr (b, c)"
    using Both_exists [of ex_agent ex_hasher] by (auto simp: ex_hasher_def)
  moreover have "Both ex_hasher (ex_agent\<lparr>BehaviorDigest := b, ContentDigest := c\<rparr>) = Both ex_hasher ex_agent"
    by (simp add: Both_def Compute_def CanonicalJSON_def checkFinite_def Project_def)
  moreover have "Contains ''reg/a@sha256:00'' ''@sha256:''" by code_simp
  ultimately show ?thesis
    by (simp add: well_formed_manifest_def ex_stated_manifest_def ex_digests_def ex_agent_def)
qed

lemma ex_stored_manifest: "manifest_history ex_hasher Map.empty [Name ''a'' (fst ex_digests) \<mapsto> ex_stated_manifest ann]"
proof -
  have "manifest_step ex_hasher Map.empty (Map.empty(am_Name (ex_stated_manifest ann) \<mapsto> ex_stated_manifest ann))"
    by (rule manifest_step.create) (simp_all add: ValidateCreate_None ex_well_formed)
  then show ?thesis by (simp add: ex_stated_manifest_def r_into_rtranclp)
qed

theorem stored_manifests_are_well_formed_witness:
  "Both ex_hasher (am_Spec (ex_stated_manifest [])) =
     Inr (BehaviorDigest (am_Spec (ex_stated_manifest [])), ContentDigest (am_Spec (ex_stated_manifest [])))"
  using stored_manifests_are_well_formed [OF ex_stored_manifest [of "[]"], of "Name ''a'' (fst ex_digests)"] by simp

theorem stored_name_identifies_the_agent_witness:
  "Agent (am_Spec (ex_stated_manifest [])) = Agent (am_Spec (ex_stated_manifest [(''k'', ''v'')]))"
  using stored_name_identifies_the_agent [OF ex_stored_manifest [of "[]"] ex_stored_manifest [of "[(''k'', ''v'')]"],
      of "Name ''a'' (fst ex_digests)"] by simp



end
