(* ===== verification/Inject.thy ===== *)
theory Inject
  imports Admission "HOL-Library.Multiset"
begin

text \<open>
  \<open>internal/webhook/inject/inject.go\<close>: the mutating webhook that adds the recorder to an agent's pod
  and points the agent at it.  Of the Kubernetes types a pod keeps what the webhook reads or writes; a
  value from elsewhere (\<open>valueFrom\<close>, \<open>envFrom\<close>) is a name for what it refers to.
\<close>

section \<open>The pod\<close>

record EnvVar =
  ev_Name :: string
  ev_Value :: string
  ev_ValueFrom :: "string option"

record SecurityContext =
  sx_AllowPrivilegeEscalation :: "bool option"
  sx_ReadOnlyRootFilesystem :: "bool option"
  sx_RunAsNonRoot :: "bool option"
  sx_Drop :: "string list"

record Probe =
  pb_Command :: "string list"
  pb_InitialDelaySeconds :: int
  pb_PeriodSeconds :: int

record Container =
  ct_Name :: string
  ct_Image :: string
  ct_ImagePullPolicy :: string
  ct_Args :: "string list"
  ct_Env :: "EnvVar list"
  ct_EnvFrom :: "string list"
  ct_SecurityContext :: "SecurityContext option"
  ct_VolumeMounts :: "(string \<times> string) list"
  ct_ReadinessProbe :: "Probe option"
  ct_RestartPolicy :: "string option"

datatype volume_source = EmptyDir | Claim string | OtherSource string

record Volume =
  vl_Name :: string
  vl_Source :: volume_source

record Pod =
  pd_Namespace :: string
  pd_Annotations :: "(string \<times> string) list"
  pd_Labels :: "(string \<times> string) list"
  pd_Containers :: "Container list"
  pd_InitContainers :: "Container list"
  pd_Volumes :: "Volume list"

text \<open>
  The injector, with the reader of manifests if it has one and the image it injects; how a message is
  printed, and in which order a range over a map meets its keys, are parameters.
\<close>

record Injector =
  ij_Client :: "(string \<Rightarrow> string \<Rightarrow> AgentManifest result) option"
  ij_Image :: string
  ij_render :: "msg \<Rightarrow> string"
  ij_order :: "string list \<Rightarrow> string list"

definition AnnotationInject :: string where "AnnotationInject = ''waveoff.ai/inject''"
definition AnnotationManifest :: string where "AnnotationManifest = ''waveoff.ai/manifest''"
definition AnnotationContainer :: string where "AnnotationContainer = ''waveoff.ai/container''"
definition AnnotationModelUpstream :: string where "AnnotationModelUpstream = ''waveoff.ai/model-upstream''"
definition AnnotationToolUpstreams :: string where "AnnotationToolUpstreams = ''waveoff.ai/tool-upstreams''"
definition AnnotationShadow :: string where "AnnotationShadow = ''waveoff.ai/shadow''"
definition AnnotationEgressConfined :: string where "AnnotationEgressConfined = ''waveoff.ai/egress-confined''"
definition AnnotationOTLPEndpoint :: string where "AnnotationOTLPEndpoint = ''waveoff.ai/otlp-endpoint''"
definition AnnotationOTLPProtocol :: string where "AnnotationOTLPProtocol = ''waveoff.ai/otlp-protocol''"
definition AnnotationSessionIdle :: string where "AnnotationSessionIdle = ''waveoff.ai/session-idle''"
definition AnnotationCorpusClaim :: string where "AnnotationCorpusClaim = ''waveoff.ai/corpus-claim''"
definition AnnotationInjected :: string where "AnnotationInjected = ''waveoff.ai/injected''"
definition AnnotationSkipped :: string where "AnnotationSkipped = ''waveoff.ai/inject-skipped''"

definition SidecarName :: string where "SidecarName = ''waveoff-recorder''"
definition ListenPort :: int where "ListenPort = 8080"
definition BinaryPath :: string where "BinaryPath = ''/app''"
definition corpusVolume :: string where "corpusVolume = ''waveoff-corpus''"
definition corpusPath :: string where "corpusPath = ''/var/lib/waveoff/corpus''"
definition blobPath :: string where "blobPath = ''/var/lib/waveoff/blobs''"

definition providerEnv :: "(string \<times> string) list" where
  "providerEnv =
     [(''ANTHROPIC_BASE_URL'', ''https://api.anthropic.com''), (''OPENAI_BASE_URL'', ''https://api.openai.com'')]"

text \<open>\<open>pod.Annotations[k]\<close>, the empty string where there is none.\<close>

definition annotation :: "Pod \<Rightarrow> string \<Rightarrow> string" where
  "annotation pod k = lookup_or [] (pd_Annotations pod) k"

definition set_annotation :: "string \<Rightarrow> string \<Rightarrow> Pod \<Rightarrow> Pod" where
  "set_annotation k v pod = pod\<lparr>pd_Annotations := AList.update k v (pd_Annotations pod)\<rparr>"

definition admissionWarning :: "Injector \<Rightarrow> Pod \<Rightarrow> msg \<Rightarrow> Pod" where
  "admissionWarning I pod err = set_annotation AnnotationSkipped (ij_render I err) pod"

section \<open>Reading the pod\<close>

definition wants :: "Pod \<Rightarrow> bool" where
  "wants pod \<longleftrightarrow>
     annotation pod AnnotationInject = ''true'' \<or> lookup_or [] (pd_Labels pod) AnnotationInject = ''true''"

definition hasContainer :: "Pod \<Rightarrow> string \<Rightarrow> bool" where
  "hasContainer pod name \<longleftrightarrow>
     list_ex (\<lambda>c. ct_Name c = name) (pd_Containers pod) \<or> list_ex (\<lambda>c. ct_Name c = name) (pd_InitContainers pod)"

fun index_of_container :: "string \<Rightarrow> nat \<Rightarrow> Container list \<Rightarrow> nat option" where
  "index_of_container name i [] = None"
| "index_of_container name i (c # cs) = (if ct_Name c = name then Some i else index_of_container name (Suc i) cs)"

definition agentContainer :: "Pod \<Rightarrow> nat result" where
  "agentContainer pod =
     (let name = annotation pod AnnotationContainer in
      if name = []
      then (if length (pd_Containers pod) = 1 then Inr 0
            else Inl (Sprintf ''pod has %d containers; name the agent with %s''
                        [AInt (int (length (pd_Containers pod))), AStr AnnotationContainer]))
      else (case index_of_container name 0 (pd_Containers pod) of
              Some i \<Rightarrow> Inr i
            | None \<Rightarrow> Inl (Sprintf ''no container named %q'' [AStr name])))"

definition getEnv :: "Container \<Rightarrow> string \<Rightarrow> string" where
  "getEnv c name =
     (case find (\<lambda>e. ev_Name e = name \<and> ev_ValueFrom e = None) (ct_Env c) of
        Some e \<Rightarrow> ev_Value e
      | None \<Rightarrow> [])"

definition hasEnvFrom :: "Container \<Rightarrow> string \<Rightarrow> bool" where
  "hasEnvFrom c name \<longleftrightarrow> list_ex (\<lambda>e. ev_Name e = name) (ct_Env c) \<or> 0 < length (ct_EnvFrom c)"

fun set_env :: "string \<Rightarrow> string \<Rightarrow> EnvVar list \<Rightarrow> EnvVar list" where
  "set_env name v [] = [\<lparr> ev_Name = name, ev_Value = v, ev_ValueFrom = None \<rparr>]"
| "set_env name v (e # es) =
     (if ev_Name e = name then \<lparr> ev_Name = name, ev_Value = v, ev_ValueFrom = None \<rparr> # es
      else e # set_env name v es)"

definition setEnv :: "string \<Rightarrow> string \<Rightarrow> Container \<Rightarrow> Container" where
  "setEnv name v c = c\<lparr>ct_Env := set_env name v (ct_Env c)\<rparr>"

text \<open>The variable that holds the provider's key.\<close>

definition keyVar :: "string \<Rightarrow> string" where
  "keyVar name = TrimSuffix name ''_BASE_URL'' @ ''_API_KEY''"

definition modelUpstream :: "Pod \<Rightarrow> Container \<Rightarrow> string \<times> string" where
  "modelUpstream pod agent =
     (let v = annotation pod AnnotationModelUpstream in
      if v \<noteq> []
      then (case find (\<lambda>p. getEnv agent (fst p) \<noteq> []) providerEnv of
              Some p \<Rightarrow> (v, fst p)
            | None \<Rightarrow> (v, fst (providerEnv ! 0)))
      else (case find (\<lambda>p. getEnv agent (fst p) \<noteq> []) providerEnv of
              Some p \<Rightarrow> (getEnv agent (fst p), fst p)
            | None \<Rightarrow>
                (case find (\<lambda>p. getEnv agent (keyVar (fst p)) \<noteq> [] \<or> hasEnvFrom agent (keyVar (fst p))) providerEnv of
                   Some p \<Rightarrow> (snd p, fst p)
                 | None \<Rightarrow> ([], []))))"

text \<open>One part of the annotation, and the whole of it: a map from labels to endpoints.\<close>

definition tool_part :: "string \<Rightarrow> (string \<times> string) list \<Rightarrow> (string \<times> string) list result" where
  "tool_part part out =
     (let part = TrimSpace part in
      if part = [] then Inr out
      else (case cut_at CHR ''='' part of
              None \<Rightarrow> Inl (Sprintf ''%s: %q is not <label>=<url>'' [AStr AnnotationToolUpstreams, AStr part])
            | Some (label, endpoint) \<Rightarrow>
                if label = [] \<or> endpoint = []
                then Inl (Sprintf ''%s: %q is not <label>=<url>'' [AStr AnnotationToolUpstreams, AStr part])
                else Inr (AList.update (TrimSpace label) (TrimSpace endpoint) out)))"

definition toolUpstreams :: "Pod \<Rightarrow> (string \<times> string) list result" where
  "toolUpstreams pod =
     (let raw = annotation pod AnnotationToolUpstreams in
      if raw = [] then Inr [] else stepsR (map tool_part (strings_Split CHR '','' raw)) [])"

definition manifest_effects :: "AgentManifest \<Rightarrow> (string \<times> ToolEffect) list" where
  "manifest_effects m = fold (\<lambda>t effects. AList.update (tool_Name t) (tool_Effect t) effects) (Tools (am_Spec m)) []"

record identity =
  id_Behavior :: string
  id_Content :: string
  id_Agent :: string
  id_Effects :: "(string \<times> ToolEffect) list"

definition manifestIdentity :: "Injector \<Rightarrow> Pod \<Rightarrow> identity" where
  "manifestIdentity I pod =
     (let name = annotation pod AnnotationManifest;
          unknown = \<lparr> id_Behavior = [], id_Content = [], id_Agent = lookup_or [] (pd_Labels pod) ''app'', id_Effects = [] \<rparr>
      in if name = [] then unknown
         else (case ij_Client I of
                 None \<Rightarrow> unknown
               | Some get \<Rightarrow>
                   (case get (pd_Namespace pod) name of
                      Inl _ \<Rightarrow> unknown
                    | Inr m \<Rightarrow> \<lparr> id_Behavior = BehaviorDigest (am_Spec m), id_Content = ContentDigest (am_Spec m),
                                 id_Agent = Agent (am_Spec m), id_Effects = manifest_effects m \<rparr>)))"

section \<open>Building the sidecar\<close>

text \<open>
  The insertion sort of \<open>sortedKeys\<close> and \<open>sortedEffects\<close>: the outer loop takes the keys in the order
  of the range, and the inner one moves each back past the larger ones.  \<open>sink\_back\<close> works on the
  sorted prefix from its end.
\<close>

fun sink_back :: "string \<Rightarrow> string list \<Rightarrow> string list" where
  "sink_back k [] = [k]"
| "sink_back k (l # ls) = (if k < l then l # sink_back k ls else k # l # ls)"

definition insertion_sort :: "string list \<Rightarrow> string list" where
  "insertion_sort ks = rev (fold sink_back ks [])"

definition sortedKeys :: "Injector \<Rightarrow> (string \<times> string) list \<Rightarrow> string list" where
  "sortedKeys I m = insertion_sort (ij_order I (keys m))"

definition sortedEffects :: "Injector \<Rightarrow> (string \<times> ToolEffect) list \<Rightarrow> string list" where
  "sortedEffects I m = insertion_sort (ij_order I (keys m))"

text \<open>The bytes of the rune a text begins with, as \<open>utf8.DecodeRuneInString\<close> counts them; a byte that begins none is one.\<close>

definition is_byte :: "nat \<Rightarrow> nat \<Rightarrow> string \<Rightarrow> nat \<Rightarrow> bool" where
  "is_byte lo hi s i \<longleftrightarrow> i < length s \<and> lo \<le> byte (s ! i) \<and> byte (s ! i) \<le> hi"

definition rune_width :: "string \<Rightarrow> nat" where
  "rune_width s =
     (let first = (\<lambda>lo hi. is_byte lo hi s 0); cont = is_byte 128 191 s in
      if first 194 223 \<and> cont 1 then 2
      else if (first 224 224 \<and> is_byte 160 191 s 1 \<or> first 225 236 \<and> cont 1 \<or>
               first 237 237 \<and> is_byte 128 159 s 1 \<or> first 238 239 \<and> cont 1) \<and> cont 2 then 3
      else if (first 240 240 \<and> is_byte 144 191 s 1 \<or> first 241 243 \<and> cont 1 \<or>
               first 244 244 \<and> is_byte 128 143 s 1) \<and> cont 2 \<and> cont 3 then 4
      else 1)"

lemma rune_width_pos: "0 < rune_width s"
  by (simp add: rune_width_def Let_def)

definition plain_char :: "char \<Rightarrow> bool" where
  "plain_char c \<longleftrightarrow> 97 \<le> byte c \<and> byte c \<le> 122 \<or> 65 \<le> byte c \<and> byte c \<le> 90 \<or> 48 \<le> byte c \<and> byte c \<le> 57"

function sanitise :: "string \<Rightarrow> string" where
  "sanitise [] = []"
| "sanitise (c # s) =
     (if plain_char c then c else CHR ''_'') # sanitise (drop (rune_width (c # s)) (c # s))"
  by pat_completeness auto
termination
  by (relation "measure length") (use rune_width_pos in auto)

text \<open>\<open>strings.ToUpper\<close> on the ASCII text \<open>sanitise\<close> returns.\<close>

definition ToUpper :: "string \<Rightarrow> string" where
  "ToUpper s = map (\<lambda>c. if 97 \<le> byte c \<and> byte c \<le> 122 then char_of (byte c - 32) else c) s"

definition sidecar_url :: string where
  "sidecar_url = ''http://127.0.0.1:'' @ int_string ListenPort"

definition mcp_variable :: "string \<Rightarrow> string" where
  "mcp_variable label = ''WAVEOFF_MCP_'' @ ToUpper (sanitise label)"

definition addVolume :: "Pod \<Rightarrow> Pod" where
  "addVolume pod =
     (if list_ex (\<lambda>v. vl_Name v = corpusVolume) (pd_Volumes pod) then pod
      else pod\<lparr>pd_Volumes := pd_Volumes pod @
        [\<lparr> vl_Name = corpusVolume,
            vl_Source = (let claim = annotation pod AnnotationCorpusClaim in
                         if claim \<noteq> [] then Claim claim else EmptyDir) \<rparr>]\<rparr>)"

definition sidecar_args ::
    "Injector \<Rightarrow> Pod \<Rightarrow> string \<Rightarrow> (string \<times> string) list \<Rightarrow> identity \<Rightarrow> bool \<Rightarrow> string list" where
  "sidecar_args I pod upstream tools ident shadow =
     [''-listen'', ''127.0.0.1:'' @ int_string ListenPort, ''-corpus-dir'', corpusPath, ''-blob-dir'', blobPath] @
     (if upstream \<noteq> [] then [''-model-upstream'', upstream] else []) @
     concat (map (\<lambda>label. [''-tool-upstream'', label @ ''='' @ lookup_or [] tools label]) (sortedKeys I tools)) @
     (if id_Agent ident \<noteq> [] then [''-agent'', id_Agent ident] else []) @
     (if id_Behavior ident \<noteq> [] then [''-behavior-digest'', id_Behavior ident] else []) @
     (if id_Content ident \<noteq> [] then [''-content-digest'', id_Content ident] else []) @
     (if shadow
      then ''-shadow'' #
        concat (map (\<lambda>name. [''-tool-effect'', name @ ''='' @ lookup_or [] (id_Effects ident) name])
          (sortedEffects I (id_Effects ident)))
      else []) @
     (let idle = annotation pod AnnotationSessionIdle in if idle \<noteq> [] then [''-session-idle'', idle] else []) @
     (let ep = annotation pod AnnotationOTLPEndpoint; proto = annotation pod AnnotationOTLPProtocol in
      if ep \<noteq> [] then [''-otlp-endpoint'', ep] @ (if proto \<noteq> [] then [''-otlp-protocol'', proto] else []) else [])"

definition sidecar ::
    "Injector \<Rightarrow> Pod \<Rightarrow> string \<Rightarrow> (string \<times> string) list \<Rightarrow> identity \<Rightarrow> bool \<Rightarrow> Container" where
  "sidecar I pod upstream tools ident shadow =
     \<lparr> ct_Name = SidecarName, ct_Image = ij_Image I, ct_ImagePullPolicy = ''IfNotPresent'',
       ct_Args = sidecar_args I pod upstream tools ident shadow, ct_Env = [], ct_EnvFrom = [],
       ct_SecurityContext = Some \<lparr> sx_AllowPrivilegeEscalation = Some False, sx_ReadOnlyRootFilesystem = Some True,
         sx_RunAsNonRoot = Some True, sx_Drop = [''ALL''] \<rparr>,
       ct_VolumeMounts = [(corpusVolume, ''/var/lib/waveoff'')],
       ct_ReadinessProbe = Some \<lparr> pb_Command = [BinaryPath, ''-listen'', ''127.0.0.1:'' @ int_string ListenPort, ''-healthcheck''],
         pb_InitialDelaySeconds = 1, pb_PeriodSeconds = 5 \<rparr>,
       ct_RestartPolicy = None \<rparr>"

section \<open>Injection\<close>

text \<open>The agent's container, pointed at the sidecar.\<close>

definition point_agent :: "Injector \<Rightarrow> string \<Rightarrow> (string \<times> string) list \<Rightarrow> Container \<Rightarrow> Container" where
  "point_agent I envName tools agent =
     fold (\<lambda>label. setEnv (mcp_variable label) (sidecar_url @ ''/mcp/'' @ label)) (ij_order I (keys tools))
       (if envName \<noteq> [] then setEnv envName sidecar_url agent else agent)"

definition inject ::
    "Injector \<Rightarrow> Pod \<Rightarrow> nat \<Rightarrow> string \<Rightarrow> string \<Rightarrow> (string \<times> string) list \<Rightarrow> identity \<Rightarrow> bool \<Rightarrow> Pod" where
  "inject I pod idx upstream envName tools ident shadow =
     (let pod = addVolume (pod\<lparr>pd_Containers := (pd_Containers pod)[idx := point_agent I envName tools (pd_Containers pod ! idx)]\<rparr>);
          sc = (sidecar I pod upstream tools ident shadow)\<lparr>ct_RestartPolicy := Some ''Always''\<rparr>
      in set_annotation AnnotationInjected (ij_Image I) (pod\<lparr>pd_InitContainers := pd_InitContainers pod @ [sc]\<rparr>))"

datatype plan =
    Untouched
  | Skip msg
  | Inject nat string string "(string \<times> string) list" identity bool

text \<open>What \<open>Default\<close> decides, and what it then does to the pod; it never returns an error.\<close>

definition injection_plan :: "Injector \<Rightarrow> Pod \<Rightarrow> plan" where
  "injection_plan I pod =
     (if \<not> wants pod then Untouched
      else if annotation pod AnnotationInjected \<noteq> [] then Untouched
      else if hasContainer pod SidecarName then Untouched
      else case agentContainer pod of Inl err \<Rightarrow> Skip err
      | Inr idx \<Rightarrow>
      (case modelUpstream pod (pd_Containers pod ! idx) of (upstream, envName) \<Rightarrow>
       (case toolUpstreams pod of Inl err \<Rightarrow> Skip err
      | Inr tools \<Rightarrow>
          if upstream = [] \<and> length tools = 0
          then Skip (Sprintf ''no model or tool upstream could be determined; set %s or %s''
                       [AStr AnnotationModelUpstream, AStr AnnotationToolUpstreams])
          else let ident = manifestIdentity I pod; shadow = (annotation pod AnnotationShadow = ''true'') in
            if shadow \<and> annotation pod AnnotationEgressConfined \<noteq> ''true''
            then Skip (Sprintf ''%s is set but %s is not''
                         [AStr AnnotationShadow, AStr AnnotationEgressConfined, AStr AnnotationEgressConfined])
            else if shadow \<and> length (id_Effects ident) = 0
            then Skip (Sprintf ''%s is set but no tool effects could be read from %s''
                         [AStr AnnotationShadow, AStr AnnotationManifest])
            else Inject idx upstream envName tools ident shadow)))"

definition Default_pod :: "Injector \<Rightarrow> Pod \<Rightarrow> Pod" where
  "Default_pod I pod =
     (case injection_plan I pod of
        Untouched \<Rightarrow> pod
      | Skip err \<Rightarrow> admissionWarning I pod err
      | Inject idx upstream envName tools ident shadow \<Rightarrow> inject I pod idx upstream envName tools ident shadow)"

section \<open>The keys in order\<close>

lemma sink_back:
  "mset (sink_back k ls) = add_mset k (mset ls) \<and>
   (sorted_wrt (\<lambda>a b. b \<le> a) ls \<longrightarrow> sorted_wrt (\<lambda>a b. b \<le> a) (sink_back k ls))"
proof (induction ls)
  case (Cons l ls)
  have "set (sink_back k ls) = insert k (set ls)"
    using Cons.IH by (metis set_mset_add_mset_insert set_mset_mset)
  then show ?case using Cons.IH by (auto simp: not_less intro: order_trans)
qed simp

lemma insertion_sort_eq: "insertion_sort ks = sort ks"
proof -
  have "mset (fold sink_back ks ls) = mset ks + mset ls \<and>
      (sorted_wrt (\<lambda>a b. b \<le> a) ls \<longrightarrow> sorted_wrt (\<lambda>a b. b \<le> a) (fold sink_back ks ls))" for ls
  proof (induction ks arbitrary: ls)
    case (Cons k ks)
    then show ?case using sink_back [of k ls] by simp
  qed simp
  from this [of "[]"] show ?thesis
    unfolding insertion_sort_def
    by (intro properties_for_sort [symmetric]) (simp_all add: sorted_wrt_rev)
qed

text \<open>Where a range over a map is in some order, its keys come out sorted all the same.\<close>

definition ranges :: "Injector \<Rightarrow> bool" where
  "ranges I \<longleftrightarrow> (\<forall>ks. mset (ij_order I ks) = mset ks)"

lemma sortedKeys_eq: "ranges I \<Longrightarrow> sortedKeys I m = sort (keys m)" "ranges I \<Longrightarrow> sortedEffects I m = sort (keys m)"
  unfolding sortedKeys_def sortedEffects_def insertion_sort_eq ranges_def
  by (metis mset_sort properties_for_sort sorted_sort)+

section \<open>What injection rests on and what it leaves alone\<close>

lemma annotation_simps [simp]:
  "annotation (set_annotation k v pod) k' = (if k' = k then v else annotation pod k')"
  "annotation (addVolume pod) k = annotation pod k"
  "annotation (pod\<lparr>pd_Containers := cs\<rparr>) k = annotation pod k"
  "annotation (pod\<lparr>pd_InitContainers := cs\<rparr>) k = annotation pod k"
  by (simp_all add: annotation_def set_annotation_def addVolume_def lookup_or_def update_conv')

lemma injection_plan_Inject:
  assumes "injection_plan I pod = Inject idx upstream envName tools ident shadow"
  shows "wants pod" and "\<not> hasContainer pod SidecarName" and "annotation pod AnnotationInjected = []"
    and "agentContainer pod = Inr idx" and "modelUpstream pod (pd_Containers pod ! idx) = (upstream, envName)"
    and "toolUpstreams pod = Inr tools" and "ident = manifestIdentity I pod"
    and "shadow \<longleftrightarrow> annotation pod AnnotationShadow = ''true''"
    and "shadow \<Longrightarrow> annotation pod AnnotationEgressConfined = ''true'' \<and> id_Effects ident \<noteq> []"
  using assms
  by (auto simp: injection_plan_def Let_def split: if_split_asm sum.split_asm prod.split_asm)

text \<open>The recorder's container and its arguments.\<close>

lemma sidecar_args_cong: "annotation pod' = annotation pod \<Longrightarrow> sidecar_args I pod' = sidecar_args I pod"
  by (simp add: fun_eq_iff sidecar_args_def)

lemma injected_sidecar:
  assumes "injection_plan I pod = Inject idx upstream envName tools ident shadow"
  obtains sc where "pd_InitContainers (Default_pod I pod) = pd_InitContainers pod @ [sc]"
    and "ct_Name sc = SidecarName" and "ct_Args sc = sidecar_args I pod upstream tools ident shadow"
    and "ct_RestartPolicy sc = Some ''Always''" and "ct_Image sc = ij_Image I"
proof -
  let ?pod = "addVolume (pod\<lparr>pd_Containers := (pd_Containers pod)[idx := point_agent I envName tools (pd_Containers pod ! idx)]\<rparr>)"
  let ?sc = "(sidecar I ?pod upstream tools ident shadow)\<lparr>ct_RestartPolicy := Some ''Always''\<rparr>"
  have "sidecar_args I ?pod = sidecar_args I pod" by (rule sidecar_args_cong) (simp add: fun_eq_iff)
  then show ?thesis
    using that [of ?sc] by (simp add: Default_pod_def assms inject_def Let_def set_annotation_def sidecar_def addVolume_def)
qed

lemma manifestIdentity_effects:
  assumes "id_Effects (manifestIdentity I pod) \<noteq> []"
  obtains get m where "ij_Client I = Some get" and "get (pd_Namespace pod) (annotation pod AnnotationManifest) = Inr m"
    and "manifestIdentity I pod = \<lparr> id_Behavior = BehaviorDigest (am_Spec m), id_Content = ContentDigest (am_Spec m),
      id_Agent = Agent (am_Spec m), id_Effects = manifest_effects m \<rparr>"
  using assms that by (auto simp: manifestIdentity_def Let_def split: if_split_asm option.split_asm sum.split_asm)

text \<open>Setting the entries of a map one after another: the last one of a key stays.\<close>

lemma map_of_fold_update:
  "map_of (fold (\<lambda>x. AList.update (f x) (g x)) xs m) k =
     (case find (\<lambda>x. f x = k) (rev xs) of Some z \<Rightarrow> Some (g z) | None \<Rightarrow> map_of m k)"
  by (induction xs rule: rev_induct) (auto simp: update_conv')

lemma manifest_effects_tool:
  assumes "map_of (manifest_effects m) n = Some effect"
  obtains t where "t \<in> set (Tools (am_Spec m))" and "tool_Name t = n" and "tool_Effect t = effect"
  using assms that by (auto simp: manifest_effects_def map_of_fold_update find_Some_iff2 split: option.split_asm dest!: find_SomeD)

section \<open>A second pass changes nothing\<close>

lemma update_again: "AList.update k v (AList.update k v m) = AList.update k v m"
  by (induction m) auto

lemma annotation_keys:
  "AnnotationInject \<noteq> AnnotationSkipped"
  "AnnotationInjected \<noteq> AnnotationSkipped"
  "AnnotationContainer \<noteq> AnnotationSkipped"
  "AnnotationModelUpstream \<noteq> AnnotationSkipped"
  "AnnotationToolUpstreams \<noteq> AnnotationSkipped"
  "AnnotationManifest \<noteq> AnnotationSkipped"
  "AnnotationShadow \<noteq> AnnotationSkipped"
  "AnnotationEgressConfined \<noteq> AnnotationSkipped"
  by code_simp+

lemma set_annotation_frame [simp]:
  "pd_Labels (set_annotation k v pod) = pd_Labels pod" "pd_Containers (set_annotation k v pod) = pd_Containers pod"
  "pd_InitContainers (set_annotation k v pod) = pd_InitContainers pod" "pd_Namespace (set_annotation k v pod) = pd_Namespace pod"
  "pd_Volumes (set_annotation k v pod) = pd_Volumes pod"
  by (simp_all add: set_annotation_def)

lemma plan_after_warning: "injection_plan I (set_annotation AnnotationSkipped v pod) = injection_plan I pod"
proof -
  let ?pod = "set_annotation AnnotationSkipped v pod"
  have "wants ?pod = wants pod" "hasContainer ?pod = hasContainer pod" "agentContainer ?pod = agentContainer pod"
    "modelUpstream ?pod = modelUpstream pod" "toolUpstreams ?pod = toolUpstreams pod"
    "manifestIdentity I ?pod = manifestIdentity I pod"
    by (simp_all add: wants_def hasContainer_def agentContainer_def modelUpstream_def toolUpstreams_def
        manifestIdentity_def Let_def annotation_keys fun_eq_iff split: option.split)
  then show ?thesis by (simp add: injection_plan_def annotation_keys Let_def cong: sum.case_cong prod.case_cong if_cong)
qed

lemma plan_after_injection:
  assumes "injection_plan I pod = Inject idx upstream envName tools ident shadow"
  shows "injection_plan I (Default_pod I pod) = Untouched"
proof -
  obtain sc where "pd_InitContainers (Default_pod I pod) = pd_InitContainers pod @ [sc]" "ct_Name sc = SidecarName"
    by (rule injected_sidecar [OF assms])
  then have "hasContainer (Default_pod I pod) SidecarName" by (simp add: hasContainer_def)
  then show ?thesis by (simp add: injection_plan_def)
qed

text \<open>
  C25. Injection happens once.  Whatever became of a pod, injected, skipped with a warning or left alone,
  a second pass of the webhook over the result gives the same pod.
\<close>

theorem injection_is_idempotent: "Default_pod I (Default_pod I pod) = Default_pod I pod"
proof (cases "injection_plan I pod")
  case Untouched
  then show ?thesis by (simp add: Default_pod_def)
next
  case (Skip err)
  then show ?thesis by (simp add: Default_pod_def admissionWarning_def plan_after_warning) (simp add: set_annotation_def update_again)
next
  case (Inject idx upstream envName tools ident shadow)
  then show ?thesis using plan_after_injection [OF Inject] by (simp add: Default_pod_def)
qed

section \<open>The agent's environment\<close>

lemma getEnv_setEnv: "getEnv (setEnv n v c) k = (if k = n then v else getEnv c k)"
proof -
  have "find (\<lambda>e. ev_Name e = k \<and> ev_ValueFrom e = None) (set_env n v es) =
      (if k = n then Some \<lparr> ev_Name = n, ev_Value = v, ev_ValueFrom = None \<rparr>
       else find (\<lambda>e. ev_Name e = k \<and> ev_ValueFrom e = None) es)" for es
    by (induction es) auto
  then show ?thesis by (simp add: getEnv_def setEnv_def)
qed

lemma getEnv_fold:
  "getEnv (fold (\<lambda>l. setEnv (f l) (g l)) ls c) k =
     (case find (\<lambda>l. f l = k) (rev ls) of Some l \<Rightarrow> g l | None \<Rightarrow> getEnv c k)"
  by (induction ls rule: rev_induct) (auto simp: getEnv_setEnv)

lemma fold_setEnv_frame: "\<exists>es. fold (\<lambda>l. setEnv (f l) (g l)) ls c = c\<lparr>ct_Env := es\<rparr>"
proof (induction ls arbitrary: c)
  case Nil
  show ?case by (rule exI [of _ "ct_Env c"]) simp
next
  case (Cons l ls)
  obtain es where "fold (\<lambda>l. setEnv (f l) (g l)) ls (setEnv (f l) (g l) c) = (setEnv (f l) (g l) c)\<lparr>ct_Env := es\<rparr>"
    using Cons by blast
  moreover have "(setEnv (f l) (g l) c)\<lparr>ct_Env := es\<rparr> = c\<lparr>ct_Env := es\<rparr>" by (simp add: setEnv_def)
  ultimately show ?case by (intro exI [of _ es]) simp
qed

lemma point_agent_frame: "\<exists>es. point_agent I envName tools c = c\<lparr>ct_Env := es\<rparr>"
proof -
  let ?c = "if envName \<noteq> [] then setEnv envName sidecar_url c else c"
  obtain es where "point_agent I envName tools c = ?c\<lparr>ct_Env := es\<rparr>"
    using fold_setEnv_frame [of mcp_variable "\<lambda>label. sidecar_url @ ''/mcp/'' @ label" "ij_order I (keys tools)" ?c]
    unfolding point_agent_def by blast
  then show ?thesis by (intro exI [of _ es]) (simp add: setEnv_def)
qed

lemma model_variables: "snd (modelUpstream pod c) \<in> {[], ''ANTHROPIC_BASE_URL'', ''OPENAI_BASE_URL''}"
  by (auto simp: modelUpstream_def Let_def providerEnv_def split: option.split dest!: find_SomeD)

lemma mcp_variable_not_model: "mcp_variable label \<notin> {''ANTHROPIC_BASE_URL'', ''OPENAI_BASE_URL''}"
  by (simp add: mcp_variable_def)

lemma point_agent_model:
  assumes "envName \<in> {''ANTHROPIC_BASE_URL'', ''OPENAI_BASE_URL''}"
  shows "getEnv (point_agent I envName tools c) envName = sidecar_url"
proof -
  have "find (\<lambda>l. mcp_variable l = envName) ls = None" for ls
    using assms mcp_variable_not_model by (auto simp: find_None_iff)
  then show ?thesis using assms by (auto simp: point_agent_def getEnv_fold getEnv_setEnv)
qed

lemma point_agent_tool:
  assumes "ranges I" and "label \<in> set (keys tools)" and "inj_on mcp_variable (set (keys tools))"
  shows "getEnv (point_agent I envName tools c) (mcp_variable label) = sidecar_url @ ''/mcp/'' @ label"
proof -
  let ?ls = "rev (ij_order I (keys tools))"
  have set_ls: "set ?ls = set (keys tools)" using assms(1) by (metis ranges_def set_rev mset_eq_setD)
  have "find (\<lambda>l. mcp_variable l = mcp_variable label) ?ls = find (\<lambda>l. l = label) ?ls"
    by (rule find_cong) (use assms(2,3) set_ls in \<open>auto dest: inj_onD\<close>)
  moreover have "find (\<lambda>l. l = label) xs = (if label \<in> set xs then Some label else None)" for xs
    by (induction xs) auto
  ultimately show ?thesis using assms(2) set_ls by (simp add: point_agent_def getEnv_fold)
qed

text \<open>Two labels whose letters, digits and other characters agree share a variable; only one of them is set.\<close>

lemma colliding_labels: "mcp_variable ''a-b'' = mcp_variable ''a_b''"
  by code_simp

section \<open>The tool servers a pod names\<close>

lemma TrimSpace_ends:
  assumes "TrimSpace s \<noteq> []"
  shows "hd (TrimSpace s) \<notin> set space_chars" and "last (TrimSpace s) \<notin> set space_chars"
proof -
  let ?sp = "\<lambda>c. c \<in> set space_chars" and ?t = "dropWhile (\<lambda>c. c \<in> set space_chars) s"
  have eq: "TrimSpace s = rev (dropWhile ?sp (rev ?t))" by (simp add: TrimSpace_def Trim_def TrimRight_def)
  then have "dropWhile ?sp (rev ?t) \<noteq> []" using assms by simp
  then show "last (TrimSpace s) \<notin> set space_chars" using hd_dropWhile [of ?sp "rev ?t"] by (simp add: eq last_rev)
  from assms obtain x xs where t: "?t = x # xs" by (cases ?t) (auto simp: eq)
  then have x: "\<not> ?sp x" using hd_dropWhile [of ?sp s] by simp
  then have "TrimSpace s = x # rev (dropWhile ?sp (rev xs))" by (simp add: eq t dropWhile_append)
  then show "hd (TrimSpace s) \<notin> set space_chars" using x by simp
qed

lemma TrimSpace_nonempty: "c \<in> set s \<Longrightarrow> c \<notin> set space_chars \<Longrightarrow> TrimSpace s \<noteq> []"
  unfolding TrimSpace_def Trim_def TrimRight_def
  by (metis dropWhile_eq_Nil_conv rev_is_Nil_conv set_rev hd_dropWhile list.set_sel(1))

lemma set_TrimSpace: "set (TrimSpace s) \<subseteq> set s"
  unfolding TrimSpace_def Trim_def TrimRight_def using set_dropWhileD by (metis set_rev subsetI)

definition tool_map :: "(string \<times> string) list \<Rightarrow> bool" where
  "tool_map m \<longleftrightarrow> distinct (keys m) \<and> (\<forall>(l, e) \<in> set m. l \<noteq> [] \<and> CHR ''='' \<notin> set l \<and> e \<noteq> [])"

lemma update_entries: "x \<in> set (AList.update k v m) \<Longrightarrow> x = (k, v) \<or> x \<in> set m"
  by (induction m) (auto split: if_split_asm)

lemma tool_part_map:
  assumes "tool_part part out = Inr out'" and "tool_map out"
  shows "tool_map out'"
proof (cases "TrimSpace part = []")
  case True
  then show ?thesis using assms by (simp add: tool_part_def)
next
  case False
  then obtain label endpoint where cut: "cut_at CHR ''='' (TrimSpace part) = Some (label, endpoint)"
    and ne: "label \<noteq> []" "endpoint \<noteq> []"
    and out': "out' = AList.update (TrimSpace label) (TrimSpace endpoint) out"
    using assms(1) by (auto simp: tool_part_def Let_def split: option.split_asm if_split_asm)
  note part = cut_at_Some [OF cut]
  have "hd label \<notin> set space_chars" "last endpoint \<notin> set space_chars"
    using TrimSpace_ends [OF False] part ne by (simp_all add: hd_append)
  then have "TrimSpace label \<noteq> []" "TrimSpace endpoint \<noteq> []"
    using TrimSpace_nonempty ne by (metis list.set_sel(1), metis last_in_set)
  moreover have "CHR ''='' \<notin> set (TrimSpace label)" using part set_TrimSpace by fastforce
  ultimately show ?thesis
    using assms(2) unfolding tool_map_def out' keys_def
    by (auto simp: distinct_update dest!: update_entries)
qed

lemma toolUpstreams_map:
  assumes "toolUpstreams pod = Inr tools"
  shows "tool_map tools"
proof -
  have "stepsR (map tool_part parts) out = Inr tools \<Longrightarrow> tool_map out \<Longrightarrow> tool_map tools" for parts out
    by (induction parts arbitrary: out) (auto simp: bindR_Inr_iff dest: tool_part_map)
  moreover have "tool_map []" by (simp add: tool_map_def keys_def)
  ultimately show ?thesis using assms by (auto simp: toolUpstreams_def Let_def split: if_split_asm)
qed

lemma index_of_container_Some: "index_of_container name i cs = Some j \<Longrightarrow> i \<le> j \<and> j < i + length cs \<and> ct_Name (cs ! (j - i)) = name"
  by (induction cs arbitrary: i) (fastforce split: if_split_asm simp: nth_Cons')+

lemma agentContainer_valid: "agentContainer pod = Inr idx \<Longrightarrow> idx < length (pd_Containers pod)"
  using index_of_container_Some by (fastforce simp: agentContainer_def Let_def split: if_split_asm option.split_asm)

lemma injected_containers:
  assumes "injection_plan I pod = Inject idx upstream envName tools ident shadow"
  shows "pd_Containers (Default_pod I pod) = (pd_Containers pod)[idx := point_agent I envName tools (pd_Containers pod ! idx)]"
  by (simp add: Default_pod_def assms inject_def Let_def addVolume_def)

text \<open>
  C26. Injection touches what it says it touches.  An injected pod keeps its labels, its volumes, its init
  containers and its other containers as they were, and of its annotations all but the mark; the agent's
  container changes in its environment only, and there in the variables that are pointed at the sidecar.
\<close>

theorem injection_leaves_the_rest_alone:
  assumes "injection_plan I pod = Inject idx upstream envName tools ident shadow" and "ranges I"
  defines "pod' \<equiv> Default_pod I pod"
  shows "length (pd_Containers pod') = length (pd_Containers pod) \<and>
    (\<forall>i. i \<noteq> idx \<longrightarrow> pd_Containers pod' ! i = pd_Containers pod ! i) \<and>
    (\<exists>es. pd_Containers pod' ! idx = (pd_Containers pod ! idx)\<lparr>ct_Env := es\<rparr>) \<and>
    (\<forall>k. k \<noteq> envName \<and> k \<notin> mcp_variable ` set (keys tools) \<longrightarrow>
       getEnv (pd_Containers pod' ! idx) k = getEnv (pd_Containers pod ! idx) k) \<and>
    (\<exists>sc vs. pd_InitContainers pod' = pd_InitContainers pod @ [sc] \<and> pd_Volumes pod' = pd_Volumes pod @ vs) \<and>
    pd_Labels pod' = pd_Labels pod \<and> (\<forall>k. k \<noteq> AnnotationInjected \<longrightarrow> annotation pod' k = annotation pod k)"
proof -
  have idx: "idx < length (pd_Containers pod)"
    using injection_plan_Inject(4) [OF assms(1)] by (rule agentContainer_valid)
  have containers: "pd_Containers pod' = (pd_Containers pod)[idx := point_agent I envName tools (pd_Containers pod ! idx)]"
    unfolding pod'_def by (rule injected_containers [OF assms(1)])
  have "getEnv (point_agent I envName tools c) k = getEnv c k"
    if "k \<noteq> envName" "k \<notin> mcp_variable ` set (keys tools)" for c k
  proof -
    have "set (ij_order I (keys tools)) = set (keys tools)" using assms(2) by (metis ranges_def mset_eq_setD)
    then have "find (\<lambda>l. mcp_variable l = k) (rev (ij_order I (keys tools))) = None"
      using that(2) by (auto simp: find_None_iff)
    then show ?thesis using that(1) by (simp add: point_agent_def getEnv_fold getEnv_setEnv)
  qed
  moreover have "\<exists>sc vs. pd_InitContainers pod' = pd_InitContainers pod @ [sc] \<and> pd_Volumes pod' = pd_Volumes pod @ vs"
    by (simp add: pod'_def Default_pod_def assms(1) inject_def Let_def addVolume_def)
  moreover have "pd_Labels pod' = pd_Labels pod" "\<forall>k. k \<noteq> AnnotationInjected \<longrightarrow> annotation pod' k = annotation pod k"
    by (simp_all add: pod'_def Default_pod_def assms(1) inject_def Let_def) (simp add: addVolume_def)
  ultimately show ?thesis using idx point_agent_frame by (simp add: containers)
qed

section \<open>Examples\<close>

definition ex_agent_container :: Container where
  "ex_agent_container = \<lparr> ct_Name = ''agent'', ct_Image = ''img'', ct_ImagePullPolicy = [], ct_Args = [], ct_Env = [],
     ct_EnvFrom = [], ct_SecurityContext = None, ct_VolumeMounts = [], ct_ReadinessProbe = None, ct_RestartPolicy = None \<rparr>"

definition ex_shadow_pod :: Pod where
  "ex_shadow_pod = \<lparr> pd_Namespace = ''n'',
     pd_Annotations = [(AnnotationInject, ''true''), (AnnotationShadow, ''true''), (AnnotationEgressConfined, ''true''),
       (AnnotationManifest, ''m''), (AnnotationToolUpstreams, ''t=http://t'')],
     pd_Labels = [], pd_Containers = [ex_agent_container], pd_InitContainers = [], pd_Volumes = [] \<rparr>"

definition ex_read_tool :: ToolRef where
  "ex_read_tool = \<lparr> tool_Name = ''q'', tool_Server = ''t'', tool_ContractDigest = [], tool_Effect = EffectRead,
     tool_ReplayPolicy = [] \<rparr>"

definition ex_injector :: Injector where
  "ex_injector = \<lparr> ij_Client = Some (\<lambda>_ _. Inr \<lparr> am_Name = ''m'', am_Annotations = [],
       am_Spec = ex_agent\<lparr>Tools := [ex_read_tool]\<rparr> \<rparr>),
     ij_Image = ''recorder'', ij_render = (\<lambda>_. []), ij_order = rev \<rparr>"

definition ex_identity :: identity where
  "ex_identity = \<lparr> id_Behavior = [], id_Content = [], id_Agent = ''a'', id_Effects = [(''q'', EffectRead)] \<rparr>"

lemma ex_ranges: "ranges ex_injector"
  by (simp add: ranges_def ex_injector_def)

lemma ex_plan: "injection_plan ex_injector ex_shadow_pod = Inject 0 [] [] [(''t'', ''http://t'')] ex_identity True"
proof -
  have ident: "manifestIdentity ex_injector ex_shadow_pod = ex_identity"
    by (simp add: manifestIdentity_def ex_injector_def ex_identity_def manifest_effects_def ex_read_tool_def ex_agent_def
        annotation_def ex_shadow_pod_def lookup_or_def AnnotationManifest_def AnnotationInject_def AnnotationShadow_def
        AnnotationEgressConfined_def)
  have "wants ex_shadow_pod" "annotation ex_shadow_pod AnnotationInjected = []" "\<not> hasContainer ex_shadow_pod SidecarName"
    "agentContainer ex_shadow_pod = Inr 0" "modelUpstream ex_shadow_pod (pd_Containers ex_shadow_pod ! 0) = ([], [])"
    "toolUpstreams ex_shadow_pod = Inr [(''t'', ''http://t'')]" "annotation ex_shadow_pod AnnotationShadow = ''true''"
    "annotation ex_shadow_pod AnnotationEgressConfined = ''true''" "id_Effects ex_identity \<noteq> []"
    by code_simp+
  then show ?thesis by (simp add: injection_plan_def ident)
qed

theorem injection_leaves_the_rest_alone_witness:
  "annotation (Default_pod ex_injector ex_shadow_pod) AnnotationManifest = ''m'' \<and>
   length (pd_Containers (Default_pod ex_injector ex_shadow_pod)) = 1"
proof -
  have "annotation ex_shadow_pod AnnotationManifest = ''m''" "AnnotationManifest \<noteq> AnnotationInjected"
    "length (pd_Containers ex_shadow_pod) = 1" by code_simp+
  then show ?thesis using injection_leaves_the_rest_alone [OF ex_plan ex_ranges] by simp
qed

end
