(* ===== verification/RecorderMain.thy ===== *)
theory RecorderMain
  imports RecordServer Inject
begin

text \<open>
  \<open>cmd/waveoff-recorder/main.go\<close>: the recorder's command line, from its arguments to the server it
  runs.  Together with the webhook that writes those arguments and the server that acts on them this
  gives what a shadow pod is promised.
\<close>

section \<open>Flags\<close>

text \<open>\<open>kvFlag.Set\<close>.\<close>

definition kv_Set :: "string \<Rightarrow> (string \<times> string) list \<Rightarrow> (string \<times> string) list result" where
  "kv_Set v k =
     (case cut_at CHR ''='' v of
        None \<Rightarrow> Inl (Sprintf ''want <label>=<url>, got %q'' [AStr v])
      | Some (name, endpoint) \<Rightarrow>
          if name = [] \<or> endpoint = [] then Inl (Sprintf ''want <label>=<url>, got %q'' [AStr v])
          else Inr (AList.update name endpoint k))"

record flags =
  fg_listen :: string
  fg_modelUp :: string
  fg_corpusDir :: string
  fg_blobDir :: string
  fg_agent :: string
  fg_behavior :: string
  fg_content :: string
  fg_captureMax :: int
  fg_queueDepth :: int
  fg_idleTimeout :: duration
  fg_verbose :: bool
  fg_shadow :: bool
  fg_healthcheck :: bool
  fg_list :: bool
  fg_dump :: string
  fg_otlpEndpoint :: string
  fg_otlpProtocol :: string
  fg_otlpInsecure :: bool
  fg_tools :: "(string \<times> string) list"
  fg_toolEffects :: "(string \<times> string) list"

text \<open>What of the environment the command meets.\<close>

record main_env =
  mn_otel :: string
  mn_int :: "string \<Rightarrow> int result"
  mn_duration :: "string \<Rightarrow> duration result"
  mn_blobs :: "string \<Rightarrow> msg option"
  mn_corpus :: "string \<Rightarrow> msg option"
  mn_tracer :: "string \<Rightarrow> string \<Rightarrow> bool \<Rightarrow> string \<Rightarrow> bool result"
  mn_server :: server_env

definition default_flags :: "main_env \<Rightarrow> flags" where
  "default_flags M =
     \<lparr> fg_listen = ''127.0.0.1:8080'', fg_modelUp = [], fg_corpusDir = ''/var/lib/waveoff/corpus'',
       fg_blobDir = ''/var/lib/waveoff/blobs'', fg_agent = [], fg_behavior = [], fg_content = [],
       fg_captureMax = DefaultCaptureLimit, fg_queueDepth = 1024, fg_idleTimeout = 2 * minute, fg_verbose = False,
       fg_shadow = False, fg_healthcheck = False, fg_list = False, fg_dump = [], fg_otlpEndpoint = mn_otel M,
       fg_otlpProtocol = ''grpc'', fg_otlpInsecure = True, fg_tools = [], fg_toolEffects = [] \<rparr>"

text \<open>\<open>strconv.ParseBool\<close>.\<close>

definition ParseBool :: "string \<Rightarrow> bool result" where
  "ParseBool s =
     (if s \<in> {''1'', ''t'', ''T'', ''TRUE'', ''true'', ''True''} then Inr True
      else if s \<in> {''0'', ''f'', ''F'', ''FALSE'', ''false'', ''False''} then Inr False
      else Inl (Sprintf ''parsing %q: invalid syntax'' [AStr s]))"

text \<open>The flag set: whether a flag is boolean, and what setting it does.\<close>

type_synonym flag = "bool \<times> (string \<Rightarrow> flags \<Rightarrow> flags result)"

definition string_flag :: "(string \<Rightarrow> flags \<Rightarrow> flags) \<Rightarrow> flag" where
  "string_flag set_to = (False, \<lambda>v fs. Inr (set_to v fs))"

definition bool_flag :: "(bool \<Rightarrow> flags \<Rightarrow> flags) \<Rightarrow> flag" where
  "bool_flag set_to = (True, \<lambda>v fs. bindR (ParseBool v) (\<lambda>b. Inr (set_to b fs)))"

definition flag_set :: "main_env \<Rightarrow> (string \<times> flag) list" where
  "flag_set M =
     [(''listen'', string_flag (\<lambda>v fs. fs\<lparr>fg_listen := v\<rparr>)),
      (''model-upstream'', string_flag (\<lambda>v fs. fs\<lparr>fg_modelUp := v\<rparr>)),
      (''corpus-dir'', string_flag (\<lambda>v fs. fs\<lparr>fg_corpusDir := v\<rparr>)),
      (''blob-dir'', string_flag (\<lambda>v fs. fs\<lparr>fg_blobDir := v\<rparr>)),
      (''agent'', string_flag (\<lambda>v fs. fs\<lparr>fg_agent := v\<rparr>)),
      (''behavior-digest'', string_flag (\<lambda>v fs. fs\<lparr>fg_behavior := v\<rparr>)),
      (''content-digest'', string_flag (\<lambda>v fs. fs\<lparr>fg_content := v\<rparr>)),
      (''capture-limit'', (False, \<lambda>v fs. bindR (mn_int M v) (\<lambda>n. Inr (fs\<lparr>fg_captureMax := n\<rparr>)))),
      (''queue-depth'', (False, \<lambda>v fs. bindR (mn_int M v) (\<lambda>n. Inr (fs\<lparr>fg_queueDepth := n\<rparr>)))),
      (''session-idle'', (False, \<lambda>v fs. bindR (mn_duration M v) (\<lambda>d. Inr (fs\<lparr>fg_idleTimeout := d\<rparr>)))),
      (''verbose'', bool_flag (\<lambda>b fs. fs\<lparr>fg_verbose := b\<rparr>)),
      (''shadow'', bool_flag (\<lambda>b fs. fs\<lparr>fg_shadow := b\<rparr>)),
      (''healthcheck'', bool_flag (\<lambda>b fs. fs\<lparr>fg_healthcheck := b\<rparr>)),
      (''list'', bool_flag (\<lambda>b fs. fs\<lparr>fg_list := b\<rparr>)),
      (''dump'', string_flag (\<lambda>v fs. fs\<lparr>fg_dump := v\<rparr>)),
      (''otlp-endpoint'', string_flag (\<lambda>v fs. fs\<lparr>fg_otlpEndpoint := v\<rparr>)),
      (''otlp-protocol'', string_flag (\<lambda>v fs. fs\<lparr>fg_otlpProtocol := v\<rparr>)),
      (''otlp-insecure'', bool_flag (\<lambda>b fs. fs\<lparr>fg_otlpInsecure := b\<rparr>)),
      (''tool-upstream'', (False, \<lambda>v fs. bindR (kv_Set v (fg_tools fs)) (\<lambda>m. Inr (fs\<lparr>fg_tools := m\<rparr>)))),
      (''tool-effect'', (False, \<lambda>v fs. bindR (kv_Set v (fg_toolEffects fs)) (\<lambda>m. Inr (fs\<lparr>fg_toolEffects := m\<rparr>))))]"

text \<open>
  One argument, as \<open>flag.FlagSet\<close> reads it: the end of the flags, a malformed one, or a name with the
  value after an equals sign if it has one.
\<close>

datatype token = EndOfFlags | BadFlag | FlagArg string "string option"

definition flag_token :: "string \<Rightarrow> token" where
  "flag_token s =
     (if length s < 2 \<or> hd s \<noteq> CHR ''-'' then EndOfFlags
      else let name = (if s ! 1 = CHR ''-'' then drop 2 s else drop 1 s) in
        if s = ''--'' then EndOfFlags
        else if name = [] \<or> hd name = CHR ''-'' \<or> hd name = CHR ''='' then BadFlag
        else (case cut_at CHR ''='' name of
                None \<Rightarrow> FlagArg name None
              | Some (n, v) \<Rightarrow> FlagArg n (Some v)))"

text \<open>\<open>flag.Parse\<close> of the command line: \<open>Inl\<close> is the status the process exits with.\<close>

definition set_or_exit :: "flag \<Rightarrow> string \<Rightarrow> flags \<Rightarrow> int + flags" where
  "set_or_exit f v fs = (case snd f v fs of Inl _ \<Rightarrow> Inl 2 | Inr fs1 \<Rightarrow> Inr fs1)"

fun parse_flags :: "(string \<times> flag) list \<Rightarrow> string list \<Rightarrow> flags \<Rightarrow> int + flags" where
  "parse_flags T [] fs = Inr fs"
| "parse_flags T (s # rest) fs =
     (case flag_token s of
        EndOfFlags \<Rightarrow> Inr fs
      | BadFlag \<Rightarrow> Inl 2
      | FlagArg name val \<Rightarrow>
          (case map_of T name of
             None \<Rightarrow> Inl (if name \<in> {''help'', ''h''} then 0 else 2)
           | Some f \<Rightarrow>
               (case val of
                  Some v \<Rightarrow> bindR (set_or_exit f v fs) (parse_flags T rest)
                | None \<Rightarrow>
                    if fst f then bindR (set_or_exit f ''true'' fs) (parse_flags T rest)
                    else (case rest of
                            [] \<Rightarrow> Inl 2
                          | v # rest1 \<Rightarrow> bindR (set_or_exit f v fs) (parse_flags T rest1)))))"

section \<open>The command\<close>

definition parse_effect :: "string \<times> string \<Rightarrow> (string \<times> string) result" where
  "parse_effect nv =
     (case nv of (name, effect) \<Rightarrow>
        if effect \<in> {EffectRead, EffectIdempotentWrite, EffectWrite} then Inr (name, effect)
        else Inl (Sprintf ''tool %q has effect %q: use read, idempotent-write or write'' [AStr name, AStr effect]))"

definition parseEffects :: "(string \<times> string) list \<Rightarrow> (string \<times> string) list result" where
  "parseEffects raw = mapR parse_effect raw"

definition serviceName :: "string \<Rightarrow> string" where
  "serviceName agent = (if agent = [] then ''waveoff-recorder'' else ''waveoff-recorder/'' @ agent)"

record running =
  rn_sink :: config
  rn_exporting :: bool
  rn_server :: RecorderServer

text \<open>A process that exits with a status, one of its three errands, or the recorder it runs; \<open>None\<close> is a panic.\<close>

datatype recorder_process =
    ExitStatus int
  | ProbeListener string
  | ListCorpus string
  | DumpCassette string string
  | Recording running

definition recorder_config :: "flags \<Rightarrow> (string \<times> string) list \<Rightarrow> RecorderConfig" where
  "recorder_config fs effects =
     \<lparr> rg_ModelUpstream = fg_modelUp fs, rg_ToolUpstreams = fg_tools fs, rg_Listen = fg_listen fs, rg_Sessions = None,
       rg_CaptureLimit = fg_captureMax fs, rg_SuppressWrites = fg_shadow fs, rg_ToolEffects = effects \<rparr>"

definition sink_config :: "flags \<Rightarrow> config" where
  "sink_config fs =
     \<lparr> cf_Agent = fg_agent fs, cf_BehaviorDigest = fg_behavior fs, cf_ContentDigest = fg_content fs,
       cf_QueueDepth = fg_queueDepth fs, cf_IdleTimeout = fg_idleTimeout fs, cf_Blobs = True \<rparr>"

definition record_with :: "main_env \<Rightarrow> flags \<Rightarrow> recorder_process option" where
  "record_with M fs =
     (if fg_modelUp fs = [] \<and> length (fg_tools fs) = 0 then Some (ExitStatus 1)
      else if mn_blobs M (fg_blobDir fs) \<noteq> None then Some (ExitStatus 1)
      else if mn_corpus M (fg_corpusDir fs) \<noteq> None then Some (ExitStatus 1)
      else let exporting = (mn_tracer M (fg_otlpEndpoint fs) (fg_otlpProtocol fs) (fg_otlpInsecure fs)
                              (serviceName (fg_agent fs)) = Inr True)
           in (case parseEffects (fg_toolEffects fs) of
                 Inl _ \<Rightarrow> Some (ExitStatus 1)
               | Inr effects \<Rightarrow>
                   (case NewRecorderServer (mn_server M) (recorder_config fs effects) of
                      None \<Rightarrow> None
                    | Some (Inl _) \<Rightarrow> Some (ExitStatus 1)
                    | Some (Inr srv) \<Rightarrow>
                        Some (Recording \<lparr> rn_sink = sink_config fs, rn_exporting = exporting, rn_server = srv \<rparr>))))"

definition recorder_main :: "main_env \<Rightarrow> string list \<Rightarrow> recorder_process option" where
  "recorder_main M args =
     (case parse_flags (flag_set M) args (default_flags M) of
        Inl status \<Rightarrow> Some (ExitStatus status)
      | Inr fs \<Rightarrow>
          if fg_healthcheck fs then Some (ProbeListener (fg_listen fs))
          else if fg_list fs then Some (ListCorpus (fg_corpusDir fs))
          else if fg_dump fs \<noteq> [] then Some (DumpCassette (fg_corpusDir fs) (fg_dump fs))
          else record_with M fs)"

section \<open>Reading the sidecar's arguments\<close>

text \<open>Arguments that parse as a sequence of steps on the flags, whatever follows them.\<close>

definition segment :: "main_env \<Rightarrow> string list \<Rightarrow> (flags \<Rightarrow> int + flags) list \<Rightarrow> bool" where
  "segment M xs gs \<longleftrightarrow>
     (\<forall>rest. parse_flags (flag_set M) (xs @ rest) = (\<lambda>fs. bindR (stepsR gs fs) (parse_flags (flag_set M) rest)))"

lemma bindR_assoc: "bindR (bindR m f) g = bindR m (\<lambda>x. bindR (f x) g)"
  by (cases m) simp_all

lemma segment_Nil: "segment M [] []"
  by (simp add: segment_def fun_eq_iff)

lemma segment_append: "segment M xs gs \<Longrightarrow> segment M ys hs \<Longrightarrow> segment M (xs @ ys) (gs @ hs)"
  by (simp add: segment_def stepsR_append bindR_assoc)

lemma segment_if: "segment M xs gs \<Longrightarrow> segment M (if b then xs else []) (if b then gs else [])"
  by (simp add: segment_Nil)

lemma segment_concat:
  "(\<And>l. segment M (a l) [g l]) \<Longrightarrow> segment M (concat (map a ls)) (map g ls)"
proof (induction ls)
  case (Cons l ls)
  then show ?case using segment_append [of M "a l" "[g l]"] by simp
qed (simp add: segment_Nil)

lemma segment_value:
  assumes "flag_token s = FlagArg name None" and "map_of (flag_set M) name = Some f" and "\<not> fst f"
  shows "segment M [s, v] [set_or_exit f v]"
  using assms by (simp add: segment_def bindR_assoc fun_eq_iff)

lemma segment_switch:
  assumes "flag_token s = FlagArg name None" and "map_of (flag_set M) name = Some f" and "fst f"
  shows "segment M [s] [set_or_exit f ''true'']"
  using assms by (simp add: segment_def bindR_assoc fun_eq_iff)

lemma tokens:
  "flag_token ''-listen'' = FlagArg ''listen'' None" "flag_token ''-corpus-dir'' = FlagArg ''corpus-dir'' None"
  "flag_token ''-blob-dir'' = FlagArg ''blob-dir'' None" "flag_token ''-model-upstream'' = FlagArg ''model-upstream'' None"
  "flag_token ''-tool-upstream'' = FlagArg ''tool-upstream'' None" "flag_token ''-agent'' = FlagArg ''agent'' None"
  "flag_token ''-behavior-digest'' = FlagArg ''behavior-digest'' None"
  "flag_token ''-content-digest'' = FlagArg ''content-digest'' None" "flag_token ''-shadow'' = FlagArg ''shadow'' None"
  "flag_token ''-tool-effect'' = FlagArg ''tool-effect'' None" "flag_token ''-session-idle'' = FlagArg ''session-idle'' None"
  "flag_token ''-otlp-endpoint'' = FlagArg ''otlp-endpoint'' None" "flag_token ''-otlp-protocol'' = FlagArg ''otlp-protocol'' None"
  by code_simp+

text \<open>The flag a name stands for.\<close>

definition flag_of :: "main_env \<Rightarrow> string \<Rightarrow> flag" where
  "flag_of M name = the (map_of (flag_set M) name)"

lemma flag_lookup:
  "name \<in> {''listen'', ''corpus-dir'', ''blob-dir'', ''model-upstream'', ''tool-upstream'', ''agent'', ''behavior-digest'',
      ''content-digest'', ''tool-effect'', ''session-idle'', ''otlp-endpoint'', ''otlp-protocol''} \<Longrightarrow>
     map_of (flag_set M) name = Some (flag_of M name) \<and> \<not> fst (flag_of M name)"
  by (elim insertE emptyE; hypsubst_thin; simp add: flag_of_def flag_set_def string_flag_def)

lemma segment_flag:
  assumes "name \<in> {''listen'', ''corpus-dir'', ''blob-dir'', ''model-upstream'', ''tool-upstream'', ''agent'', ''behavior-digest'',
      ''content-digest'', ''tool-effect'', ''session-idle'', ''otlp-endpoint'', ''otlp-protocol''}"
  shows "segment M [''-'' @ name, v] [set_or_exit (flag_of M name) v]"
proof (rule segment_value)
  show "flag_token (''-'' @ name) = FlagArg name None"
    using assms by (elim insertE emptyE; hypsubst_thin; simp add: tokens)
  show "map_of (flag_set M) name = Some (flag_of M name)" "\<not> fst (flag_of M name)"
    using flag_lookup [OF assms] by simp_all
qed

lemma segment_shadow: "segment M [''-shadow''] [set_or_exit (flag_of M ''shadow'') ''true'']"
  by (rule segment_switch [OF tokens(9)]) (simp_all add: flag_of_def flag_set_def bool_flag_def)

text \<open>What the recorder does with the arguments the webhook wrote.\<close>

definition value_step :: "main_env \<Rightarrow> string \<Rightarrow> string \<Rightarrow> (flags \<Rightarrow> int + flags) list" where
  "value_step M name v = (if v \<noteq> [] then [set_or_exit (flag_of M name) v] else [])"

definition sidecar_steps ::
    "main_env \<Rightarrow> Injector \<Rightarrow> Pod \<Rightarrow> string \<Rightarrow> (string \<times> string) list \<Rightarrow> identity \<Rightarrow> bool \<Rightarrow> (flags \<Rightarrow> int + flags) list" where
  "sidecar_steps M I pod upstream tools ident shadow =
     [set_or_exit (flag_of M ''listen'') (''127.0.0.1:'' @ int_string ListenPort),
      set_or_exit (flag_of M ''corpus-dir'') corpusPath, set_or_exit (flag_of M ''blob-dir'') blobPath] @
     value_step M ''model-upstream'' upstream @
     map (\<lambda>label. set_or_exit (flag_of M ''tool-upstream'') (label @ ''='' @ lookup_or [] tools label)) (sortedKeys I tools) @
     value_step M ''agent'' (id_Agent ident) @
     value_step M ''behavior-digest'' (id_Behavior ident) @
     value_step M ''content-digest'' (id_Content ident) @
     (if shadow
      then set_or_exit (flag_of M ''shadow'') ''true'' #
        map (\<lambda>name. set_or_exit (flag_of M ''tool-effect'') (name @ ''='' @ lookup_or [] (id_Effects ident) name))
          (sortedEffects I (id_Effects ident))
      else []) @
     value_step M ''session-idle'' (annotation pod AnnotationSessionIdle) @
     (if annotation pod AnnotationOTLPEndpoint \<noteq> []
      then set_or_exit (flag_of M ''otlp-endpoint'') (annotation pod AnnotationOTLPEndpoint) #
        value_step M ''otlp-protocol'' (annotation pod AnnotationOTLPProtocol)
      else [])"

lemma segment_value_step:
  "name \<in> {''model-upstream'', ''agent'', ''behavior-digest'', ''content-digest'', ''session-idle'', ''otlp-protocol''} \<Longrightarrow>
     segment M (if v \<noteq> [] then [''-'' @ name, v] else []) (value_step M name v)"
  unfolding value_step_def by (rule segment_if) (rule segment_flag, auto)

lemma segment_value_steps:
  "segment M (if v \<noteq> [] then [''-model-upstream'', v] else []) (value_step M ''model-upstream'' v)"
  "segment M (if v \<noteq> [] then [''-agent'', v] else []) (value_step M ''agent'' v)"
  "segment M (if v \<noteq> [] then [''-behavior-digest'', v] else []) (value_step M ''behavior-digest'' v)"
  "segment M (if v \<noteq> [] then [''-content-digest'', v] else []) (value_step M ''content-digest'' v)"
  "segment M (if v \<noteq> [] then [''-session-idle'', v] else []) (value_step M ''session-idle'' v)"
  "segment M (if v \<noteq> [] then [''-otlp-protocol'', v] else []) (value_step M ''otlp-protocol'' v)"
  using segment_value_step [of _ M v, unfolded append_Cons append_Nil] by blast+

lemma segment_Cons: "segment M [s, v] [g] \<Longrightarrow> segment M xs gs \<Longrightarrow> segment M (s # v # xs) (g # gs)"
  using segment_append [of M "[s, v]" "[g]" xs gs] by simp

lemma sidecar_segment: "segment M (sidecar_args I pod upstream tools ident shadow) (sidecar_steps M I pod upstream tools ident shadow)"
proof -
  have tools: "segment M (concat (map (\<lambda>label. [''-tool-upstream'', label @ ''='' @ lookup_or [] tools label]) ks))
      (map (\<lambda>label. set_or_exit (flag_of M ''tool-upstream'') (label @ ''='' @ lookup_or [] tools label)) ks)" for ks
    by (rule segment_concat) (use segment_flag [of "''tool-upstream''" M] in simp)
  have effects: "segment M (concat (map (\<lambda>name. [''-tool-effect'', name @ ''='' @ lookup_or [] es name]) ks))
      (map (\<lambda>name. set_or_exit (flag_of M ''tool-effect'') (name @ ''='' @ lookup_or [] es name)) ks)" for es ks
    by (rule segment_concat) (use segment_flag [of "''tool-effect''" M] in simp)
  have shadow: "segment M (if shadow then ''-shadow'' # xs else []) (if shadow then set_or_exit (flag_of M ''shadow'') ''true'' # gs else [])"
    if "segment M xs gs" for xs gs
    using segment_append [OF segment_shadow that] by (simp add: segment_Nil)
  have otlp: "segment M (if ep \<noteq> [] then [''-otlp-endpoint'', ep] @ xs else [])
      (if ep \<noteq> [] then set_or_exit (flag_of M ''otlp-endpoint'') ep # gs else [])"
    if "segment M xs gs" for ep xs gs
    using segment_Cons [OF segment_flag [of "''otlp-endpoint''" M ep] that] by (simp add: segment_Nil)
  have fixed: "segment M [''-listen'', a, ''-corpus-dir'', b, ''-blob-dir'', c]
      [set_or_exit (flag_of M ''listen'') a, set_or_exit (flag_of M ''corpus-dir'') b, set_or_exit (flag_of M ''blob-dir'') c]" for a b c
    using segment_Cons [OF segment_flag [of "''listen''" M a]
        segment_Cons [OF segment_flag [of "''corpus-dir''" M b] segment_flag [of "''blob-dir''" M c]]] by simp
  show ?thesis
    unfolding sidecar_args_def sidecar_steps_def Let_def
    by (intro segment_append fixed tools effects shadow otlp segment_value_steps)
qed

lemma parse_sidecar_args:
  "parse_flags (flag_set M) (sidecar_args I pod upstream tools ident shadow) fs =
     stepsR (sidecar_steps M I pod upstream tools ident shadow) fs"
proof -
  have "bindR m Inr = m" for m :: "int + flags" by (cases m) simp_all
  then show ?thesis using sidecar_segment [of M I pod upstream tools ident shadow, unfolded segment_def, rule_format, of "[]"]
      parse_flags.simps(1) [of "flag_set M", abs_def]
    by simp
qed

section \<open>The configuration the recorder ends up with\<close>

lemma set_flag_simps:
  "set_or_exit (flag_of M ''listen'') v fs = Inr (fs\<lparr>fg_listen := v\<rparr>)"
  "set_or_exit (flag_of M ''corpus-dir'') v fs = Inr (fs\<lparr>fg_corpusDir := v\<rparr>)"
  "set_or_exit (flag_of M ''blob-dir'') v fs = Inr (fs\<lparr>fg_blobDir := v\<rparr>)"
  "set_or_exit (flag_of M ''model-upstream'') v fs = Inr (fs\<lparr>fg_modelUp := v\<rparr>)"
  "set_or_exit (flag_of M ''agent'') v fs = Inr (fs\<lparr>fg_agent := v\<rparr>)"
  "set_or_exit (flag_of M ''behavior-digest'') v fs = Inr (fs\<lparr>fg_behavior := v\<rparr>)"
  "set_or_exit (flag_of M ''content-digest'') v fs = Inr (fs\<lparr>fg_content := v\<rparr>)"
  "set_or_exit (flag_of M ''shadow'') ''true'' fs = Inr (fs\<lparr>fg_shadow := True\<rparr>)"
  "set_or_exit (flag_of M ''otlp-endpoint'') v fs = Inr (fs\<lparr>fg_otlpEndpoint := v\<rparr>)"
  "set_or_exit (flag_of M ''otlp-protocol'') v fs = Inr (fs\<lparr>fg_otlpProtocol := v\<rparr>)"
  by (simp_all add: set_or_exit_def flag_of_def flag_set_def string_flag_def bool_flag_def ParseBool_def)

lemma set_kv_simps:
  "set_or_exit (flag_of M ''tool-upstream'') v fs =
     (case kv_Set v (fg_tools fs) of Inl _ \<Rightarrow> Inl 2 | Inr m \<Rightarrow> Inr (fs\<lparr>fg_tools := m\<rparr>))"
  "set_or_exit (flag_of M ''tool-effect'') v fs =
     (case kv_Set v (fg_toolEffects fs) of Inl _ \<Rightarrow> Inl 2 | Inr m \<Rightarrow> Inr (fs\<lparr>fg_toolEffects := m\<rparr>))"
  "set_or_exit (flag_of M ''session-idle'') v fs =
     (case mn_duration M v of Inl _ \<Rightarrow> Inl 2 | Inr d \<Rightarrow> Inr (fs\<lparr>fg_idleTimeout := d\<rparr>))"
  by (simp_all add: set_or_exit_def flag_of_def flag_set_def split: sum.split)

text \<open>Setting a repeatable flag once for each entry of a map.\<close>

definition kv_steps :: "(string \<Rightarrow> string) \<Rightarrow> string list \<Rightarrow> (string \<times> string) list \<Rightarrow> (string \<times> string) list result" where
  "kv_steps f ns = stepsR (map (\<lambda>n. kv_Set (n @ CHR ''='' # f n)) ns)"

lemma set_tools_steps:
  "stepsR (map (\<lambda>n. set_or_exit (flag_of M ''tool-upstream'') (n @ CHR ''='' # f n)) ns) fs =
     (case kv_steps f ns (fg_tools fs) of Inl _ \<Rightarrow> Inl 2 | Inr m \<Rightarrow> Inr (fs\<lparr>fg_tools := m\<rparr>))"
proof (induction ns arbitrary: fs)
  case (Cons n ns)
  then show ?case by (cases "kv_Set (n @ CHR ''='' # f n) (fg_tools fs)") (simp_all add: kv_steps_def set_kv_simps split: sum.split)
qed (simp add: kv_steps_def)

lemma set_effects_steps:
  "stepsR (map (\<lambda>n. set_or_exit (flag_of M ''tool-effect'') (n @ CHR ''='' # f n)) ns) fs =
     (case kv_steps f ns (fg_toolEffects fs) of Inl _ \<Rightarrow> Inl 2 | Inr m \<Rightarrow> Inr (fs\<lparr>fg_toolEffects := m\<rparr>))"
proof (induction ns arbitrary: fs)
  case (Cons n ns)
  then show ?case by (cases "kv_Set (n @ CHR ''='' # f n) (fg_toolEffects fs)") (simp_all add: kv_steps_def set_kv_simps split: sum.split)
qed (simp add: kv_steps_def)

lemma value_step_simps:
  "fg_modelUp fs = [] \<Longrightarrow> stepsR (value_step M ''model-upstream'' v) fs = Inr (fs\<lparr>fg_modelUp := v\<rparr>)"
  "fg_agent fs = [] \<Longrightarrow> stepsR (value_step M ''agent'' v) fs = Inr (fs\<lparr>fg_agent := v\<rparr>)"
  "fg_behavior fs = [] \<Longrightarrow> stepsR (value_step M ''behavior-digest'' v) fs = Inr (fs\<lparr>fg_behavior := v\<rparr>)"
  "fg_content fs = [] \<Longrightarrow> stepsR (value_step M ''content-digest'' v) fs = Inr (fs\<lparr>fg_content := v\<rparr>)"
  "stepsR (value_step M ''otlp-protocol'' v) fs = Inr (fs\<lparr>fg_otlpProtocol := (if v \<noteq> [] then v else fg_otlpProtocol fs)\<rparr>)"
  by (simp_all add: value_step_def set_flag_simps)

text \<open>What the annotation asks for, and what there is without one.\<close>

definition idle_of :: "main_env \<Rightarrow> Pod \<Rightarrow> duration result" where
  "idle_of M pod =
     (let idle = annotation pod AnnotationSessionIdle in if idle \<noteq> [] then mn_duration M idle else Inr (2 * minute))"

lemma idle_step:
  "fg_idleTimeout fs = 2 * minute \<Longrightarrow> stepsR (value_step M ''session-idle'' (annotation pod AnnotationSessionIdle)) fs =
     (case idle_of M pod of Inl _ \<Rightarrow> Inl 2 | Inr d \<Rightarrow> Inr (fs\<lparr>fg_idleTimeout := d\<rparr>))"
  by (simp add: value_step_def idle_of_def Let_def set_kv_simps split: sum.split)

definition configured ::
    "main_env \<Rightarrow> Pod \<Rightarrow> string \<Rightarrow> identity \<Rightarrow> bool \<Rightarrow> (string \<times> string) list \<Rightarrow> (string \<times> string) list \<Rightarrow> duration \<Rightarrow> flags" where
  "configured M pod upstream ident shadow tools effects idle =
     (let ep = annotation pod AnnotationOTLPEndpoint; proto = annotation pod AnnotationOTLPProtocol in
      \<lparr> fg_listen = ''127.0.0.1:'' @ int_string ListenPort, fg_modelUp = upstream, fg_corpusDir = corpusPath,
        fg_blobDir = blobPath, fg_agent = id_Agent ident, fg_behavior = id_Behavior ident, fg_content = id_Content ident,
        fg_captureMax = DefaultCaptureLimit, fg_queueDepth = 1024, fg_idleTimeout = idle, fg_verbose = False,
        fg_shadow = shadow, fg_healthcheck = False, fg_list = False, fg_dump = [],
        fg_otlpEndpoint = (if ep \<noteq> [] then ep else mn_otel M),
        fg_otlpProtocol = (if ep \<noteq> [] \<and> proto \<noteq> [] then proto else ''grpc''), fg_otlpInsecure = True,
        fg_tools = tools, fg_toolEffects = effects \<rparr>)"

lemma configured_step:
  "(if ep \<noteq> [] then set_or_exit (flag_of M ''otlp-endpoint'') ep # value_step M ''otlp-protocol'' proto else []) = gs \<Longrightarrow>
     stepsR gs fs = Inr (if ep \<noteq> [] then fs\<lparr>fg_otlpEndpoint := ep, fg_otlpProtocol := (if proto \<noteq> [] then proto else fg_otlpProtocol fs)\<rparr> else fs)"
  by (auto simp: set_flag_simps value_step_simps)

lemma sidecar_steps_Inr:
  "stepsR (sidecar_steps M I pod upstream tools ident shadow) (default_flags M) = Inr fs \<longleftrightarrow>
     (\<exists>t e d. kv_steps (lookup_or [] tools) (sortedKeys I tools) [] = Inr t \<and>
        (if shadow then kv_steps (lookup_or [] (id_Effects ident)) (sortedEffects I (id_Effects ident)) [] else Inr []) = Inr e \<and>
        idle_of M pod = Inr d \<and> fs = configured M pod upstream ident shadow t e d)"
proof -
  let ?t = "kv_steps (lookup_or [] tools) (sortedKeys I tools) []"
  let ?e = "kv_steps (lookup_or [] (id_Effects ident)) (sortedEffects I (id_Effects ident)) []"
  note steps = sidecar_steps_def stepsR_append append_Cons append_Nil stepsR.simps bindR.simps set_flag_simps
    set_tools_steps configured_step [OF refl]
  show ?thesis
  proof (cases ?t)
    case (Inl err)
    then show ?thesis unfolding steps by (simp add: default_flags_def value_step_simps)
  next
    case (Inr t)
    show ?thesis
    proof (cases "shadow \<and> (\<exists>err. ?e = Inl err)")
      case True
      then show ?thesis
        unfolding steps by (auto simp: default_flags_def value_step_simps Inr set_flag_simps set_effects_steps)
    next
      case False
      then obtain e where e: "(if shadow then ?e else Inr []) = Inr e" by (cases shadow; cases ?e) auto
      then show ?thesis
        unfolding steps by (cases shadow; cases "idle_of M pod")
          (auto simp: default_flags_def value_step_simps idle_step Inr set_flag_simps set_effects_steps configured_def Let_def)
    qed
  qed
qed

section \<open>The classification survives the command line or the recorder does not start\<close>

text \<open>What one entry sets: the name up to its first equals sign, and the rest.\<close>

definition kv_entry :: "(string \<Rightarrow> string) \<Rightarrow> string \<Rightarrow> string \<times> string" where
  "kv_entry f n = (case cut_at CHR ''='' (n @ CHR ''='' # f n) of Some p \<Rightarrow> p | None \<Rightarrow> ([], []))"

lemma kv_entry_plain: "CHR ''='' \<notin> set n \<Longrightarrow> kv_entry f n = (n, f n)"
  by (simp add: kv_entry_def cut_at_append)

lemma kv_entry_split:
  assumes "CHR ''='' \<in> set n"
  shows "\<exists>x. n = fst (kv_entry f n) @ CHR ''='' # x" and "CHR ''='' \<in> set (snd (kv_entry f n))"
proof -
  obtain a x where n: "n = a @ CHR ''='' # x" "CHR ''='' \<notin> set a" using split_list_first [OF assms] by blast
  have "kv_entry f n = (a, x @ CHR ''='' # f n)"
    unfolding kv_entry_def n(1) using cut_at_append [OF n(2), of "x @ CHR ''='' # f (a @ CHR ''='' # x)"] by simp
  then show "\<exists>x. n = fst (kv_entry f n) @ CHR ''='' # x" "CHR ''='' \<in> set (snd (kv_entry f n))" using n by simp_all
qed

lemma kv_Set_entry:
  "kv_Set (n @ CHR ''='' # f n) m =
     (if fst (kv_entry f n) = [] \<or> snd (kv_entry f n) = []
      then Inl (Sprintf ''want <label>=<url>, got %q'' [AStr (n @ CHR ''='' # f n)])
      else Inr (AList.update (fst (kv_entry f n)) (snd (kv_entry f n)) m))"
  using cut_at_None [of "CHR ''=''" "n @ CHR ''='' # f n"] by (simp add: kv_Set_def kv_entry_def split: option.split prod.split)

lemma kv_steps_Inr:
  "kv_steps f ns m = Inr m' \<longleftrightarrow>
     (\<forall>n \<in> set ns. fst (kv_entry f n) \<noteq> [] \<and> snd (kv_entry f n) \<noteq> []) \<and>
     m' = fold (\<lambda>n. AList.update (fst (kv_entry f n)) (snd (kv_entry f n))) ns m"
proof (induction ns arbitrary: m)
  case (Cons n ns)
  have "kv_steps f (n # ns) m = bindR (kv_Set (n @ CHR ''='' # f n) m) (kv_steps f ns)"
    by (simp add: kv_steps_def)
  then show ?case using Cons.IH by (auto simp: kv_Set_entry)
qed (auto simp: kv_steps_def)

lemma find_rev_sorted:
  "sorted xs \<Longrightarrow> x \<in> set xs \<Longrightarrow> P x \<Longrightarrow> \<exists>z. find P (rev xs) = Some z \<and> x \<le> z \<and> P z"
  by (induction xs rule: rev_induct) (auto simp: sorted_append)

lemma less_extended: "a < a @ c # (x :: string)"
  by (induction a) auto

text \<open>Names without an equals sign are set to their values.\<close>

lemma kv_steps_map:
  "kv_steps f ns [] = Inr m \<Longrightarrow>
     map_of m k = map_option (\<lambda>z. snd (kv_entry f z)) (find (\<lambda>n. fst (kv_entry f n) = k) (rev ns))"
  by (simp add: kv_steps_Inr map_of_fold_update split: option.split)

lemma kv_steps_plain:
  assumes "kv_steps f ns [] = Inr m" and "\<forall>n \<in> set ns. CHR ''='' \<notin> set n"
  shows "map_of m k = (if k \<in> set ns then Some (f k) else None)"
proof -
  have "find (\<lambda>n. fst (kv_entry f n) = k) (rev ns) = find (\<lambda>n. n = k) (rev ns)"
    by (rule find_cong) (use assms(2) in \<open>auto simp: kv_entry_plain\<close>)
  moreover have "find (\<lambda>n. n = k) xs = (if k \<in> set xs then Some k else None)" for xs
    by (induction xs) auto
  ultimately show ?thesis using kv_steps_map [OF assms(1), of k] assms(2) by (simp add: kv_entry_plain)
qed

lemma kv_steps_succeed:
  "\<forall>n \<in> set ns. n \<noteq> [] \<and> CHR ''='' \<notin> set n \<and> f n \<noteq> [] \<Longrightarrow> \<exists>m. kv_steps f ns [] = Inr m"
  by (auto simp: kv_steps_Inr kv_entry_plain)

text \<open>A name with one shows in the value that is left, because it sorts after the name it is cut down to.\<close>

lemma kv_steps_exact:
  assumes "kv_steps f ns [] = Inr m" and "sorted ns" and "\<And>k v. map_of m k = Some v \<Longrightarrow> CHR ''='' \<notin> set v"
  shows "map_of m k = (if k \<in> set ns then Some (f k) else None)"
proof (rule kv_steps_plain [OF assms(1)], rule ballI, rule notI)
  let ?key = "\<lambda>n. fst (kv_entry f n)"
  fix n assume n: "n \<in> set ns" and eq: "CHR ''='' \<in> set n"
  obtain z where z: "find (\<lambda>n'. ?key n' = ?key n) (rev ns) = Some z" "n \<le> z" "?key z = ?key n"
    using find_rev_sorted [OF assms(2) n, of "\<lambda>n'. ?key n' = ?key n"] by blast
  then have "CHR ''='' \<notin> set (snd (kv_entry f z))" using kv_steps_map [OF assms(1), of "?key n"] assms(3) by simp
  then have "CHR ''='' \<notin> set z" using kv_entry_split(2) by blast
  then have "z = ?key n" using z(3) by (simp add: kv_entry_plain)
  moreover obtain x where "n = ?key n @ CHR ''='' # x" using kv_entry_split(1) [OF eq, of f] by blast
  ultimately have "z < n" using less_extended by metis
  then show False using z(2) by simp
qed

lemma parseEffects_Inr:
  "parseEffects raw = Inr effects \<longleftrightarrow>
     effects = raw \<and> (\<forall>(k, v) \<in> set raw. v \<in> {EffectRead, EffectIdempotentWrite, EffectWrite})"
proof (induction raw arbitrary: effects)
  case (Cons p raw)
  then show ?case by (cases p) (auto simp: parseEffects_def parse_effect_def bindR_Inr_iff)
qed (auto simp: parseEffects_def)

lemma effects_are_plain: "v \<in> {EffectRead, EffectIdempotentWrite, EffectWrite} \<Longrightarrow> CHR ''='' \<notin> set v"
  by (auto simp: EffectRead_def EffectIdempotentWrite_def EffectWrite_def)

lemma recorder_main_Recording:
  assumes "recorder_main M args = Some (Recording rn)"
  obtains fs where "parse_flags (flag_set M) args (default_flags M) = Inr fs"
    and "\<forall>(k, v) \<in> set (fg_toolEffects fs). v \<in> {EffectRead, EffectIdempotentWrite, EffectWrite}"
    and "NewRecorderServer (mn_server M) (recorder_config fs (fg_toolEffects fs)) = Some (Inr (rn_server rn))"
    and "rn_sink rn = sink_config fs"
  using assms that
  by (auto simp: recorder_main_def record_with_def Let_def parseEffects_Inr
      split: sum.split_asm if_split_asm option.split_asm)

section \<open>What a shadow pod is promised\<close>

definition inbound_call :: "'w recorder_deps \<Rightarrow> inbound \<Rightarrow> Call" where
  "inbound_call D r = Parse (rd_rpc D) (fst (case hq_Body r of Some b \<Rightarrow> b | None \<Rightarrow> ([], None)))"

lemma stripped_call: "call_of (rd_rpc D) (StripPrefix D prefix r) = inbound_call D r"
  by (simp add: call_of_def read_body_def inbound_call_def StripPrefix_def http_request.truncate_def)

lemma stripped_method: "hq_Method (StripPrefix D prefix r) = hq_Method r"
  by (simp add: StripPrefix_def http_request.truncate_def)

text \<open>The classification of a recorder that runs is the one its arguments were written from.\<close>

lemma recorder_classification:
  assumes "ranges I" and "recorder_main M (sidecar_args I pod upstream tools ident True) = Some (Recording rn)"
  obtains effects where "suppresses effects (rn_server rn)"
    and "\<And>name. lookup_or [] effects name = lookup_or [] (id_Effects ident) name"
proof -
  obtain fs where fs: "parse_flags (flag_set M) (sidecar_args I pod upstream tools ident True) (default_flags M) = Inr fs"
    and valid: "\<forall>(k, v) \<in> set (fg_toolEffects fs). v \<in> {EffectRead, EffectIdempotentWrite, EffectWrite}"
    and srv: "NewRecorderServer (mn_server M) (recorder_config fs (fg_toolEffects fs)) = Some (Inr (rn_server rn))"
    by (rule recorder_main_Recording [OF assms(2)])
  have "stepsR (sidecar_steps M I pod upstream tools ident True) (default_flags M) = Inr fs"
    using fs unfolding parse_sidecar_args .
  then obtain t e d where e: "kv_steps (lookup_or [] (id_Effects ident)) (sort (keys (id_Effects ident))) [] = Inr e"
    and conf: "fs = configured M pod upstream ident True t e d"
    unfolding sidecar_steps_Inr sortedKeys_eq [OF assms(1)] if_True by blast
  have eff: "fg_toolEffects fs = e" "fg_shadow fs" by (simp_all add: conf configured_def Let_def)
  have "map_of e k = (if k \<in> set (keys (id_Effects ident)) then Some (lookup_or [] (id_Effects ident) k) else None)" for k
  proof (subst kv_steps_exact [OF e sorted_sort])
    show "CHR ''='' \<notin> set v" if "map_of e k' = Some v" for k' v
      using effects_are_plain map_of_SomeD [OF that] valid unfolding eff(1) by blast
  qed simp
  then have "lookup_or [] e k = lookup_or [] (id_Effects ident) k" for k
    by (auto simp: lookup_or_def keys_def map_of_eq_None_iff [symmetric] split: option.split)
  moreover have "suppresses e (rn_server rn)"
    using NewRecorderServer_suppresses [OF srv] by (simp add: recorder_config_def eff)
  ultimately show ?thesis using that by blast
qed

text \<open>
  C20. A shadow pod does not act.  Take a pod that is marked as a shadow, the sidecar the webhook injected
  into it and the recorder that sidecar's arguments start, if they start one.  Whatever was served before,
  a tool call of the agent reaches a tool server only if the manifest the pod names, as the cluster had
  it at injection, classifies that tool as a read; and the pod attests that its egress is confined.
  Nothing is assumed of the names of the tools: a name the command line would garble keeps the recorder
  from starting.
\<close>

theorem shadow_pod_only_reads:
  assumes "injection_plan I pod = Inject idx upstream envName tools ident shadow" and "ranges I"
    and "annotation pod AnnotationShadow = ''true''"
    and "recorder_main M (ct_Args (last (pd_InitContainers (Default_pod I pod)))) = Some (Recording rn)"
    and "recorder_serves D rs (rn_server rn) w0 = (outs, s, w)"
    and "Recorder_ServeHTTP D se e r s w = (out, s', w')" and "w' \<noteq> w"
    and "recorder_route s r = Some (HandleTool label)" and "hq_Method r = ''POST''"
    and "call_Method (inbound_call D r) = ''tools/call''"
  shows "annotation pod AnnotationEgressConfined = ''true'' \<and>
    (\<exists>get m t. ij_Client I = Some get \<and> get (pd_Namespace pod) (annotation pod AnnotationManifest) = Inr m \<and>
       t \<in> set (Tools (am_Spec m)) \<and> tool_Name t = call_Name (inbound_call D r) \<and> tool_Effect t = EffectRead)"
proof -
  note plan = injection_plan_Inject [OF assms(1)]
  have shadow: "shadow" using plan(8) assms(3) by simp
  obtain sc where sc: "pd_InitContainers (Default_pod I pod) = pd_InitContainers pod @ [sc]"
    "ct_Args sc = sidecar_args I pod upstream tools ident shadow" by (rule injected_sidecar [OF assms(1)])
  then have "recorder_main M (sidecar_args I pod upstream tools ident True) = Some (Recording rn)"
    using assms(4) shadow by simp
  then obtain effects where effects: "suppresses effects (rn_server rn)"
    "\<And>name. lookup_or [] effects name = lookup_or [] (id_Effects ident) name"
    by (rule recorder_classification [OF assms(2)]) blast
  have kept: "suppresses effects s" using recorder_serves_effect [OF assms(5) effects(1)] by simp
  have served: "serve_suppressed D se e label (StripPrefix D (tool_prefix label) r) s w = (out, s', w')"
    using assms(6,8) by (simp add: Recorder_ServeHTTP_def)
  have "lookup_or [] effects (call_Name (inbound_call D r)) = EffectRead"
    using serve_suppressed_effect [OF served kept] assms(7,9,10) by (simp add: stripped_call stripped_method)
  then have read: "map_of (id_Effects ident) (call_Name (inbound_call D r)) = Some EffectRead"
    unfolding effects(2) by (auto simp: lookup_or_def EffectRead_def split: option.split_asm)
  obtain get m where m: "ij_Client I = Some get" "get (pd_Namespace pod) (annotation pod AnnotationManifest) = Inr m"
    "id_Effects ident = manifest_effects m"
    using manifestIdentity_effects [of I pod] plan(7) plan(9) [OF shadow] by (metis identity.select_convs(4))
  from read obtain t where "t \<in> set (Tools (am_Spec m))" "tool_Name t = call_Name (inbound_call D r)" "tool_Effect t = EffectRead"
    unfolding m(3) by (rule manifest_effects_tool)
  then show ?thesis using m plan(9) [OF shadow] by blast
qed

section \<open>What an injected pod gets\<close>

definition flag_entries :: "(string \<times> string) list \<Rightarrow> bool" where
  "flag_entries m \<longleftrightarrow> (\<forall>(n, e) \<in> set m. n \<noteq> [] \<and> CHR ''='' \<notin> set n \<and> e \<noteq> [])"

lemma flag_entries_read:
  assumes "flag_entries m"
  obtains t where "kv_steps (lookup_or [] m) (sort (keys m)) [] = Inr t" and "map_of t = map_of m"
proof -
  have fine: "n \<noteq> [] \<and> CHR ''='' \<notin> set n \<and> lookup_or [] m n \<noteq> []" if "n \<in> set (sort (keys m))" for n
  proof -
    have "map_of m n \<noteq> None" using that by (simp add: keys_def map_of_eq_None_iff)
    then obtain e where e: "map_of m n = Some e" by blast
    then show ?thesis using assms map_of_SomeD [OF e] by (auto simp: lookup_or_def flag_entries_def)
  qed
  obtain t where t: "kv_steps (lookup_or [] m) (sort (keys m)) [] = Inr t"
    using kv_steps_succeed [of "sort (keys m)" "lookup_or [] m"] fine by blast
  have "map_of t k = map_of m k" for k
    using kv_steps_plain [OF t, of k] fine map_of_eq_None_iff [of m k] by (auto simp: keys_def lookup_or_def split: option.split)
  then show ?thesis using that t by blast
qed

lemma configured_simps:
  "fg_modelUp (configured M pod upstream ident shadow t e idle) = upstream"
  "fg_tools (configured M pod upstream ident shadow t e idle) = t"
  "fg_agent (configured M pod upstream ident shadow t e idle) = id_Agent ident"
  "fg_behavior (configured M pod upstream ident shadow t e idle) = id_Behavior ident"
  "fg_content (configured M pod upstream ident shadow t e idle) = id_Content ident"
  "fg_shadow (configured M pod upstream ident shadow t e idle) = shadow"
  "fg_toolEffects (configured M pod upstream ident shadow t e idle) = e"
  "fg_idleTimeout (configured M pod upstream ident shadow t e idle) = idle"
  "fg_listen (configured M pod upstream ident shadow t e idle) = ''127.0.0.1:'' @ int_string ListenPort"
  "\<not> fg_healthcheck (configured M pod upstream ident shadow t e idle)"
  "\<not> fg_list (configured M pod upstream ident shadow t e idle)"
  "fg_dump (configured M pod upstream ident shadow t e idle) = []"
  by (simp_all add: configured_def Let_def)

lemma parse_injected:
  assumes "injection_plan I pod = Inject idx upstream envName tools ident shadow" and "ranges I"
    and "kv_steps (lookup_or [] tools) (sort (keys tools)) [] = Inr t"
    and "(if shadow then kv_steps (lookup_or [] (id_Effects ident)) (sort (keys (id_Effects ident))) [] else Inr []) = Inr e"
    and "idle_of M pod = Inr idle"
  shows "parse_flags (flag_set M) (ct_Args (last (pd_InitContainers (Default_pod I pod)))) (default_flags M) =
    Inr (configured M pod upstream ident shadow t e idle)"
proof -
  have "stepsR (sidecar_steps M I pod upstream tools ident shadow) (default_flags M) = Inr (configured M pod upstream ident shadow t e idle)"
    unfolding sidecar_steps_Inr sortedKeys_eq [OF assms(2)]
    by (intro exI conjI, rule assms(3), rule assms(4), rule assms(5), rule refl)
  moreover obtain sc where "pd_InitContainers (Default_pod I pod) = pd_InitContainers pod @ [sc]"
    "ct_Args sc = sidecar_args I pod upstream tools ident shadow" by (rule injected_sidecar [OF assms(1)])
  ultimately show ?thesis by (simp only: parse_sidecar_args last_snoc)
qed

lemma sidecar_address: "''127.0.0.1:'' @ int_string ListenPort = ''127.0.0.1:8080''"
proof -
  have "nat_string 8080 = map char_of [56 :: nat, 48, 56, 48]" by (simp add: nat_string.simps)
  also have "\<dots> = ''8080''" by code_simp
  finally show ?thesis by (simp add: int_string_def ListenPort_def)
qed

text \<open>
  C21. The recorder reads what the webhook wrote.  If the idle time the pod asks for parses and, in a
  shadow pod, no tool's name or effect is empty and no name holds an equals sign, the arguments of the
  injected sidecar parse, and the flags are the configuration the webhook meant: the upstreams, the
  identity of the manifest, suppression exactly in a shadow pod with the manifest's classification, a
  loopback address, and none of the errands that end the process.
\<close>

theorem injected_recorder_is_configured:
  assumes "injection_plan I pod = Inject idx upstream envName tools ident shadow" and "ranges I"
    and "idle_of M pod = Inr idle"
    and "shadow \<Longrightarrow> \<forall>(n, e) \<in> set (id_Effects ident). n \<noteq> [] \<and> CHR ''='' \<notin> set n \<and> e \<noteq> []"
  shows "\<exists>fs. parse_flags (flag_set M) (ct_Args (last (pd_InitContainers (Default_pod I pod)))) (default_flags M) = Inr fs \<and>
    fg_modelUp fs = upstream \<and> map_of (fg_tools fs) = map_of tools \<and>
    fg_agent fs = id_Agent ident \<and> fg_behavior fs = id_Behavior ident \<and> fg_content fs = id_Content ident \<and>
    fg_shadow fs = shadow \<and> map_of (fg_toolEffects fs) = (if shadow then map_of (id_Effects ident) else Map.empty) \<and>
    fg_idleTimeout fs = idle \<and> fg_listen fs = ''127.0.0.1:8080'' \<and>
    \<not> fg_healthcheck fs \<and> \<not> fg_list fs \<and> fg_dump fs = []"
proof -
  have "flag_entries tools"
    using toolUpstreams_map [OF injection_plan_Inject(6) [OF assms(1)]] by (simp add: tool_map_def flag_entries_def)
  then obtain t where t: "kv_steps (lookup_or [] tools) (sort (keys tools)) [] = Inr t" "map_of t = map_of tools"
    by (rule flag_entries_read)
  obtain e where e: "(if shadow then kv_steps (lookup_or [] (id_Effects ident)) (sort (keys (id_Effects ident))) [] else Inr []) = Inr e"
    and map_e: "map_of e = (if shadow then map_of (id_Effects ident) else Map.empty)"
  proof (cases shadow)
    case True
    then have "flag_entries (id_Effects ident)" using assms(4) by (simp add: flag_entries_def)
    then show ?thesis by (rule flag_entries_read) (use True that in simp)
  qed (use that [of "[]"] in simp)
  show ?thesis
    by (rule exI [of _ "configured M pod upstream ident shadow t e idle"])
      (simp only: parse_injected [OF assms(1,2) t(1) e assms(3)] configured_simps t(2) map_e sidecar_address simp_thms)
qed

text \<open>
  C22. An injected agent reaches its servers through the recorder.  If the recorder of an injected pod
  runs, the variable of each tool server holds the recorder's own address with a path that the recorder
  routes to the proxy of that server, whose upstream is the endpoint the pod named; and the variable of
  the model's base URL, if there is one, holds the recorder's address.  This asks that no two labels of
  the pod fall on one variable.
\<close>

theorem injected_agent_reaches_its_tools:
  assumes "injection_plan I pod = Inject idx upstream envName tools ident shadow" and "ranges I"
    and "recorder_main M (ct_Args (last (pd_InitContainers (Default_pod I pod)))) = Some (Recording rn)"
    and "map_of tools label = Some endpoint" and "inj_on mcp_variable (set (keys tools))"
    and "clean_path (tool_prefix label)" and "ib_Path r = tool_prefix label"
  defines "agent \<equiv> pd_Containers (Default_pod I pod) ! idx" and "listen \<equiv> rg_Listen (re_cfg (rn_server rn))"
  shows "getEnv agent (mcp_variable label) = ''http://'' @ listen @ ib_Path r \<and>
    recorder_route (rn_server rn) r = Some (HandleTool label) \<and>
    (\<exists>p. map_of (re_tools (rn_server rn)) label = Some p \<and> nv_ParseURL (mn_server M) endpoint = Inr (px_Upstream p)) \<and>
    (envName \<noteq> [] \<longrightarrow> getEnv agent envName = ''http://'' @ listen)"
proof -
  note plan = injection_plan_Inject [OF assms(1)]
  obtain sc where "pd_InitContainers (Default_pod I pod) = pd_InitContainers pod @ [sc]"
    "ct_Args sc = sidecar_args I pod upstream tools ident shadow" by (rule injected_sidecar [OF assms(1)])
  then have main: "recorder_main M (sidecar_args I pod upstream tools ident shadow) = Some (Recording rn)"
    using assms(3) by simp
  obtain fs where "parse_flags (flag_set M) (sidecar_args I pod upstream tools ident shadow) (default_flags M) = Inr fs"
    and srv: "NewRecorderServer (mn_server M) (recorder_config fs (fg_toolEffects fs)) = Some (Inr (rn_server rn))"
    by (rule recorder_main_Recording [OF main])
  then have "stepsR (sidecar_steps M I pod upstream tools ident shadow) (default_flags M) = Inr fs"
    unfolding parse_sidecar_args by -
  then obtain t e d where t: "kv_steps (lookup_or [] tools) (sort (keys tools)) [] = Inr t"
    and fs: "fs = configured M pod upstream ident shadow t e d"
    unfolding sidecar_steps_Inr sortedKeys_eq [OF assms(2)] by blast
  have cfg: "fg_tools fs = t" "fg_listen fs = ''127.0.0.1:'' @ int_string ListenPort"
    by (simp_all add: fs configured_def Let_def)
  have member: "label \<in> set (keys tools)" using map_of_SomeD [OF assms(4)] by (force simp: keys_def)
  have "\<forall>n \<in> set (sort (keys tools)). CHR ''='' \<notin> set n"
    using toolUpstreams_map [OF plan(6)] by (auto simp: tool_map_def keys_def)
  then have "map_of (rg_ToolUpstreams (recorder_config fs (fg_toolEffects fs))) label = Some endpoint"
    using kv_steps_plain [OF t, of label] member assms(4) by (simp add: recorder_config_def cfg lookup_or_def)
  note server = NewRecorderServer_tool [OF srv this]
  have listen: "listen = ''127.0.0.1:'' @ int_string ListenPort"
    using server(3) by (simp add: listen_def recorder_config_def cfg)
  have agent: "agent = point_agent I envName tools (pd_Containers pod ! idx)"
    unfolding agent_def injected_containers [OF assms(1)] by (simp add: agentContainer_valid [OF plan(4)])
  have "envName \<noteq> [] \<longrightarrow> getEnv agent envName = sidecar_url"
    using point_agent_model model_variables [of pod "pd_Containers pod ! idx"] plan(5) by (auto simp: agent)
  moreover have "getEnv agent (mcp_variable label) = sidecar_url @ ''/mcp/'' @ label"
    unfolding agent by (rule point_agent_tool [OF assms(2) member assms(5)])
  ultimately show ?thesis
    using server(1) server(2) [OF assms(6,7)] by (simp add: listen sidecar_url_def assms(7) tool_prefix_def)
qed

section \<open>Examples\<close>

definition ex_main :: main_env where
  "ex_main = \<lparr> mn_otel = [], mn_int = (\<lambda>_. Inl no_msg), mn_duration = (\<lambda>_. Inl no_msg), mn_blobs = (\<lambda>_. None),
     mn_corpus = (\<lambda>_. None), mn_tracer = (\<lambda>_ _ _ _. Inr False),
     mn_server = \<lparr> nv_SplitHost = (\<lambda>_. Inr ''127.0.0.1''), nv_ParseURL = Inr, nv_Redactor = ex_redactor \<rparr> \<rparr>"

abbreviation ex_args :: "string list" where
  "ex_args \<equiv> ct_Args (last (pd_InitContainers (Default_pod ex_injector ex_shadow_pod)))"

lemma ex_idle: "idle_of ex_main ex_shadow_pod = Inr (2 * minute)"
proof -
  have "annotation ex_shadow_pod AnnotationSessionIdle = []" by code_simp
  then show ?thesis by (simp add: idle_of_def)
qed

lemma ex_parsed:
  "parse_flags (flag_set ex_main) ex_args (default_flags ex_main) =
     Inr (configured ex_main ex_shadow_pod [] ex_identity True [(''t'', ''http://t'')] [(''q'', EffectRead)] (2 * minute))"
proof (rule parse_injected [OF ex_plan ex_ranges _ _ ex_idle])
  show "kv_steps (lookup_or [] [(''t'', ''http://t'')]) (sort (keys [(''t'', ''http://t'')])) [] = Inr [(''t'', ''http://t'')]"
    by code_simp
  have "kv_steps (lookup_or [] (id_Effects ex_identity)) (sort (keys (id_Effects ex_identity))) [] = Inr [(''q'', EffectRead)]"
    by code_simp
  then show "(if True then kv_steps (lookup_or [] (id_Effects ex_identity)) (sort (keys (id_Effects ex_identity))) [] else Inr []) =
      Inr [(''q'', EffectRead)]" by simp
qed

abbreviation ex_flags :: flags where
  "ex_flags \<equiv> configured ex_main ex_shadow_pod [] ex_identity True [(''t'', ''http://t'')] [(''q'', EffectRead)] (2 * minute)"

definition ex_recorder :: RecorderServer where
  "ex_recorder = \<lparr> re_cfg = default_config (recorder_config ex_flags [(''q'', EffectRead)]), re_model = None,
     re_tools = [(''t'', NewProxy ex_redactor ''http://t'' PlaneTool (Some (NewSessions 0)) DefaultCaptureLimit None)],
     re_suppressors = [(''t'', NewSuppressor [(''q'', EffectRead)])], re_Sessions = NewSessions 0, re_contracts = [],
     re_routes = recorder_routes [''t''] False \<rparr>"

lemma ex_recorder_built:
  "NewRecorderServer (mn_server ex_main) (recorder_config ex_flags [(''q'', EffectRead)]) = Some (Inr ex_recorder)"
proof -
  have reg: "mux_registers (recorder_routes [''t''] False)" by code_simp
  have "fg_captureMax ex_flags = DefaultCaptureLimit" by (simp add: configured_def Let_def)
  then show ?thesis
    using reg by (simp add: NewRecorderServer_def Let_def default_config_def recorder_config_def configured_simps
        checkListen_def ex_main_def parse_model_def parse_tool_def keys_def ex_recorder_def)
qed

lemma ex_running:
  obtains rn where "recorder_main ex_main ex_args = Some (Recording rn)" and "rn_server rn = ex_recorder"
proof -
  have effects: "parseEffects [(''q'', EffectRead)] = Inr [(''q'', EffectRead)]" by (simp add: parseEffects_Inr)
  have env: "mn_blobs ex_main p = None" "mn_corpus ex_main p = None" for p by (simp_all add: ex_main_def)
  have "record_with ex_main ex_flags = Some (Recording \<lparr> rn_sink = sink_config ex_flags, rn_exporting = False, rn_server = ex_recorder \<rparr>)"
    by (simp add: record_with_def Let_def configured_simps env effects ex_recorder_built) (simp add: ex_main_def)
  then have "recorder_main ex_main ex_args = Some (Recording \<lparr> rn_sink = sink_config ex_flags, rn_exporting = False, rn_server = ex_recorder \<rparr>)"
    unfolding recorder_main_def ex_parsed by (simp add: configured_simps)
  then show ?thesis using that by simp
qed

theorem injected_recorder_is_configured_witness:
  "\<exists>fs. parse_flags (flag_set ex_main) ex_args (default_flags ex_main) = Inr fs \<and> fg_shadow fs \<and>
     map_of (fg_toolEffects fs) ''q'' = Some EffectRead"
proof -
  have "\<forall>(n, e) \<in> set (id_Effects ex_identity). n \<noteq> [] \<and> CHR ''='' \<notin> set n \<and> e \<noteq> []"
    by (simp add: ex_identity_def EffectRead_def)
  from injected_recorder_is_configured [OF ex_plan ex_ranges ex_idle this] show ?thesis
    by (auto simp: ex_identity_def)
qed

definition ex_inbound :: "string \<Rightarrow> inbound" where
  "ex_inbound p = \<lparr> hq_Method = ''POST'', hq_URL = p, hq_Header = [], hq_Body = Some (''read'', None), hq_ContentLength = 0,
     ib_Path = p \<rparr>"

lemma ex_inbound_route:
  "ib_Path (ex_inbound (tool_prefix ''t'')) = tool_prefix ''t''" "clean_path (tool_prefix ''t'')"
  by (simp add: ex_inbound_def) code_simp

theorem injected_agent_reaches_its_tools_witness:
  "\<exists>rn p. recorder_main ex_main ex_args = Some (Recording rn) \<and>
     recorder_route (rn_server rn) (ex_inbound (tool_prefix ''t'')) = Some (HandleTool ''t'') \<and>
     map_of (re_tools (rn_server rn)) ''t'' = Some p \<and> px_Upstream p = ''http://t''"
proof -
  obtain rn where run: "recorder_main ex_main ex_args = Some (Recording rn)" by (rule ex_running) blast
  have "map_of [(''t'', ''http://t'')] ''t'' = Some ''http://t''" "inj_on mcp_variable (set (keys [(''t'', ''http://t'')]))"
    by (simp_all add: keys_def)
  from injected_agent_reaches_its_tools [OF ex_plan ex_ranges run this ex_inbound_route(2,1)] run show ?thesis
    by (auto simp: ex_main_def)
qed

definition ex_counting :: "nat recorder_deps" where
  "ex_counting = \<lparr> rd_rpc = ex_rpc\<lparr>jr_call := (\<lambda>b. \<lparr> call_Method = ''tools/call'', call_ID = ''1'', call_Name = ''q'', call_Arguments = [] \<rparr>)\<rparr>,
     rd_annotator = \<lparr> ae_request = (\<lambda>_. Inl no_msg), ae_tools = (\<lambda>_. Inl no_msg), ae_marshal = (\<lambda>_ _ _. Inl no_msg), ae_jcs = Inr \<rparr>,
     rd_url = (\<lambda>r p. p), rd_proxy = (\<lambda>u r n. (UpError no_msg, Suc n)) \<rparr>"

lemma serve_proxy_counts: "snd (snd (snd (serve_proxy ex_counting e r p s n))) = Suc n"
  by (simp add: serve_proxy_def Proxy_ServeHTTP_def ex_counting_def Let_def split: prod.split)

lemma serve_tool_proxy_counts:
  "map_of (re_tools s) label = Some p \<Longrightarrow> snd (snd (serve_tool_proxy ex_counting e label r s n)) = Suc n"
  using serve_proxy_counts [of e r p s n]
  by (auto simp: serve_tool_proxy_def through_annotator_def split: prod.splits)

lemma ex_forwarded:
  "Suppressor_ServeHTTP (rd_rpc ex_counting) se r (NewSuppressor [(''q'', EffectRead)]) =
     (Forwarded (with_body (fst (read_body r)) r), [], (NewSuppressor [(''q'', EffectRead)])\<lparr>sp_allowed := 1\<rparr>)"
  if "tool_call (rd_rpc ex_counting) r"
proof -
  have "call_of (rd_rpc ex_counting) r = \<lparr> call_Method = ''tools/call'', call_ID = ''1'', call_Name = ''q'', call_Arguments = [] \<rparr>"
    by (simp add: call_of_def ex_counting_def Parse_def)
  then have "mentions (rd_rpc ex_counting) r (NewSuppressor [(''q'', EffectRead)]) = None"
    "effect_of (rd_rpc ex_counting) r (NewSuppressor [(''q'', EffectRead)]) = EffectRead" "EffectRead \<noteq> []"
    by (simp_all add: mentions_def lookup_synthetic_def effect_of_def NewSuppressor_def lookup_or_def EffectRead_def)
  then show ?thesis using serve_tool_call [OF that] by (simp add: NewSuppressor_def)
qed

theorem shadow_pod_only_reads_witness:
  "\<exists>rn out s' w'. recorder_main ex_main ex_args = Some (Recording rn) \<and>
     Recorder_ServeHTTP ex_counting ex_sup_env ex_proxy_env (ex_inbound (tool_prefix ''t'')) (rn_server rn) 0 = (out, s', w') \<and>
     w' \<noteq> 0 \<and> (\<exists>get m t. ij_Client ex_injector = Some get \<and> get ''n'' ''m'' = Inr m \<and>
       t \<in> set (Tools (am_Spec m)) \<and> tool_Name t = ''q'' \<and> tool_Effect t = EffectRead)"
proof -
  let ?r = "ex_inbound (tool_prefix ''t'')" and ?q = "StripPrefix ex_counting (tool_prefix ''t'') (ex_inbound (tool_prefix ''t''))"
  obtain rn where run: "recorder_main ex_main ex_args = Some (Recording rn)" and srv: "rn_server rn = ex_recorder" by (rule ex_running)
  have route: "recorder_route (rn_server rn) ?r = Some (HandleTool ''t'')"
    using NewRecorderServer_tool(2) [OF ex_recorder_built _ ex_inbound_route(2,1), of "''http://t''"]
    by (simp add: srv recorder_config_def configured_simps)
  have call: "inbound_call ex_counting ?r = \<lparr> call_Method = ''tools/call'', call_ID = ''1'', call_Name = ''q'', call_Arguments = [] \<rparr>"
    by (simp add: inbound_call_def ex_counting_def Parse_def)
  have "tool_call (rd_rpc ex_counting) ?q"
    by (simp add: tool_call_def stripped_call call stripped_method read_body_def) (simp add: StripPrefix_def http_request.truncate_def ex_inbound_def)
  note fwd = ex_forwarded [OF this, of ex_sup_env]
  obtain out s' w' where served: "Recorder_ServeHTTP ex_counting ex_sup_env ex_proxy_env ?r (rn_server rn) 0 = (out, s', w')"
    by (metis prod.collapse)
  then have "serve_suppressed ex_counting ex_sup_env ex_proxy_env ''t'' ?q ex_recorder 0 = (out, s', w')"
    using route by (simp add: Recorder_ServeHTTP_def srv)
  moreover define s1 where "s1 = ex_recorder\<lparr>re_suppressors := AList.update ''t'' ((NewSuppressor [(''q'', EffectRead)])\<lparr>sp_allowed := 1\<rparr>)
      (re_suppressors ex_recorder), re_contracts := re_contracts ex_recorder\<rparr>"
  moreover obtain rep recs s2 w2 where proxy: "serve_tool_proxy ex_counting ex_proxy_env ''t'' (with_body (fst (read_body ?q)) ?q) s1 0 =
      ((rep, recs), s2, w2)" by (metis prod.collapse)
  moreover have "map_of (re_suppressors ex_recorder) ''t'' = Some (NewSuppressor [(''q'', EffectRead)])"
    by (simp add: ex_recorder_def)
  ultimately have "w' = w2" by (simp add: serve_suppressed_def fwd through_annotator_def)
  moreover obtain p where "map_of (re_tools s1) ''t'' = Some p" by (simp add: s1_def ex_recorder_def)
  ultimately have "w' = 1" using serve_tool_proxy_counts [of s1 "''t''" p ex_proxy_env "with_body (fst (read_body ?q)) ?q" 0] proxy by simp
  then have w: "w' \<noteq> 0" by simp
  have "annotation ex_shadow_pod AnnotationShadow = ''true''" "annotation ex_shadow_pod AnnotationManifest = ''m''"
    "pd_Namespace ex_shadow_pod = ''n''" "hq_Method ?r = ''POST''" by code_simp+
  then show ?thesis
    using shadow_pod_only_reads [OF ex_plan ex_ranges _ run recorder_serves.simps(1) served w route] call run served w
    by fastforce
qed

end
