(* ===== verification/McpClient.thy ===== *)
theory McpClient
  imports RecordSpan
begin

text \<open>
  \<open>internal/mcp/client.go\<close>: the client that asks an MCP server which tools it advertises.  The
  transport, the JSON codec and the canonical form of header names are parameters.  The loop over the
  pages of a listing ends only if the server lets it, so it is a partial function: \<open>None\<close> is a
  call that never returns.
\<close>

section \<open>Tools and their hints\<close>

record Annotations =
  an_Title :: string
  an_ReadOnlyHint :: "bool option"
  an_DestructiveHint :: "bool option"
  an_IdempotentHint :: "bool option"
  an_OpenWorldHint :: "bool option"

record AdvertisedTool = McpTool +
  mt_Annotations :: "Annotations option"

definition SuggestedEffect :: "AdvertisedTool \<Rightarrow> string \<times> bool" where
  "SuggestedEffect t =
     (case mt_Annotations t of
        None \<Rightarrow> ([], False)
      | Some a \<Rightarrow>
          if an_ReadOnlyHint a = Some True then (''read'', True)
          else if an_DestructiveHint a = Some True then (''write'', True)
          else if an_IdempotentHint a = Some True then (''idempotent-write'', True)
          else ([], False))"

section \<open>The client\<close>

definition ProtocolVersion :: string where "ProtocolVersion = ''2025-06-18''"

record Client =
  cl_Endpoint :: string
  cl_Headers :: "(string \<times> string) list"
  cl_session :: string
  cl_nextID :: int

definition New_client :: "string \<Rightarrow> Client" where
  "New_client endpoint = \<lparr> cl_Endpoint = endpoint, cl_Headers = [], cl_session = [], cl_nextID = 0 \<rparr>"

record http_response =
  hs_StatusCode :: int
  hs_Status :: string
  hs_Header :: http_header
  hs_Body :: body_reader

record rpcError =
  rx_Code :: int
  rx_Message :: string
  rx_Data :: string

record envelope =
  en_Result :: string
  en_Error :: "rpcError option"

record 'w mcp_env =
  mp_request :: "string \<Rightarrow> msg option"
  mp_canonical :: "string \<Rightarrow> string"
  mp_do :: "http_request \<Rightarrow> 'w \<Rightarrow> http_response result \<times> 'w"
  mp_marshal :: "json \<Rightarrow> string result"
  mp_envelope :: "string \<Rightarrow> envelope result"
  mp_page :: "string \<Rightarrow> (AdvertisedTool list \<times> string) result"

definition rpcError_Error :: "rpcError \<Rightarrow> msg" where
  "rpcError_Error e = Sprintf ''server error %d: %s'' [AInt (rx_Code e), AStr (rx_Message e)]"

definition post_header :: "'w mcp_env \<Rightarrow> Client \<Rightarrow> http_header" where
  "post_header E c =
     (let fixed = [(''Content-Type'', [''application/json'']), (''Accept'', [''application/json, text/event-stream'']),
                   (''Mcp-Protocol-Version'', [ProtocolVersion])];
          h = (if cl_session c \<noteq> [] then AList.update ''Mcp-Session-Id'' [cl_session c] fixed else fixed)
      in fold (\<lambda>(k, v). AList.update (mp_canonical E k) [v]) (cl_Headers c) h)"

definition post :: "'w mcp_env \<Rightarrow> Client \<Rightarrow> string \<Rightarrow> 'w \<Rightarrow> http_response result \<times> 'w" where
  "post E c body w =
     (case mp_request E (cl_Endpoint c) of
        Some err \<Rightarrow> (Inl err, w)
      | None \<Rightarrow>
          mp_do E \<lparr> hq_Method = ''POST'', hq_URL = cl_Endpoint c, hq_Header = post_header E c,
            hq_Body = Some (body, None), hq_ContentLength = int (length body) \<rparr> w)"

section \<open>Reading a message\<close>

definition message_limit :: nat where "message_limit = 33554432"

text \<open>\<open>io.ReadAll\<close> of a limited reader: an error is met only before the limit.\<close>

definition read_limited :: "nat \<Rightarrow> body_reader \<Rightarrow> string result" where
  "read_limited limit b =
     (case b of (content, err) \<Rightarrow>
        if limit \<le> length content then Inr (take limit content)
        else (case err of Some e \<Rightarrow> Inl e | None \<Rightarrow> Inr content))"

definition dropCR :: "string \<Rightarrow> string" where
  "dropCR l = (if l \<noteq> [] \<and> last l = char_of (13::nat) then butlast l else l)"

text \<open>
  The loop over the lines of a stream.  A line that fills the scanner's buffer ends the scan with an
  error; what follows the last newline is a line if there is anything.
\<close>

definition stream_end :: "msg option \<Rightarrow> string \<Rightarrow> string result" where
  "stream_end err data =
     (case err of
        Some e \<Rightarrow> Inl e
      | None \<Rightarrow> if data \<noteq> [] then Inr data else Inl (Text ''event stream closed without a response''))"

definition add_data :: "string \<Rightarrow> string \<Rightarrow> string" where
  "add_data line data = (if HasPrefix line ''data:'' then data @ TrimSpace (TrimPrefix line ''data:'') else data)"

fun read_stream :: "string list \<Rightarrow> msg option \<Rightarrow> string \<Rightarrow> string result" where
  "read_stream [] err data = stream_end err data"
| "read_stream [l] err data =
     (if message_limit \<le> length l then Inl (Text ''bufio.Scanner: token too long'')
      else if l = [] then stream_end err data
      else if dropCR l = [] \<and> data \<noteq> [] then Inr data
      else stream_end err (add_data (dropCR l) data))"
| "read_stream (l # l' # ls) err data =
     (if message_limit \<le> length l then Inl (Text ''bufio.Scanner: token too long'')
      else if dropCR l = [] \<and> data \<noteq> [] then Inr data
      else read_stream (l' # ls) err (add_data (dropCR l) data))"

definition readMessage :: "http_response \<Rightarrow> string result" where
  "readMessage resp =
     (if \<not> HasPrefix (Header_Get (hs_Header resp) ''Content-Type'') ''text/event-stream''
      then read_limited message_limit (hs_Body resp)
      else read_stream (strings_Split (char_of (10::nat)) (fst (hs_Body resp))) (snd (hs_Body resp)) [])"

section \<open>Calls\<close>

definition call_body :: "string \<Rightarrow> int \<Rightarrow> json \<Rightarrow> json" where
  "call_body meth i params =
     JObj [(''jsonrpc'', JStr ''2.0''), (''id'', JInt i), (''method'', JStr meth), (''params'', params)]"

definition call ::
    "'w mcp_env \<Rightarrow> string \<Rightarrow> json \<Rightarrow> Client \<Rightarrow> 'w \<Rightarrow> string result \<times> Client \<times> 'w" where
  "call E meth params c0 w =
     (let c = c0\<lparr>cl_nextID := cl_nextID c0 + 1\<rparr> in
      case mp_marshal E (call_body meth (cl_nextID c) params) of
        Inl err \<Rightarrow> (Inl err, c, w)
      | Inr body \<Rightarrow>
      (case post E c body w of
        (Inl err, w1) \<Rightarrow> (Inl err, c, w1)
      | (Inr resp, w1) \<Rightarrow>
          let sid = Header_Get (hs_Header resp) ''Mcp-Session-Id'';
              c1 = (if sid \<noteq> [] then c\<lparr>cl_session := sid\<rparr> else c)
          in if hs_StatusCode resp < 200 \<or> 300 \<le> hs_StatusCode resp
             then (Inl (Sprintf ''HTTP %s: %s'' [AStr (hs_Status resp), AStr (TrimSpace (take 512 (fst (hs_Body resp))))]), c1, w1)
             else (case readMessage resp of
                     Inl err \<Rightarrow> (Inl err, c1, w1)
                   | Inr payload \<Rightarrow>
                       (case mp_envelope E payload of
                          Inl err \<Rightarrow> (Inl (Sprintf ''decode response: %w'' [AErr err]), c1, w1)
                        | Inr env \<Rightarrow>
                            (case en_Error env of
                               Some e \<Rightarrow> (Inl (rpcError_Error e), c1, w1)
                             | None \<Rightarrow> (Inr (en_Result env), c1, w1))))))"

definition notify :: "'w mcp_env \<Rightarrow> string \<Rightarrow> json \<Rightarrow> Client \<Rightarrow> 'w \<Rightarrow> msg option \<times> 'w" where
  "notify E meth params c w =
     (case mp_marshal E (JObj [(''jsonrpc'', JStr ''2.0''), (''method'', JStr meth), (''params'', params)]) of
        Inl err \<Rightarrow> (Some err, w)
      | Inr body \<Rightarrow>
          (case post E c body w of
             (Inl err, w1) \<Rightarrow> (Some err, w1)
           | (Inr resp, w1) \<Rightarrow>
               (if 400 \<le> hs_StatusCode resp then Some (Sprintf ''HTTP %s'' [AStr (hs_Status resp)]) else None, w1)))"

section \<open>Listing\<close>

definition page_params :: "string \<Rightarrow> json" where
  "page_params cursor = JObj (if cursor \<noteq> [] then [(''cursor'', JStr cursor)] else [])"

partial_function (option) list_pages ::
    "'w mcp_env \<Rightarrow> string \<Rightarrow> AdvertisedTool list \<Rightarrow> Client \<Rightarrow> 'w
     \<Rightarrow> (AdvertisedTool list result \<times> Client \<times> 'w) option" where
  "list_pages E cursor tools c w =
     (case call E ''tools/list'' (page_params cursor) c w of
        (Inl err, c1, w1) \<Rightarrow> Some (Inl (Sprintf ''tools/list on %s: %w'' [AStr (cl_Endpoint c), AErr err]), c1, w1)
      | (Inr raw, c1, w1) \<Rightarrow>
          (case mp_page E raw of
             Inl err \<Rightarrow> Some (Inl (Sprintf ''decode tools/list from %s: %w'' [AStr (cl_Endpoint c), AErr err]), c1, w1)
           | Inr (page, next_cursor) \<Rightarrow>
               if next_cursor = [] \<or> next_cursor = cursor then Some (Inr (tools @ page), c1, w1)
               else list_pages E next_cursor (tools @ page) c1 w1))"

definition initialize_params :: json where
  "initialize_params =
     JObj [(''protocolVersion'', JStr ProtocolVersion), (''capabilities'', JObj []),
           (''clientInfo'', JObj [(''name'', JStr ''waveoff''), (''version'', JStr ''v1alpha1'')])]"

definition ListTools :: "'w mcp_env \<Rightarrow> Client \<Rightarrow> 'w \<Rightarrow> (AdvertisedTool list result \<times> Client \<times> 'w) option" where
  "ListTools E c w =
     (case call E ''initialize'' initialize_params c w of
        (Inl err, c1, w1) \<Rightarrow> Some (Inl (Sprintf ''initialize %s: %w'' [AStr (cl_Endpoint c), AErr err]), c1, w1)
      | (Inr _, c1, w1) \<Rightarrow>
          (case notify E ''notifications/initialized'' (JObj []) c1 w1 of
             (Some err, w2) \<Rightarrow>
               Some (Inl (Sprintf ''initialized notification to %s: %w'' [AStr (cl_Endpoint c), AErr err]), c1, w2)
           | (None, w2) \<Rightarrow> list_pages E [] [] c1 w2))"

section \<open>What a call leaves of the client\<close>

lemma call_client:
  assumes "call E meth params c w = (r, c1, w1)"
  shows "cl_nextID c1 = cl_nextID c + 1 \<and> cl_Endpoint c1 = cl_Endpoint c \<and> cl_Headers c1 = cl_Headers c"
  using assms by (auto simp: call_def Let_def split: sum.split_asm prod.split_asm if_split_asm option.split_asm)

section \<open>A listing that ends\<close>

text \<open>
  A server whose listing is the pages \<open>pages\<close>, each a cursor and the tools under it: whoever asks
  for a cursor gets its tools and the next cursor, and the last page is followed by no cursor or by its own.
\<close>

definition serves_pages :: "'w mcp_env \<Rightarrow> (string \<times> AdvertisedTool list) list \<Rightarrow> bool" where
  "serves_pages E pages \<longleftrightarrow>
     pages \<noteq> [] \<and> fst (hd pages) = [] \<and> distinct (map fst pages) \<and>
     (\<forall>i < length pages. \<forall>c w. \<exists>raw c1 w1 next_cursor.
        call E ''tools/list'' (page_params (fst (pages ! i))) c w = (Inr raw, c1, w1) \<and>
        mp_page E raw = Inr (snd (pages ! i), next_cursor) \<and>
        (if Suc i < length pages then next_cursor = fst (pages ! Suc i) else next_cursor \<in> {[], fst (pages ! i)}))"

lemma pages_from:
  assumes "serves_pages E pages" and "i < length pages"
  shows "\<exists>c' w'. list_pages E (fst (pages ! i)) tools c w = Some (Inr (tools @ concat (map snd (drop i pages))), c', w') \<and>
    cl_nextID c' = cl_nextID c + int (length pages - i)"
  using assms(2)
proof (induction "length pages - i" arbitrary: i tools c w rule: less_induct)
  case less
  obtain raw c1 w1 nxt where raw: "call E ''tools/list'' (page_params (fst (pages ! i))) c w = (Inr raw, c1, w1)"
      "mp_page E raw = Inr (snd (pages ! i), nxt)"
    and nxt: "if Suc i < length pages then nxt = fst (pages ! Suc i) else nxt \<in> {[], fst (pages ! i)}"
    using assms(1) less.prems unfolding serves_pages_def by blast
  have id: "cl_nextID c1 = cl_nextID c + 1" using call_client [OF raw(1)] by simp
  have tail: "drop i pages = pages ! i # drop (Suc i) pages" using less.prems by (simp add: Cons_nth_drop_Suc)
  show ?case
  proof (cases "Suc i < length pages")
    case True
    have ne: "pages \<noteq> []" using less.prems by auto
    have d: "distinct (map fst pages)" "fst (pages ! 0) = []"
      using assms(1) by (auto simp: serves_pages_def hd_conv_nth)
    have "nxt \<noteq> fst (pages ! i)" "nxt \<noteq> []"
      using nxt True d nth_eq_iff_index_eq [OF d(1), of "Suc i" i] nth_eq_iff_index_eq [OF d(1), of "Suc i" 0] less.prems ne
      by simp_all
    then have "list_pages E (fst (pages ! i)) tools c w = list_pages E (fst (pages ! Suc i)) (tools @ snd (pages ! i)) c1 w1"
      using nxt True by (subst list_pages.simps) (simp add: raw)
    moreover obtain c' w' where "list_pages E (fst (pages ! Suc i)) (tools @ snd (pages ! i)) c1 w1 =
        Some (Inr ((tools @ snd (pages ! i)) @ concat (map snd (drop (Suc i) pages))), c', w')"
      "cl_nextID c' = cl_nextID c1 + int (length pages - Suc i)"
      using less.hyps [OF _ True, of "tools @ snd (pages ! i)" c1 w1] less.prems by (meson diff_less_mono2 lessI)
    ultimately show ?thesis using id True by (simp add: tail of_nat_diff)
  next
    case False
    then have "list_pages E (fst (pages ! i)) tools c w = Some (Inr (tools @ snd (pages ! i)), c1, w1)"
      using nxt by (subst list_pages.simps) (auto simp: raw)
    moreover have "drop (Suc i) pages = []" "length pages - i = 1" using False less.prems by auto
    ultimately show ?thesis using id by (simp add: tail)
  qed
qed

text \<open>
  C23. A listing is complete and ends.  If the server completes the handshake and serves its tools in
  finitely many pages with cursors of their own, then \<open>ListTools\<close> returns, with every tool of every
  page in order, after asking for each page exactly once.
\<close>

theorem listing_returns_every_tool:
  assumes "serves_pages E pages"
    and "\<And>c w. \<exists>raw c1 w1. call E ''initialize'' initialize_params c w = (Inr raw, c1, w1)"
    and "\<And>c w. fst (notify E ''notifications/initialized'' (JObj []) c w) = None"
  shows "\<exists>c' w'. ListTools E c w = Some (Inr (concat (map snd pages)), c', w') \<and>
    cl_nextID c' = cl_nextID c + 1 + int (length pages)"
proof -
  obtain raw c1 w1 where init: "call E ''initialize'' initialize_params c w = (Inr raw, c1, w1)" using assms(2) by blast
  obtain w2 where "notify E ''notifications/initialized'' (JObj []) c1 w1 = (None, w2)"
    using assms(3) [of c1 w1] by (metis prod.collapse)
  then have "ListTools E c w = list_pages E [] [] c1 w2" by (simp add: ListTools_def init)
  moreover have "pages \<noteq> []" "fst (pages ! 0) = []" using assms(1) by (auto simp: serves_pages_def hd_conv_nth)
  moreover from this obtain c' w' where "list_pages E (fst (pages ! 0)) [] c1 w2 =
      Some (Inr ([] @ concat (map snd (drop 0 pages))), c', w')" "cl_nextID c' = cl_nextID c1 + int (length pages - 0)"
    using pages_from [OF assms(1), of 0 "[]" c1 w2] by auto
  ultimately show ?thesis using call_client [OF init] by simp
qed

section \<open>A listing that does not\<close>

text \<open>Every cursor of \<open>S\<close>, and the empty one, leads to another cursor of \<open>S\<close>.\<close>

definition circles :: "'w mcp_env \<Rightarrow> string set \<Rightarrow> bool" where
  "circles E S \<longleftrightarrow>
     (\<forall>cur \<in> insert [] S. \<forall>c w. \<exists>raw c1 w1 page nxt.
        call E ''tools/list'' (page_params cur) c w = (Inr raw, c1, w1) \<and> mp_page E raw = Inr (page, nxt) \<and>
        nxt \<in> S \<and> nxt \<noteq> cur \<and> nxt \<noteq> [])"

lemma list_pages_circle:
  assumes "list_pages E cursor tools c w = Some y"
  shows "cursor \<in> insert [] S \<longrightarrow> circles E S \<longrightarrow> False"
proof (rule list_pages.raw_induct [where P = "\<lambda>E cursor tools c w y. cursor \<in> insert [] S \<longrightarrow> circles E S \<longrightarrow> False", OF _ assms],
    intro impI)
  fix list_pages and E :: "'a mcp_env" and cursor tools c w y
  assume IH: "\<And>E cursor tools c w y. list_pages E cursor tools c w = Some y \<Longrightarrow> cursor \<in> insert [] S \<longrightarrow> circles E S \<longrightarrow> False"
    and eq: "(case call E ''tools/list'' (page_params cursor) c w of
        (Inl err, c1, w1) \<Rightarrow> Some (Inl (Sprintf ''tools/list on %s: %w'' [AStr (cl_Endpoint c), AErr err]), c1, w1)
      | (Inr raw, c1, w1) \<Rightarrow>
          (case mp_page E raw of
             Inl err \<Rightarrow> Some (Inl (Sprintf ''decode tools/list from %s: %w'' [AStr (cl_Endpoint c), AErr err]), c1, w1)
           | Inr (page, next_cursor) \<Rightarrow>
               if next_cursor = [] \<or> next_cursor = cursor then Some (Inr (tools @ page), c1, w1)
               else list_pages E next_cursor (tools @ page) c1 w1)) = Some y"
    and cursor: "cursor \<in> insert [] S" and E: "circles E S"
  then obtain raw c1 w1 page nxt where raw: "call E ''tools/list'' (page_params cursor) c w = (Inr raw, c1, w1)"
      "mp_page E raw = Inr (page, nxt)" "nxt \<in> S" "nxt \<noteq> cursor" "nxt \<noteq> []"
    unfolding circles_def by blast
  then have "list_pages E nxt (tools @ page) c1 w1 = Some y" using eq by simp
  then show False using IH raw(3) E by blast
qed

text \<open>
  C24. A server can keep the client for ever.  The loop stops at an empty cursor or at the one it just
  used; so if every cursor the server hands out leads to another one of its own, two in turn being
  enough, \<open>ListTools\<close> never returns, and no bound on pages or tools stops it.
\<close>

theorem circling_cursors_never_return:
  assumes "circles E S"
    and "\<exists>raw c1 w1. call E ''initialize'' initialize_params c w = (Inr raw, c1, w1)"
    and "\<And>c w. fst (notify E ''notifications/initialized'' (JObj []) c w) = None"
  shows "ListTools E c w = None"
proof -
  obtain raw c1 w1 where init: "call E ''initialize'' initialize_params c w = (Inr raw, c1, w1)" using assms(2) by blast
  obtain w2 where "notify E ''notifications/initialized'' (JObj []) c1 w1 = (None, w2)"
    using assms(3) [of c1 w1] by (metis prod.collapse)
  then have "ListTools E c w = list_pages E [] [] c1 w2" by (simp add: ListTools_def init)
  moreover have "list_pages E [] [] c1 w2 = None"
    using list_pages_circle [of E "[]" "[]" c1 w2] assms(1) by (cases "list_pages E [] [] c1 w2") auto
  ultimately show ?thesis by simp
qed

section \<open>The first event of a stream\<close>

text \<open>
  Whatever else a stream carries, its first event is taken for the response, a notification as well;
  its data lines are joined without a line break.
\<close>

lemma first_event_is_the_response:
  assumes "payload \<noteq> []" and "char_of (10::nat) \<notin> set payload" and "TrimSpace payload = payload"
    and "last payload \<noteq> char_of (13::nat)" and "length payload < 33554427"
  shows "readMessage \<lparr> hs_StatusCode = 200, hs_Status = [], hs_Header = [(''Content-Type'', [''text/event-stream''])],
    hs_Body = (''data:'' @ payload @ [char_of (10::nat), char_of (10::nat)] @ rest, err) \<rparr> = Inr payload"
proof -
  let ?nl = "char_of (10::nat) :: char"
  have split: "strings_Split c (a @ c # b) = a # strings_Split c b" if "c \<notin> set a" for a b :: string and c
    using that by (induction a) (auto split: list.split)
  have nl: "?nl \<notin> set (''data:'' @ payload)" using assms(2) by (auto simp: char_of_def)
  have lines: "strings_Split ?nl (''data:'' @ payload @ [?nl, ?nl] @ rest) = (''data:'' @ payload) # [] # strings_Split ?nl rest"
    using split [OF nl, of "?nl # rest"] split [of ?nl "[]" rest] by simp
  have cr: "dropCR (''data:'' @ payload) = ''data:'' @ payload" "dropCR [] = []"
    using assms(1,4) by (simp_all add: dropCR_def)
  have data: "add_data (''data:'' @ payload) [] = payload"
    using assms(3) by (simp add: add_data_def HasPrefix_def TrimPrefix_def)
  have "Header_Get [(''Content-Type'', [''text/event-stream''])] ''Content-Type'' = ''text/event-stream''"
    by (simp add: Header_Get_def)
  moreover have "strings_Split ?nl rest \<noteq> []" by (cases rest) (auto split: list.split)
  then obtain l ls where rest: "strings_Split ?nl rest = l # ls" by (cases "strings_Split ?nl rest") auto
  ultimately show ?thesis
    using assms(1,5) cr data by (simp add: readMessage_def HasPrefix_def lines rest message_limit_def del: append_Cons)
qed

section \<open>Examples\<close>

definition ex_tool_named :: "string \<Rightarrow> AdvertisedTool" where
  "ex_tool_named n = \<lparr> mt_Name = n, mt_Description = [], mt_InputSchema = [], mt_Annotations = None \<rparr>"

text \<open>A server that is sent the cursor alone, and answers with the tools and the cursor that \<open>page\<close> says.\<close>

definition ex_mcp :: "(string \<Rightarrow> AdvertisedTool list \<times> string) \<Rightarrow> unit mcp_env" where
  "ex_mcp page = \<lparr> mp_request = (\<lambda>_. None), mp_canonical = (\<lambda>k. k),
     mp_do = (\<lambda>r w. (Inr \<lparr> hs_StatusCode = 200, hs_Status = [], hs_Header = [],
        hs_Body = (case hq_Body r of Some b \<Rightarrow> b | None \<Rightarrow> ([], None)) \<rparr>, w)),
     mp_marshal = (\<lambda>j. case j of JObj m \<Rightarrow> (case jfield ''params'' m of JObj p \<Rightarrow>
        (case jfield ''cursor'' p of JStr s \<Rightarrow> Inr s | _ \<Rightarrow> Inr []) | _ \<Rightarrow> Inr []) | _ \<Rightarrow> Inr []),
     mp_envelope = (\<lambda>p. Inr \<lparr> en_Result = p, en_Error = None \<rparr>), mp_page = (\<lambda>raw. Inr (page raw)) \<rparr>"

lemma ex_call:
  assumes "mp_marshal (ex_mcp page) (call_body meth (cl_nextID c + 1) params) = Inr s" and "length s < message_limit"
  shows "call (ex_mcp page) meth params c w = (Inr s, c\<lparr>cl_nextID := cl_nextID c + 1\<rparr>, w)"
  using assms by (simp add: call_def Let_def post_def ex_mcp_def Header_Get_def readMessage_def HasPrefix_def read_limited_def)

lemma ex_list_call:
  "length cur < message_limit \<Longrightarrow>
     call (ex_mcp page) ''tools/list'' (page_params cur) c w = (Inr cur, c\<lparr>cl_nextID := cl_nextID c + 1\<rparr>, w)"
  by (rule ex_call) (auto simp: ex_mcp_def call_body_def page_params_def jfield_def lookup_or_def)

lemma ex_init_call: "call (ex_mcp page) ''initialize'' initialize_params c w = (Inr [], c\<lparr>cl_nextID := cl_nextID c + 1\<rparr>, w)"
  by (rule ex_call) (auto simp: ex_mcp_def call_body_def initialize_params_def jfield_def lookup_or_def message_limit_def)

lemma ex_notify: "fst (notify (ex_mcp page) m p c w) = None"
  by (simp add: notify_def ex_mcp_def post_def jfield_def lookup_or_def split: json.split)

definition ex_two_pages :: "string \<Rightarrow> AdvertisedTool list \<times> string" where
  "ex_two_pages cur = (if cur = [] then ([ex_tool_named ''a''], ''next'') else ([ex_tool_named ''b''], []))"

theorem listing_returns_every_tool_witness:
  "\<exists>c' w'. ListTools (ex_mcp ex_two_pages) (New_client ''http://t'') () =
     Some (Inr [ex_tool_named ''a'', ex_tool_named ''b''], c', w') \<and> cl_nextID c' = 3"
proof -
  let ?pages = "[([], [ex_tool_named ''a'']), (''next'', [ex_tool_named ''b''])]"
  have page: "\<exists>raw c1 w1 nxt. call (ex_mcp ex_two_pages) ''tools/list'' (page_params cur) c w = (Inr raw, c1, w1) \<and>
      mp_page (ex_mcp ex_two_pages) raw = Inr (fst (ex_two_pages cur), nxt) \<and> nxt = snd (ex_two_pages cur)"
    if "length cur < message_limit" for cur c and w :: unit
    using ex_list_call [OF that, of ex_two_pages c w] by (simp add: ex_mcp_def)
  have two: "fst (ex_two_pages []) = [ex_tool_named ''a'']" "snd (ex_two_pages []) = ''next''"
    "fst (ex_two_pages ''next'') = [ex_tool_named ''b'']" "snd (ex_two_pages ''next'') = []"
    by (simp_all add: ex_two_pages_def)
  have "serves_pages (ex_mcp ex_two_pages) ?pages"
    unfolding serves_pages_def using page [of "[]"] page [of "''next''"]
    by (simp add: All_less_Suc2 numeral_2_eq_2 two message_limit_def) blast
  moreover have "\<exists>raw c1 w1. call (ex_mcp ex_two_pages) ''initialize'' initialize_params c w = (Inr raw, c1, w1)" for c w
    by (intro exI) (rule ex_init_call)
  ultimately show ?thesis
    using listing_returns_every_tool [of "ex_mcp ex_two_pages" ?pages "New_client ''http://t''" "()"] ex_notify
    by (simp add: New_client_def)
qed

definition ex_circle :: "string \<Rightarrow> AdvertisedTool list \<times> string" where
  "ex_circle cur = ([], if cur = ''x'' then ''y'' else ''x'')"

lemma ex_circles: "circles (ex_mcp ex_circle) {''x'', ''y''}"
proof -
  have "\<exists>raw c1 w1 page nxt. call (ex_mcp ex_circle) ''tools/list'' (page_params cur) c w = (Inr raw, c1, w1) \<and>
      mp_page (ex_mcp ex_circle) raw = Inr (page, nxt) \<and> nxt \<in> {''x'', ''y''} \<and> nxt \<noteq> cur \<and> nxt \<noteq> []"
    if "length cur < message_limit" for cur c and w :: unit
    using ex_list_call [OF that, of ex_circle c w] by (simp add: ex_mcp_def ex_circle_def)
  moreover have "length cur < message_limit" if "cur \<in> {[], ''x'', ''y''}" for cur
    using that by (auto simp: message_limit_def)
  ultimately show ?thesis unfolding circles_def by blast
qed

theorem circling_cursors_never_return_witness: "ListTools (ex_mcp ex_circle) (New_client ''http://t'') () = None"
proof (rule circling_cursors_never_return [OF ex_circles])
  show "\<exists>raw c1 w1. call (ex_mcp ex_circle) ''initialize'' initialize_params (New_client ''http://t'') () = (Inr raw, c1, w1)"
    using ex_init_call by blast
qed (rule ex_notify)

end
