(* ===== verification/ManifestEdit.thy ===== *)
theory ManifestEdit
  imports Admission
begin

text \<open>
  \<open>internal/manifest/edit.go\<close>: the editor that writes a few scalars into a YAML file and leaves every
  other byte of it alone.  A parsed file is a tree of nodes that know their line and column; the parser
  (\<open>yaml.v3\<close>) is an argument.  A panic is an error value.
\<close>

section \<open>Nodes\<close>

datatype NodeKind = DocumentNode | SequenceNode | MappingNode | ScalarNode | AliasNode

text \<open>A node's style is a set of bits; lines and columns count from one.\<close>

definition LiteralStyle :: int where "LiteralStyle = 8"
definition FoldedStyle :: int where "FoldedStyle = 16"

datatype Node =
  Node (nd_Kind: NodeKind) (nd_Style: int) (nd_Value: string) (nd_HeadComment: string) (nd_LineComment: string)
    (nd_Line: int) (nd_Column: int) (nd_Content: "Node list")

type_synonym yaml_parser = "string \<Rightarrow> Node list \<times> msg option"

fun entry_in :: "string \<Rightarrow> Node list \<Rightarrow> (Node \<times> Node) option" where
  "entry_in key (k # v # ns) = (if nd_Value k = key then Some (k, v) else entry_in key ns)"
| "entry_in key _ = None"

definition yaml_entry :: "Node \<Rightarrow> string \<Rightarrow> (Node \<times> Node) option" where
  "yaml_entry m key = (if nd_Kind m \<noteq> MappingNode then None else entry_in key (nd_Content m))"

definition mappingAt :: "Node \<Rightarrow> string \<Rightarrow> Node option" where
  "mappingAt m key =
     (case yaml_entry m key of
        Some (_, v) \<Rightarrow> if nd_Kind v = MappingNode then Some v else None
      | None \<Rightarrow> None)"

definition scalarAt :: "Node \<Rightarrow> string \<Rightarrow> string" where
  "scalarAt m key = (case yaml_entry m key of Some (_, v) \<Rightarrow> nd_Value v | None \<Rightarrow> [])"

definition contentRoot :: "Node \<Rightarrow> Node option" where
  "contentRoot n0 =
     (let n = (if nd_Kind n0 = DocumentNode \<and> nd_Content n0 \<noteq> [] then hd (nd_Content n0) else n0)
      in if nd_Kind n \<noteq> MappingNode then None else Some n)"

fun walk_line :: "Node \<Rightarrow> int \<Rightarrow> int" where
  "walk_line (Node k s v hc lc l c ns) e = fold walk_line ns (if l > e then l else e)"

definition lastLine :: "Node \<Rightarrow> int" where
  "lastLine n = walk_line n (nd_Line n)"

section \<open>The editor\<close>

definition LF :: char where "LF = char_of (10::nat)"
definition CR :: char where "CR = char_of (13::nat)"

record Document =
  doc_node :: Node
  doc_IsManifest :: bool
  doc_Name :: string

record Editor =
  ed_lines :: "string list"
  ed_eol :: string
  ed_docs :: "Document list"

text \<open>\<open>strings.ReplaceAll\<close> of each carriage return and newline by a newline.\<close>

fun crlf_to_lf :: "string \<Rightarrow> string" where
  "crlf_to_lf (c # d # s) = (if c = CR \<and> d = LF then LF # crlf_to_lf s else c # crlf_to_lf (d # s))"
| "crlf_to_lf s = s"

definition new_document :: "Node \<Rightarrow> Document" where
  "new_document n =
     (case contentRoot n of
        None \<Rightarrow> \<lparr> doc_node = n, doc_IsManifest = False, doc_Name = [] \<rparr>
      | Some mapping \<Rightarrow> \<lparr> doc_node = n, doc_IsManifest = (scalarAt mapping ''kind'' = ''AgentManifest''),
          doc_Name = (case mappingAt mapping ''metadata'' of Some meta \<Rightarrow> scalarAt meta ''name'' | None \<Rightarrow> []) \<rparr>)"

definition NewEditor :: "yaml_parser \<Rightarrow> string \<Rightarrow> Editor result" where
  "NewEditor P src =
     (case P src of
        (_, Some err) \<Rightarrow> Inl err
      | (nodes, None) \<Rightarrow>
          Inr \<lparr> ed_lines = strings_Split LF (crlf_to_lf src),
                ed_eol = (if Contains src [CR, LF] then [CR, LF] else [LF]),
                ed_docs = map new_document nodes \<rparr>)"

definition Editor_Bytes :: "Editor \<Rightarrow> string" where
  "Editor_Bytes e = strings_Join (ed_eol e) (ed_lines e)"

text \<open>\<open>strings.Index\<close>.\<close>

fun str_Index :: "string \<Rightarrow> string \<Rightarrow> nat option" where
  "str_Index [] p = (if p = [] then Some 0 else None)"
| "str_Index (c # s) p = (if HasPrefix (c # s) p then Some 0 else map_option Suc (str_Index s p))"

definition isResolvedTODO :: "string \<Rightarrow> bool" where
  "isResolvedTODO tail = HasPrefix (ToLower (TrimSpace (TrimPrefix (TrimSpace tail) ''#''))) ''todo''"

definition comment_tail :: "string \<Rightarrow> string" where
  "comment_tail rest =
     (let tail = (case str_Index rest '' #'' of Some c \<Rightarrow> drop c rest | None \<Rightarrow> [])
      in if isResolvedTODO tail then [] else tail)"

definition replace_scalar :: "Node \<Rightarrow> Node \<Rightarrow> string \<Rightarrow> Editor \<Rightarrow> Editor result" where
  "replace_scalar val key value e =
     (let idx = nd_Line val - 1 in
      if idx < 0 \<or> idx \<ge> int (length (ed_lines e)) then Inl (Sprintf ''line %d is out of range'' [AInt (nd_Line val)])
      else let line = ed_lines e ! nat idx; start = nd_Column val - 1 in
      if start > int (length line)
      then Inl (Sprintf ''column %d is past the end of line %d'' [AInt (nd_Column val), AInt (nd_Line val)])
      else if nd_Style val = LiteralStyle \<or> nd_Style val = FoldedStyle
      then Inl (Sprintf ''%s is a block scalar; edit it by hand'' [AStr (nd_Value key)])
      else if start < 0 then Inl (Text ''panic: slice bounds out of range'')
      else Inr (e\<lparr>ed_lines := (ed_lines e)[nat idx :=
             TrimRight (take (nat start) line @ value @ comment_tail (drop (nat start) line)) '' '']\<rparr>))"

definition reparse :: "yaml_parser \<Rightarrow> Editor \<Rightarrow> Editor result" where
  "reparse P e =
     (case NewEditor P (Editor_Bytes e) of
        Inl err \<Rightarrow> Inl err
      | Inr new \<Rightarrow>
          if length (ed_docs new) \<noteq> length (ed_docs e) then Inl (Text ''document count changed during edit'')
          else Inr (e\<lparr>ed_docs := ed_docs new, ed_lines := ed_lines new\<rparr>))"

definition insert_scalar :: "yaml_parser \<Rightarrow> Node \<Rightarrow> string \<Rightarrow> string \<Rightarrow> Editor \<Rightarrow> Editor result" where
  "insert_scalar P parent key value e =
     (if nd_Content parent = [] then Inl (Sprintf ''cannot add %q to an empty mapping'' [AStr key])
      else let indent = nd_Column (hd (nd_Content parent)) - 1; pos = lastLine (last (nd_Content parent)) in
      if pos < 0 \<or> pos > int (length (ed_lines e)) then Inl (Sprintf ''cannot locate where to insert %q'' [AStr key])
      else if indent < 0 then Inl (Text ''panic: strings: negative Repeat count'')
      else reparse P (e\<lparr>ed_lines := take (nat pos) (ed_lines e) @
             (replicate (nat indent) CHR '' '' @ key @ '': '' @ value) # drop (nat pos) (ed_lines e)\<rparr>))"

fun descend :: "string \<Rightarrow> string list \<Rightarrow> Node \<Rightarrow> Node result" where
  "descend path [] parent = Inr parent"
| "descend path (key # ks) parent =
     (case mappingAt parent key of
        None \<Rightarrow> Inl (Sprintf ''no %q section to write %s into'' [AStr key, AStr path])
      | Some child \<Rightarrow> descend path ks child)"

text \<open>The document is the one at index \<open>i\<close> of the editor.\<close>

definition SetScalar :: "yaml_parser \<Rightarrow> nat \<Rightarrow> string \<Rightarrow> string \<Rightarrow> Editor \<Rightarrow> Editor result" where
  "SetScalar P i path value e =
     (case contentRoot (doc_node (ed_docs e ! i)) of
        None \<Rightarrow> Inl (Text ''document is not a mapping'')
      | Some mapping \<Rightarrow>
          let parts = strings_Split CHR ''.'' path in
          bindR (descend path (butlast parts) mapping) (\<lambda>parent.
            case yaml_entry parent (last parts) of
              None \<Rightarrow> insert_scalar P parent (last parts) value e
            | Some (k, v) \<Rightarrow> replace_scalar v k value e))"

section \<open>Line endings\<close>

lemma LF_not_CR [simp]: "LF \<noteq> CR" "CR \<noteq> LF"
  by (simp_all add: LF_def CR_def)

lemma line_ends_are_no_separators: "LF \<notin> {CHR '' '', CHR '':''}" "CR \<notin> {CHR '' '', CHR '':''}"
  by code_simp+

lemma crlf_to_lf_no_LF: "LF \<notin> set s \<Longrightarrow> crlf_to_lf s = s"
  by (induction s rule: crlf_to_lf.induct) auto

lemma crlf_to_lf_no_CR: "CR \<notin> set s \<Longrightarrow> crlf_to_lf s = s"
  by (induction s rule: crlf_to_lf.induct) auto

lemma crlf_to_lf_line: "LF \<notin> set l \<Longrightarrow> crlf_to_lf (l @ CR # LF # s) = l @ LF # crlf_to_lf s"
proof (induction l)
  case (Cons c l)
  then obtain d t where t: "l @ CR # LF # s = d # t" "d \<noteq> LF" by (cases l) auto
  then show ?case using Cons by simp
qed simp

lemma crlf_to_lf_Join:
  "\<forall>l \<in> set ls. LF \<notin> set l \<Longrightarrow> crlf_to_lf (strings_Join [CR, LF] ls) = strings_Join [LF] ls"
  by (induction "[CR, LF]" ls rule: strings_Join.induct) (simp_all add: crlf_to_lf_no_LF crlf_to_lf_line)

lemma crlf_to_lf_no_CRLF: "\<not> Contains s [CR, LF] \<Longrightarrow> crlf_to_lf s = s"
  by (induction s rule: crlf_to_lf.induct) (auto simp: HasPrefix_def)

text \<open>Every newline of the text is that of a carriage return and newline.\<close>

fun all_crlf :: "string \<Rightarrow> bool" where
  "all_crlf (c # d # s) = (if c = CR \<and> d = LF then all_crlf s else c \<noteq> LF \<and> all_crlf (d # s))"
| "all_crlf s = (LF \<notin> set s)"

lemma Join_prepend: "ls \<noteq> [] \<Longrightarrow> strings_Join sep ((c # hd ls) # tl ls) = c # strings_Join sep ls"
  by (cases "(sep, ls)" rule: strings_Join.cases) auto

lemma Join_empty_first: "ls \<noteq> [] \<Longrightarrow> strings_Join sep ([] # ls) = sep @ strings_Join sep ls"
  by (cases ls) auto

lemma Split_Cons_sep: "strings_Split sep (sep # s) = [] # strings_Split sep s"
  by simp

lemma Split_Cons_other: "c \<noteq> sep \<Longrightarrow>
    strings_Split sep (c # s) = (c # hd (strings_Split sep s)) # tl (strings_Split sep s)"
  using strings_Split_ne [of sep s] by (cases "strings_Split sep s") auto

lemma Join_Split_crlf: "all_crlf s \<Longrightarrow> strings_Join [CR, LF] (strings_Split LF (crlf_to_lf s)) = s"
proof (induction s rule: crlf_to_lf.induct)
  case (1 c d s)
  then show ?case
    by (cases "c = CR \<and> d = LF") (auto simp: Join_empty_first Split_Cons_other Split_Cons_sep Join_prepend
      simp del: strings_Split.simps(2))
qed (auto split: list.split)

section \<open>What an edit leaves alone\<close>

text \<open>A file whose lines end in one way only, in the editor.\<close>

definition sound :: "Editor \<Rightarrow> bool" where
  "sound e \<longleftrightarrow> ed_lines e \<noteq> [] \<and> ed_eol e \<in> {[LF], [CR, LF]} \<and>
     (\<forall>l \<in> set (ed_lines e). LF \<notin> set l \<and> (ed_eol e = [LF] \<longrightarrow> CR \<notin> set l))"

definition one_ending :: "string \<Rightarrow> bool" where
  "one_ending src \<longleftrightarrow> CR \<notin> set src \<or> (all_crlf src \<and> Contains src [CR, LF])"

lemma Contains_set: "Contains s p \<Longrightarrow> set p \<subseteq> set s"
  by (auto simp: Contains_iff)

lemma NewEditor_Inr:
  "NewEditor P src = Inr e \<longleftrightarrow> (\<exists>nodes. P src = (nodes, None) \<and>
     e = \<lparr> ed_lines = strings_Split LF (crlf_to_lf src), ed_eol = (if Contains src [CR, LF] then [CR, LF] else [LF]),
           ed_docs = map new_document nodes \<rparr>)"
  by (auto simp: NewEditor_def split: prod.splits option.splits)

lemma one_ending_cases:
  assumes "one_ending src"
  obtains "\<not> Contains src [CR, LF]" "CR \<notin> set src" | "Contains src [CR, LF]" "all_crlf src"
  using assms Contains_set [of src "[CR, LF]"] by (auto simp: one_ending_def)

lemma sound_NewEditor:
  assumes "NewEditor P src = Inr e" and "one_ending src"
  shows "sound e"
proof -
  have "CR \<notin> set l" if "CR \<notin> set src" "l \<in> set (strings_Split LF src)" for l
  proof -
    have "set (strings_Join [LF] ls) \<supseteq> set l" if "l \<in> set ls" for ls
      using that by (induction "[LF]" ls rule: strings_Join.induct) auto
    from this [OF that(2)] show ?thesis using that(1) by (auto simp: Join_Split)
  qed
  then show ?thesis
    using assms(1) by (cases rule: one_ending_cases [OF assms(2)])
      (auto simp: NewEditor_Inr sound_def crlf_to_lf_no_CR dest: Split_no_sep)
qed

text \<open>
  A file that is opened and not edited is written back byte for byte, whether its lines end in
  newlines or in carriage returns and newlines, as long as they all end alike.
\<close>

theorem unedited_file_reads_back:
  assumes "NewEditor P src = Inr e" and "one_ending src"
  shows "Editor_Bytes e = src"
  using assms(1) by (cases rule: one_ending_cases [OF assms(2)])
    (auto simp: NewEditor_Inr Editor_Bytes_def crlf_to_lf_no_CR Join_Split Join_Split_crlf)

lemma reparse_lines:
  assumes "reparse P e = Inr e'" and "sound e"
  shows "ed_lines e' = ed_lines e \<and> ed_eol e' = ed_eol e"
proof -
  have "strings_Split LF (crlf_to_lf (Editor_Bytes e)) = ed_lines e"
  proof (cases "ed_eol e = [LF]")
    case True
    have "CR \<notin> set (strings_Join [LF] ls)" if "\<forall>l \<in> set ls. CR \<notin> set l" for ls
      using that by (induction "[LF]" ls rule: strings_Join.induct) auto
    then have "crlf_to_lf (Editor_Bytes e) = Editor_Bytes e"
      using assms(2) True by (intro crlf_to_lf_no_CR) (simp add: Editor_Bytes_def sound_def)
    then show ?thesis using assms(2) True by (simp add: Editor_Bytes_def sound_def Split_Join)
  next
    case False
    then have "ed_eol e = [CR, LF]" using assms(2) by (simp add: sound_def)
    then show ?thesis using assms(2) by (simp add: Editor_Bytes_def sound_def Split_Join crlf_to_lf_Join)
  qed
  then show ?thesis using assms(1) by (auto simp: reparse_def NewEditor_Inr split: sum.splits if_splits)
qed

text \<open>The line that is written: what stood before the value, the value and a comment that stays.\<close>

definition rewritten :: "string \<Rightarrow> string \<Rightarrow> string \<Rightarrow> bool" where
  "rewritten line value line' \<longleftrightarrow>
     (\<exists>n tail. line' = TrimRight (take n line @ value @ tail) '' '' \<and> tail \<in> {[], drop (length line - length tail) line})"

definition edited :: "string \<Rightarrow> string \<Rightarrow> Editor \<Rightarrow> Editor \<Rightarrow> bool" where
  "edited key value e e' \<longleftrightarrow> ed_eol e' = ed_eol e \<and>
     ((\<exists>i < length (ed_lines e). \<exists>l. ed_lines e' = (ed_lines e)[i := l] \<and> rewritten (ed_lines e ! i) value l) \<or>
      (\<exists>i \<le> length (ed_lines e). \<exists>n. ed_lines e' =
         take i (ed_lines e) @ (replicate n CHR '' '' @ key @ '': '' @ value) # drop i (ed_lines e)))"

definition plain_text :: "string \<Rightarrow> bool" where
  "plain_text s \<longleftrightarrow> LF \<notin> set s \<and> CR \<notin> set s"

lemma set_TrimRight: "set (TrimRight s cs) \<subseteq> set s"
  by (auto simp: TrimRight_def dest: set_dropWhileD)

lemma comment_tail_suffix: "\<exists>c. comment_tail rest \<in> {[], drop c rest}"
  by (auto simp: comment_tail_def Let_def split: option.split)

lemma rewritten_set: "rewritten line value l \<Longrightarrow> set l \<subseteq> set line \<union> set value"
proof -
  assume "rewritten line value l"
  then obtain n tail where l: "l = TrimRight (take n line @ value @ tail) '' ''"
    and tail: "tail \<in> {[], drop (length line - length tail) line}" unfolding rewritten_def by blast
  have "set tail \<subseteq> set line" using tail set_drop_subset by (metis empty_set empty_subsetI insertE singletonD)
  then show ?thesis using set_TrimRight [of "take n line @ value @ tail" "'' ''"] set_take_subset [of n line]
    unfolding l by auto
qed

lemma sound_replaced:
  assumes "sound e" and "i < length (ed_lines e)" and "rewritten (ed_lines e ! i) value l" and "plain_text value"
  shows "sound (e\<lparr>ed_lines := (ed_lines e)[i := l]\<rparr>)"
proof -
  have "set l \<subseteq> set (ed_lines e ! i) \<union> set value" by (rule rewritten_set [OF assms(3)])
  moreover have "ed_lines e ! i \<in> set (ed_lines e)" using assms(2) by simp
  ultimately have "LF \<notin> set l \<and> (ed_eol e = [LF] \<longrightarrow> CR \<notin> set l)"
    using assms(1,4) unfolding sound_def plain_text_def by blast
  then show ?thesis using assms(1) by (auto simp: sound_def dest!: set_update_subset_insert [THEN subsetD])
qed

lemma replace_scalar_edited:
  assumes "replace_scalar v k value e = Inr e'" and "sound e" and "plain_text value"
  shows "edited key value e e' \<and> sound e'"
proof -
  let ?i = "nat (nd_Line v - 1)" and ?n = "nat (nd_Column v - 1)"
  let ?line = "ed_lines e ! ?i"
  let ?l = "TrimRight (take ?n ?line @ value @ comment_tail (drop ?n ?line)) '' ''"
  have i: "?i < length (ed_lines e)" and e': "e' = e\<lparr>ed_lines := (ed_lines e)[?i := ?l]\<rparr>"
    using assms(1) by (auto simp: replace_scalar_def Let_def split: if_splits)
  obtain c where c: "comment_tail (drop ?n ?line) \<in> {[], drop c (drop ?n ?line)}" using comment_tail_suffix by blast
  have "drop c (drop ?n ?line) = drop (length ?line - length (drop c (drop ?n ?line))) ?line"
    by (cases "c + ?n \<le> length ?line") (simp_all add: drop_drop)
  then have "comment_tail (drop ?n ?line) \<in>
      {[], drop (length ?line - length (comment_tail (drop ?n ?line))) ?line}"
    using c by (metis insert_iff singletonD)
  then have "rewritten ?line value ?l" unfolding rewritten_def by blast
  then show ?thesis using i e' sound_replaced [OF assms(2) i _ assms(3)] by (auto simp: edited_def)
qed

lemma insert_scalar_edited:
  assumes "insert_scalar P parent key value e = Inr e'" and "sound e" and "plain_text value" and "plain_text key"
  shows "edited key value e e' \<and> sound e'"
proof -
  define i where "i = nat (lastLine (last (nd_Content parent)))"
  define n where "n = nat (nd_Column (hd (nd_Content parent)) - 1)"
  define e1 where "e1 = e\<lparr>ed_lines := take i (ed_lines e) @ (replicate n CHR '' '' @ key @ '': '' @ value) # drop i (ed_lines e)\<rparr>"
  have i: "i \<le> length (ed_lines e)" and r: "reparse P e1 = Inr e'"
    using assms(1) by (auto simp: insert_scalar_def Let_def i_def n_def e1_def split: if_splits)
  have "plain_text (replicate n CHR '' '' @ key @ '': '' @ value)"
    using assms(3,4) line_ends_are_no_separators by (auto simp: plain_text_def)
  then have s: "sound e1" using assms(2) by (auto simp: sound_def e1_def plain_text_def dest: in_set_takeD in_set_dropD)
  note l = reparse_lines [OF r s]
  moreover have "sound e'" using s l by (simp add: sound_def)
  ultimately show ?thesis using i by (auto simp: edited_def e1_def)
qed

text \<open>
  An edit touches one line.  Setting a scalar of a file whose lines end alike either rewrites the
  one line that holds the value, keeping what stands before the value and a comment after it, or adds
  one line for the key; every other line, and the way lines end, stays.
\<close>

theorem edit_touches_one_line:
  assumes "SetScalar P i path value e = Inr e'" and "sound e" and "plain_text value" and "plain_text path"
  shows "edited (last (strings_Split CHR ''.'' path)) value e e' \<and> sound e'"
proof -
  have key: "plain_text (last (strings_Split CHR ''.'' path))"
  proof -
    have "set (last (strings_Split CHR ''.'' path)) \<subseteq> set path"
      by (induction path) (auto split: list.splits if_splits)
    then show ?thesis using assms(4) by (auto simp: plain_text_def)
  qed
  show ?thesis
    using assms(1) insert_scalar_edited [OF _ assms(2,3) key] replace_scalar_edited [OF _ assms(2,3)]
    by (auto simp: SetScalar_def Let_def bindR_Inr_iff split: option.splits)
qed

section \<open>What an edit destroys\<close>

text \<open>
  Whatever follows the value on its line and is not a comment goes: the rest of a flow mapping, its
  closing brace included.
\<close>

lemma flow_value_takes_the_rest:
  assumes "replace_scalar v k value e = Inr e'" and "nd_Line v = int i + 1" and "nd_Column v = int (length pre) + 1"
    and "ed_lines e ! i = pre @ old @ rest" and "str_Index (old @ rest) '' #'' = None"
  shows "ed_lines e' ! i = TrimRight (pre @ value) '' ''"
  using assms by (auto simp: replace_scalar_def Let_def comment_tail_def split: if_splits)

end
