(* ===== verification/ManifestLoad.thy ===== *)
theory ManifestLoad
  imports Admission
begin

text \<open>
  \<open>internal/manifest/load.go\<close>: how a command-line argument names a manifest, in a file, on standard
  input or in the cluster.  The YAML decoder, the conversion of a decoded object, the file system and
  the cluster are arguments.
\<close>

section \<open>References\<close>

record manifest_ref =
  rf_Raw :: string
  rf_Path :: string
  rf_Name :: string
  rf_Namespace :: string

definition IsFile :: "manifest_ref \<Rightarrow> bool" where
  "IsFile r = (rf_Path r \<noteq> [])"

text \<open>\<open>strings.Cut\<close> with a one-byte separator.\<close>

definition strings_Cut :: "string \<Rightarrow> char \<Rightarrow> string \<times> string \<times> bool" where
  "strings_Cut s c = (case cut_at c s of Some (a, b) \<Rightarrow> (a, b, True) | None \<Rightarrow> (s, [], False))"

definition looks_like_path :: "string \<Rightarrow> bool" where
  "looks_like_path path =
     (CHR ''/'' \<in> set path \<or> CHR 0x5C \<in> set path \<or> HasSuffix path ''.yaml'' \<or> HasSuffix path ''.yml'')"

definition ParseRef :: "(string \<Rightarrow> bool) \<Rightarrow> string \<Rightarrow> string \<Rightarrow> manifest_ref" where
  "ParseRef exists arg ns =
     (let r = \<lparr> rf_Raw = arg, rf_Path = [], rf_Name = [], rf_Namespace = ns \<rparr> in
      if arg = ''-'' then r\<lparr>rf_Path := ''-''\<rparr>
      else let (path, sel, hasSel) = strings_Cut arg CHR ''#'';
               r1 = (if hasSel then r\<lparr>rf_Name := sel\<rparr> else r)
           in if exists path then r1\<lparr>rf_Path := path\<rparr>
              else if hasSel \<or> looks_like_path path then r1\<lparr>rf_Path := path\<rparr>
              else r1\<lparr>rf_Name := arg\<rparr>)"

section \<open>Loading\<close>

type_synonym object = "(string \<times> json) list"

record load_env =
  ld_documents :: "string \<Rightarrow> object list \<times> msg option"
  ld_convert :: "object \<Rightarrow> AgentManifest result"
  ld_stdin :: string
  ld_open :: "string \<Rightarrow> string result"
  ld_config :: "msg option"
  ld_client :: "msg option"
  ld_cluster :: "string \<Rightarrow> string \<Rightarrow> (bool \<times> msg) + AgentManifest"

fun read_documents :: "(object \<Rightarrow> AgentManifest result) \<Rightarrow> msg option \<Rightarrow> object list \<Rightarrow> AgentManifest list result" where
  "read_documents conv err [] = (case err of Some e \<Rightarrow> Inl e | None \<Rightarrow> Inr [])"
| "read_documents conv err (raw # raws) =
     (if raw = [] then read_documents conv err raws
      else if jfield ''kind'' raw \<noteq> JStr ''AgentManifest'' then read_documents conv err raws
      else (case conv raw of
              Inl e \<Rightarrow> Inl (Sprintf ''decode AgentManifest: %w'' [AErr e])
            | Inr m \<Rightarrow> bindR (read_documents conv err raws) (\<lambda>ms. Inr (m # ms))))"

definition ReadAll :: "load_env \<Rightarrow> string \<Rightarrow> AgentManifest list result" where
  "ReadAll E src = (case ld_documents E src of (raws, err) \<Rightarrow> read_documents (ld_convert E) err raws)"

definition loadFile :: "load_env \<Rightarrow> manifest_ref \<Rightarrow> AgentManifest result" where
  "loadFile E r =
     (case (if rf_Path r = ''-'' then Inr (ld_stdin E) else ld_open E (rf_Path r)) of
        Inl ferr \<Rightarrow> Inl (Sprintf ''read %s: %w'' [AStr (rf_Path r), AErr ferr])
      | Inr src \<Rightarrow>
      (case ReadAll E src of
         Inl err \<Rightarrow> Inl (Sprintf ''%s: %w'' [AStr (rf_Raw r), AErr err])
       | Inr docs \<Rightarrow>
           if docs = [] then Inl (Sprintf ''%s: contains no AgentManifest'' [AStr (rf_Raw r)])
           else if rf_Name r \<noteq> []
           then (case find (\<lambda>m. am_Name m = rf_Name r) docs of
                   Some m \<Rightarrow> Inr m
                 | None \<Rightarrow> Inl (Sprintf ''%s: no manifest named %q in %s (found: %s)''
                     [AStr (rf_Raw r), AStr (rf_Name r), AStr (rf_Path r), AStr (strings_Join '', '' (map am_Name docs))]))
           else if length docs > 1
           then Inl (Sprintf ''%s holds %d manifests; select one with %s#<name> (found: %s)''
                  [AStr (rf_Path r), AInt (int (length docs)), AStr (rf_Path r), AStr (strings_Join '', '' (map am_Name docs))])
           else Inr (hd docs)))"

definition ErrNoCluster :: msg where "ErrNoCluster = Text ''no reachable cluster''"

text \<open>A failed get says whether the object was not found.\<close>

definition loadCluster :: "load_env \<Rightarrow> manifest_ref \<Rightarrow> AgentManifest result" where
  "loadCluster E r =
     (case ld_config E of
        Some err \<Rightarrow> Inl (Sprintf ''%w: %v (name %q was read as a cluster object; pass a path if you meant a file)''
                          [AErr ErrNoCluster, AMsg err, AStr (rf_Name r)])
      | None \<Rightarrow>
      (case ld_client E of
         Some err \<Rightarrow> Inl (Sprintf ''%w: %v'' [AErr ErrNoCluster, AMsg err])
       | None \<Rightarrow>
           let ns = (if rf_Namespace r = [] then ''default'' else rf_Namespace r)
           in (case ld_cluster E ns (rf_Name r) of
                 Inr m \<Rightarrow> Inr m
               | Inl (not_found, err) \<Rightarrow>
                   if not_found then Inl (Sprintf ''no AgentManifest %q in namespace %q'' [AStr (rf_Name r), AStr ns])
                   else Inl (Sprintf ''get AgentManifest %q: %w'' [AStr (rf_Name r), AErr err]))))"

definition Load :: "load_env \<Rightarrow> manifest_ref \<Rightarrow> AgentManifest result" where
  "Load E r = (if IsFile r then loadFile E r else loadCluster E r)"

section \<open>What a reference can name\<close>

lemma ParseRef_path:
  "rf_Path (ParseRef exists arg ns) \<in> {[], arg, fst (strings_Cut arg CHR ''#'')}"
  by (auto simp: ParseRef_def Let_def split: prod.splits)

text \<open>An argument is looked up in the cluster only if no file has its name and nothing in it says path.\<close>

lemma cluster_reference:
  assumes "\<not> IsFile (ParseRef exists arg ns)" and "\<not> exists []" and "arg \<noteq> []" and "\<not> HasPrefix arg ''#''"
  shows "\<not> exists arg \<and> CHR ''#'' \<notin> set arg \<and> \<not> looks_like_path arg \<and> rf_Name (ParseRef exists arg ns) = arg"
proof (cases "cut_at CHR ''#'' arg")
  case None
  moreover from None have "CHR ''#'' \<notin> set arg" by (simp add: cut_at_None)
  ultimately show ?thesis using assms
    by (auto simp: ParseRef_def IsFile_def Let_def strings_Cut_def split: if_splits)
next
  case (Some ab)
  then have "arg = fst ab @ ''#'' @ snd ab" using cut_at_Some [of _ arg "fst ab" "snd ab"] by simp
  then have "fst ab \<noteq> []" using assms(4) by (auto simp: HasPrefix_def)
  then show ?thesis using assms(1) Some
    by (auto simp: ParseRef_def IsFile_def Let_def strings_Cut_def split: prod.splits if_splits)
qed

lemma read_documents_kind:
  "read_documents conv err raws = Inr ms \<Longrightarrow> m \<in> set ms \<Longrightarrow>
     \<exists>raw \<in> set raws. jfield ''kind'' raw = JStr ''AgentManifest'' \<and> conv raw = Inr m"
  by (induction raws arbitrary: ms) (auto simp: bindR_Inr_iff split: option.splits if_splits sum.splits)

text \<open>
  What is loaded from a file is a manifest of that file, the only one when none is named, and the first
  of the name that is.
\<close>

lemma loadFile_from_document:
  assumes "loadFile E r = Inr m"
  shows "\<exists>src docs. (if rf_Path r = ''-'' then src = ld_stdin E else ld_open E (rf_Path r) = Inr src) \<and>
    ReadAll E src = Inr docs \<and> (if rf_Name r = [] then docs = [m] else m \<in> set docs \<and> am_Name m = rf_Name r)"
proof -
  obtain src docs where src: "(if rf_Path r = ''-'' then Inr (ld_stdin E) else ld_open E (rf_Path r)) = Inr src"
      and docs: "ReadAll E src = Inr docs"
      and m: "docs \<noteq> []" "rf_Name r \<noteq> [] \<and> find (\<lambda>m. am_Name m = rf_Name r) docs = Some m \<or>
        rf_Name r = [] \<and> \<not> length docs > 1 \<and> m = hd docs"
    using assms by (auto simp: loadFile_def split: sum.splits if_splits option.splits)
  moreover have "docs = [m]" if "\<not> length docs > 1" "m = hd docs" using that m(1) by (cases docs) auto
  ultimately show ?thesis by (intro exI [of _ src] exI [of _ docs]) (auto simp: find_Some_iff split: if_splits)
qed

end
