(* ===== verification/Verify.thy ===== *)
theory Verify
  imports ManifestEdit ManifestLoad Diff
begin

text \<open>
  \<open>internal/cli/verify.go\<close>: the command that recomputes what a manifest says about itself and, asked
  to, repairs it in place.  The operating system is a file system each of whose calls may fail: the
  calls of a run are numbered, and \<open>os_fail\<close> says which of them fail and how.
\<close>

section \<open>Checking one manifest\<close>

definition orUnset :: "string \<Rightarrow> string" where
  "orUnset s = (if s = [] then ''(unset)'' else s)"

definition isDisambiguated :: "string \<Rightarrow> string \<Rightarrow> string \<Rightarrow> bool" where
  "isDisambiguated name agent behavior =
     (let prefix = Name agent behavior @ ''.'' in length name > length prefix \<and> take (length prefix) name = prefix)"

definition check :: "hasher \<Rightarrow> AgentManifest \<Rightarrow> msg list \<times> string \<times> string" where
  "check H m =
     (case Both H (am_Spec m) of
        Inl err \<Rightarrow> ([err], [], [])
      | Inr (wantB, wantC) \<Rightarrow>
          ((if BehaviorDigest (am_Spec m) \<noteq> wantB
            then [Sprintf ''behaviorDigest states %s computed %s'' [AStr (orUnset (BehaviorDigest (am_Spec m))), AStr wantB]]
            else []) @
           (if ContentDigest (am_Spec m) \<noteq> wantC
            then [Sprintf ''contentDigest states %s computed %s'' [AStr (orUnset (ContentDigest (am_Spec m))), AStr wantC]]
            else []) @
           (let want = Name (Agent (am_Spec m)) wantB
            in if am_Name m \<noteq> want \<and> \<not> isDisambiguated (am_Name m) (Agent (am_Spec m)) wantB
               then [Sprintf ''metadata.name states %s expected %s'' [AStr (orUnset (am_Name m)), AStr want]]
               else []),
           wantB, wantC))"

definition explainDigests :: "hasher \<Rightarrow> AgentManifestSpec \<Rightarrow> msg list" where
  "explainDigests H spec = map (\<lambda>sc. case CanonicalJSON H spec sc of
       Inl err \<Rightarrow> Sprintf ''%s: %v'' [AStr (Scope_String sc), AMsg err]
     | Inr canonical \<Rightarrow> Sprintf ''%sDigest covers: %s'' [AStr (Scope_String sc), AStr canonical])
     [ScopeBehavior, ScopeContent]"

section \<open>The file system\<close>

record os =
  os_fail :: "nat \<Rightarrow> msg option"
  os_partial :: "nat \<Rightarrow> nat"
  os_temp :: "nat \<Rightarrow> string"

record disk =
  dk_files :: "string \<rightharpoonup> string"
  dk_calls :: nat

definition os_call :: "os \<Rightarrow> disk \<Rightarrow> msg option \<times> disk" where
  "os_call S d = (os_fail S (dk_calls d), d\<lparr>dk_calls := Suc (dk_calls d)\<rparr>)"

definition set_file :: "string \<Rightarrow> string option \<Rightarrow> disk \<Rightarrow> disk" where
  "set_file p c d = d\<lparr>dk_files := (dk_files d)(p := c)\<rparr>"

definition no_such_file :: "string \<Rightarrow> msg" where
  "no_such_file p = Sprintf ''open %s: no such file or directory'' [AStr p]"

definition ReadFile :: "os \<Rightarrow> string \<Rightarrow> disk \<Rightarrow> string result \<times> disk" where
  "ReadFile S p d =
     (case os_call S d of
        (Some err, d1) \<Rightarrow> (Inl err, d1)
      | (None, d1) \<Rightarrow> (case dk_files d1 p of None \<Rightarrow> Inl (no_such_file p) | Some c \<Rightarrow> Inr c, d1))"

definition os_Stat :: "os \<Rightarrow> string \<Rightarrow> disk \<Rightarrow> msg option \<times> disk" where
  "os_Stat S p d =
     (case os_call S d of
        (Some err, d1) \<Rightarrow> (Some err, d1)
      | (None, d1) \<Rightarrow> (if dk_files d1 p = None then Some (no_such_file p) else None, d1))"

text \<open>A removal whose error the caller ignores.\<close>

definition os_Remove :: "os \<Rightarrow> string \<Rightarrow> disk \<Rightarrow> disk" where
  "os_Remove S p d = (case os_call S d of (Some _, d1) \<Rightarrow> d1 | (None, d1) \<Rightarrow> set_file p None d1)"

text \<open>A write that fails has written a part; the file is closed whether the write failed or not.\<close>

definition write_temp :: "os \<Rightarrow> string \<Rightarrow> string \<Rightarrow> disk \<Rightarrow> msg option \<times> disk" where
  "write_temp S tmp content d =
     (case os_call S d of
        (Some err, d1) \<Rightarrow>
          (Some err, snd (os_call S (set_file tmp (Some (take (os_partial S (dk_calls d)) content)) d1)))
      | (None, d1) \<Rightarrow> os_call S (set_file tmp (Some content) d1))"

definition os_Rename :: "os \<Rightarrow> string \<Rightarrow> string \<Rightarrow> disk \<Rightarrow> msg option \<times> disk" where
  "os_Rename S old new d =
     (case os_call S d of
        (Some err, d1) \<Rightarrow> (Some err, d1)
      | (None, d1) \<Rightarrow> (None, set_file old None (set_file new (dk_files d1 old) d1)))"

text \<open>The repair is written through a temporary file, which is removed on every way out.\<close>

definition write_through :: "os \<Rightarrow> string \<Rightarrow> string \<Rightarrow> disk \<Rightarrow> msg option \<times> disk" where
  "write_through S p content d =
     (case os_Stat S p d of
        (Some err, d1) \<Rightarrow> (Some err, d1)
      | (None, d1) \<Rightarrow>
          let tmp = os_temp S (dk_calls d1) in
          (case os_call S d1 of
             (Some err, d2) \<Rightarrow> (Some err, d2)
           | (None, d2) \<Rightarrow>
          (case write_temp S tmp content (set_file tmp (Some []) d2) of
             (Some err, d3) \<Rightarrow> (Some err, os_Remove S tmp d3)
           | (None, d3) \<Rightarrow>
          (case os_call S d3 of
             (Some err, d4) \<Rightarrow> (Some err, os_Remove S tmp d4)
           | (None, d4) \<Rightarrow>
          (case os_Rename S tmp p d4 of (r, d5) \<Rightarrow> (r, os_Remove S tmp d5))))))"

section \<open>Verifying a file\<close>

record verify_env =
  ve_load :: load_env
  ve_parser :: yaml_parser
  ve_hash :: hasher
  ve_os :: os

record verify_state =
  vs_editor :: Editor
  vs_bad :: nat
  vs_repaired :: nat
  vs_out :: "msg list"

text \<open>The documents that can be repaired, by name; a later one of a name replaces an earlier one.\<close>

definition by_name :: "Document list \<Rightarrow> (string \<times> nat) list" where
  "by_name docs = fold (\<lambda>(i, d) m. if doc_IsManifest d then AList.update (doc_Name d) i m else m) (enumerate 0 docs) []"

definition repaired_name :: "AgentManifest \<Rightarrow> string \<Rightarrow> string \<Rightarrow> string" where
  "repaired_name m wantB wantC =
     (if isDisambiguated (am_Name m) (Agent (am_Spec m)) wantB then DisambiguatedName (Agent (am_Spec m)) wantB wantC
      else Name (Agent (am_Spec m)) wantB)"

definition repair_edits :: "AgentManifest \<Rightarrow> string \<Rightarrow> string \<Rightarrow> (string \<times> string) list" where
  "repair_edits m wantB wantC =
     [(''spec.behaviorDigest'', wantB), (''spec.contentDigest'', wantC), (''metadata.name'', repaired_name m wantB wantC)]"

definition edit_or_fail ::
    "yaml_parser \<Rightarrow> string \<Rightarrow> nat \<Rightarrow> string \<times> string \<Rightarrow> Editor \<Rightarrow> Editor result" where
  "edit_or_fail P path i pv ed =
     (case SetScalar P i (fst pv) (snd pv) ed of
        Inl err \<Rightarrow> Inl (Sprintf ''%s: %s: %w'' [AStr path, AStr (fst pv), AErr err])
      | Inr ed' \<Rightarrow> Inr ed')"

definition verify_manifest ::
    "verify_env \<Rightarrow> string \<Rightarrow> bool \<Rightarrow> bool \<Rightarrow> (string \<times> nat) list \<Rightarrow> AgentManifest \<Rightarrow> verify_state
     \<Rightarrow> msg option \<times> verify_state" where
  "verify_manifest E path write explain names m st =
     (let (problems, wantB, wantC) = check (ve_hash E) m;
          explained = (if explain then explainDigests (ve_hash E) (am_Spec m) else [])
      in if problems = []
         then (None, st\<lparr>vs_out := vs_out st @ Sprintf ''ok %s %s'' [AStr path, AStr (am_Name m)] # explained\<rparr>)
         else if write
         then (case map_of names (am_Name m) of
                 None \<Rightarrow> (Some (Sprintf ''%s: cannot locate document %q to repair'' [AStr path, AStr (am_Name m)]), st)
               | Some i \<Rightarrow>
                   (case stepsR (map (edit_or_fail (ve_parser E) path i) (repair_edits m wantB wantC)) (vs_editor st) of
                      Inl err \<Rightarrow> (Some err, st)
                    | Inr ed \<Rightarrow> (None, st\<lparr>vs_editor := ed, vs_repaired := vs_repaired st + 1,
                        vs_out := vs_out st @ [Sprintf ''repaired %s %s'' [AStr path, AStr (repaired_name m wantB wantC)]]\<rparr>)))
         else (None, st\<lparr>vs_bad := vs_bad st + 1,
                vs_out := vs_out st @ Sprintf ''FAILED %s %s'' [AStr path, AStr (am_Name m)] # problems @ explained\<rparr>))"

fun verify_manifests ::
    "verify_env \<Rightarrow> string \<Rightarrow> bool \<Rightarrow> bool \<Rightarrow> (string \<times> nat) list \<Rightarrow> AgentManifest list \<Rightarrow> verify_state
     \<Rightarrow> msg option \<times> verify_state" where
  "verify_manifests E path write explain names [] st = (None, st)"
| "verify_manifests E path write explain names (m # ms) st =
     (case verify_manifest E path write explain names m st of
        (Some err, st1) \<Rightarrow> (Some err, st1)
      | (None, st1) \<Rightarrow> verify_manifests E path write explain names ms st1)"

definition verifyFile ::
    "verify_env \<Rightarrow> string \<Rightarrow> bool \<Rightarrow> bool \<Rightarrow> disk \<Rightarrow> nat result \<times> msg list \<times> disk" where
  "verifyFile E path write explain d =
     (case ReadFile (ve_os E) path d of
        (Inl err, d1) \<Rightarrow> (Inl err, [], d1)
      | (Inr raw, d1) \<Rightarrow>
      (case ReadAll (ve_load E) raw of
         Inl err \<Rightarrow> (Inl (Sprintf ''%s: %w'' [AStr path, AErr err]), [], d1)
       | Inr typed \<Rightarrow>
      (case NewEditor (ve_parser E) raw of
         Inl err \<Rightarrow> (Inl (Sprintf ''%s: %w'' [AStr path, AErr err]), [], d1)
       | Inr ed \<Rightarrow>
      (case verify_manifests E path write explain (by_name (ed_docs ed)) typed
              \<lparr> vs_editor = ed, vs_bad = 0, vs_repaired = 0, vs_out = [] \<rparr> of
         (Some err, st) \<Rightarrow> (Inl err, vs_out st, d1)
       | (None, st) \<Rightarrow>
           if vs_repaired st > 0
           then (case write_through (ve_os E) path (Editor_Bytes (vs_editor st)) d1 of
                   (Some err, d2) \<Rightarrow> (Inl err, vs_out st, d2)
                 | (None, d2) \<Rightarrow> (Inr (vs_bad st), vs_out st, d2))
           else (Inr (vs_bad st), vs_out st, d1)))))"

section \<open>The command\<close>

text \<open>The exit code, the error on standard error, what was printed, and the disk.\<close>

fun verify_files ::
    "verify_env \<Rightarrow> bool \<Rightarrow> bool \<Rightarrow> string list \<Rightarrow> disk \<Rightarrow> nat result \<times> msg list \<times> disk" where
  "verify_files E write explain [] d = (Inr 0, [], d)"
| "verify_files E write explain (path # paths) d =
     (case verifyFile E path write explain d of
        (Inl err, out, d1) \<Rightarrow> (Inl err, out, d1)
      | (Inr n, out, d1) \<Rightarrow>
          (case verify_files E write explain paths d1 of
             (Inl err, out', d2) \<Rightarrow> (Inl err, out @ out', d2)
           | (Inr bad, out', d2) \<Rightarrow> (Inr (n + bad), out @ out', d2)))"

definition verify_command ::
    "verify_env \<Rightarrow> bool \<Rightarrow> bool \<Rightarrow> string list \<Rightarrow> disk \<Rightarrow> int \<times> msg option \<times> msg list \<times> disk" where
  "verify_command E write explain paths d =
     (case verify_files E write explain paths d of
        (Inl err, out, d1) \<Rightarrow> (ExitUsage, Some err, out, d1)
      | (Inr bad, out, d1) \<Rightarrow>
          if bad > 0 \<and> \<not> write
          then (1, None, out @ [Sprintf ''%d manifest(s) need repair. Run: waveoff verify --write %s''
                  [AInt (int bad), AStr (hd paths)]], d1)
          else (0, None, out, d1))"

section \<open>Verifying and admission\<close>

lemma check_Nil:
  "fst (check H m) = [] \<longleftrightarrow> Both H (am_Spec m) = Inr (BehaviorDigest (am_Spec m), ContentDigest (am_Spec m)) \<and>
     (am_Name m = Name (Agent (am_Spec m)) (BehaviorDigest (am_Spec m)) \<or>
      isDisambiguated (am_Name m) (Agent (am_Spec m)) (BehaviorDigest (am_Spec m)))"
  by (auto simp: check_def Let_def split: sum.split prod.split)

lemma isDisambiguated_append: "isDisambiguated (Name a b @ CHR ''.'' # x) a b \<longleftrightarrow> x \<noteq> []"
  by (simp add: isDisambiguated_def Let_def)

lemma disambiguated_content:
  "Both H spec = Inr (b, c) \<Longrightarrow> isDisambiguated (DisambiguatedName a b c) a b"
  using Short_Compute(1) [of H spec ScopeContent c 8]
  by (auto simp: DisambiguatedName_def isDisambiguated_append Both_Inr ContentPrefix_def)

text \<open>
  What the webhook asks beyond a verified manifest.  A manifest is admitted exactly if it passes
  \<open>waveoff verify\<close>, pins its image, classifies every tool, has no name twice among its tools, prompts
  and judges, and is named by the digests it states: the suffix of a second name, which \<open>verify\<close> takes
  as it comes, must be that of the content digest.
\<close>

theorem admission_is_verify_and_more:
  "ValidateCreate H (OManifest m) = None \<longleftrightarrow>
     fst (check H m) = [] \<and> Contains (code_Image (Code (am_Spec m))) ''@sha256:'' \<and>
     list_all (\<lambda>t. tool_Effect t \<in> set valid_effects) (Tools (am_Spec m)) \<and>
     distinct (map tool_Name (Tools (am_Spec m))) \<and> distinct (map prompt_Name (Prompts (am_Spec m))) \<and>
     distinct (map judge_Name (Judges (am_Spec m))) \<and>
     am_Name m \<in> {Name (Agent (am_Spec m)) (BehaviorDigest (am_Spec m)),
       DisambiguatedName (Agent (am_Spec m)) (BehaviorDigest (am_Spec m)) (ContentDigest (am_Spec m))}"
  using disambiguated_content by (auto simp: ValidateCreate_None well_formed_manifest_def Let_def check_Nil)

lemma verified_but_refused:
  assumes "Both H (am_Spec m) = Inr (BehaviorDigest (am_Spec m), ContentDigest (am_Spec m))"
    and "am_Name m = Name (Agent (am_Spec m)) (BehaviorDigest (am_Spec m)) @ ''.'' @ x"
    and "x \<noteq> []" and "x \<noteq> Short (ContentDigest (am_Spec m)) ContentPrefix"
  shows "fst (check H m) = [] \<and> ValidateCreate H (OManifest m) \<noteq> None"
  using assms by (simp add: check_Nil isDisambiguated_append ValidateCreate_None well_formed_manifest_def DisambiguatedName_def)

text \<open>The manifest that the repair of a file is meant to leave there.\<close>

definition repaired_manifest :: "AgentManifest \<Rightarrow> string \<Rightarrow> string \<Rightarrow> AgentManifest" where
  "repaired_manifest m wantB wantC =
     m\<lparr>am_Name := repaired_name m wantB wantC,
       am_Spec := (am_Spec m)\<lparr>BehaviorDigest := wantB, ContentDigest := wantC\<rparr>\<rparr>"

lemma Both_ignores_digests: "Both H (spec\<lparr>BehaviorDigest := b, ContentDigest := c\<rparr>) = Both H spec"
  by (simp add: Both_def Compute_def CanonicalJSON_def checkFinite_def Project_def)

text \<open>
  A repair settles the digests and the name.  With the three values \<open>verify --write\<close> writes, a
  manifest whose digests can be computed passes \<open>verify\<close>, and it is admitted exactly if its image is
  pinned, its tools are classified and no name is taken twice.
\<close>

theorem repaired_manifest_is_admitted:
  assumes "check H m = (problems, wantB, wantC)" and "Both H (am_Spec m) = Inr (b, c)"
  shows "fst (check H (repaired_manifest m wantB wantC)) = [] \<and>
    (ValidateCreate H (OManifest (repaired_manifest m wantB wantC)) = None \<longleftrightarrow>
       Contains (code_Image (Code (am_Spec m))) ''@sha256:'' \<and>
       list_all (\<lambda>t. tool_Effect t \<in> set valid_effects) (Tools (am_Spec m)) \<and>
       distinct (map tool_Name (Tools (am_Spec m))) \<and> distinct (map prompt_Name (Prompts (am_Spec m))) \<and>
       distinct (map judge_Name (Judges (am_Spec m))))"
proof -
  have want: "wantB = b" "wantC = c" using assms by (auto simp: check_def)
  have "repaired_name m b c \<in> {Name (Agent (am_Spec m)) b, DisambiguatedName (Agent (am_Spec m)) b c}"
    by (simp add: repaired_name_def)
  moreover have "fst (check H (repaired_manifest m b c)) = []"
    using disambiguated_content [OF assms(2)]
    by (simp add: check_Nil repaired_manifest_def Both_ignores_digests assms(2)) (simp add: repaired_name_def)
  ultimately show ?thesis
    by (simp add: want ValidateCreate_None well_formed_manifest_def Both_ignores_digests assms(2) repaired_manifest_def Let_def)
qed

section \<open>Verifying without writing\<close>

definition failing :: "verify_env \<Rightarrow> AgentManifest list \<Rightarrow> nat" where
  "failing E ms = length (filter (\<lambda>m. fst (check (ve_hash E) m) \<noteq> []) ms)"

lemma verify_manifest_reads:
  "\<exists>out. verify_manifest E path False explain names m st = (None, st\<lparr>vs_bad := vs_bad st + failing E [m], vs_out := out\<rparr>)"
  by (auto simp: verify_manifest_def failing_def Let_def split: prod.split)

lemma verify_manifests_reads:
  "\<exists>out. verify_manifests E path False explain names ms st = (None, st\<lparr>vs_bad := vs_bad st + failing E ms, vs_out := out\<rparr>)"
proof (induction ms arbitrary: st)
  case Nil
  show ?case by (rule exI [of _ "vs_out st"]) (simp add: failing_def)
next
  case (Cons m ms)
  obtain out where m: "verify_manifest E path False explain names m st =
      (None, st\<lparr>vs_bad := vs_bad st + failing E [m], vs_out := out\<rparr>)"
    using verify_manifest_reads by blast
  obtain out' where ms: "verify_manifests E path False explain names ms (st\<lparr>vs_bad := vs_bad st + failing E [m], vs_out := out\<rparr>) =
      (None, st\<lparr>vs_bad := vs_bad st + failing E [m] + failing E ms, vs_out := out'\<rparr>)"
    using Cons.IH [of "st\<lparr>vs_bad := vs_bad st + failing E [m], vs_out := out\<rparr>"] by auto
  have "failing E (m # ms) = failing E [m] + failing E ms" by (simp add: failing_def)
  then show ?case by (intro exI [of _ out']) (simp add: m ms add.assoc)
qed

text \<open>How many manifests of a text are wrong, if it can be read.\<close>

definition wrong_in :: "verify_env \<Rightarrow> string \<Rightarrow> string \<Rightarrow> nat result" where
  "wrong_in E path raw =
     (case ReadAll (ve_load E) raw of
        Inl err \<Rightarrow> Inl (Sprintf ''%s: %w'' [AStr path, AErr err])
      | Inr typed \<Rightarrow>
          (case NewEditor (ve_parser E) raw of
             Inl err \<Rightarrow> Inl (Sprintf ''%s: %w'' [AStr path, AErr err])
           | Inr ed \<Rightarrow> Inr (failing E typed)))"

lemma ReadFile_disk:
  "ReadFile S p d = (r, d1) \<Longrightarrow> dk_files d1 = dk_files d \<and> dk_calls d1 = Suc (dk_calls d) \<and>
     r = (case os_fail S (dk_calls d) of Some err \<Rightarrow> Inl err
          | None \<Rightarrow> (case dk_files d p of None \<Rightarrow> Inl (no_such_file p) | Some c \<Rightarrow> Inr c))"
  by (auto simp: ReadFile_def os_call_def split: option.splits)

lemma verifyFile_reads:
  assumes "verifyFile E path False explain d = (r, out, d')"
  shows "dk_files d' = dk_files d \<and> dk_calls d' = Suc (dk_calls d) \<and>
    r = bindR (fst (ReadFile (ve_os E) path d)) (wrong_in E path)"
proof -
  obtain r1 d1 where rd: "ReadFile (ve_os E) path d = (r1, d1)" by fastforce
  then have disk: "dk_files d1 = dk_files d" "dk_calls d1 = Suc (dk_calls d)" using ReadFile_disk by blast+
  show ?thesis
  proof (cases r1)
    case (Inl err)
    then show ?thesis using assms disk by (simp add: verifyFile_def rd)
  next
    case (Inr raw)
    show ?thesis
    proof (cases "ReadAll (ve_load E) raw")
      case (Inr typed)
      note load = this
      show ?thesis
      proof (cases "NewEditor (ve_parser E) raw")
        case (Inr ed)
        obtain o2 where "verify_manifests E path False explain (by_name (ed_docs ed)) typed
            \<lparr> vs_editor = ed, vs_bad = 0, vs_repaired = 0, vs_out = [] \<rparr> =
            (None, \<lparr> vs_editor = ed, vs_bad = failing E typed, vs_repaired = 0, vs_out = o2 \<rparr>)"
          using verify_manifests_reads [of E path explain "by_name (ed_docs ed)" typed
            "\<lparr> vs_editor = ed, vs_bad = 0, vs_repaired = 0, vs_out = [] \<rparr>"] by auto
        then show ?thesis using assms disk \<open>r1 = Inr raw\<close> load Inr
          by (simp add: verifyFile_def rd wrong_in_def)
      qed (use assms disk Inr load in \<open>simp add: verifyFile_def rd wrong_in_def \<open>r1 = Inr raw\<close>\<close>)
    qed (use assms disk Inr in \<open>simp add: verifyFile_def rd wrong_in_def\<close>)
  qed
qed

text \<open>A file is clean if it can be read when its turn comes and nothing in it is wrong.\<close>

definition clean :: "verify_env \<Rightarrow> disk \<Rightarrow> nat \<Rightarrow> string \<Rightarrow> bool" where
  "clean E d n path = (os_fail (ve_os E) n = None \<and>
     (case dk_files d path of Some raw \<Rightarrow> wrong_in E path raw = Inr 0 | None \<Rightarrow> False))"

lemma verifyFile_clean:
  assumes "verifyFile E path False explain d = (r, out, d')"
  shows "r = Inr 0 \<longleftrightarrow> clean E d (dk_calls d) path"
proof -
  have "fst (ReadFile (ve_os E) path d) = (case os_fail (ve_os E) (dk_calls d) of Some err \<Rightarrow> Inl err
          | None \<Rightarrow> (case dk_files d path of None \<Rightarrow> Inl (no_such_file path) | Some c \<Rightarrow> Inr c))"
    using ReadFile_disk [of "ve_os E" path d] by (metis prod.collapse)
  then show ?thesis using verifyFile_reads [OF assms] by (auto simp: clean_def split: option.split)
qed

lemma verify_files_reads:
  assumes "verify_files E False explain paths d = (r, out, d')"
  shows "dk_files d' = dk_files d \<and> (r = Inr 0 \<longleftrightarrow> (\<forall>i < length paths. clean E d (dk_calls d + i) (paths ! i)))"
  using assms
proof (induction paths arbitrary: d r out d')
  case (Cons path paths)
  obtain r1 out1 d1 where f: "verifyFile E path False explain d = (r1, out1, d1)" by (metis prod_cases3)
  obtain r2 out2 d2 where fs: "verify_files E False explain paths d1 = (r2, out2, d2)" by (metis prod_cases3)
  note disk = verifyFile_reads [OF f] and IH = Cons.IH [OF fs]
  have same: "clean E d1 = clean E d" using disk by (simp add: clean_def fun_eq_iff)
  have all: "(\<forall>i < length (path # paths). clean E d (dk_calls d + i) ((path # paths) ! i)) \<longleftrightarrow>
      clean E d (dk_calls d) path \<and> (\<forall>i < length paths. clean E d (dk_calls d1 + i) (paths ! i))"
    using disk by (simp add: All_less_Suc2)
  have "dk_files d' = dk_files d \<and> (r = Inr 0 \<longleftrightarrow> r1 = Inr 0 \<and> r2 = Inr 0)"
    using Cons.prems disk IH by (auto simp: f fs split: sum.splits)
  then show ?case using verifyFile_clean [OF f] IH unfolding all same by blast
qed simp

end
