(* ===== verification/Spec2Isabelle.thy ===== *)
theory Spec2Isabelle
  imports RolloutHistory RecordReplay RecorderMain McpClient Verify
begin

text \<open>
  waveoff is a controller that moves an agent (a model, prompts, tools and policy pinned in an
  AgentManifest) from an incumbent version to a candidate.  A recorder, injected beside the incumbent as
  a sidecar, captures its calls into cassettes; an offline stage replays the candidate against those
  recordings, has both arms scored and hands the paired scores to an analyzer; live stages then mirror or
  split real traffic and judge the recorded sessions, until the candidate is promoted or waved off.
  This library models the program from the Go sources under src/, each theory one or a few files of it.

  \<^bold>\<open>Foundations.\<close>
  \<^item> Prelude: the result type of fallible operations (error + value), messages as format strings with
    their arguments, maps as association lists, byte strings; GoLib: further operations of Go's standard
    library; Json: decoded JSON and the unstructured objects of Kubernetes.
  \<^item> Float64: IEEE 754 doubles as far as the code uses them (rounding to nearest even, comparisons with
    NaN, conversion of integers); Sha256: the hash and its hexadecimal form; Utf8: what the JSON encoder
    makes of bytes that are no text.
  \<^item> Api (api/v1alpha1/agentmanifest_types.go, agentrollout_types.go): the manifest and the rollout, their
    closed vocabularies and RollbackPolicy.Fires.

  \<^bold>\<open>Deciding a rollout.\<close>
  \<^item> Score (internal/score/score.go): validation of a scorer's results and their pairing by item.
  \<^item> Analysis (internal/analysis/analysis.go, remote.go): requests, verdicts, the remote analyzer;
    Missing (missingness.go): the drop check; ActivityCheck (activity.go): the write guardrail; Bootstrap
    (bootstrap.go): the paired bootstrap; Sequential (sequential.go): the confidence sequence.
  \<^item> Traffic (internal/traffic/traffic.go): the target, the split and the contract of a router, as a
    locale; GatewayApi (gatewayapi.go) and Istio (istio.go): the two routers, each an interpretation.
  \<^item> Judges, Stage, Observations, Live, Controller (internal/rollout/judges.go, stage.go,
    observations.go, live.go, controller.go): the judge check, the offline stage, the observations of a
    live stage, one step of a live stage, and the reconciler with every path that writes a status.
  \<^item> RolloutSafety states what one reconcile may write; RolloutHistory closes the reconciler under the
    steps of a cluster (an inductive relation: a rollout is created, edited, deleted or reconciled, or
    anything else changes) and proves the guarantees of every reachable cluster.

  \<^bold>\<open>Identity of a manifest.\<close>
  \<^item> Digest (internal/digest): the classification of fields, the projection and the two digests; Diff
    (internal/diff/compare.go, model.go, linediff.go): the comparison of two manifests, its verdict, exit
    code and line counts.
  \<^item> Admission (internal/webhook/v1alpha1/agentmanifest_webhook.go): the admission webhook and the
    histories of the objects it lets in.
  \<^item> ManifestLoad and ManifestEdit (internal/manifest/load.go, edit.go): how an argument names a manifest,
    and the editor that changes single lines of a YAML file; Verify (internal/cli/verify.go): the command
    that checks and repairs files, over a file system whose calls may fail.

  \<^bold>\<open>Recording.\<close>
  \<^item> Cassette (internal/cassette/schema.go, reader.go), Redact (redact.go), Writer (writer.go): the format
    of a recording, the removal of credentials, writing with offloading and reading back; Corpus
    (internal/corpus/corpus.go): the stored sessions; Cas (internal/cas/cas.go, fs.go): the blob store.
  \<^item> Jsonrpc (internal/jsonrpc/jsonrpc.go); Recorder, Suppress, RecordSpan, Sink, RecordServer
    (internal/recorder): sessions, capture and the proxy, the suppression of writes, the span of a record,
    the queue and its worker, and the wired server; RecorderMain (cmd/waveoff-recorder/main.go): from the
    arguments to the running recorder; Inject (internal/webhook/inject/inject.go): the webhook that puts
    the sidecar into a pod; McpClient (internal/mcp/client.go): the listing of a tool server.

  \<^bold>\<open>Replaying.\<close>
  \<^item> Replay (internal/replay/mode.go, index.go, drift.go, divergence.go): policy, index, contract drift and
    the tracker; ReplayServer (server.go, output.go): the server and the cassette of its answers;
    ReplayRun (driver.go, render.go): runs in which handlers interleave, the driver and the exit code;
    RecordReplay: what becomes of a recorded call when it is replayed.

  This theory holds the lemmas and properties that span the analyzers, the scores and the stages.

  \<^bold>\<open>State and effects.\<close>  Stateful code takes its state as a record (the cluster, a server, a writer, a file
  system, a world behind the collaborators) and returns it updated; errors are values of a sum type, a
  panic is a result of its own, and each early return of the code is a branch.  Maps are association
  lists: a range the code sorts is a sorted list, and one it leaves unordered is proved independent of the
  order where a property rests on it.  Integers are wrapped where the code can reach the bound (int32
  weights, int64 durations and conversions from floats); counts of things held in memory are not.
  Instants in a stored status are whole seconds, as the API server keeps them.

  \<^bold>\<open>Concurrency.\<close>  The cluster's history, the recorder's sink with its worker, and the handlers of the replay
  server are step relations or sequences of atomic steps in any order, one per critical section.  The
  handlers of the recorder are modelled one request at a time.

  \<^bold>\<open>Parameters.\<close>  What is not under src/ is an argument of the definitions that use it: the Kubernetes client
  and its conflicts, the scorer, the candidate, the tool lister, reverse proxies and their upstreams, the
  random generator, log, exp, lgamma and sqrt on doubles, the JSON and YAML codecs and the canonical form
  of JSON, regular expressions, the parsing of URLs, and which system calls fail.  What a property assumes
  of them is in its statement; the laws of the cassette's codec are header_reads_back and
  span_reads_back of Writer.  ToLower knows the ASCII letters only: Go also lowers other letters, of which
  U+0130 and U+212A become ASCII ones.

  \<^bold>\<open>Groups of lemmas.\<close>  Each component ends with its properties; before them stand the simplification
  rules that evaluate each operation, its frame lemmas (which part of the state it leaves alone) and its
  inversion rules (what must have held when it returned a given outcome).  Properties that span
  components only use those.

  \<^bold>\<open>Fuel and termination.\<close>  No definition uses fuel.  Loops over lists are structural or end with a measure
  (lines consumed, counted ranges); the page loop of the MCP client, which
  need not end, is a partial function into option, with a property for servers on which it returns and
  one for servers on which it never does.

  \<^bold>\<open>Not modelled.\<close>  Pinning (internal/pin), the text and JSON output of commands and their flags, except the
  recorder's; telemetry export, the S3 store, the transports of scorers, process groups, listeners,
  signals and timeouts of connections, the agent process of a replay, the wiring of managers, generated
  code.  Patterns of the multiplexers are plain paths, without wildcards or hosts.
\<close>

section \<open>Lemmas across components\<close>

text \<open>The items a request built from scored results measures under both arms.\<close>

lemma length_map_filter_le: "length (List.map_filter f xs) \<le> length xs"
  by (simp add: List.map_filter_def)

lemma buildRequest_simps [simp]:
  "rq_Primary (fst (buildRequest st inc cand rs n)) = toMetric (gate_Primary (stage_Gate st))"
  "rq_Observations (fst (buildRequest st inc cand rs n)) =
     map (\<lambda>p. \<lparr> obs_Item = pair_Item p, obs_Incumbent = res_Metrics (pair_Incumbent p),
                obs_Candidate = res_Metrics (pair_Candidate p) \<rparr>)
       (fst (Pairs rs (gm_Metric (gate_Primary (stage_Gate st)))))"
  by (auto simp: buildRequest_def Let_def toMetric_def split: prod.splits)

lemma toMetric_Name [simp]: "metric_Name (toMetric g) = gm_Metric g"
  by (simp add: toMetric_def)

lemma measured_items:
  "length (fst (Request_Values (fst (buildRequest st inc cand rs n)) m)) \<le>
     length (fst (Pairs rs (gm_Metric (gate_Primary (stage_Gate st)))))"
  using length_map_filter_le [of "paired_value m" "rq_Observations (fst (buildRequest st inc cand rs n))"]
  by (simp add: Request_Values_def Let_def)

definition measured :: "Result list \<Rightarrow> string \<Rightarrow> string \<Rightarrow> string \<Rightarrow> bool" where
  "measured results metric item arm =
     (\<exists>r \<in> set results. res_Item r = item \<and> ToLower (res_Arm r) = arm \<and>
        (\<exists>x. map_of (res_Metrics r) metric = Some x \<and> finite64 x))"

lemma finite_metric:
  assumes "Validate rs = Inr ()" and "r \<in> set rs" and "map_of (res_Metrics r) m = Some x"
  shows "finite64 x"
  using assms map_of_SomeD [OF assms(3)]
  by (force simp: Validate_ok_iff bad_metric_def intro: not_NaN_Inf_finite)

lemma Pairs_measured:
  assumes "Validate rs = Inr ()" and "p \<in> set (fst (Pairs rs m))"
  shows "measured rs m (pair_Item p) ''incumbent'' \<and> measured rs m (pair_Item p) ''candidate''"
proof -
  note s = Pairs_sound [OF assms(2)]
  obtain a b where "map_of (res_Metrics (pair_Incumbent p)) m = Some a"
    "map_of (res_Metrics (pair_Candidate p)) m = Some b"
    using s(1) by (auto simp: Complete_def has_key_def split: if_splits)
  then show ?thesis using s finite_metric [OF assms(1)] unfolding measured_def by metis
qed

lemma set_AList_update: "set (AList.update k v m) \<subseteq> insert (k, v) (set m)"
  by (induction m) auto

lemma fold_observe_unmeasured:
  assumes "\<forall>r \<in> set rs. res_Arm r = ''candidate'' \<longrightarrow> Scored r \<longrightarrow> map_of (res_Metrics r) metric = None"
    and "\<forall>(k, o') \<in> set m. map_of (obs_Candidate o') metric = None"
  shows "\<forall>(k, o') \<in> set (fold observe_result rs m). map_of (obs_Candidate o') metric = None"
  using assms
proof (induction rs arbitrary: m)
  case (Cons r rs)
  have new: "map_of (obs_Candidate (lookup_or (new_Observation (res_Item r)) m (res_Item r))) metric = None"
    using Cons.prems(2) by (auto simp: lookup_or_def new_Observation_def split: option.splits dest!: map_of_SomeD)
  have "\<forall>(k, o') \<in> set (observe_result r m). map_of (obs_Candidate o') metric = None"
    using Cons.prems new
    by (auto simp: observe_result_def Let_def dest!: subsetD [OF set_AList_update])
  then show ?case using Cons by simp
qed simp

lemma fold_observe_nonempty: "m \<noteq> [] \<or> (\<exists>r \<in> set rs. Scored r) \<Longrightarrow> fold observe_result rs m \<noteq> []"
proof (induction rs arbitrary: m)
  case (Cons r rs)
  have "Scored r \<Longrightarrow> observe_result r m \<noteq> []" "m \<noteq> [] \<Longrightarrow> observe_result r m \<noteq> []"
    by (cases m; auto simp: observe_result_def Let_def)+
  then show ?case using Cons by auto
qed simp

section \<open>Properties across components\<close>

text \<open>
  C3. An offline promotion rests on calibrated judges and thirty items.  When the offline replay the
  controller runs with the built-in analyzer promotes, the candidate's judges passed their check and,
  among the results one call of the scorer returned, at least thirty different items hold a finite
  measurement of the gated metric under both arms.
\<close>

theorem offline_promotion_end_to_end:
  assumes "as_Endpoint spec = []"
    and "RunOfflineReplay (stage_runner R corp outDir scorer spec) stage incumbent candidate x =
      ((Some result, None), x')"
    and "vd_Outcome (sr_Verdict result) = OutcomePromote"
  shows "jc_Pass (CheckJudges incumbent candidate (stage_floor stage)) \<and>
    (\<exists>refs x1 results x2 items. scorer refs x1 = (Inr results, x2) \<and> distinct items \<and> 30 \<le> length items \<and>
       (\<forall>item \<in> set items. measured results (gm_Metric (gate_Primary (stage_Gate stage))) item ''incumbent'' \<and>
                           measured results (gm_Metric (gate_Primary (stage_Gate stage))) item ''candidate''))"
proof -
  let ?m = "gm_Metric (gate_Primary (stage_Gate stage))"
  obtain sessions acc results v w1 w2 x1 x2 result' where raw:
    "jc_Pass (CheckJudges incumbent candidate (stage_floor stage))" "sessions \<noteq> []"
    "replay_sessions (stage_runner R corp outDir scorer spec) incumbent candidate sessions no_replays w1 = (Inr acc, w2)"
    "rs_refs acc \<noteq> []" "rn_Score (stage_runner R corp outDir scorer spec) (rs_refs acc) w2 = (Inr results, x1)"
    "Validate results = Inr ()"
    "rn_Analyze (stage_runner R corp outDir scorer spec)
       (fst (buildRequest stage incumbent candidate results (int (length sessions)))) x1 = (Inr v, x2)"
    "Some result = Some result'" "sr_Verdict result' = v"
    by (rule RunOfflineReplay_ok [OF assms(2)])
  then have ok: "scorer (rs_refs acc) w2 = (Inr results, x1)"
    "buildAnalyzer R spec (fst (buildRequest stage incumbent candidate results (int (length sessions)))) x1 = (Inr v, x2)"
    "sr_Verdict result = v"
    by (simp_all add: stage_runner_def)
  let ?req = "fst (buildRequest stage incumbent candidate results (int (length sessions)))"
  have "PairedBootstrap_Analyze (rc_Math R) (rc_Env R) \<lparr> pb_Resamples = 0, pb_Rand = False \<rparr> ?req x1 = (Inr v, x2)"
    using ok(2) assms(1) by (simp add: buildAnalyzer_def)
  from PairedBootstrap_Analyze_Inr [OF this] obtain w s0 s1 where w: "v = decide w"
    and p: "bootstrap_metric (rc_Env R) \<lparr> pb_Resamples = 0, pb_Rand = False \<rparr> ?req (rq_Primary ?req) s0 =
      (Inr (vd_Primary w), s1)"
    by blast
  have "30 \<le> mr_N (vd_Primary w)"
    using assms(3) ok(3) w by (simp add: decide_promote_iff BootstrapFloor_def)
  then have n: "30 \<le> length (fst (Pairs results ?m))"
    using bootstrap_metric_N(1) [OF p] measured_items [of stage incumbent candidate results "int (length sessions)" ?m]
    by simp
  show ?thesis
    using raw(1) ok(1) n distinct_Pairs_items [of results ?m] Pairs_measured [OF raw(6)]
    by (intro conjI exI [of _ "rs_refs acc"] exI [of _ w2] exI [of _ results] exI [of _ x1]
        exI [of _ "map pair_Item (fst (Pairs results ?m))"]) auto
qed

text \<open>A scorer that measures thirty items under both arms, and a stage that gates on a threshold.\<close>

definition ex_item :: "nat \<Rightarrow> string" where
  "ex_item k = replicate (Suc k) CHR ''i''"

definition ex_score :: "string \<Rightarrow> nat \<Rightarrow> Result" where
  "ex_score arm k = \<lparr> res_Item = ex_item k, res_Arm = arm, res_Metrics = [(''ok'', 1)], res_Metadata = [], res_Error = [] \<rparr>"

definition ex_scores :: "Result list" where
  "ex_scores = map (ex_score ''incumbent'') [0..<30] @ map (ex_score ''candidate'') [0..<30]"

definition ex_offline :: Stage where
  "ex_offline = (ex_stage ''replay'' StageOfflineReplay None)
     \<lparr>stage_Corpus := \<lparr> cs_Ref = ''c'', cs_Limit = 0, cs_Sessions = map ex_item [0..<30] \<rparr>,
      stage_Gate := \<lparr> gate_Primary = ex_gate_metric GateThreshold, gate_Guardrails = [], gate_KappaFloor = None \<rparr>\<rparr>"

lemma inj_ex_item: "inj ex_item"
  by (auto simp: inj_def ex_item_def)

lemma ex_scores_in: "r \<in> set ex_scores \<longleftrightarrow> (\<exists>k < 30. r = ex_score ''incumbent'' k \<or> r = ex_score ''candidate'' k)"
  by (auto simp: ex_scores_def simp del: upt_rec_numeral)

lemma ex_score_simps [simp]:
  "res_Item (ex_score arm k) = ex_item k" "res_Arm (ex_score arm k) = arm" "res_Metrics (ex_score arm k) = [(''ok'', 1)]"
  "Scored (ex_score arm k)" "ex_item k \<noteq> []"
  by (simp_all add: ex_score_def Scored_def ex_item_def)

lemma ex_scores_items: "res_Item ` set ex_scores = ex_item ` {..<30}"
proof
  show "ex_item ` {..<30} \<subseteq> res_Item ` set ex_scores"
  proof
    fix i assume "i \<in> ex_item ` {..<30}"
    then obtain k where "k < 30" "i = ex_item k" by auto
    then have "ex_score ''incumbent'' k \<in> set ex_scores" "res_Item (ex_score ''incumbent'' k) = i"
      by (auto simp: ex_scores_in)
    then show "i \<in> res_Item ` set ex_scores" by (metis imageI)
  qed
qed (auto simp: ex_scores_in)

lemma card_ex_items: "card (ex_item ` {..<30}) = 30"
  using card_image [OF inj_on_subset [OF inj_ex_item], of "{..<30}"] by simp

lemma ex_scores_valid: "Validate ex_scores = Inr ()"
  by (auto simp: Validate_ok_iff ex_scores_in bad_metric_def one_f64_def small_not_Inf)

lemma ex_scores_missing: "missingnessOf ex_scores pairs 30 =
  \<lparr> mi_Attempted = 30, mi_BothScored = int (length pairs), mi_CandidateOnlyFailed = 0, mi_IncumbentOnlyFailed = 0,
    mi_BothFailed = 0 \<rparr>"
proof -
  have "\<exists>r \<in> set ex_scores. res_Item r = ex_item k \<and> res_Arm r = arm"
    if "k < 30" "arm = ''incumbent'' \<or> arm = ''candidate''" for k arm
    using that ex_scores_in [of "ex_score arm k"] by (intro bexI [of _ "ex_score arm k"]) auto
  then show ?thesis
    by (subst missingness_all_scored) (auto simp: ex_scores_items card_ex_items, auto simp: ex_scores_in)
qed

lemma ex_last:
  assumes "k < 30" and "arm = ''incumbent'' \<or> arm = ''candidate''"
  shows "last_of ex_scores (ex_item k) arm \<in> set ex_scores"
proof -
  have "ex_score arm k \<in> set ex_scores" using assms by (auto simp: ex_scores_in)
  then have "filter (\<lambda>r. res_Item r = ex_item k \<and> ToLower (res_Arm r) = arm) (rev ex_scores) \<noteq> []"
    using assms(2) by (auto simp: filter_empty_conv intro!: bexI [of _ "ex_score arm k"])
  moreover have "set (filter (\<lambda>r. res_Item r = ex_item k \<and> ToLower (res_Arm r) = arm) (rev ex_scores)) \<subseteq> set ex_scores"
    by auto
  ultimately show ?thesis
    unfolding last_of_def
    by (cases "filter (\<lambda>r. res_Item r = ex_item k \<and> ToLower (res_Arm r) = arm) (rev ex_scores)") simp_all
qed

lemma ex_scores_paired:
  "length (fst (Pairs ex_scores ''ok'')) = 30"
  "p \<in> set (fst (Pairs ex_scores ''ok'')) \<Longrightarrow>
     res_Metrics (pair_Incumbent p) = [(''ok'', 1)] \<and> res_Metrics (pair_Candidate p) = [(''ok'', 1)]"
proof -
  have m: "Scored r \<and> res_Metrics r = [(''ok'', 1)]" if "r \<in> set ex_scores" for r
    using that by (auto simp: ex_scores_in)
  have c: "Complete (lookup_or (new_Pair (ex_item k)) (by_item ex_scores) (ex_item k)) ''ok''" if "k < 30" for k
    using m [OF ex_last [of k "''incumbent''"]] m [OF ex_last [of k "''candidate''"]] that
    by (simp add: lookup_by_item Complete_def has_key_def)
  have "Complete (lookup_or (new_Pair i) (by_item ex_scores) i) ''ok''" if "i \<in> set (keys (by_item ex_scores))" for i
    using that c by (auto simp: set_by_item ex_scores_items)
  then have "length (map pair_Item (fst (Pairs ex_scores ''ok''))) = length (keys (by_item ex_scores))"
    unfolding fst_Pairs_items by simp
  also have "\<dots> = 30"
    using distinct_card [OF distinct_by_item [of ex_scores]] by (simp only: set_by_item ex_scores_items card_ex_items)
  finally show "length (fst (Pairs ex_scores ''ok'')) = 30" by simp
  show "p \<in> set (fst (Pairs ex_scores ''ok'')) \<Longrightarrow>
     res_Metrics (pair_Incumbent p) = [(''ok'', 1)] \<and> res_Metrics (pair_Candidate p) = [(''ok'', 1)]"
    using Pairs_sound(2,3) m by blast
qed

definition ex_controller :: "HTTPRoute Reconciler" where
  "ex_controller = ex_reconciler zero_Verdict"

definition ex_offline_runner :: "HTTPRoute Runner" where
  "ex_offline_runner = stage_runner ex_controller ''/c'' ''/o'' (\<lambda>refs x. (Inr ex_scores, x))
     \<lparr> as_Endpoint = [], as_TimeoutSeconds = 0 \<rparr>"

lemma ex_offline_replays:
  "\<exists>acc'. replay_sessions ex_offline_runner (ex_manifest a) (ex_manifest b) ss acc x = (Inr acc', x) \<and>
     (rs_refs acc \<noteq> [] \<or> ss \<noteq> [] \<longrightarrow> rs_refs acc' \<noteq> [])"
proof (induction ss arbitrary: acc)
  case (Cons s ss)
  obtain refs where r: "replay_arms ex_offline_runner s [(ArmIncumbent, ex_manifest a), (ArmCandidate, ex_manifest b)] x
      = (Inr (refs, None), x)" "refs \<noteq> []"
    by (simp add: replay_arms.simps ex_offline_runner_def ex_controller_def stage_runner_def ex_reconciler_def
        Usable_def ex_report_def)
  from Cons [of "acc\<lparr>rs_refs := rs_refs acc @ refs\<rparr>"] r show ?case
    by (auto simp: ex_offline_runner_def ex_controller_def stage_runner_def ex_reconciler_def)
qed simp

lemma ex_pair_values:
  "(\<And>p. p \<in> set ps \<Longrightarrow> res_Metrics (pair_Incumbent p) = [(''ok'', 1)] \<and> res_Metrics (pair_Candidate p) = [(''ok'', 1)]) \<Longrightarrow>
   List.map_filter (paired_value ''ok'') (map (\<lambda>p. \<lparr> obs_Item = pair_Item p,
     obs_Incumbent = res_Metrics (pair_Incumbent p), obs_Candidate = res_Metrics (pair_Candidate p) \<rparr>) ps) =
   map (\<lambda>p. (1, 1, pair_Item p)) ps"
  by (induction ps) (simp_all add: List.map_filter_def paired_value_def)

definition ex_offline_request :: Request where
  "ex_offline_request = fst (buildRequest ex_offline (ex_manifest ''d1'') (ex_manifest ''d2'') ex_scores 30)"

lemma ex_offline_request_simps [simp]:
  "metric_Name (rq_Primary ex_offline_request) = ''ok''" "metric_Test (rq_Primary ex_offline_request) = GateThreshold"
  "metric_Alpha (rq_Primary ex_offline_request) = 0" "metric_Threshold (rq_Primary ex_offline_request) = 0"
  "metric_Direction (rq_Primary ex_offline_request) = HigherIsBetter"
  "rq_Guardrails ex_offline_request = []" "rq_MissingPolicy ex_offline_request = zero_MissingnessPolicy"
  "rq_Design ex_offline_request = DesignOther []"
  "rq_Missing ex_offline_request = \<lparr> mi_Attempted = 30, mi_BothScored = 30, mi_CandidateOnlyFailed = 0,
     mi_IncumbentOnlyFailed = 0, mi_BothFailed = 0 \<rparr>"
  "fst (Request_Values ex_offline_request ''ok'') = replicate 30 1"
  "fst (snd (Request_Values ex_offline_request ''ok'')) = replicate 30 1"
proof -
  have p: "gm_Metric (gate_Primary (stage_Gate ex_offline)) = ''ok''"
    "rq_Primary ex_offline_request = toMetric (ex_gate_metric GateThreshold)"
    by (simp_all add: ex_offline_def ex_gate_metric_def ex_offline_request_def)
  show "metric_Name (rq_Primary ex_offline_request) = ''ok''" "metric_Test (rq_Primary ex_offline_request) = GateThreshold"
    "metric_Alpha (rq_Primary ex_offline_request) = 0" "metric_Threshold (rq_Primary ex_offline_request) = 0"
    "metric_Direction (rq_Primary ex_offline_request) = HigherIsBetter"
    by (simp_all add: p(2) toMetric_def ex_gate_metric_def)
  show "rq_Guardrails ex_offline_request = []" "rq_MissingPolicy ex_offline_request = zero_MissingnessPolicy"
    "rq_Design ex_offline_request = DesignOther []"
    by (auto simp: ex_offline_request_def buildRequest_def ex_offline_def Let_def split: prod.splits)
  show "rq_Missing ex_offline_request = \<lparr> mi_Attempted = 30, mi_BothScored = 30, mi_CandidateOnlyFailed = 0,
     mi_IncumbentOnlyFailed = 0, mi_BothFailed = 0 \<rparr>"
    using p(1) ex_scores_paired(1)
    by (auto simp: ex_offline_request_def buildRequest_def Let_def ex_scores_missing split: prod.splits)
  have pv: "List.map_filter (paired_value ''ok'') (rq_Observations ex_offline_request) =
      map (\<lambda>p. (1, 1, pair_Item p)) (fst (Pairs ex_scores ''ok''))"
    unfolding ex_offline_request_def buildRequest_simps p(1)
    by (rule ex_pair_values) (rule ex_scores_paired(2))
  have "Request_Values ex_offline_request ''ok'' = (replicate 30 1, replicate 30 1, map pair_Item (fst (Pairs ex_scores ''ok'')))"
    by (simp add: Request_Values_def pv comp_def map_replicate_const ex_scores_paired(1))
  note v = this
  show "fst (Request_Values ex_offline_request ''ok'') = replicate 30 1"
    "fst (snd (Request_Values ex_offline_request ''ok'')) = replicate 30 1"
    by (simp_all only: v fst_conv snd_conv)
qed

lemma ex_offline_valid: "Request_Validate ex_offline_request = Inr ()"
proof -
  have "map obs_Item (rq_Observations ex_offline_request) = map pair_Item (fst (Pairs ex_scores ''ok''))"
    by (simp add: ex_offline_request_def ex_offline_def ex_gate_metric_def comp_def)
  moreover have "rq_Observations ex_offline_request \<noteq> []"
    using calculation ex_scores_paired(1) by (metis length_map list.size(3) zero_neq_numeral)
  ultimately show ?thesis
    by (subst Request_Validate_paired)
       (simp_all add: distinct_Pairs_items zero_f64_def one_f64_def less_eq_f64_def feq_def)
qed

lemma ex_offline_verdict:
  "\<exists>v. buildAnalyzer ex_controller \<lparr> as_Endpoint = [], as_TimeoutSeconds = 0 \<rparr> ex_offline_request x = (Inr v, x) \<and>
     vd_Outcome v = OutcomePromote"
proof -
  obtain items where v: "Request_Values ex_offline_request ''ok'' = (replicate 30 1, replicate 30 1, items)"
    by (metis ex_offline_request_simps(10,11) prod.collapse)
  have m: "mc_Pass (CheckMissingness zero_math (rq_Missing ex_offline_request) zero_MissingnessPolicy (primary_alpha ex_offline_request))"
    by (rule CheckMissingness_nothing_lost)
       (simp_all add: primary_alpha_def DefaultAlpha_le_1 zero_f64_def)
  show ?thesis
    using m
    by (simp add: buildAnalyzer_def PairedBootstrap_Analyze_def ex_offline_valid bootstrap_metric_def v Let_def
        ex_controller_def ex_reconciler_def decide_promote_iff threshold_def worst_replicate BootstrapFloor_def
        zero_f64_def one_f64_def del: replicate.simps)
qed

lemma ex_offline_run:
  "\<exists>result. RunOfflineReplay ex_offline_runner ex_offline (ex_manifest ''d1'') (ex_manifest ''d2'') x =
      ((Some result, None), x) \<and> vd_Outcome (sr_Verdict result) = OutcomePromote"
proof -
  obtain acc where a: "replay_sessions ex_offline_runner (ex_manifest ''d1'') (ex_manifest ''d2'')
      (map ex_item [0..<30]) no_replays x = (Inr acc, x)" "rs_refs acc \<noteq> []"
    using ex_offline_replays [of "''d1''" "''d2''" "map ex_item [0..<30]" no_replays x] by auto
  obtain v where v: "buildAnalyzer ex_controller \<lparr> as_Endpoint = [], as_TimeoutSeconds = 0 \<rparr> ex_offline_request x = (Inr v, x)"
    "vd_Outcome v = OutcomePromote"
    using ex_offline_verdict by blast
  have j: "jc_Pass (CheckJudges (ex_manifest ''d1'') (ex_manifest ''d2'') (stage_floor ex_offline))"
    by (simp add: CheckJudges_def ex_manifest_def Let_def)
  have s: "selectSessions ex_offline_runner ex_offline (ex_manifest ''d1'') x = (Inr (map ex_item [0..<30]), x)"
    by (simp add: selectSessions_def ex_offline_def)
  have r: "rn_Now ex_offline_runner x = (7 * second + 5, x)" "rn_Score ex_offline_runner refs x = (Inr ex_scores, x)"
    "rn_Analyze ex_offline_runner = buildAnalyzer ex_controller \<lparr> as_Endpoint = [], as_TimeoutSeconds = 0 \<rparr>" for refs
    by (simp_all add: ex_offline_runner_def stage_runner_def ex_controller_def ex_reconciler_def)
  obtain dropped where b: "buildRequest ex_offline (ex_manifest ''d1'') (ex_manifest ''d2'') ex_scores 30 = (ex_offline_request, dropped)"
    by (metis ex_offline_request_def prod.collapse)
  show ?thesis
    using a v j by (simp add: RunOfflineReplay_def r s score_and_analyze_def ex_scores_valid b Let_def new_StageResult_def)
qed

theorem offline_promotion_end_to_end_witness:
  "\<exists>items. distinct items \<and> 30 \<le> length items \<and>
     (\<forall>item \<in> set items. measured ex_scores ''ok'' item ''incumbent'' \<and> measured ex_scores ''ok'' item ''candidate'')"
proof -
  obtain result where "RunOfflineReplay ex_offline_runner ex_offline (ex_manifest ''d1'') (ex_manifest ''d2'') (ex_live_route None None)
      = ((Some result, None), ex_live_route None None)" "vd_Outcome (sr_Verdict result) = OutcomePromote"
    using ex_offline_run by blast
  from offline_promotion_end_to_end [OF _ this [unfolded ex_offline_runner_def]]
  show ?thesis by (auto simp: ex_offline_def ex_gate_metric_def)
qed

text \<open>
  C8. A canary whose candidate was never measured is promoted.  Take a live stage with the built-in
  analyzer, no guardrails and a significance level that is not above one (or none, for the default),
  inside its budget and past its observation window, if it has them, with no write-activity source or
  with one whose finding does not roll the stage back.  Let the scorer return at least one scored
  result, none of them a measurement of the primary metric for the candidate (there is no candidate
  session, or every one of them failed to score, or none carried the metric), and no item under both
  arms, as is the rule where each session is served by one arm.  Then the step promotes, on a verdict
  over zero paired or measured candidate sessions.
\<close>

theorem unmeasured_canary_is_promoted:
  assumes "stage_Mode st = StageLive" and "gate_Guardrails (stage_Gate st) = []"
    and "gm_Metric (gate_Primary (stage_Gate st)) \<noteq> []"
    and "\<forall>a. gm_Alpha (gate_Primary (stage_Gate st)) = Some a \<longrightarrow> \<not> 1 < a"
    and "\<forall>window. stage_MinObservationWindow st = Some window \<longrightarrow> window \<le> time_Sub now started"
    and "\<not> over_budget st now started"
    and "lr_Analyze L = buildLiveAnalyzer R \<lparr> as_Endpoint = [], as_TimeoutSeconds = n \<rparr>"
    and "lr_Now L w = (now, w0)" and "rt_Split (lr_Router L) (targetFor ro st) w0 = (Inr split, w1)"
    and "writes_cleared L ro inc cand started w1 finding w2"
    and "lr_Observations L (Agent inc) (BehaviorDigest inc) (BehaviorDigest cand) started w2 =
      (Inr (observationsFrom results attempted), w3)"
    and "\<forall>r \<in> set results. res_Arm r = ''candidate'' \<longrightarrow> Scored r \<longrightarrow>
      map_of (res_Metrics r) (gm_Metric (gate_Primary (stage_Gate st))) = None"
    and "\<forall>r \<in> set results. \<forall>r' \<in> set results. res_Item r = res_Item r' \<longrightarrow>
      \<not> (res_Arm r = ''incumbent'' \<and> res_Arm r' = ''candidate'')"
    and "\<exists>r \<in> set results. Scored r"
  shows "\<exists>s w'. Advance L ro st inc cand started w = (Inr s, w') \<and> step_Outcome s = StepPromote \<and>
    vd_N (step_Verdict s) = 0"
proof -
  obtain obs missing where o': "observationsFrom results attempted = (obs, missing)" by fastforce
  have c: "\<forall>o' \<in> set obs. map_of (obs_Candidate o') (gm_Metric (gate_Primary (stage_Gate st))) = None"
    and "obs \<noteq> []"
    using fold_observe_unmeasured [OF assms(12), of "[]"] fold_observe_nonempty [of "[]" results] assms(14) o'
    by (fastforce simp: observationsFrom_def Let_def)+
  have m: "mi_CandidateOnlyFailed missing = 0" "mi_IncumbentOnlyFailed missing = 0" "mi_BothFailed missing = 0"
    using o' canary_loses_nothing [OF assms(13)] by (auto simp: observationsFrom_def Let_def)
  let ?req = "live_request st inc cand obs missing"
  let ?sq = "\<lparr> sq_Lower = 0, sq_Upper = 0 \<rparr>"
  have req: "rq_Design ?req = DesignUnpaired" "rq_Observations ?req = obs" "rq_Guardrails ?req = []"
    "rq_Missing ?req = missing" "rq_MissingPolicy ?req = zero_MissingnessPolicy"
    "metric_Name (rq_Primary ?req) = gm_Metric (gate_Primary (stage_Gate st))" "\<not> 1 < primary_alpha ?req"
    using assms(1-4) DefaultAlpha_le_1
    by (auto simp: live_request_def designFor_def toMetric_def primary_alpha_def zero_f64_def split: option.splits)
  have "\<exists>v. Sequential_Analyze (rc_Math R) (rc_Env R) ?sq ?req w3 = (Inr v, w3) \<and> vd_Outcome v = OutcomePromote \<and> vd_N v = 0"
    by (rule no_candidate_promoted) (use c \<open>obs \<noteq> []\<close> req m assms(3) in auto)
  then obtain v where v: "lr_Analyze L ?req w3 = (Inr v, w3)" "vd_Outcome v = OutcomePromote" "vd_N v = 0"
    by (auto simp: buildLiveAnalyzer_def assms(7))
  let ?s = "step_on_verdict ro st now started ((new_Step (sp_Candidate split))\<lparr>step_Activity := finding\<rparr>) v"
  have read: "step_on_observations L ro st inc cand now started ((new_Step (sp_Candidate split))\<lparr>step_Activity := finding\<rparr>) w2
      = (Inr ?s, w3)"
    using assms(11) v(1) \<open>obs \<noteq> []\<close> o' by (simp add: step_on_observations_def)
  have "Advance L ro st inc cand started w = (Inr ?s, w3)"
    by (rule Advance_cleared [OF assms(8,9,6,10) read])
  moreover have "step_Outcome ?s = StepPromote"
    using v(2) assms(5) by (simp add: step_on_verdict_promote)
  ultimately show ?thesis using v(3) by auto
qed

definition ex_scored :: Result where
  "ex_scored = \<lparr> res_Item = ''s1'', res_Arm = ''incumbent'', res_Metrics = [(''ok'', 1)], res_Metadata = [], res_Error = [] \<rparr>"

definition ex_canary_live :: "HTTPRoute LiveRunner" where
  "ex_canary_live = \<lparr> lr_Router = GatewayAPI one_object,
     lr_Analyze = buildLiveAnalyzer (ex_reconciler zero_Verdict) \<lparr> as_Endpoint = [], as_TimeoutSeconds = 0 \<rparr>,
     lr_Observations = (\<lambda>a i c since x. (Inr (observationsFrom [ex_scored, ex_scored\<lparr>res_Item := ''s2'', res_Arm := ''candidate'', res_Metrics := []\<rparr>] 2), x)), 
     lr_Activity = Some (\<lambda>a i c since x.
       (Inr (ex_activity ''incumbent'' 1, (ex_activity ''candidate'' 0)\<lparr>act_Sessions := 0\<rparr>), x)),
     lr_Now = (\<lambda>x. (7, x)) \<rparr>"

theorem unmeasured_canary_is_promoted_witness:
  "\<exists>s w'. Advance ex_canary_live (ex_rollout True []) (ex_stage ''s'' StageLive None) (ex_manifest ''d1'')
     (ex_manifest ''d2'') 0 (ex_live_route (Some 95) (Some 5)) = (Inr s, w') \<and> step_Outcome s = StepPromote \<and>
     vd_N (step_Verdict s) = 0"
proof -
  let ?st = "ex_stage ''s'' StageLive None" and ?w = "ex_live_route (Some 95) (Some 5)"
  obtain split where split: "rt_Split (lr_Router ex_canary_live) (targetFor (ex_rollout True []) ?st) ?w = (Inr split, ?w)"
    by (simp add: ex_canary_live_def GatewayAPI_def gw_Split_def one_object_def targetFor_def ex_stage_def ex_rollout_def
        target_key_def gw_read_def ex_live_route_def)
  have cleared: "writes_cleared ex_canary_live (ex_rollout True []) (ex_manifest ''d1'') (ex_manifest ''d2'') 0 ?w
      (Some (CompareActivity (ex_activity ''incumbent'' 1) ((ex_activity ''candidate'' 0)\<lparr>act_Sessions := 0\<rparr>))) ?w"
    by (simp add: writes_cleared_def ex_canary_live_def CompareActivity_Violated)
  show ?thesis
    by (rule unmeasured_canary_is_promoted [OF _ _ _ _ _ _ _ _ split cleared,
          where results = "[ex_scored, ex_scored\<lparr>res_Item := ''s2'', res_Arm := ''candidate'', res_Metrics := []\<rparr>]"
            and attempted = 2 and R = "ex_reconciler zero_Verdict" and n = 0])
       (simp_all add: ex_stage_def ex_gate_metric_def ex_canary_live_def ex_scored_def Scored_def over_budget_def
          buildLiveAnalyzer_def)
qed

end
